(* ===== verification/Prelude.thy ===== *)
theory Prelude
  imports Main "HOL-Library.Word" "HOL-Library.Multiset"
begin

text \<open>
  Shared vocabulary of the development: the result type of every operation that can raise
  (\<open>'e + 'a\<close>, with \<open>Inl\<close> for the raised exception), its sequencing operator, and the small
  library on lists that the table and string models use. The named collections \<open>result_simps\<close>
  and \<open>step_simps\<close> gather the facts the component proofs unfold with.
\<close>

named_theorems result_simps "sequencing and inversion of results"
named_theorems step_simps "one-step behaviour of the component operations"

section \<open>Results\<close>

text \<open>\<open>bindE m f\<close> runs \<open>m\<close>; a raised exception skips the rest, as in Python.\<close>

definition bindE :: "'e + 'a \<Rightarrow> ('a \<Rightarrow> 'e + 'b) \<Rightarrow> 'e + 'b" where
  "bindE m f = (case m of Inl e \<Rightarrow> Inl e | Inr x \<Rightarrow> f x)"

text \<open>\<open>raise_unless c e\<close> is \<open>if not c: raise e\<close>.\<close>

definition raise_unless :: "bool \<Rightarrow> 'e \<Rightarrow> 'e + unit" where
  "raise_unless c e = (if c then Inr () else Inl e)"

text \<open>\<open>mapE f m\<close> re-raises with a translated exception (\<open>raise ... from exc\<close>).\<close>

definition mapE :: "('e \<Rightarrow> 'd) \<Rightarrow> 'e + 'a \<Rightarrow> 'd + 'a" where
  "mapE f m = (case m of Inl e \<Rightarrow> Inl (f e) | Inr x \<Rightarrow> Inr x)"

text \<open>A loop over a list whose body may raise: stops at the first exception.\<close>

fun traverseE :: "('a \<Rightarrow> 'e + 'b) \<Rightarrow> 'a list \<Rightarrow> 'e + 'b list" where
  "traverseE f [] = Inr []"
| "traverseE f (x # xs) = bindE (f x) (\<lambda>y. bindE (traverseE f xs) (\<lambda>ys. Inr (y # ys)))"

definition is_ok :: "'e + 'a \<Rightarrow> bool" where
  "is_ok m = (case m of Inl _ \<Rightarrow> False | Inr _ \<Rightarrow> True)"

lemma bindE_Inl [simp, result_simps]: "bindE (Inl e) f = Inl e"
  by (simp add: bindE_def)

lemma bindE_Inr [simp, result_simps]: "bindE (Inr x) f = f x"
  by (simp add: bindE_def)

lemma bindE_eq_Inr [result_simps]: "bindE m f = Inr y \<longleftrightarrow> (\<exists>x. m = Inr x \<and> f x = Inr y)"
  by (cases m) auto

lemma bindE_eq_Inl [result_simps]:
  "bindE m f = Inl e \<longleftrightarrow> m = Inl e \<or> (\<exists>x. m = Inr x \<and> f x = Inl e)"
  by (cases m) auto

lemma raise_unless_eq_Inr [simp, result_simps]: "raise_unless c e = Inr u \<longleftrightarrow> c"
  by (simp add: raise_unless_def)

lemma raise_unless_eq_Inl [simp, result_simps]: "raise_unless c e = Inl d \<longleftrightarrow> \<not> c \<and> d = e"
  by (auto simp: raise_unless_def)

lemma raise_unless_True [simp]: "raise_unless True e = Inr ()"
  by (simp add: raise_unless_def)

lemma raise_unless_False [simp]: "raise_unless False e = Inl e"
  by (simp add: raise_unless_def)

lemma mapE_Inl [simp]: "mapE f (Inl e) = Inl (f e)"
  by (simp add: mapE_def)

lemma mapE_Inr [simp]: "mapE f (Inr x) = Inr x"
  by (simp add: mapE_def)

lemma mapE_eq_Inr [simp, result_simps]: "mapE f m = Inr x \<longleftrightarrow> m = Inr x"
  by (cases m) auto

lemma mapE_eq_Inl [result_simps]: "mapE f m = Inl d \<longleftrightarrow> (\<exists>e. m = Inl e \<and> d = f e)"
  by (cases m) auto

lemma is_ok_Inl [simp]: "\<not> is_ok (Inl e)"
  by (simp add: is_ok_def)

lemma is_ok_Inr [simp]: "is_ok (Inr x)"
  by (simp add: is_ok_def)

lemma is_ok_iff: "is_ok m \<longleftrightarrow> (\<exists>x. m = Inr x)"
  by (cases m) auto

lemma traverseE_length: "traverseE f xs = Inr ys \<Longrightarrow> length ys = length xs"
  by (induction xs arbitrary: ys) (auto simp: result_simps)

lemma traverseE_eq_map:
  assumes "\<And>x. x \<in> set xs \<Longrightarrow> f x = Inr (g x)"
  shows "traverseE f xs = Inr (map g xs)"
  using assms by (induction xs) auto

lemma traverseE_append:
  "traverseE f (xs @ ys) = bindE (traverseE f xs) (\<lambda>us. bindE (traverseE f ys) (\<lambda>vs. Inr (us @ vs)))"
proof (induction xs)
  case Nil
  show ?case by (cases "traverseE f ys") simp_all
next
  case (Cons x xs)
  show ?case
    by (cases "f x"; cases "traverseE f xs"; cases "traverseE f ys") (simp_all add: Cons)
qed

lemma traverseE_nth:
  "traverseE f xs = Inr ys \<Longrightarrow> i < length xs \<Longrightarrow> f (xs ! i) = Inr (ys ! i)"
  by (induction xs arbitrary: ys i) (auto simp: bindE_eq_Inr nth_Cons split: nat.splits)

lemma traverseE_take: "traverseE f xs = Inr ys \<Longrightarrow> traverseE f (take n xs) = Inr (take n ys)"
proof (induction xs arbitrary: ys n)
  case (Cons x xs)
  then show ?case by (cases n) (auto simp: bindE_eq_Inr)
qed simp

lemma traverseE_drop: "traverseE f xs = Inr ys \<Longrightarrow> traverseE f (drop n xs) = Inr (drop n ys)"
proof (induction n arbitrary: xs ys)
  case (Suc n)
  then show ?case by (cases xs) (auto simp: bindE_eq_Inr)
qed simp

lemma traverseE_mem: "traverseE f xs = Inr ys \<Longrightarrow> y \<in> set ys \<Longrightarrow> \<exists>x \<in> set xs. f x = Inr y"
  by (induction xs arbitrary: ys) (auto simp: bindE_eq_Inr)

lemma traverseE_source: "traverseE f xs = Inr ys \<Longrightarrow> x \<in> set xs \<Longrightarrow> \<exists>y \<in> set ys. f x = Inr y"
  by (induction xs arbitrary: ys) (auto simp: bindE_eq_Inr)

lemma bindE_assoc: "bindE (bindE m f) g = bindE m (\<lambda>x. bindE (f x) g)"
  by (cases m) simp_all

lemma traverseE_list_all2: "traverseE f xs = Inr ys \<Longrightarrow> list_all2 (\<lambda>x y. f x = Inr y) xs ys"
  by (induction xs arbitrary: ys) (auto simp: bindE_eq_Inr)

lemma list_all2_eq_map: "list_all2 (\<lambda>x y. y = g x) xs ys \<Longrightarrow> ys = map g xs"
  by (induction xs ys rule: list_all2_induct) auto

text \<open>
  Actions that span several transactions: an exception keeps the state the finished ones left.
\<close>

type_synonym ('s, 'e, 'a) action = "'s \<Rightarrow> ('e + 'a) \<times> 's"

definition returnS :: "'a \<Rightarrow> ('s, 'e, 'a) action" where
  "returnS x s = (Inr x, s)"

definition raiseS :: "'e \<Rightarrow> ('s, 'e, 'a) action" where
  "raiseS e s = (Inl e, s)"

definition bindS :: "('s, 'e, 'a) action \<Rightarrow> ('a \<Rightarrow> ('s, 'e, 'b) action) \<Rightarrow> ('s, 'e, 'b) action" where
  "bindS m f s = (case m s of (Inl e, s') \<Rightarrow> (Inl e, s') | (Inr x, s') \<Rightarrow> f x s')"

definition liftS :: "'e + 'a \<Rightarrow> ('s, 'e, 'a) action" where
  "liftS r s = (r, s)"

lemma bindS_Inr [result_simps]:
  "bindS m f s = (Inr y, s') \<longleftrightarrow> (\<exists>x s1. m s = (Inr x, s1) \<and> f x s1 = (Inr y, s'))"
  by (auto simp: bindS_def split: prod.splits sum.splits)

text \<open>A predicate that an action keeps, whatever it returns or raises.\<close>

definition keeps :: "('s \<Rightarrow> bool) \<Rightarrow> ('s, 'e, 'a) action \<Rightarrow> bool" where
  "keeps p m \<longleftrightarrow> (\<forall>s. p s \<longrightarrow> p (snd (m s)))"

lemma keepsD: "keeps p m \<Longrightarrow> p s \<Longrightarrow> m s = (r, s') \<Longrightarrow> p s'"
  by (auto simp: keeps_def dest: spec [of _ s])

lemma keeps_returnS [simp]: "keeps p (returnS x)"
  by (simp add: keeps_def returnS_def)

lemma keeps_raiseS [simp]: "keeps p (raiseS e)"
  by (simp add: keeps_def raiseS_def)

lemma keeps_liftS [simp]: "keeps p (liftS r)"
  by (simp add: keeps_def liftS_def)

lemma keeps_bindS: "keeps p m \<Longrightarrow> (\<And>x. keeps p (f x)) \<Longrightarrow> keeps p (bindS m f)"
  by (fastforce simp: keeps_def bindS_def split: prod.splits sum.splits)

section \<open>Lists\<close>

text \<open>
  \<open>insert_by le x xs\<close> inserts before the first element that is not smaller; \<open>sort_by le\<close> is the
  stable insertion sort that models \<open>ORDER BY\<close>.
\<close>

fun insert_by :: "('a \<Rightarrow> 'a \<Rightarrow> bool) \<Rightarrow> 'a \<Rightarrow> 'a list \<Rightarrow> 'a list" where
  "insert_by le x [] = [x]"
| "insert_by le x (y # ys) = (if le x y then x # y # ys else y # insert_by le x ys)"

definition sort_by :: "('a \<Rightarrow> 'a \<Rightarrow> bool) \<Rightarrow> 'a list \<Rightarrow> 'a list" where
  "sort_by le xs = foldr (insert_by le) xs []"

text \<open>The first row a predicate selects (\<open>one_or_none\<close> on a unique key).\<close>

definition find_row :: "('a \<Rightarrow> bool) \<Rightarrow> 'a list \<Rightarrow> 'a option" where
  "find_row p xs = List.find p xs"

lemma mset_insert_by [simp]: "mset (insert_by le x xs) = add_mset x (mset xs)"
  by (induction xs) auto

lemma set_insert_by [simp]: "set (insert_by le x xs) = insert x (set xs)"
  by (induction xs) auto

lemma sort_by_Nil [simp]: "sort_by le [] = []"
  by (simp add: sort_by_def)

lemma sort_by_Cons: "sort_by le (x # xs) = insert_by le x (sort_by le xs)"
  by (simp add: sort_by_def)

lemma mset_sort_by [simp]: "mset (sort_by le xs) = mset xs"
  by (induction xs) (simp_all add: sort_by_Cons)

lemma set_sort_by [simp]: "set (sort_by le xs) = set xs"
  using mset_sort_by by (metis set_mset_mset)

lemma length_sort_by [simp]: "length (sort_by le xs) = length xs"
  using mset_sort_by by (metis size_mset)

lemma distinct_sort_by [simp]: "distinct (sort_by le xs) = distinct xs"
  by (metis mset_sort_by mset_eq_imp_distinct_iff)

lemma sorted_wrt_insert_by:
  assumes total: "\<And>a b. le a b \<or> le b a" and trans: "\<And>a b c. le a b \<Longrightarrow> le b c \<Longrightarrow> le a c"
    and "sorted_wrt le xs"
  shows "sorted_wrt le (insert_by le x xs)"
  using \<open>sorted_wrt le xs\<close>
proof (induction xs)
  case Nil
  show ?case by simp
next
  case (Cons y ys)
  show ?case
  proof (cases "le x y")
    case True
    with Cons.prems show ?thesis by (auto intro: trans)
  next
    case False
    with total [of x y] have "le y x" by blast
    with Cons False show ?thesis by auto
  qed
qed

lemma sorted_wrt_sort_by:
  assumes "\<And>a b. le a b \<or> le b a" and "\<And>a b c. le a b \<Longrightarrow> le b c \<Longrightarrow> le a c"
  shows "sorted_wrt le (sort_by le xs)"
  by (induction xs) (simp_all add: sort_by_Cons sorted_wrt_insert_by assms)

text \<open>An antisymmetric order has one sorted arrangement of a list.\<close>

lemma sorted_wrt_unique:
  assumes "sorted_wrt le ys" "sorted_wrt le zs" "mset ys = mset zs"
    and "\<And>a b. a \<in> set ys \<Longrightarrow> b \<in> set ys \<Longrightarrow> le a b \<Longrightarrow> le b a \<Longrightarrow> a = b"
  shows "ys = zs"
  using assms
proof (induction ys arbitrary: zs)
  case Nil
  then show ?case by simp
next
  case (Cons y ys)
  then obtain z zs' where zs: "zs = z # zs'" by (cases zs) auto
  have sets: "set (y # ys) = set zs" using Cons.prems(3) by (metis mset_eq_setD)
  have "y = z"
  proof (rule ccontr)
    assume "y \<noteq> z"
    with sets zs have "z \<in> set ys" "y \<in> set zs'" by auto
    with Cons.prems(1,2) zs have "le y z" "le z y" by auto
    with Cons.prems(4) \<open>z \<in> set ys\<close> \<open>y \<noteq> z\<close> show False by auto
  qed
  with Cons zs show ?case by auto
qed

lemma sort_by_filter:
  assumes "\<And>a b. le a b \<or> le b a" and "\<And>a b c. le a b \<Longrightarrow> le b c \<Longrightarrow> le a c"
    and "\<And>a b. a \<in> set xs \<Longrightarrow> b \<in> set xs \<Longrightarrow> le a b \<Longrightarrow> le b a \<Longrightarrow> a = b"
  shows "sort_by le (filter p xs) = filter p (sort_by le xs)"
proof (rule sorted_wrt_unique [of le])
  show "sorted_wrt le (sort_by le (filter p xs))" by (rule sorted_wrt_sort_by [OF assms(1,2)])
  show "sorted_wrt le (filter p (sort_by le xs))"
    by (rule sorted_wrt_filter [OF sorted_wrt_sort_by [OF assms(1,2)]])
  show "mset (sort_by le (filter p xs)) = mset (filter p (sort_by le xs))" by (simp add: mset_filter)
  show "a = b" if "a \<in> set (sort_by le (filter p xs))" "b \<in> set (sort_by le (filter p xs))" "le a b" "le b a"
    for a b using that assms(3) by simp
qed

lemma find_row_Some: "find_row p xs = Some x \<Longrightarrow> x \<in> set xs \<and> p x"
  by (auto simp: find_row_def find_Some_iff in_set_conv_nth)

lemma find_row_None [simp]: "find_row p xs = None \<longleftrightarrow> (\<forall>x \<in> set xs. \<not> p x)"
  by (auto simp: find_row_def find_None_iff)

lemma find_row_Nil [simp]: "find_row p [] = None"
  by (simp add: find_row_def)

lemma find_row_Cons [simp]: "find_row p (x # xs) = (if p x then Some x else find_row p xs)"
  by (simp add: find_row_def)

lemma find_row_append:
  "find_row p (xs @ ys) = (case find_row p xs of None \<Rightarrow> find_row p ys | Some x \<Rightarrow> Some x)"
  by (induction xs) auto

text \<open>A unique key determines the row a selection returns.\<close>

lemma find_row_unique:
  assumes "x \<in> set xs" "p x" and "\<And>y. y \<in> set xs \<Longrightarrow> p y \<Longrightarrow> y = x"
  shows "find_row p xs = Some x"
proof -
  from assms(1,2) obtain y where y: "find_row p xs = Some y"
    by (cases "find_row p xs") auto
  from find_row_Some [OF y] assms(3) have "y = x" by blast
  with y show ?thesis by simp
qed

lemma distinct_map_eqD:
  "distinct (map f xs) \<Longrightarrow> x \<in> set xs \<Longrightarrow> y \<in> set xs \<Longrightarrow> f x = f y \<Longrightarrow> x = y"
  by (auto simp: distinct_map inj_on_def)

lemma in_map_filter: "y \<in> set (List.map_filter f xs) \<longleftrightarrow> (\<exists>x \<in> set xs. f x = Some y)"
  by (induction xs) (auto simp: List.map_filter_simps split: option.splits)

lemma list_all_filter: "list_all p (filter p xs)"
  by (simp add: list_all_iff)

lemma sorted_wrt_take: "sorted_wrt r xs \<Longrightarrow> sorted_wrt r (take n xs)"
  by (metis append_take_drop_id sorted_wrt_append)

lemma sorted_wrt_take_drop:
  "sorted_wrt r xs \<Longrightarrow> x \<in> set (take n xs) \<Longrightarrow> y \<in> set (drop n xs) \<Longrightarrow> r x y"
  by (metis append_take_drop_id sorted_wrt_append)

end
