(* ===== verification/Py_Text.thy ===== *)
theory Py_Text
  imports Prelude
begin

text \<open>
  The part of Python's \<open>str\<close> and \<open>int\<close> the program uses. A Python string is modelled as a list of
  characters, one per code point; the model covers the code points below 256 (a \<open>char\<close> is one of
  them), and every classification below is Python's on that range: \<open>py_space\<close> is
  \<open>str.isspace\<close> (also \<open>re\<close>'s \<open>\s\<close> and the set \<open>str.strip\<close> removes), \<open>py_word\<close> is \<open>re\<close>'s \<open>\w\<close>,
  \<open>line_break\<close> the set \<open>str.splitlines\<close> cuts at.
\<close>

section \<open>Characters\<close>

definition py_space :: "char \<Rightarrow> bool" where
  "py_space c = (let n = (of_char c :: nat) in
     (9 \<le> n \<and> n \<le> 13) \<or> (28 \<le> n \<and> n \<le> 32) \<or> n = 133 \<or> n = 160)"

definition ascii_digit :: "char \<Rightarrow> bool" where
  "ascii_digit c = (let n = (of_char c :: nat) in 48 \<le> n \<and> n \<le> 57)"

definition ascii_lower :: "char \<Rightarrow> bool" where
  "ascii_lower c = (let n = (of_char c :: nat) in 97 \<le> n \<and> n \<le> 122)"

definition ascii_upper :: "char \<Rightarrow> bool" where
  "ascii_upper c = (let n = (of_char c :: nat) in 65 \<le> n \<and> n \<le> 90)"

text \<open>\<open>\w\<close>: alphanumeric in Unicode's sense, or an underscore.\<close>

definition py_word :: "char \<Rightarrow> bool" where
  "py_word c = (let n = (of_char c :: nat) in
     ascii_digit c \<or> ascii_lower c \<or> ascii_upper c \<or> n = 95 \<or>
     n = 170 \<or> n = 178 \<or> n = 179 \<or> n = 181 \<or> n = 185 \<or> n = 186 \<or>
     (188 \<le> n \<and> n \<le> 190) \<or> (192 \<le> n \<and> n \<noteq> 215 \<and> n \<noteq> 247))"

text \<open>Simple case mapping: \<open>str.lower\<close> on the modelled range.\<close>

definition lower_char :: "char \<Rightarrow> char" where
  "lower_char c = (let n = (of_char c :: nat) in
     if (65 \<le> n \<and> n \<le> 90) \<or> (192 \<le> n \<and> n \<le> 222 \<and> n \<noteq> 215) then char_of (n + 32) else c)"

definition str_lower :: "string \<Rightarrow> string" where
  "str_lower s = map lower_char s"

text \<open>The boundaries of \<open>str.splitlines\<close> (\<open>\r\n\<close> counts as one).\<close>

definition line_break :: "char \<Rightarrow> bool" where
  "line_break c = (let n = (of_char c :: nat) in
     (10 \<le> n \<and> n \<le> 13) \<or> (28 \<le> n \<and> n \<le> 30) \<or> n = 133)"

section \<open>Stripping, prefixes, replacement\<close>

definition lstrip :: "string \<Rightarrow> string" where
  "lstrip s = dropWhile py_space s"

definition rstrip_of :: "(char \<Rightarrow> bool) \<Rightarrow> string \<Rightarrow> string" where
  "rstrip_of p s = rev (dropWhile p (rev s))"

definition strip_of :: "(char \<Rightarrow> bool) \<Rightarrow> string \<Rightarrow> string" where
  "strip_of p s = rstrip_of p (dropWhile p s)"

definition strip :: "string \<Rightarrow> string" where
  "strip s = strip_of py_space s"

text \<open>\<open>if not s.strip()\<close> is \<open>blank s\<close>.\<close>

definition blank :: "string \<Rightarrow> bool" where
  "blank s = list_all py_space s"

definition startswith :: "string \<Rightarrow> string \<Rightarrow> bool" where
  "startswith s p = (take (length p) s = p)"

definition endswith :: "string \<Rightarrow> string \<Rightarrow> bool" where
  "endswith s p = (length p \<le> length s \<and> drop (length s - length p) s = p)"

fun replace_all :: "string \<Rightarrow> string \<Rightarrow> string \<Rightarrow> string" where
  "replace_all old new [] = []"
| "replace_all old new (c # cs) =
     (if old \<noteq> [] \<and> startswith (c # cs) old
      then new @ replace_all old new (drop (length old - 1) cs)
      else c # replace_all old new cs)"

text \<open>\<open>s.splitlines(keepends=True)\<close>.\<close>

fun splitlines_keep :: "string \<Rightarrow> string list" where
  "splitlines_keep [] = []"
| "splitlines_keep (c # cs) =
     (if c = CHR 0x0D \<and> cs \<noteq> [] \<and> hd cs = CHR 0x0A
      then [c, hd cs] # splitlines_keep (tl cs)
      else if line_break c then [c] # splitlines_keep cs
      else (case splitlines_keep cs of
              [] \<Rightarrow> [[c]]
            | l # ls \<Rightarrow> (c # l) # ls))"

text \<open>\<open>s.splitlines()\<close>: each line without its terminator.\<close>

definition drop_line_end :: "string \<Rightarrow> string" where
  "drop_line_end l =
     (if endswith l [CHR 0x0D, CHR 0x0A] then take (length l - 2) l
      else if l \<noteq> [] \<and> line_break (last l) then butlast l else l)"

definition splitlines :: "string \<Rightarrow> string list" where
  "splitlines s = map drop_line_end (splitlines_keep s)"

text \<open>\<open>s.split()\<close>: the maximal runs of non-space characters.\<close>

function split_ws :: "string \<Rightarrow> string list" where
  "split_ws s = (let t = dropWhile py_space s in
     if t = [] then []
     else takeWhile (\<lambda>c. \<not> py_space c) t # split_ws (dropWhile (\<lambda>c. \<not> py_space c) t))"
  by pat_completeness auto
termination
proof (relation "measure length", simp, goal_cases)
  case (1 s t)
  let ?t = "dropWhile py_space s"
  from 1 have ne: "?t \<noteq> []" by simp
  then have "\<not> py_space (hd ?t)" by (rule hd_dropWhile)
  then have "takeWhile (\<lambda>c. \<not> py_space c) ?t \<noteq> []"
    using ne by (cases ?t) auto
  then have "length (dropWhile (\<lambda>c. \<not> py_space c) ?t) < length ?t"
    by (metis length_append length_greater_0_conv less_add_same_cancel2 takeWhile_dropWhile_id)
  also have "\<dots> \<le> length s" by (rule length_dropWhile_le)
  finally show ?case using 1 by simp
qed

declare split_ws.simps [simp del]

section \<open>Numerals\<close>

definition hex_value :: "char \<Rightarrow> nat option" where
  "hex_value c = (let n = (of_char c :: nat) in
     if 48 \<le> n \<and> n \<le> 57 then Some (n - 48)
     else if 97 \<le> n \<and> n \<le> 102 then Some (n - 87)
     else if 65 \<le> n \<and> n \<le> 70 then Some (n - 55)
     else None)"

definition digit_value :: "nat \<Rightarrow> char \<Rightarrow> nat option" where
  "digit_value base c = (case hex_value c of None \<Rightarrow> None | Some v \<Rightarrow> if v < base then Some v else None)"

text \<open>
  The digits of an \<open>int\<close> literal: single underscores may separate digits. \<open>after_digit\<close> says
  whether the previous character was a digit.
\<close>

fun int_digits :: "nat \<Rightarrow> bool \<Rightarrow> nat \<Rightarrow> string \<Rightarrow> nat option" where
  "int_digits base after_digit acc [] = (if after_digit then Some acc else None)"
| "int_digits base after_digit acc (c # cs) =
     (if c = CHR ''_'' then (if after_digit then int_digits base False acc cs else None)
      else case digit_value base c of
             None \<Rightarrow> None
           | Some v \<Rightarrow> int_digits base True (acc * base + v) cs)"

definition split_sign :: "string \<Rightarrow> bool \<times> string" where
  "split_sign s = (case s of
     [] \<Rightarrow> (False, [])
   | c # cs \<Rightarrow> if c = CHR ''-'' then (True, cs) else if c = CHR ''+'' then (False, cs) else (False, s))"

definition signed :: "bool \<Rightarrow> nat \<Rightarrow> int" where
  "signed neg n = (if neg then - int n else int n)"

text \<open>
  \<open>int(s)\<close> and \<open>int(s, 16)\<close>; \<open>None\<close> is the \<open>ValueError\<close>. Base 10 refuses more than 4300 digits
  (CPython's default \<open>int_max_str_digits\<close>); base 16 accepts a \<open>0x\<close> prefix.
\<close>

definition max_str_digits :: nat where
  "max_str_digits = 4300"

definition py_int :: "string \<Rightarrow> int option" where
  "py_int s = (let (neg, body) = split_sign (strip s) in
     if max_str_digits < length (filter (\<lambda>c. c \<noteq> CHR ''_'') body) then None
     else map_option (signed neg) (int_digits 10 False 0 body))"

definition py_int16 :: "string \<Rightarrow> int option" where
  "py_int16 s = (let (neg, body) = split_sign (strip s);
     digits = (if startswith (str_lower body) ''0x''
               then (if startswith (drop 2 body) ''_'' then drop 3 body else drop 2 body)
               else body)
     in map_option (signed neg) (int_digits 16 False 0 digits))"

definition hex_digit :: "nat \<Rightarrow> char" where
  "hex_digit d = (if d < 10 then char_of (48 + d) else char_of (87 + d))"

text \<open>\<open>k\<close> lower-case hexadecimal digits of \<open>n\<close>, most significant first.\<close>

fun hex_pad :: "nat \<Rightarrow> nat \<Rightarrow> string" where
  "hex_pad 0 n = []"
| "hex_pad (Suc k) n = hex_pad k (n div 16) @ [hex_digit (n mod 16)]"

fun dec_nat :: "nat \<Rightarrow> string" where
  "dec_nat n = (if n < 10 then [char_of (48 + n)] else dec_nat (n div 10) @ [char_of (48 + n mod 10)])"

declare dec_nat.simps [simp del]

definition dec_int :: "int \<Rightarrow> string" where
  "dec_int i = (if i < 0 then CHR ''-'' # dec_nat (nat (- i)) else dec_nat (nat i))"

definition is_lower_hex :: "char \<Rightarrow> bool" where
  "is_lower_hex c = (ascii_digit c \<or> (let n = (of_char c :: nat) in 97 \<le> n \<and> n \<le> 102))"

text \<open>Number of bytes of \<open>s.encode("utf-8")\<close> on the modelled code points.\<close>

definition utf8_length :: "string \<Rightarrow> nat" where
  "utf8_length s = sum_list (map (\<lambda>c. if (of_char c :: nat) < 128 then 1 else 2) s)"

text \<open>Code-point order of strings (what \<open>sort_keys\<close> and \<open>sorted\<close> compare by).\<close>

fun str_le :: "string \<Rightarrow> string \<Rightarrow> bool" where
  "str_le [] ys = True"
| "str_le (x # xs) [] = False"
| "str_le (x # xs) (y # ys) =
     ((of_char x :: nat) < of_char y \<or> (x = y \<and> str_le xs ys))"


section \<open>Facts\<close>

lemma Ball_dropWhile [simp]: "(\<forall>x \<in> set (dropWhile p xs). p x) \<longleftrightarrow> (\<forall>x \<in> set xs. p x)"
  by (induction xs) auto

lemma blank_iff_strip: "blank s \<longleftrightarrow> strip s = []"
  by (simp add: blank_def strip_def strip_of_def rstrip_of_def list_all_iff)

lemma length_strip: "length (strip s) \<le> length s"
proof -
  have "length (strip s) \<le> length (dropWhile py_space s)"
    unfolding strip_def strip_of_def rstrip_of_def
    by (metis length_dropWhile_le length_rev)
  also have "\<dots> \<le> length s" by (rule length_dropWhile_le)
  finally show ?thesis .
qed

lemma set_strip: "set (strip s) \<subseteq> set s"
  unfolding strip_def strip_of_def rstrip_of_def
  by (auto dest!: set_dropWhileD)

lemma rstrip_Cons:
  "\<not> p a \<Longrightarrow> rstrip_of p (a # xs) = a # rstrip_of p xs"
proof (cases "list_all p xs")
  case True
  assume "\<not> p a"
  moreover from True have "dropWhile p (rev xs) = []" by (simp add: list_all_iff)
  moreover from True have "dropWhile p (rev xs @ [a]) = dropWhile p [a]"
    by (intro dropWhile_append2) (simp add: list_all_iff)
  ultimately show ?thesis by (simp add: rstrip_of_def)
next
  case False
  then obtain x where "x \<in> set (rev xs)" "\<not> p x" by (auto simp: list_all_iff)
  then show ?thesis by (simp add: rstrip_of_def dropWhile_append1)
qed

lemma strip_strip [simp]: "strip (strip s) = strip s"
proof (cases "dropWhile py_space s")
  case Nil
  have "strip s = []"
    unfolding strip_def strip_of_def rstrip_of_def Nil by simp
  moreover have "strip [] = []"
    by (simp add: strip_def strip_of_def rstrip_of_def)
  ultimately show ?thesis by simp
next
  case (Cons a xs)
  then have "\<not> py_space a" by (metis hd_dropWhile list.distinct(1) list.sel(1))
  then show ?thesis
    by (simp add: strip_def strip_of_def Cons rstrip_Cons) (simp add: rstrip_of_def dropWhile_idem)
qed

lemma not_blank_strip: "\<not> blank s \<Longrightarrow> \<not> blank (strip s)"
  by (simp add: blank_iff_strip)

lemma concat_splitlines_keep [simp]: "concat (splitlines_keep s) = s"
proof (induction s rule: splitlines_keep.induct)
  case (2 c cs)
  show ?case
  proof (cases "c = CHR 0x0D \<and> cs \<noteq> [] \<and> hd cs = CHR 0x0A")
    case True
    then have "cs = CHR 0x0A # tl cs" by (cases cs) auto
    then show ?thesis using True 2(1) by simp
  next
    case False
    show ?thesis
    proof (cases "line_break c")
      case True
      with False 2(2) show ?thesis by auto
    next
      case nb: False
      with False 2(3) show ?thesis
        by (cases "splitlines_keep cs") auto
    qed
  qed
qed simp

lemma splitlines_keep_nonempty: "[] \<notin> set (splitlines_keep s)"
proof (induction s rule: splitlines_keep.induct)
  case (2 c cs)
  then show ?case
    by (cases "splitlines_keep cs") (simp_all del: char_of_eq_iff)
qed simp

lemma splitlines_keep_Nil [simp]: "splitlines_keep s = [] \<longleftrightarrow> s = []"
  by (cases s) (auto split: list.splits)

lemma length_splitlines [simp]: "length (splitlines s) = length (splitlines_keep s)"
  by (simp add: splitlines_def)

lemma hex_value_hex_digit: "d < 16 \<Longrightarrow> hex_value (hex_digit d) = Some d"
  by (simp add: hex_value_def hex_digit_def)

lemma hex_digit_not_underscore: "d < 16 \<Longrightarrow> hex_digit d \<noteq> CHR ''_''"
proof
  assume "d < 16" and "hex_digit d = CHR ''_''"
  with hex_value_hex_digit [of d] have "hex_value (CHR ''_'') = Some d" by simp
  then show False by (simp add: hex_value_def)
qed

lemma is_lower_hex_hex_digit: "d < 16 \<Longrightarrow> is_lower_hex (hex_digit d)"
  by (simp add: is_lower_hex_def hex_digit_def ascii_digit_def)

lemma length_hex_pad [simp]: "length (hex_pad k n) = k"
  by (induction k arbitrary: n) simp_all

lemma hex_pad_lower_hex: "c \<in> set (hex_pad k n) \<Longrightarrow> is_lower_hex c"
  by (induction k arbitrary: n) (auto simp: is_lower_hex_hex_digit)

lemma int_digits_append_digit:
  "v < base \<Longrightarrow> digit_value base c = Some v \<Longrightarrow> c \<noteq> CHR ''_'' \<Longrightarrow>
   int_digits base a acc (s @ [c]) =
     (case int_digits base a acc s of
        Some n \<Rightarrow> Some (n * base + v)
      | None \<Rightarrow> int_digits base a acc (s @ [c]))"
  by (induction base a acc s rule: int_digits.induct) (auto split: option.splits)

lemma int_digits_hex_pad:
  "k > 0 \<Longrightarrow> int_digits 16 a acc (hex_pad k n) = Some (acc * 16 ^ k + n mod 16 ^ k)"
proof (induction k arbitrary: n)
  case (Suc k)
  have dv: "digit_value 16 (hex_digit (n mod 16)) = Some (n mod 16)"
    by (simp add: digit_value_def hex_value_hex_digit)
  have us: "hex_digit (n mod 16) \<noteq> CHR ''_''"
    by (rule hex_digit_not_underscore) simp
  show ?case
  proof (cases "k = 0")
    case True
    with dv us show ?thesis by simp
  next
    case False
    then have ih: "int_digits 16 a acc (hex_pad k (n div 16)) =
        Some (acc * 16 ^ k + n div 16 mod 16 ^ k)"
      using Suc.IH by simp
    have "n mod 16 ^ Suc k = 16 * (n div 16 mod 16 ^ k) + n mod 16"
      by (simp add: mod_mult2_eq)
    with ih show ?thesis
      using int_digits_append_digit [OF _ dv us, of a acc "hex_pad k (n div 16)"]
      by (simp add: algebra_simps)
  qed
qed simp

lemma str_le_total: "str_le a b \<or> str_le b a"
  by (induction a b rule: str_le.induct) auto

lemma str_le_trans: "str_le a b \<Longrightarrow> str_le b c \<Longrightarrow> str_le a c"
proof (induction a b arbitrary: c rule: str_le.induct)
  case (3 x xs y ys)
  from 3(3) obtain z zs where c: "c = z # zs" by (cases c) auto
  with 3 show ?case by auto
qed simp_all

end
