(* ===== verification/Py_Data.thy ===== *)
theory Py_Data
  imports Py_Text
begin

text \<open>
  Values of the Python standard library the program computes with: \<open>uuid.UUID\<close> (a 128-bit word with
  its canonical text form and CPython's parser), \<open>datetime\<close> (wall clock in microseconds and a zone,
  since the code distinguishes naive, \<open>UTC\<close> and other zones), and the JSON values \<open>json.dumps\<close>
  renders. Random values (\<open>uuid4\<close>, \<open>secrets.token_hex\<close>) and clock readings are arguments of the
  operations that draw them.
\<close>

section \<open>UUIDs\<close>

type_synonym uuid = "128 word"

definition uuid_hex :: "uuid \<Rightarrow> string" where
  "uuid_hex u = hex_pad 32 (unat u)"

text \<open>\<open>str(uuid)\<close>\<close>

definition uuid_str :: "uuid \<Rightarrow> string" where
  "uuid_str u = (let h = uuid_hex u in
     take 8 h @ ''-'' @ take 4 (drop 8 h) @ ''-'' @ take 4 (drop 12 h) @ ''-'' @
     take 4 (drop 16 h) @ ''-'' @ drop 20 h)"

text \<open>\<open>UUID(text)\<close>; \<open>None\<close> is the \<open>ValueError\<close>.\<close>

definition uuid_parse :: "string \<Rightarrow> uuid option" where
  "uuid_parse s =
     (let t = replace_all ''uuid:'' '''' (replace_all ''urn:'' '''' s);
          h = filter (\<lambda>c. c \<noteq> CHR ''-'') (strip_of (\<lambda>c. c = CHR ''{'' \<or> c = CHR ''}'') t)
      in if length h \<noteq> 32 then None
         else case py_int16 h of
                None \<Rightarrow> None
              | Some i \<Rightarrow> if 0 \<le> i \<and> i < 2 ^ 128 then Some (of_int i) else None)"

text \<open>64 lower-case hexadecimal characters: the pattern \<open>[0-9a-f]{64}\<close>.\<close>

definition is_sha256 :: "string \<Rightarrow> bool" where
  "is_sha256 s = (length s = 64 \<and> list_all is_lower_hex s)"

section \<open>Date and time\<close>

text \<open>
  \<open>TzUTC\<close> is the singleton \<open>datetime.UTC\<close> the code compares with \<open>is\<close>; \<open>TzOffset n\<close> is any other
  zone, with its offset in microseconds; \<open>TzNone\<close> is a naive datetime.
\<close>

datatype tzinfo = TzNone | TzUTC | TzOffset int

record datetime =
  wall_us :: int
  tz :: tzinfo

definition utcoffset :: "datetime \<Rightarrow> int option" where
  "utcoffset d = (case tz d of TzNone \<Rightarrow> None | TzUTC \<Rightarrow> Some 0 | TzOffset n \<Rightarrow> Some n)"

text \<open>The instant an aware datetime denotes, in microseconds since the epoch.\<close>

definition instant :: "datetime \<Rightarrow> int" where
  "instant d = wall_us d - (case utcoffset d of None \<Rightarrow> 0 | Some n \<Rightarrow> n)"

definition utc_at :: "int \<Rightarrow> datetime" where
  "utc_at t = \<lparr>wall_us = t, tz = TzUTC\<rparr>"

definition seconds :: "int \<Rightarrow> int" where
  "seconds n = n * 1000000"

definition days :: "int \<Rightarrow> int" where
  "days n = seconds (n * 86400)"

text \<open>
  \<open>value.tzinfo is not UTC or value.utcoffset() != UTC.utcoffset(value)\<close>: the check that the
  domain, the outbox and the worker all spell out before they accept a timestamp.
\<close>

definition is_utc :: "datetime \<Rightarrow> bool" where
  "is_utc d = (tz d = TzUTC \<and> utcoffset d = Some 0)"

text \<open>\<open>value.tzinfo is None or value.utcoffset() is None\<close>, negated.\<close>

definition is_aware :: "datetime \<Rightarrow> bool" where
  "is_aware d = (tz d \<noteq> TzNone \<and> utcoffset d \<noteq> None)"

definition astimezone_utc :: "datetime \<Rightarrow> datetime" where
  "astimezone_utc d = utc_at (instant d)"

section \<open>JSON\<close>

text \<open>A float is carried as the text \<open>repr\<close> gives it.\<close>

datatype json =
    JNull
  | JBool bool
  | JInt int
  | JFloat string
  | JStr string
  | JArr "json list"
  | JObj "(string \<times> json) list"

definition json_escape :: "char \<Rightarrow> string" where
  "json_escape c = (let n = (of_char c :: nat) in
     if c = CHR 0x22 then [CHR 0x5C, CHR 0x22]
     else if c = CHR 0x5C then [CHR 0x5C, CHR 0x5C]
     else if n = 10 then [CHR 0x5C, CHR ''n'']
     else if n = 13 then [CHR 0x5C, CHR ''r'']
     else if n = 9 then [CHR 0x5C, CHR ''t'']
     else if n = 12 then [CHR 0x5C, CHR ''f'']
     else if n = 8 then [CHR 0x5C, CHR ''b'']
     else if 32 \<le> n \<and> n \<le> 126 then [c]
     else [CHR 0x5C, CHR ''u''] @ hex_pad 4 n)"

definition json_string :: "string \<Rightarrow> string" where
  "json_string s = CHR 0x22 # concat (map json_escape s) @ [CHR 0x22]"

fun join :: "string \<Rightarrow> string list \<Rightarrow> string" where
  "join sep [] = []"
| "join sep [x] = x"
| "join sep (x # y # ys) = x @ sep @ join sep (y # ys)"

text \<open>\<open>json.dumps(value, separators=(",", ":"))\<close>\<close>

fun json_dumps :: "json \<Rightarrow> string" where
  "json_dumps JNull = ''null''"
| "json_dumps (JBool b) = (if b then ''true'' else ''false'')"
| "json_dumps (JInt i) = dec_int i"
| "json_dumps (JFloat r) = r"
| "json_dumps (JStr s) = json_string s"
| "json_dumps (JArr xs) = ''['' @ join '','' (map json_dumps xs) @ '']''"
| "json_dumps (JObj kvs) =
     ''{'' @ join '','' (map (\<lambda>kv. json_string (fst kv) @ '':'' @ json_dumps (snd kv)) kvs) @ ''}''"

text \<open>\<open>sort_keys=True\<close> orders every object's members by key first.\<close>

fun json_sort_keys :: "json \<Rightarrow> json" where
  "json_sort_keys (JArr xs) = JArr (map json_sort_keys xs)"
| "json_sort_keys (JObj kvs) =
     JObj (sort_by (\<lambda>a b. str_le (fst a) (fst b)) (map (\<lambda>kv. (fst kv, json_sort_keys (snd kv))) kvs))"
| "json_sort_keys v = v"

definition json_canonical :: "json \<Rightarrow> string" where
  "json_canonical v = json_dumps (json_sort_keys v)"

definition json_opt :: "('a \<Rightarrow> json) \<Rightarrow> 'a option \<Rightarrow> json" where
  "json_opt f v = (case v of None \<Rightarrow> JNull | Some x \<Rightarrow> f x)"

section \<open>Facts\<close>

lemma is_utc_utc_at [simp]: "is_utc (utc_at t)"
  by (simp add: is_utc_def utc_at_def utcoffset_def)

lemma instant_utc_at [simp]: "instant (utc_at t) = t"
  by (simp add: instant_def utc_at_def utcoffset_def)

lemma is_utc_iff: "is_utc d \<longleftrightarrow> tz d = TzUTC"
  by (auto simp: is_utc_def utcoffset_def)

lemma is_utc_astimezone [simp]: "is_utc (astimezone_utc d)" "instant (astimezone_utc d) = instant d"
  by (simp_all add: astimezone_utc_def)

lemma is_utc_aware: "is_utc d \<Longrightarrow> is_aware d"
  by (auto simp: is_utc_def is_aware_def)

lemma replace_all_noop: "old \<noteq> [] \<Longrightarrow> hd old \<notin> set s \<Longrightarrow> replace_all old new s = s"
proof (induction old new s rule: replace_all.induct)
  case (2 old new c cs)
  then have "\<not> startswith (c # cs) old"
    by (cases old) (auto simp: startswith_def)
  with 2 show ?case by simp
qed simp

lemma dropWhile_noop: "(\<And>c. c \<in> set s \<Longrightarrow> \<not> p c) \<Longrightarrow> dropWhile p s = s"
  by (cases s) auto

lemma strip_of_noop: "(\<And>c. c \<in> set s \<Longrightarrow> \<not> p c) \<Longrightarrow> strip_of p s = s"
proof -
  assume np: "\<And>c. c \<in> set s \<Longrightarrow> \<not> p c"
  then have "dropWhile p s = s" by (rule dropWhile_noop)
  moreover from np have "dropWhile p (rev s) = rev s" by (intro dropWhile_noop) simp
  ultimately show ?thesis by (simp add: strip_of_def rstrip_of_def)
qed

lemma is_lower_hex_cases:
  assumes "is_lower_hex c"
  shows "\<not> py_space c" "c \<noteq> CHR ''-''" "c \<noteq> CHR ''+''" "c \<noteq> CHR ''{''" "c \<noteq> CHR ''}''"
    "c \<noteq> CHR ''u''" "c \<noteq> CHR ''_''" "lower_char c \<noteq> CHR ''x''"
  using assms
  by (auto simp: is_lower_hex_def py_space_def ascii_digit_def Let_def lower_char_def)

lemma uuid_hex_lower_hex: "c \<in> set (uuid_hex u) \<Longrightarrow> is_lower_hex c"
  by (auto simp: uuid_hex_def dest: hex_pad_lower_hex)

lemma length_uuid_hex [simp]: "length (uuid_hex u) = 32"
  by (simp add: uuid_hex_def)

lemma length_uuid_str [simp]: "length (uuid_str u) = 36"
  by (simp add: uuid_str_def Let_def)

lemma uuid_str_chars: "c \<in> set (uuid_str u) \<Longrightarrow> is_lower_hex c \<or> c = CHR ''-''"
  by (auto simp: uuid_str_def Let_def dest!: in_set_takeD in_set_dropD intro: uuid_hex_lower_hex)

lemma py_int16_hex_pad:
  "k \<ge> 2 \<Longrightarrow> py_int16 (hex_pad k n) = Some (int (n mod 16 ^ k))"
proof -
  assume k: "k \<ge> 2"
  let ?h = "hex_pad k n"
  have lh: "is_lower_hex c" if "c \<in> set ?h" for c using that by (rule hex_pad_lower_hex)
  have st: "strip ?h = ?h"
    unfolding strip_def by (rule strip_of_noop) (blast dest: lh is_lower_hex_cases)
  from k have "length ?h \<ge> 2" by simp
  then obtain a b xs where h: "?h = a # b # xs"
    by (cases ?h; cases "tl ?h") auto
  have a: "a \<noteq> CHR ''-''" "a \<noteq> CHR ''+''" and b: "lower_char b \<noteq> CHR ''x''"
    using lh [of a] lh [of b] is_lower_hex_cases [of a] is_lower_hex_cases [of b] by (auto simp: h)
  have sg: "split_sign ?h = (False, ?h)" using a by (simp add: split_sign_def h)
  have pf: "\<not> startswith (str_lower ?h) ''0x''" using b by (simp add: startswith_def str_lower_def h)
  show ?thesis
    using k by (simp add: py_int16_def st sg pf int_digits_hex_pad signed_def)
qed

text \<open>The text form of a UUID parses back to it.\<close>

lemma uuid_parse_str [simp]: "uuid_parse (uuid_str u) = Some u"
proof -
  let ?h = "uuid_hex u"
  have not_u: "CHR ''u'' \<notin> set (uuid_str u)"
    using uuid_str_chars is_lower_hex_cases(6) by blast
  have rep: "replace_all ''uuid:'' '''' (replace_all ''urn:'' '''' (uuid_str u)) = uuid_str u"
    using not_u by (simp add: replace_all_noop)
  have st: "strip_of (\<lambda>c. c = CHR ''{'' \<or> c = CHR ''}'') (uuid_str u) = uuid_str u"
    by (rule strip_of_noop) (use uuid_str_chars is_lower_hex_cases(4,5) in blast)
  have keep: "filter (\<lambda>c. c \<noteq> CHR ''-'') xs = xs" if "set xs \<subseteq> set ?h" for xs
    using that by (intro filter_True) (auto dest: uuid_hex_lower_hex is_lower_hex_cases(2))
  have ds: "drop n xs = take k (drop n xs) @ drop (n + k) xs" for n k and xs :: string
    by (metis append_take_drop_id drop_drop add.commute)
  have "?h = take 8 ?h @ drop 8 ?h" by simp
  also have "drop 8 ?h = take 4 (drop 8 ?h) @ drop 12 ?h"
    by (rule trans [OF ds [of 8 _ 4]]) simp
  also have "drop 12 ?h = take 4 (drop 12 ?h) @ drop 16 ?h"
    by (rule trans [OF ds [of 12 _ 4]]) simp
  also have "drop 16 ?h = take 4 (drop 16 ?h) @ drop 20 ?h"
    by (rule trans [OF ds [of 16 _ 4]]) simp
  finally have split: "?h = take 8 ?h @ take 4 (drop 8 ?h) @ take 4 (drop 12 ?h) @
      take 4 (drop 16 ?h) @ drop 20 ?h" .
  have "filter (\<lambda>c. c \<noteq> CHR ''-'') (uuid_str u) =
      take 8 ?h @ take 4 (drop 8 ?h) @ take 4 (drop 12 ?h) @ take 4 (drop 16 ?h) @ drop 20 ?h"
    by (simp add: uuid_str_def Let_def keep set_take_subset set_drop_subset
        subset_trans [OF set_take_subset set_drop_subset])
  then have fl: "filter (\<lambda>c. c \<noteq> CHR ''-'') (uuid_str u) = ?h"
    by (rule trans) (rule split [symmetric])
  have small: "unat u < 16 ^ 32"
    using unsigned_less [of u] by simp
  have "py_int16 ?h = Some (int (unat u))"
    using small by (simp add: uuid_hex_def py_int16_hex_pad)
  moreover have "uint u < 2 ^ 128"
    using uint_bounded [of u] by simp
  ultimately show ?thesis
    using small by (simp add: uuid_parse_def rep st fl)
qed

lemma uuid_str_inject [simp]: "uuid_str u = uuid_str v \<longleftrightarrow> u = v"
  by (metis option.inject uuid_parse_str)

lemma blank_uuid_str [simp]: "\<not> blank (uuid_str u)"
proof -
  have "uuid_str u \<noteq> []" using length_uuid_str [of u] by force
  then obtain c where c: "c \<in> set (uuid_str u)" by (cases "uuid_str u") auto
  then have "is_lower_hex c \<or> c = CHR ''-''" by (rule uuid_str_chars)
  moreover have "\<not> py_space (CHR ''-'')" by (simp add: py_space_def)
  ultimately have "\<not> py_space c" using is_lower_hex_cases(1) by blast
  with c show ?thesis by (auto simp: blank_def list_all_iff)
qed

end
