(* ===== verification/Exceptions.thy ===== *)
theory Exceptions
  imports Py_Data
begin

text \<open>
  The case states (\<open>domain/cases.py\<close>) and the exceptions the program raises, one constructor per
  class; the subclass tests are the \<open>isinstance\<close> checks and \<open>except\<close> clauses of the callers. A
  database failure that SQLAlchemy reports is one of the last four: \<open>IntegrityError\<close> names the
  violated constraint, \<open>DatabaseRaise\<close> a trigger's \<open>RAISE EXCEPTION\<close>, \<open>DataError\<close> an out-of-range
  integer, \<open>RowSecurityError\<close> a row rejected by a row-level-security policy.
\<close>

datatype case_state =
    NEW | INVESTIGATING | DIAGNOSED | FIX_PROPOSED | NEEDS_INFORMATION | CONFIRMED | RESOLVED | LEARNED

datatype exn =
    VersionConflictError uuid int int
  | CaseIdentityMismatchError uuid uuid
  | InvalidTransitionError case_state case_state
  | TransitionAuthorizationError string
  | TransitionConstraintError string
  | CaseNotFoundError uuid
  | IdempotencyConflictError string uuid uuid
  | OutboxLeaseLostError uuid
  | ConsumerPayloadMismatchError uuid string
  | EventCursorNotFoundError uuid
  | ArtifactObjectMissingError uuid
  | ArtifactUploadIntentNotFoundError uuid
  | ArtifactUploadIntentExpiredError string
  | ArtifactUploadVerificationError string
  | ArtifactProcessingStateConflictError uuid
  | ConfigPreviewLimitError string
  | AuthenticationError string
  | AuthenticationServiceError string
  | AuthorizationError string
  | RetryablePublishError string
  | TenantContextError string
  | ApiError int string
  | ValueError string
  | TypeError string
  | RuntimeError string
  | OSError string
  | EOFError string
  | StructError string
  | AttributeError string
  | AssertionError string
  | NoResultFound string
  | HTTPException int string
  | UnicodeError string
  | IntegrityError string
  | DatabaseRaise string
  | DataError string
  | RowSecurityError string

text \<open>\<open>isinstance(e, ValueError)\<close>\<close>

fun is_value_error :: "exn \<Rightarrow> bool" where
  "is_value_error (ValueError _) = True"
| "is_value_error (UnicodeError _) = True"
| "is_value_error (IdempotencyConflictError _ _ _) = True"
| "is_value_error (ConsumerPayloadMismatchError _ _) = True"
| "is_value_error (ArtifactUploadIntentExpiredError _) = True"
| "is_value_error (ArtifactUploadVerificationError _) = True"
| "is_value_error (ConfigPreviewLimitError _) = True"
| "is_value_error _ = False"

text \<open>\<open>isinstance(e, OSError)\<close>: sockets, files, timeouts.\<close>

fun is_os_error :: "exn \<Rightarrow> bool" where
  "is_os_error (OSError _) = True"
| "is_os_error _ = False"

text \<open>\<open>isinstance(e, RuntimeError)\<close>\<close>

fun is_runtime_error :: "exn \<Rightarrow> bool" where
  "is_runtime_error (RuntimeError _) = True"
| "is_runtime_error (OutboxLeaseLostError _) = True"
| "is_runtime_error (ArtifactProcessingStateConflictError _) = True"
| "is_runtime_error (TenantContextError _) = True"
| "is_runtime_error (RetryablePublishError _) = True"
| "is_runtime_error _ = False"

text \<open>\<open>isinstance(e, SQLAlchemyError)\<close>\<close>

fun is_sqlalchemy_error :: "exn \<Rightarrow> bool" where
  "is_sqlalchemy_error (IntegrityError _) = True"
| "is_sqlalchemy_error (DatabaseRaise _) = True"
| "is_sqlalchemy_error (NoResultFound _) = True"
| "is_sqlalchemy_error (DataError _) = True"
| "is_sqlalchemy_error (RowSecurityError _) = True"
| "is_sqlalchemy_error _ = False"

end
