(* ===== verification/Case_Domain.thy ===== *)
theory Case_Domain
  imports Exceptions
begin

text \<open>
  \<open>services/api/netops_api/domain/cases.py\<close>: the pure case state machine. The dataclasses are
  records; a \<open>__post_init__\<close> that may raise is a constructor function into \<open>exn + record\<close>.
  \<open>apply_transition\<close> decides one command against one snapshot; the transition table, role sets and
  event types are the module's constants. The lemmas characterise exactly when a command is
  accepted and lift the state machine to runs of accepted commands.
\<close>

section \<open>Enumerations and constants\<close>

fun case_state_value :: "case_state \<Rightarrow> string" where
  "case_state_value NEW = ''new''"
| "case_state_value INVESTIGATING = ''investigating''"
| "case_state_value DIAGNOSED = ''diagnosed''"
| "case_state_value FIX_PROPOSED = ''fix_proposed''"
| "case_state_value NEEDS_INFORMATION = ''needs_information''"
| "case_state_value CONFIRMED = ''confirmed''"
| "case_state_value RESOLVED = ''resolved''"
| "case_state_value LEARNED = ''learned''"

definition all_case_states :: "case_state list" where
  "all_case_states =
     [NEW, INVESTIGATING, DIAGNOSED, FIX_PROPOSED, NEEDS_INFORMATION, CONFIRMED, RESOLVED, LEARNED]"

text \<open>The states are an enumeration, so a statement about every state can be computed.\<close>

instantiation case_state :: enum
begin

definition enum_case_state :: "case_state list" where
  "enum_case_state = all_case_states"

definition enum_all_case_state :: "(case_state \<Rightarrow> bool) \<Rightarrow> bool" where
  "enum_all_case_state P = list_all P all_case_states"

definition enum_ex_case_state :: "(case_state \<Rightarrow> bool) \<Rightarrow> bool" where
  "enum_ex_case_state P = list_ex P all_case_states"

instance
proof
  have states: "set all_case_states = (UNIV :: case_state set)"
    unfolding all_case_states_def by (auto intro: case_state.exhaust)
  show "UNIV = set (enum_class.enum :: case_state list)" by (simp add: enum_case_state_def states)
  show "distinct (enum_class.enum :: case_state list)" by (simp add: enum_case_state_def all_case_states_def)
  show "enum_class.enum_all P = Ball UNIV P" for P :: "case_state \<Rightarrow> bool"
    by (simp add: enum_all_case_state_def list_all_iff states)
  show "enum_class.enum_ex P = Bex UNIV P" for P :: "case_state \<Rightarrow> bool"
    by (simp add: enum_ex_case_state_def list_ex_iff states)
qed

end

text \<open>\<open>CaseState(value)\<close>: the member with that value, or a \<open>ValueError\<close>.\<close>

definition CaseState :: "string \<Rightarrow> exn + case_state" where
  "CaseState s = (case find_row (\<lambda>c. case_state_value c = s) all_case_states of
     None \<Rightarrow> Inl (ValueError ''not a valid CaseState'')
   | Some c \<Rightarrow> Inr c)"

datatype case_role = ORG_ADMIN | OPERATOR | APPROVER | AUDITOR | INTEGRATION_ADMIN | PLATFORM_ADMIN

fun case_role_value :: "case_role \<Rightarrow> string" where
  "case_role_value ORG_ADMIN = ''org_admin''"
| "case_role_value OPERATOR = ''operator''"
| "case_role_value APPROVER = ''approver''"
| "case_role_value AUDITOR = ''auditor''"
| "case_role_value INTEGRATION_ADMIN = ''integration_admin''"
| "case_role_value PLATFORM_ADMIN = ''platform_admin''"

datatype actor_kind = HUMAN | SERVICE | MODEL

fun actor_kind_value :: "actor_kind \<Rightarrow> string" where
  "actor_kind_value HUMAN = ''human''"
| "actor_kind_value SERVICE = ''service''"
| "actor_kind_value MODEL = ''model''"

fun allowed_transitions :: "case_state \<Rightarrow> case_state set" where
  "allowed_transitions NEW = {INVESTIGATING}"
| "allowed_transitions INVESTIGATING = {DIAGNOSED, NEEDS_INFORMATION}"
| "allowed_transitions NEEDS_INFORMATION = {INVESTIGATING}"
| "allowed_transitions DIAGNOSED = {FIX_PROPOSED}"
| "allowed_transitions FIX_PROPOSED = {CONFIRMED}"
| "allowed_transitions CONFIRMED = {RESOLVED}"
| "allowed_transitions RESOLVED = {LEARNED}"
| "allowed_transitions LEARNED = {}"

definition case_write_roles :: "case_role set" where
  "case_write_roles = {ORG_ADMIN, OPERATOR, APPROVER, PLATFORM_ADMIN}"

definition confirm_roles :: "case_role set" where
  "confirm_roles = {ORG_ADMIN, APPROVER, PLATFORM_ADMIN}"

definition resolve_roles :: "case_role set" where
  "resolve_roles = {ORG_ADMIN, OPERATOR, APPROVER, PLATFORM_ADMIN}"

fun event_types :: "case_state \<Rightarrow> string" where
  "event_types INVESTIGATING = ''case.investigating.v1''"
| "event_types DIAGNOSED = ''analysis.completed.v1''"
| "event_types FIX_PROPOSED = ''recommendation.proposed.v1''"
| "event_types NEEDS_INFORMATION = ''case.needs_information.v1''"
| "event_types CONFIRMED = ''approval.granted.v1''"
| "event_types RESOLVED = ''case.resolved.v1''"
| "event_types LEARNED = ''memory.indexed.v1''"
| "event_types NEW = ''case.created.v1''"

section \<open>Records and their constructors\<close>

record actor =
  actor_id :: uuid
  kind :: actor_kind
  roles :: "case_role set"

definition mk_actor :: "uuid \<Rightarrow> actor_kind \<Rightarrow> case_role set \<Rightarrow> exn + actor" where
  "mk_actor i k rs =
     (if k = HUMAN \<and> rs = {} then Inl (ValueError ''Human actors must include at least one assigned role.'')
      else if k \<noteq> HUMAN \<and> rs \<noteq> {} then Inl (ValueError ''Only human actors may carry organization roles.'')
      else Inr \<lparr>actor_id = i, kind = k, roles = rs\<rparr>)"

record case_snapshot =
  snap_case_id :: uuid
  snap_state :: case_state
  snap_version :: int

definition mk_case_snapshot :: "uuid \<Rightarrow> case_state \<Rightarrow> int \<Rightarrow> exn + case_snapshot" where
  "mk_case_snapshot c s v =
     (if v < 0 then Inl (ValueError ''Case version cannot be negative.'')
      else Inr \<lparr>snap_case_id = c, snap_state = s, snap_version = v\<rparr>)"

record transition_command =
  tc_transition_id :: uuid
  tc_event_id :: uuid
  tc_case_id :: uuid
  tc_expected_version :: int
  tc_to_state :: case_state
  tc_actor :: actor
  tc_correlation_id :: uuid
  tc_occurred_at :: datetime
  tc_approval_id :: "uuid option"
  tc_verification_note :: "string option"
  tc_knowledge_item_id :: "uuid option"
  tc_note :: "string option"

definition require_utc :: "datetime \<Rightarrow> exn + unit" where
  "require_utc d = raise_unless (is_utc d) (ValueError ''occurred_at must be timezone-aware UTC.'')"

definition require_not_blank :: "string \<Rightarrow> string option \<Rightarrow> exn + unit" where
  "require_not_blank field v = (case v of
     None \<Rightarrow> Inr ()
   | Some s \<Rightarrow> raise_unless (\<not> blank s) (ValueError (field @ '' cannot be blank when supplied.'')))"

text \<open>\<open>TransitionCommand.__post_init__\<close>: the checks on a command built from its fields.\<close>

definition mk_transition_command :: "transition_command \<Rightarrow> exn + transition_command" where
  "mk_transition_command c =
     (if tc_expected_version c < 0 then Inl (ValueError ''Expected version cannot be negative.'')
      else bindE (require_utc (tc_occurred_at c)) (\<lambda>_.
           bindE (require_not_blank ''verification_note'' (tc_verification_note c)) (\<lambda>_.
           bindE (require_not_blank ''note'' (tc_note c)) (\<lambda>_. Inr c))))"

record case_state_transition =
  st_transition_id :: uuid
  st_case_id :: uuid
  st_from_state :: case_state
  st_to_state :: case_state
  st_version :: int
  st_actor_id :: uuid
  st_correlation_id :: uuid
  st_occurred_at :: datetime
  st_approval_id :: "uuid option"
  st_verification_note :: "string option"
  st_knowledge_item_id :: "uuid option"
  st_note :: "string option"

record case_event_command =
  ev_event_id :: uuid
  ev_event_type :: string
  ev_case_id :: uuid
  ev_aggregate_version :: int
  ev_transition_id :: uuid
  ev_actor_id :: uuid
  ev_correlation_id :: uuid
  ev_occurred_at :: datetime

record transition_outcome =
  out_snapshot :: case_snapshot
  out_transition :: case_state_transition
  out_event :: case_event_command

section \<open>The transition decision\<close>

definition validate_actor :: "transition_command \<Rightarrow> exn + unit" where
  "validate_actor c =
     (let a = tc_actor c; to = tc_to_state c in
      if kind a = MODEL
      then Inl (TransitionAuthorizationError ''Model identities cannot alter case state.'')
      else if to \<in> {CONFIRMED, RESOLVED} \<and> kind a \<noteq> HUMAN
      then Inl (TransitionAuthorizationError
             (''Transitioning to '' @ case_state_value to @ '' requires an authorized human actor.''))
      else if to = CONFIRMED \<and> roles a \<inter> confirm_roles = {}
      then Inl (TransitionAuthorizationError ''The actor lacks an approver role for confirmation.'')
      else if to = RESOLVED \<and> roles a \<inter> resolve_roles = {}
      then Inl (TransitionAuthorizationError ''The actor lacks a case-resolution role.'')
      else if kind a = HUMAN \<and> roles a \<inter> case_write_roles = {}
      then Inl (TransitionAuthorizationError ''The actor has no role that can mutate a case.'')
      else if to = LEARNED \<and> kind a \<noteq> SERVICE
      then Inl (TransitionAuthorizationError
             ''Transitioning to learned requires the indexing workflow service identity.'')
      else Inr ())"

definition validate_transition_constraints :: "transition_command \<Rightarrow> exn + unit" where
  "validate_transition_constraints c =
     (let to = tc_to_state c in
      if to = CONFIRMED \<and> tc_approval_id c = None
      then Inl (TransitionConstraintError ''Confirmation requires an immutable approval record ID.'')
      else if to = RESOLVED \<and> tc_verification_note c = None
      then Inl (TransitionConstraintError ''Resolution requires a non-empty human verification note.'')
      else if to = LEARNED \<and> tc_knowledge_item_id c = None
      then Inl (TransitionConstraintError ''Learning requires an indexed knowledge item ID.'')
      else if to = NEEDS_INFORMATION \<and> tc_note c = None
      then Inl (TransitionConstraintError ''Needs-information transitions require an operator-readable note.'')
      else Inr ())"

definition apply_transition :: "case_snapshot \<Rightarrow> transition_command \<Rightarrow> exn + transition_outcome" where
  "apply_transition s c =
     (if snap_case_id s \<noteq> tc_case_id c
      then Inl (CaseIdentityMismatchError (snap_case_id s) (tc_case_id c))
      else if snap_version s \<noteq> tc_expected_version c
      then Inl (VersionConflictError (snap_case_id s) (tc_expected_version c) (snap_version s))
      else if tc_to_state c \<notin> allowed_transitions (snap_state s)
      then Inl (InvalidTransitionError (snap_state s) (tc_to_state c))
      else bindE (validate_actor c) (\<lambda>_.
           bindE (validate_transition_constraints c) (\<lambda>_.
           let next_version = snap_version s + 1 in
           bindE (mk_case_snapshot (snap_case_id s) (tc_to_state c) next_version) (\<lambda>next_snapshot.
           Inr \<lparr>out_snapshot = next_snapshot,
                out_transition = \<lparr>
                  st_transition_id = tc_transition_id c,
                  st_case_id = snap_case_id s,
                  st_from_state = snap_state s,
                  st_to_state = tc_to_state c,
                  st_version = next_version,
                  st_actor_id = actor_id (tc_actor c),
                  st_correlation_id = tc_correlation_id c,
                  st_occurred_at = tc_occurred_at c,
                  st_approval_id = tc_approval_id c,
                  st_verification_note = tc_verification_note c,
                  st_knowledge_item_id = tc_knowledge_item_id c,
                  st_note = tc_note c\<rparr>,
                out_event = \<lparr>
                  ev_event_id = tc_event_id c,
                  ev_event_type = event_types (tc_to_state c),
                  ev_case_id = snap_case_id s,
                  ev_aggregate_version = next_version,
                  ev_transition_id = tc_transition_id c,
                  ev_actor_id = actor_id (tc_actor c),
                  ev_correlation_id = tc_correlation_id c,
                  ev_occurred_at = tc_occurred_at c\<rparr>\<rparr>))))"

text \<open>A case's life as the snapshots that accepted commands produce, oldest first.\<close>

fun run_commands :: "case_snapshot \<Rightarrow> transition_command list \<Rightarrow> exn + case_snapshot" where
  "run_commands s [] = Inr s"
| "run_commands s (c # cs) = bindE (apply_transition s c) (\<lambda>r. run_commands (out_snapshot r) cs)"


section \<open>Specification of an acceptable command\<close>

text \<open>
  The policy the guards implement, stated without their order: who may move a case where, and which
  evidence the move needs.
\<close>

definition actor_may :: "actor \<Rightarrow> case_state \<Rightarrow> bool" where
  "actor_may a to \<longleftrightarrow>
     (case kind a of
        MODEL \<Rightarrow> False
      | SERVICE \<Rightarrow> to \<notin> {CONFIRMED, RESOLVED}
      | HUMAN \<Rightarrow> to \<noteq> LEARNED \<and> roles a \<inter> (if to = CONFIRMED then confirm_roles else case_write_roles) \<noteq> {})"

definition evidence_ok :: "transition_command \<Rightarrow> bool" where
  "evidence_ok c \<longleftrightarrow>
     (case tc_to_state c of
        CONFIRMED \<Rightarrow> tc_approval_id c \<noteq> None
      | RESOLVED \<Rightarrow> tc_verification_note c \<noteq> None
      | LEARNED \<Rightarrow> tc_knowledge_item_id c \<noteq> None
      | NEEDS_INFORMATION \<Rightarrow> tc_note c \<noteq> None
      | _ \<Rightarrow> True)"

section \<open>Facts\<close>

lemma find_row_case_state:
  "find_row (\<lambda>c. case_state_value c = case_state_value s) all_case_states = Some s"
  by (cases s) (simp_all add: all_case_states_def)

lemma CaseState_value [simp]: "CaseState (case_state_value s) = Inr s"
  by (simp add: CaseState_def find_row_case_state)

lemma CaseState_Inr: "CaseState t = Inr s \<longleftrightarrow> t = case_state_value s"
proof
  assume "CaseState t = Inr s"
  then have "find_row (\<lambda>c. case_state_value c = t) all_case_states = Some s"
    by (simp add: CaseState_def split: option.splits)
  then show "t = case_state_value s" by (auto dest: find_row_Some)
qed simp

lemma case_state_value_inject [simp]: "case_state_value a = case_state_value b \<longleftrightarrow> a = b"
  by (metis CaseState_value sum.inject(2))

lemma in_all_case_states [simp]: "s \<in> set all_case_states"
  by (cases s) (simp_all add: all_case_states_def)

lemma mk_case_snapshot_nonneg [simp]:
  "0 \<le> v \<Longrightarrow> mk_case_snapshot i s v = Inr \<lparr>snap_case_id = i, snap_state = s, snap_version = v\<rparr>"
  by (simp add: mk_case_snapshot_def)

lemma mk_transition_command_Inr:
  "mk_transition_command c = Inr d \<longleftrightarrow>
     d = c \<and> 0 \<le> tc_expected_version c \<and> is_utc (tc_occurred_at c) \<and>
     (\<forall>v. tc_verification_note c = Some v \<longrightarrow> \<not> blank v) \<and> (\<forall>v. tc_note c = Some v \<longrightarrow> \<not> blank v)"
  by (auto simp: mk_transition_command_def require_utc_def require_not_blank_def result_simps
      split: option.splits)

lemma validate_actor_ok_iff: "validate_actor c = Inr () \<longleftrightarrow> actor_may (tc_actor c) (tc_to_state c)"
proof -
  have sub: "confirm_roles \<subseteq> case_write_roles" "resolve_roles = case_write_roles"
    by (auto simp: confirm_roles_def case_write_roles_def resolve_roles_def)
  show ?thesis
    using sub unfolding validate_actor_def actor_may_def Let_def
    by (cases "kind (tc_actor c)"; cases "tc_to_state c") auto
qed

lemma validate_constraints_ok_iff:
  "validate_transition_constraints c = Inr () \<longleftrightarrow> evidence_ok c"
  unfolding validate_transition_constraints_def evidence_ok_def Let_def
  by (cases "tc_to_state c") auto

lemma validate_actor_cases:
  "validate_actor c = Inr () \<or> (\<exists>m. validate_actor c = Inl (TransitionAuthorizationError m))"
  by (simp add: validate_actor_def Let_def)

lemma validate_constraints_cases:
  "validate_transition_constraints c = Inr () \<or>
   (\<exists>m. validate_transition_constraints c = Inl (TransitionConstraintError m))"
  by (simp add: validate_transition_constraints_def Let_def)

lemma apply_transition_InrD:
  assumes "apply_transition s c = Inr r"
  shows "snap_case_id s = tc_case_id c" "snap_version s = tc_expected_version c"
    "tc_to_state c \<in> allowed_transitions (snap_state s)"
    "actor_may (tc_actor c) (tc_to_state c)" "evidence_ok c"
    "out_snapshot r = \<lparr>snap_case_id = snap_case_id s, snap_state = tc_to_state c,
       snap_version = snap_version s + 1\<rparr>"
    "out_transition r = \<lparr>st_transition_id = tc_transition_id c, st_case_id = snap_case_id s,
       st_from_state = snap_state s, st_to_state = tc_to_state c, st_version = snap_version s + 1,
       st_actor_id = actor_id (tc_actor c), st_correlation_id = tc_correlation_id c,
       st_occurred_at = tc_occurred_at c, st_approval_id = tc_approval_id c,
       st_verification_note = tc_verification_note c, st_knowledge_item_id = tc_knowledge_item_id c,
       st_note = tc_note c\<rparr>"
    "out_event r = \<lparr>ev_event_id = tc_event_id c, ev_event_type = event_types (tc_to_state c),
       ev_case_id = snap_case_id s, ev_aggregate_version = snap_version s + 1,
       ev_transition_id = tc_transition_id c, ev_actor_id = actor_id (tc_actor c),
       ev_correlation_id = tc_correlation_id c, ev_occurred_at = tc_occurred_at c\<rparr>"
    "0 \<le> snap_version s + 1"
  using assms
  by (auto simp: apply_transition_def result_simps Let_def mk_case_snapshot_def
      validate_actor_ok_iff validate_constraints_ok_iff split: if_splits)

lemma actor_may_not_model: "actor_may a to \<Longrightarrow> kind a \<noteq> MODEL"
  by (auto simp: actor_may_def)

lemma actor_may_confirm:
  "actor_may a CONFIRMED \<longleftrightarrow> kind a = HUMAN \<and> roles a \<inter> confirm_roles \<noteq> {}"
  by (simp add: actor_may_def split: actor_kind.splits)

lemma actor_may_resolve:
  "actor_may a RESOLVED \<longleftrightarrow> kind a = HUMAN \<and> roles a \<inter> case_write_roles \<noteq> {}"
  by (simp add: actor_may_def split: actor_kind.splits)

lemma actor_may_learn: "actor_may a LEARNED \<longleftrightarrow> kind a = SERVICE"
  by (simp add: actor_may_def split: actor_kind.splits)

lemma edge_into_confirmed: "CONFIRMED \<in> allowed_transitions s \<longleftrightarrow> s = FIX_PROPOSED"
  by (cases s) auto

lemma edge_into_resolved: "RESOLVED \<in> allowed_transitions s \<longleftrightarrow> s = CONFIRMED"
  by (cases s) auto

lemma edge_into_learned: "LEARNED \<in> allowed_transitions s \<longleftrightarrow> s = RESOLVED"
  by (cases s) auto

lemma run_commands_append:
  "run_commands s (cs @ ds) = bindE (run_commands s cs) (\<lambda>t. run_commands t ds)"
proof (induction cs arbitrary: s)
  case Nil
  show ?case by simp
next
  case (Cons c cs)
  then show ?case by (cases "apply_transition s c") simp_all
qed

lemma run_commands_snoc_Inr:
  "run_commands s (cs @ [c]) = Inr t \<longleftrightarrow>
     (\<exists>u r. run_commands s cs = Inr u \<and> apply_transition u c = Inr r \<and> t = out_snapshot r)"
  by (auto simp: run_commands_append result_simps)

lemma run_commands_version:
  "run_commands s cs = Inr t \<Longrightarrow>
   snap_version t = snap_version s + int (length cs) \<and> snap_case_id t = snap_case_id s"
proof (induction cs arbitrary: s)
  case Nil
  then show ?case by simp
next
  case (Cons c cs)
  then obtain r where r: "apply_transition s c = Inr r" and t: "run_commands (out_snapshot r) cs = Inr t"
    by (auto simp: result_simps)
  from Cons.IH [OF t] show ?case
    by (simp add: apply_transition_InrD(6) [OF r])
qed

text \<open>Backwards through a run: the last command that entered a state, and the run before it.\<close>

lemma run_commands_last:
  assumes "run_commands s cs = Inr t" "snap_state s = NEW" "snap_state t \<noteq> NEW"
  obtains us c u where "cs = us @ [c]" "run_commands s us = Inr u"
    "tc_to_state c = snap_state t" "snap_state t \<in> allowed_transitions (snap_state u)"
    "actor_may (tc_actor c) (snap_state t)" "evidence_ok c"
proof (cases cs rule: rev_cases)
  case Nil
  with assms show ?thesis by simp
next
  case (snoc us c)
  with assms(1) obtain u r where u: "run_commands s us = Inr u" and r: "apply_transition u c = Inr r"
    and t: "t = out_snapshot r"
    by (auto simp: run_commands_snoc_Inr)
  have st: "snap_state t = tc_to_state c"
    by (simp add: t apply_transition_InrD(6) [OF r])
  show ?thesis
    using that [OF snoc u] apply_transition_InrD(3-5) [OF r] by (simp add: st)
qed

lemma run_commands_model_free:
  "run_commands s cs = Inr t \<Longrightarrow> c \<in> set cs \<Longrightarrow> kind (tc_actor c) \<noteq> MODEL"
proof (induction cs arbitrary: s)
  case (Cons d cs)
  then show ?case
    by (auto simp: result_simps dest: apply_transition_InrD(4) actor_may_not_model)
qed simp

text \<open>Every state but \<open>LEARNED\<close> has a next state towards it, and a rank that measures the way.\<close>

fun next_state :: "case_state \<Rightarrow> case_state" where
  "next_state NEW = INVESTIGATING"
| "next_state INVESTIGATING = DIAGNOSED"
| "next_state NEEDS_INFORMATION = INVESTIGATING"
| "next_state DIAGNOSED = FIX_PROPOSED"
| "next_state FIX_PROPOSED = CONFIRMED"
| "next_state CONFIRMED = RESOLVED"
| "next_state RESOLVED = LEARNED"
| "next_state LEARNED = LEARNED"

fun state_rank :: "case_state \<Rightarrow> nat" where
  "state_rank NEW = 6"
| "state_rank NEEDS_INFORMATION = 6"
| "state_rank INVESTIGATING = 5"
| "state_rank DIAGNOSED = 4"
| "state_rank FIX_PROPOSED = 3"
| "state_rank CONFIRMED = 2"
| "state_rank RESOLVED = 1"
| "state_rank LEARNED = 0"

lemma next_state_edge: "s \<noteq> LEARNED \<Longrightarrow> next_state s \<in> allowed_transitions s"
  by (cases s) auto

lemma next_state_rank: "s \<noteq> LEARNED \<Longrightarrow> state_rank (next_state s) < state_rank s"
  by (cases s) auto

lemma state_rank_0 [simp]: "state_rank s = 0 \<longleftrightarrow> s = LEARNED"
  by (cases s) auto

text \<open>A command that moves a snapshot one step, by the indexing service or an approver.\<close>

definition step_actor :: "case_state \<Rightarrow> actor" where
  "step_actor to = (if to = LEARNED then \<lparr>actor_id = 1, kind = SERVICE, roles = {}\<rparr>
     else \<lparr>actor_id = 2, kind = HUMAN, roles = {APPROVER}\<rparr>)"

definition step_command :: "case_snapshot \<Rightarrow> case_state \<Rightarrow> transition_command" where
  "step_command s to = \<lparr>tc_transition_id = 10, tc_event_id = 11, tc_case_id = snap_case_id s,
     tc_expected_version = snap_version s, tc_to_state = to, tc_actor = step_actor to,
     tc_correlation_id = 12, tc_occurred_at = utc_at 0, tc_approval_id = Some 13,
     tc_verification_note = Some ''verified'', tc_knowledge_item_id = Some 14, tc_note = Some ''note''\<rparr>"

lemma step_command_accepted:
  assumes "0 \<le> snap_version s" "to \<in> allowed_transitions (snap_state s)"
  shows "\<exists>r. apply_transition s (step_command s to) = Inr r \<and> snap_state (out_snapshot r) = to
    \<and> 0 \<le> snap_version (out_snapshot r)"
proof -
  have "actor_may (step_actor to) to"
    by (cases to) (auto simp: actor_may_def step_actor_def confirm_roles_def case_write_roles_def)
  moreover have "evidence_ok (step_command s to)"
    by (cases to) (simp_all add: evidence_ok_def step_command_def)
  ultimately have "validate_actor (step_command s to) = Inr ()"
      "validate_transition_constraints (step_command s to) = Inr ()"
    by (simp_all add: validate_actor_ok_iff validate_constraints_ok_iff) (simp add: step_command_def)
  with assms show ?thesis
    by (simp add: apply_transition_def Let_def) (simp add: step_command_def)
qed

section \<open>Properties\<close>

text \<open>
  C1. A command is accepted exactly when it names this case at its current version, its target is a
  successor of the current state, the actor may perform it (models never; confirmation and
  resolution only by suitably privileged humans; learning only by the indexing service) and the
  evidence the target requires is attached.
\<close>

theorem apply_transition_accepts_iff:
  assumes "0 \<le> snap_version s"
  shows "is_ok (apply_transition s c) \<longleftrightarrow>
     snap_case_id s = tc_case_id c \<and> snap_version s = tc_expected_version c \<and>
     tc_to_state c \<in> allowed_transitions (snap_state s) \<and>
     actor_may (tc_actor c) (tc_to_state c) \<and> evidence_ok c"
proof
  assume "is_ok (apply_transition s c)"
  then show "snap_case_id s = tc_case_id c \<and> snap_version s = tc_expected_version c \<and>
     tc_to_state c \<in> allowed_transitions (snap_state s) \<and>
     actor_may (tc_actor c) (tc_to_state c) \<and> evidence_ok c"
    by (auto simp: is_ok_iff dest: apply_transition_InrD)
next
  assume h: "snap_case_id s = tc_case_id c \<and> snap_version s = tc_expected_version c \<and>
     tc_to_state c \<in> allowed_transitions (snap_state s) \<and>
     actor_may (tc_actor c) (tc_to_state c) \<and> evidence_ok c"
  then have "validate_actor c = Inr ()" "validate_transition_constraints c = Inr ()"
    by (simp_all add: validate_actor_ok_iff validate_constraints_ok_iff)
  with h assms show "is_ok (apply_transition s c)"
    by (simp add: apply_transition_def Let_def)
qed

theorem apply_transition_accepts_iff_witness:
  "is_ok (apply_transition \<lparr>snap_case_id = 5, snap_state = FIX_PROPOSED, snap_version = 3\<rparr>
     (step_command \<lparr>snap_case_id = 5, snap_state = FIX_PROPOSED, snap_version = 3\<rparr> CONFIRMED))"
  by (subst apply_transition_accepts_iff)
    (simp_all add: step_command_def step_actor_def actor_may_def evidence_ok_def confirm_roles_def)

text \<open>
  Every refusal is one of the module's declared errors, raised in a fixed precedence: a foreign
  case before a stale version before a missing edge before missing authority before missing
  evidence.
\<close>

theorem apply_transition_refusal:
  assumes "0 \<le> snap_version s" and "apply_transition s c = Inl e"
  shows "if snap_case_id s \<noteq> tc_case_id c then e = CaseIdentityMismatchError (snap_case_id s) (tc_case_id c)
    else if snap_version s \<noteq> tc_expected_version c
      then e = VersionConflictError (snap_case_id s) (tc_expected_version c) (snap_version s)
    else if tc_to_state c \<notin> allowed_transitions (snap_state s)
      then e = InvalidTransitionError (snap_state s) (tc_to_state c)
    else if \<not> actor_may (tc_actor c) (tc_to_state c) then \<exists>m. e = TransitionAuthorizationError m
    else \<not> evidence_ok c \<and> (\<exists>m. e = TransitionConstraintError m)"
  using assms validate_actor_cases [of c] validate_constraints_cases [of c]
  by (auto simp: apply_transition_def result_simps Let_def simp flip: validate_actor_ok_iff
      validate_constraints_ok_iff split: if_splits)

theorem apply_transition_refusal_witness:
  "apply_transition \<lparr>snap_case_id = 5, snap_state = NEW, snap_version = 0\<rparr>
     (step_command \<lparr>snap_case_id = 5, snap_state = NEW, snap_version = 0\<rparr> RESOLVED)
   = Inl (InvalidTransitionError NEW RESOLVED)"
proof -
  let ?s = "\<lparr>snap_case_id = 5, snap_state = NEW, snap_version = 0\<rparr>"
  have "\<not> is_ok (apply_transition ?s (step_command ?s RESOLVED))"
    by (simp add: apply_transition_def step_command_def)
  then obtain e where e: "apply_transition ?s (step_command ?s RESOLVED) = Inl e"
    by (cases "apply_transition ?s (step_command ?s RESOLVED)") auto
  have v: "0 \<le> snap_version ?s" by simp
  from apply_transition_refusal [OF v e] have "e = InvalidTransitionError NEW RESOLVED"
    by (simp add: step_command_def)
  with e show ?thesis by simp
qed

text \<open>
  C2. Human approval gates resolution: however a case that started as new came to be resolved or
  learned, the run of accepted commands contains a confirmation by a human holding an approver role
  with an approval record, after it a resolution by a human with a write role and a verification
  note, and no command of a model.
\<close>

theorem resolved_only_after_human_approval:
  assumes run: "run_commands s cs = Inr t" and new: "snap_state s = NEW"
    and final: "snap_state t \<in> {RESOLVED, LEARNED}"
  shows "\<exists>us c vs d ws. cs = us @ [c] @ vs @ [d] @ ws \<and>
      tc_to_state c = CONFIRMED \<and> kind (tc_actor c) = HUMAN \<and>
      roles (tc_actor c) \<inter> confirm_roles \<noteq> {} \<and> tc_approval_id c \<noteq> None \<and>
      tc_to_state d = RESOLVED \<and> kind (tc_actor d) = HUMAN \<and>
      roles (tc_actor d) \<inter> case_write_roles \<noteq> {} \<and> tc_verification_note d \<noteq> None \<and>
      (\<forall>x \<in> set cs. kind (tc_actor x) \<noteq> MODEL)"
proof -
  obtain ds ws u where cs: "cs = ds @ ws" and u: "run_commands s ds = Inr u"
    and res: "snap_state u = RESOLVED"
  proof (cases "snap_state t = RESOLVED")
    case True
    with run show ?thesis by (intro that [of cs "[]"]) simp_all
  next
    case False
    with final have lt: "snap_state t = LEARNED" by simp
    then have "snap_state t \<noteq> NEW" by simp
    from run_commands_last [OF run new this] obtain us c u where
      "cs = us @ [c]" "run_commands s us = Inr u" "snap_state t \<in> allowed_transitions (snap_state u)"
      by metis
    with lt show ?thesis by (intro that [of us "[c]" u]) (simp_all add: edge_into_learned)
  qed
  obtain es d v where ds: "ds = es @ [d]" and v: "run_commands s es = Inr v"
    and d: "tc_to_state d = RESOLVED" "actor_may (tc_actor d) RESOLVED" "evidence_ok d"
    and con: "snap_state v = CONFIRMED"
    using run_commands_last [OF u new] res
    by (metis case_state.distinct(11) edge_into_resolved)
  obtain us c w where es: "es = us @ [c]"
    and c: "tc_to_state c = CONFIRMED" "actor_may (tc_actor c) CONFIRMED" "evidence_ok c"
    using run_commands_last [OF v new] con by (metis case_state.distinct(9))
  have "cs = us @ [c] @ [] @ [d] @ ws" by (simp add: cs ds es)
  moreover have "\<forall>x \<in> set cs. kind (tc_actor x) \<noteq> MODEL"
    using run_commands_model_free [OF run] by blast
  ultimately show ?thesis
    using c d by (intro exI [of _ us] exI [of _ c] exI [of _ "[]"] exI [of _ d] exI [of _ ws])
      (simp add: actor_may_confirm actor_may_resolve evidence_ok_def)
qed

definition to_learned_path :: "case_state list" where
  "to_learned_path = [INVESTIGATING, DIAGNOSED, FIX_PROPOSED, CONFIRMED, RESOLVED]"

fun step_path :: "case_snapshot \<Rightarrow> case_state list \<Rightarrow> transition_command list" where
  "step_path s [] = []"
| "step_path s (x # xs) =
     step_command s x # step_path \<lparr>snap_case_id = snap_case_id s, snap_state = x,
       snap_version = snap_version s + 1\<rparr> xs"

theorem resolved_only_after_human_approval_witness:
  "\<exists>c \<in> set (step_path \<lparr>snap_case_id = 1, snap_state = NEW, snap_version = 0\<rparr> to_learned_path).
     tc_to_state c = CONFIRMED \<and> tc_approval_id c \<noteq> None"
proof -
  let ?s = "\<lparr>snap_case_id = 1, snap_state = NEW, snap_version = 0\<rparr>"
  have "run_commands ?s (step_path ?s to_learned_path) =
      Inr \<lparr>snap_case_id = 1, snap_state = RESOLVED, snap_version = 5\<rparr>"
    by (simp add: to_learned_path_def step_command_def step_actor_def apply_transition_def Let_def
        validate_actor_def validate_transition_constraints_def confirm_roles_def resolve_roles_def
        case_write_roles_def mk_case_snapshot_def)
  from resolved_only_after_human_approval [OF this] show ?thesis by fastforce
qed

text \<open>
  The state machine never traps a case: from every valid snapshot some run of at most six
  accepted commands ends in the final state, and that state admits no further command.
\<close>

theorem learned_always_reachable:
  assumes "0 \<le> snap_version s"
  shows "\<exists>cs t. length cs \<le> 6 \<and> run_commands s cs = Inr t \<and> snap_state t = LEARNED \<and>
    (\<forall>c. \<not> is_ok (apply_transition t c))"
proof -
  have "\<exists>cs t. length cs \<le> state_rank (snap_state s) \<and> run_commands s cs = Inr t \<and> snap_state t = LEARNED"
    using assms
  proof (induction "state_rank (snap_state s)" arbitrary: s rule: less_induct)
    case less
    show ?case
    proof (cases "snap_state s = LEARNED")
      case True
      then show ?thesis by (intro exI [of _ "[]"]) simp
    next
      case False
      let ?to = "next_state (snap_state s)"
      obtain r where r: "apply_transition s (step_command s ?to) = Inr r"
        "snap_state (out_snapshot r) = ?to" "0 \<le> snap_version (out_snapshot r)"
        using step_command_accepted [OF less.prems next_state_edge [OF False]] by blast
      have rank: "state_rank (snap_state (out_snapshot r)) < state_rank (snap_state s)"
        using next_state_rank [OF False] r(2) by simp
      obtain cs t where "length cs \<le> state_rank ?to" "run_commands (out_snapshot r) cs = Inr t"
        "snap_state t = LEARNED"
        using less.hyps [OF rank r(3)] r(2) by auto
      with r(1) rank r(2) show ?thesis
        by (intro exI [of _ "step_command s ?to # cs"] exI [of _ t]) simp
    qed
  qed
  then obtain cs t where cs: "length cs \<le> state_rank (snap_state s)" "run_commands s cs = Inr t"
    "snap_state t = LEARNED"
    by blast
  have "state_rank (snap_state s) \<le> 6" by (cases "snap_state s") simp_all
  with cs show ?thesis
    by (intro exI [of _ cs] exI [of _ t]) (auto simp: is_ok_iff dest: apply_transition_InrD(3))
qed

theorem learned_always_reachable_witness:
  "\<exists>cs t. length cs \<le> 6 \<and>
     run_commands \<lparr>snap_case_id = 7, snap_state = NEEDS_INFORMATION, snap_version = 2\<rparr> cs = Inr t \<and>
     snap_state t = LEARNED \<and> (\<forall>c. \<not> is_ok (apply_transition t c))"
  using learned_always_reachable
    [of "\<lparr>snap_case_id = 7, snap_state = NEEDS_INFORMATION, snap_version = 2\<rparr>"] by simp

end
