(* ===== verification/Database.thy ===== *)
theory Database
  imports Case_Domain
begin

text \<open>
  The PostgreSQL store the migrations under \<open>services/api/alembic/versions\<close> create: one record per
  row, one field of \<open>db\<close> per table (a list in insertion order), the transaction setting
  \<open>app.organization_id\<close> that the row-level-security policies read, and the queue of deferred
  constraint-trigger events. A state or severity column holds its text, as in the schema; a
  timestamp column holds an instant in microseconds; a column that a statement may set to NULL is
  an \<open>option\<close>. Text values are assumed to contain no NUL character.
\<close>

section \<open>Rows\<close>

record case_row =
  c_id :: uuid
  c_org :: uuid
  c_asset_id :: "uuid option"
  c_title :: string
  c_category :: "string option"
  c_severity :: string
  c_state :: string
  c_version :: int
  c_idempotency_key :: string
  c_request_sha256 :: string
  c_created_by :: "uuid option"
  c_correlation_id :: uuid
  c_created_at :: int
  c_updated_at :: int

record case_input_row =
  ci_id :: uuid
  ci_org :: uuid
  ci_case_id :: uuid
  ci_input_kind :: string
  ci_content_sha256 :: string
  ci_content :: json
  ci_created_by :: "uuid option"
  ci_correlation_id :: uuid
  ci_created_at :: int

record transition_row =
  t_id :: uuid
  t_org :: uuid
  t_case_id :: uuid
  t_from_state :: string
  t_to_state :: string
  t_version :: int
  t_actor_id :: uuid
  t_actor_kind :: string
  t_correlation_id :: uuid
  t_approval_id :: "uuid option"
  t_verification_note :: "string option"
  t_knowledge_item_id :: "uuid option"
  t_note :: "string option"
  t_occurred_at :: int

record event_row =
  e_id :: uuid
  e_org :: uuid
  e_case_id :: uuid
  e_transition_id :: "uuid option"
  e_event_type :: string
  e_aggregate_version :: int
  e_actor_id :: "uuid option"
  e_correlation_id :: uuid
  e_payload :: json
  e_occurred_at :: int

record outbox_row =
  o_id :: uuid
  o_org :: uuid
  o_case_id :: uuid
  o_case_event_id :: uuid
  o_event_type :: string
  o_aggregate_version :: int
  o_correlation_id :: uuid
  o_payload :: json
  o_available_at :: int
  o_published_at :: "int option"
  o_attempt_count :: int
  o_last_error :: "string option"
  o_locked_at :: "int option"
  o_locked_by :: "string option"
  o_created_at :: int

record inbox_row =
  i_id :: uuid
  i_org :: uuid
  i_consumer_name :: string
  i_event_id :: uuid
  i_payload_sha256 :: string
  i_processed_at :: int

record audit_row =
  a_id :: uuid
  a_org :: uuid
  a_actor_subject :: string
  a_action :: string
  a_correlation_id :: "uuid option"
  a_details :: json
  a_occurred_at :: int

record intent_row =
  u_id :: uuid
  u_artifact_id :: uuid
  u_org :: uuid
  u_case_id :: uuid
  u_artifact_kind :: string
  u_classification :: string
  u_storage_key :: string
  u_sha256 :: string
  u_byte_size :: int
  u_content_type :: string
  u_original_filename :: "string option"
  u_created_by :: "uuid option"
  u_correlation_id :: uuid
  u_expires_at :: int
  u_status :: string
  u_completed_at :: "int option"
  u_created_at :: int

record artifact_row =
  r_id :: uuid
  r_org :: uuid
  r_case_id :: uuid
  r_artifact_kind :: string
  r_classification :: string
  r_storage_key :: string
  r_sha256 :: string
  r_byte_size :: int
  r_content_type :: string
  r_original_filename :: "string option"
  r_encryption_key_reference :: string
  r_created_by :: "uuid option"
  r_retention_until :: int
  r_created_at :: int

record processing_row =
  p_id :: uuid
  p_org :: uuid
  p_artifact_id :: uuid
  p_attempt :: int
  p_state :: string
  p_processor :: string
  p_processor_version :: string
  p_failure_code :: "string option"
  p_result_summary :: json
  p_correlation_id :: uuid
  p_created_by :: "uuid option"
  p_occurred_at :: int

section \<open>The database\<close>

record db =
  app_organization_id :: "string option"
  db_organizations :: "uuid list"
  db_assets :: "(uuid \<times> uuid) list"
  db_cases :: "case_row list"
  db_case_inputs :: "case_input_row list"
  db_transitions :: "transition_row list"
  db_events :: "event_row list"
  db_outbox :: "outbox_row list"
  db_inbox :: "inbox_row list"
  db_audit :: "audit_row list"
  db_intents :: "intent_row list"
  db_artifacts :: "artifact_row list"
  db_processing :: "processing_row list"
  deferred_checks :: "(case_row option \<times> case_row) list"

text \<open>
  \<open>netops_current_organization_id()\<close>: the tenant the transaction is bound to; an absent or
  malformed setting is NULL.
\<close>

definition uuid_shape :: "string \<Rightarrow> bool" where
  "uuid_shape s = (
     let hex = (\<lambda>from n. list_all (\<lambda>c. hex_value c \<noteq> None) (take n (drop from s)));
         dash = (\<lambda>i. take 1 (drop i s) = ''-'')
     in length s = 36 \<and> hex 0 8 \<and> dash 8 \<and> hex 9 4 \<and> dash 13 \<and> hex 14 4 \<and> dash 18 \<and> hex 19 4
        \<and> dash 23 \<and> hex 24 12)"

definition netops_current_organization_id :: "string option \<Rightarrow> uuid option" where
  "netops_current_organization_id setting = (case setting of
     None \<Rightarrow> None
   | Some s \<Rightarrow> if uuid_shape s then uuid_parse s else None)"

definition current_org :: "db \<Rightarrow> uuid option" where
  "current_org d = netops_current_organization_id (app_organization_id d)"

text \<open>
  The policy \<open>tenant_isolation_<table>\<close>, the same on every tenant table: a statement sees
  (\<open>USING\<close>) and may write (\<open>WITH CHECK\<close>) only rows of the current organization.
\<close>

definition visible :: "db \<Rightarrow> ('r \<Rightarrow> uuid) \<Rightarrow> 'r list \<Rightarrow> 'r list" where
  "visible d org_of rows = filter (\<lambda>r. current_org d = Some (org_of r)) rows"

definition with_check :: "db \<Rightarrow> uuid \<Rightarrow> string \<Rightarrow> exn + unit" where
  "with_check d org table = raise_unless (current_org d = Some org) (RowSecurityError table)"

text \<open>Named constraints, checked in order; the first violated one is reported.\<close>

fun constraints :: "(bool \<times> string) list \<Rightarrow> exn + unit" where
  "constraints [] = Inr ()"
| "constraints (c # cs) = (if fst c then constraints cs else Inl (IntegrityError (snd c)))"

definition int4 :: "int \<Rightarrow> exn + unit" where
  "int4 v = raise_unless (- 2147483648 \<le> v \<and> v \<le> 2147483647) (DataError ''integer out of range'')"

definition btrim :: "string \<Rightarrow> string" where
  "btrim s = strip_of (\<lambda>c. c = CHR '' '') s"

section \<open>Facts\<close>

lemma constraints_Inr [simp, result_simps]:
  "constraints cs = Inr u \<longleftrightarrow> (\<forall>c \<in> set cs. fst c)"
  by (induction cs) auto

declare constraints.simps [simp del]

lemma int4_Inr [simp]: "int4 v = Inr u \<longleftrightarrow> - 2147483648 \<le> v \<and> v \<le> 2147483647"
  by (simp add: int4_def)

lemma with_check_Inr [simp]: "with_check d org table = Inr u \<longleftrightarrow> current_org d = Some org"
  by (simp add: with_check_def)

text \<open>The same facts as rewrites, for computing a statement that succeeds.\<close>

lemma int4_ok: "- 2147483648 \<le> v \<Longrightarrow> v \<le> 2147483647 \<Longrightarrow> int4 v = Inr ()"
  by simp

lemma with_check_ok: "current_org d = Some org \<Longrightarrow> with_check d org table = Inr ()"
  by simp

lemma constraints_ok: "(\<forall>c \<in> set cs. fst c) \<Longrightarrow> constraints cs = Inr ()"
  by simp

lemmas ok_rules = int4_ok with_check_ok constraints_ok

lemma visible_iff [simp]: "r \<in> set (visible d org_of rows) \<longleftrightarrow> r \<in> set rows \<and> current_org d = Some (org_of r)"
  by (auto simp: visible_def)

lemma hex_value_lower_hex: "is_lower_hex c \<Longrightarrow> hex_value c \<noteq> None"
  by (auto simp: is_lower_hex_def ascii_digit_def hex_value_def Let_def)

lemma uuid_shapeI:
  assumes "length a = 8" "length b = 4" "length c = 4" "length d = 4" "length e = 12"
    and "list_all is_lower_hex (a @ b @ c @ d @ e)"
  shows "uuid_shape (a @ ''-'' @ b @ ''-'' @ c @ ''-'' @ d @ ''-'' @ e)"
proof -
  have hex: "list_all (\<lambda>c. hex_value c \<noteq> None) xs" if "list_all is_lower_hex xs" for xs
    using that hex_value_lower_hex by (auto simp: list_all_iff)
  from assms(6) have "list_all is_lower_hex a" "list_all is_lower_hex b" "list_all is_lower_hex c"
    "list_all is_lower_hex d" "list_all is_lower_hex e" by simp_all
  note parts = this [THEN hex]
  from assms(1-5) show ?thesis
    by (simp only: uuid_shape_def Let_def) (simp add: parts del: not_None_eq)
qed

lemma uuid_shape_str [simp]: "uuid_shape (uuid_str u)"
proof -
  let ?h = "uuid_hex u"
  have "set (take 8 ?h @ take 4 (drop 8 ?h) @ take 4 (drop 12 ?h) @ take 4 (drop 16 ?h) @ drop 20 ?h)
      \<subseteq> set ?h"
    by (auto dest: in_set_takeD in_set_dropD)
  then have "list_all is_lower_hex
      (take 8 ?h @ take 4 (drop 8 ?h) @ take 4 (drop 12 ?h) @ take 4 (drop 16 ?h) @ drop 20 ?h)"
    unfolding list_all_iff by (meson subsetD uuid_hex_lower_hex)
  moreover have "length (take 8 ?h) = 8" "length (take 4 (drop 8 ?h)) = 4"
    "length (take 4 (drop 12 ?h)) = 4" "length (take 4 (drop 16 ?h)) = 4" "length (drop 20 ?h) = 12"
    by simp_all
  ultimately show ?thesis
    unfolding uuid_str_def Let_def by (intro uuid_shapeI)
qed

lemma current_org_bound [simp]:
  "app_organization_id d = Some (uuid_str u) \<Longrightarrow> current_org d = Some u"
  by (simp add: current_org_def netops_current_organization_id_def)

lemma btrim_Nil_iff: "btrim s = [] \<longleftrightarrow> (\<forall>c \<in> set s. c = CHR '' '')"
  by (simp add: btrim_def strip_of_def rstrip_of_def)

text \<open>Text that Python's \<open>strip\<close> does not empty is not blank for the schema either.\<close>

lemma not_blank_btrim: "\<not> blank s \<Longrightarrow> btrim s \<noteq> []"
proof -
  assume nb: "\<not> blank s"
  have "py_space (CHR '' '')" by (simp add: py_space_def)
  with nb show ?thesis unfolding btrim_Nil_iff blank_def list_all_iff by metis
qed

lemma length_btrim: "length (btrim s) \<le> length s"
proof -
  have "length (btrim s) \<le> length (dropWhile (\<lambda>c. c = CHR '' '') s)"
    unfolding btrim_def strip_of_def rstrip_of_def
    by (metis length_dropWhile_le length_rev)
  also have "\<dots> \<le> length s" by (rule length_dropWhile_le)
  finally show ?thesis .
qed

end
