(* ===== verification/Case_Schema.thy ===== *)
theory Case_Schema
  imports Database
begin

text \<open>
  The case tables of migrations \<open>20260715_01\<close>, \<open>20260715_02\<close> and \<open>20260716_06\<close>: what an
  \<open>INSERT\<close> or \<open>UPDATE\<close> by \<open>netops_app\<close> checks (row-level security, \<open>NOT NULL\<close>, \<open>CHECK\<close>, unique and
  foreign keys), the trigger functions, and the transaction boundary of \<open>core/database.py\<close> and
  \<open>core/tenant_context.py\<close>. A statement returns the new database or the error it raises; a raised
  error drops every change up to the enclosing savepoint or transaction. A transaction is one
  atomic step; what other transactions do between two of them is arbitrary.
\<close>

section \<open>Values\<close>

text \<open>
  \<open>CAST(:text AS jsonb)\<close> of text that \<open>json.dumps\<close> rendered: the non-finite floats Python writes and
  the NUL character are rejected.
\<close>

fun jsonb_ok :: "json \<Rightarrow> bool" where
  "jsonb_ok (JFloat r) = (r \<notin> {''NaN'', ''Infinity'', ''-Infinity''})"
| "jsonb_ok (JStr s) = (CHR 0x00 \<notin> set s)"
| "jsonb_ok (JArr xs) = list_all jsonb_ok xs"
| "jsonb_ok (JObj kvs) = list_all (\<lambda>kv. CHR 0x00 \<notin> set (fst kv) \<and> jsonb_ok (snd kv)) kvs"
| "jsonb_ok v = True"

definition jsonb_cast :: "json \<Rightarrow> exn + json" where
  "jsonb_cast v = (if jsonb_ok v then Inr v else Inl (DataError ''invalid input syntax for type json''))"

definition state_check :: "string \<Rightarrow> bool" where
  "state_check s = (s \<in> {''new'', ''investigating'', ''diagnosed'', ''fix_proposed'',
     ''needs_information'', ''confirmed'', ''resolved'', ''learned''})"

definition severity_check :: "string \<Rightarrow> bool" where
  "severity_check s = (s \<in> {''low'', ''medium'', ''high'', ''critical''})"

section \<open>Inserts\<close>

definition case_checks :: "case_row \<Rightarrow> (bool \<times> string) list" where
  "case_checks r =
    [(1 \<le> length (btrim (c_idempotency_key r)) \<and> length (btrim (c_idempotency_key r)) \<le> 255,
        ''ck_cases_idempotency_key''),
     (is_sha256 (c_request_sha256 r), ''ck_cases_request_sha256''),
     (severity_check (c_severity r), ''ck_cases_severity''),
     (state_check (c_state r), ''ck_cases_state''),
     (0 < length (btrim (c_title r)), ''ck_cases_title_not_blank''),
     (0 \<le> c_version r, ''ck_cases_version_non_negative'')]"

definition case_keys :: "db \<Rightarrow> case_row \<Rightarrow> (bool \<times> string) list" where
  "case_keys d r =
    [(\<forall>q \<in> set (db_cases d). c_id q \<noteq> c_id r, ''cases_pkey''),
     (c_org r \<in> set (db_organizations d), ''cases_organization_id_fkey''),
     (case c_asset_id r of None \<Rightarrow> True | Some a \<Rightarrow> (c_org r, a) \<in> set (db_assets d),
        ''cases_organization_id_asset_id_fkey'')]"

text \<open>
  \<open>INSERT INTO cases ... ON CONFLICT (organization_id, idempotency_key) DO NOTHING RETURNING ...\<close>:
  the returned row, or none when the key is taken.
\<close>

definition insert_case_row :: "case_row \<Rightarrow> db \<Rightarrow> exn + case_row option \<times> db" where
  "insert_case_row r d =
     bindE (int4 (c_version r)) (\<lambda>_.
     bindE (with_check d (c_org r) ''cases'') (\<lambda>_.
     bindE (constraints (case_checks r)) (\<lambda>_.
     if \<exists>q \<in> set (db_cases d). c_org q = c_org r \<and> c_idempotency_key q = c_idempotency_key r
     then Inr (None, d)
     else bindE (constraints (case_keys d r)) (\<lambda>_.
       Inr (Some r, d\<lparr>db_cases := db_cases d @ [r],
                       deferred_checks := deferred_checks d @ [(None, r)]\<rparr>)))))"

definition case_fk :: "db \<Rightarrow> uuid \<Rightarrow> uuid \<Rightarrow> bool" where
  "case_fk d org case_id = (\<exists>q \<in> set (db_cases d). c_org q = org \<and> c_id q = case_id)"

definition insert_case_input_row :: "case_input_row \<Rightarrow> db \<Rightarrow> exn + db" where
  "insert_case_input_row r d =
     bindE (jsonb_cast (ci_content r)) (\<lambda>_.
     bindE (with_check d (ci_org r) ''case_inputs'') (\<lambda>_.
     bindE (constraints
       [(is_sha256 (ci_content_sha256 r), ''ck_case_inputs_content_sha256''),
        (0 < length (btrim (ci_input_kind r)), ''ck_case_inputs_kind_not_blank''),
        (\<forall>q \<in> set (db_case_inputs d). ci_id q \<noteq> ci_id r, ''case_inputs_pkey''),
        (case_fk d (ci_org r) (ci_case_id r), ''case_inputs_organization_id_case_id_fkey'')]) (\<lambda>_.
     Inr (d\<lparr>db_case_inputs := db_case_inputs d @ [r]\<rparr>))))"

text \<open>The edge constraint \<open>ck_case_transitions_allowed_edge\<close>, as the schema spells it.\<close>

definition allowed_edge :: "string \<Rightarrow> string \<Rightarrow> bool" where
  "allowed_edge f t =
     ((f = ''new'' \<and> t = ''investigating'')
      \<or> (f = ''investigating'' \<and> t \<in> {''diagnosed'', ''needs_information''})
      \<or> (f = ''needs_information'' \<and> t = ''investigating'')
      \<or> (f = ''diagnosed'' \<and> t = ''fix_proposed'')
      \<or> (f = ''fix_proposed'' \<and> t = ''confirmed'')
      \<or> (f = ''confirmed'' \<and> t = ''resolved'')
      \<or> (f = ''resolved'' \<and> t = ''learned''))"

definition text_given :: "string option \<Rightarrow> bool" where
  "text_given v = (case v of None \<Rightarrow> False | Some s \<Rightarrow> 0 < length (btrim s))"

definition transition_checks :: "transition_row \<Rightarrow> (bool \<times> string) list" where
  "transition_checks r =
    [(t_actor_kind r \<in> {''human'', ''service''}, ''ck_case_transitions_actor_kind''),
     (allowed_edge (t_from_state r) (t_to_state r), ''ck_case_transitions_allowed_edge''),
     (t_to_state r \<noteq> ''confirmed'' \<or> t_actor_kind r = ''human'' \<and> t_approval_id r \<noteq> None,
        ''ck_case_transitions_confirmation''),
     (state_check (t_from_state r), ''ck_case_transitions_from_state''),
     (t_to_state r \<noteq> ''learned'' \<or> t_actor_kind r = ''service'' \<and> t_knowledge_item_id r \<noteq> None,
        ''ck_case_transitions_learning''),
     (t_to_state r \<noteq> ''needs_information'' \<or> text_given (t_note r),
        ''ck_case_transitions_needs_information''),
     (t_to_state r \<noteq> ''resolved'' \<or> t_actor_kind r = ''human'' \<and> text_given (t_verification_note r),
        ''ck_case_transitions_resolution''),
     (state_check (t_to_state r), ''ck_case_transitions_to_state''),
     (0 < t_version r, ''ck_case_transitions_version_positive'')]"

definition transition_keys :: "db \<Rightarrow> transition_row \<Rightarrow> (bool \<times> string) list" where
  "transition_keys d r =
    [(\<forall>q \<in> set (db_transitions d). t_id q \<noteq> t_id r, ''case_transitions_pkey''),
     (\<forall>q \<in> set (db_transitions d). \<not> (t_case_id q = t_case_id r \<and> t_version q = t_version r),
        ''uq_case_transitions_case_version''),
     (case_fk d (t_org r) (t_case_id r), ''case_transitions_organization_id_case_id_fkey'')]"

definition insert_transition_row :: "transition_row \<Rightarrow> db \<Rightarrow> exn + db" where
  "insert_transition_row r d =
     bindE (int4 (t_version r)) (\<lambda>_.
     bindE (with_check d (t_org r) ''case_transitions'') (\<lambda>_.
     bindE (constraints (transition_checks r)) (\<lambda>_.
     bindE (constraints (transition_keys d r)) (\<lambda>_.
     Inr (d\<lparr>db_transitions := db_transitions d @ [r]\<rparr>)))))"

text \<open>
  \<open>uq_case_events_case_type_version\<close> was dropped by migration \<open>20260716_06\<close>, which made
  \<open>(organization_id, transition_id)\<close> unique where the transition is given.
\<close>

definition event_keys :: "db \<Rightarrow> event_row \<Rightarrow> (bool \<times> string) list" where
  "event_keys d r =
    [(\<forall>q \<in> set (db_events d). e_id q \<noteq> e_id r, ''case_events_pkey''),
     (e_transition_id r = None \<or>
        (\<forall>q \<in> set (db_events d). \<not> (e_org q = e_org r \<and> e_transition_id q = e_transition_id r)),
        ''uq_case_events_transition_id''),
     (case_fk d (e_org r) (e_case_id r), ''case_events_organization_id_case_id_fkey''),
     (case e_transition_id r of None \<Rightarrow> True
      | Some t \<Rightarrow> \<exists>q \<in> set (db_transitions d). t_org q = e_org r \<and> t_id q = t,
        ''case_events_organization_id_transition_id_fkey'')]"

definition insert_event_row :: "event_row \<Rightarrow> db \<Rightarrow> exn + db" where
  "insert_event_row r d =
     bindE (jsonb_cast (e_payload r)) (\<lambda>_.
     bindE (int4 (e_aggregate_version r)) (\<lambda>_.
     bindE (with_check d (e_org r) ''case_events'') (\<lambda>_.
     bindE (constraints
       [(e_actor_id r \<noteq> None, ''case_events.actor_id not null''),
        (0 < length (btrim (e_event_type r)), ''ck_case_events_type_not_blank''),
        (0 \<le> e_aggregate_version r, ''ck_case_events_version_non_negative'')]) (\<lambda>_.
     bindE (constraints (event_keys d r)) (\<lambda>_.
     Inr (d\<lparr>db_events := db_events d @ [r]\<rparr>))))))"

definition outbox_checks :: "outbox_row \<Rightarrow> (bool \<times> string) list" where
  "outbox_checks r =
    [(0 \<le> o_attempt_count r, ''ck_outbox_events_attempt_non_negative''),
     (0 < length (btrim (o_event_type r)), ''ck_outbox_events_type_not_blank''),
     (0 \<le> o_aggregate_version r, ''ck_outbox_events_version_non_negative'')]"

definition outbox_keys :: "db \<Rightarrow> outbox_row \<Rightarrow> (bool \<times> string) list" where
  "outbox_keys d r =
    [(\<forall>q \<in> set (db_outbox d). o_id q \<noteq> o_id r, ''outbox_events_pkey''),
     (\<forall>q \<in> set (db_outbox d). o_case_event_id q \<noteq> o_case_event_id r, ''uq_outbox_events_case_event''),
     (case_fk d (o_org r) (o_case_id r), ''outbox_events_organization_id_case_id_fkey''),
     (\<exists>q \<in> set (db_events d). e_org q = o_org r \<and> e_id q = o_case_event_id r,
        ''outbox_events_organization_id_case_event_id_fkey'')]"

definition insert_outbox_row :: "outbox_row \<Rightarrow> db \<Rightarrow> exn + db" where
  "insert_outbox_row r d =
     bindE (jsonb_cast (o_payload r)) (\<lambda>_.
     bindE (int4 (o_aggregate_version r)) (\<lambda>_.
     bindE (with_check d (o_org r) ''outbox_events'') (\<lambda>_.
     bindE (constraints (outbox_checks r)) (\<lambda>_.
     bindE (constraints (outbox_keys d r)) (\<lambda>_.
     Inr (d\<lparr>db_outbox := db_outbox d @ [r]\<rparr>))))))"

definition insert_audit_row :: "audit_row \<Rightarrow> db \<Rightarrow> exn + db" where
  "insert_audit_row r d =
     bindE (with_check d (a_org r) ''audit_events'') (\<lambda>_.
     bindE (constraints
       [(\<forall>q \<in> set (db_audit d). a_id q \<noteq> a_id r, ''audit_events_pkey''),
        (a_org r \<in> set (db_organizations d), ''audit_events_organization_id_fkey'')]) (\<lambda>_.
     Inr (d\<lparr>db_audit := db_audit d @ [r]\<rparr>)))"

text \<open>
  \<open>INSERT INTO consumer_inbox ... ON CONFLICT (organization_id, consumer_name, event_id) DO NOTHING\<close>:
  whether a row was inserted.
\<close>

definition insert_inbox_row :: "inbox_row \<Rightarrow> db \<Rightarrow> exn + bool \<times> db" where
  "insert_inbox_row r d =
     bindE (with_check d (i_org r) ''consumer_inbox'') (\<lambda>_.
     bindE (constraints
       [(0 < length (btrim (i_consumer_name r)), ''ck_consumer_inbox_consumer_not_blank''),
        (is_sha256 (i_payload_sha256 r), ''ck_consumer_inbox_payload_sha256'')]) (\<lambda>_.
     if \<exists>q \<in> set (db_inbox d).
          i_org q = i_org r \<and> i_consumer_name q = i_consumer_name r \<and> i_event_id q = i_event_id r
     then Inr (False, d)
     else bindE (constraints
       [(\<forall>q \<in> set (db_inbox d). i_id q \<noteq> i_id r, ''consumer_inbox_pkey''),
        (i_org r \<in> set (db_organizations d), ''consumer_inbox_organization_id_fkey'')]) (\<lambda>_.
       Inr (True, d\<lparr>db_inbox := db_inbox d @ [r]\<rparr>))))"

section \<open>Updates and triggers\<close>

text \<open>
  \<open>netops_guard_outbox_event_mutation\<close>, the \<open>BEFORE UPDATE\<close> trigger of \<open>outbox_events\<close> (the
  application role has no \<open>DELETE\<close> on it).
\<close>

definition guard_outbox_event_mutation :: "outbox_row \<Rightarrow> outbox_row \<Rightarrow> exn + outbox_row" where
  "guard_outbox_event_mutation old new =
     (if o_id new \<noteq> o_id old \<or> o_org new \<noteq> o_org old \<or> o_case_id new \<noteq> o_case_id old
         \<or> o_case_event_id new \<noteq> o_case_event_id old \<or> o_event_type new \<noteq> o_event_type old
         \<or> o_aggregate_version new \<noteq> o_aggregate_version old
         \<or> o_correlation_id new \<noteq> o_correlation_id old \<or> o_payload new \<noteq> o_payload old
         \<or> o_created_at new \<noteq> o_created_at old
      then Inl (DatabaseRaise ''outbox business fields are immutable'')
      else if o_attempt_count new < o_attempt_count old
      then Inl (DatabaseRaise ''outbox attempt count cannot decrease'')
      else if o_published_at old \<noteq> None \<and> o_published_at new \<noteq> o_published_at old
      then Inl (DatabaseRaise ''published outbox event cannot be unpublished or republished'')
      else Inr new)"

text \<open>
  \<open>UPDATE outbox_events SET ... WHERE p\<close>: every visible row that \<open>p\<close> selects goes through the
  trigger, the policy and the checks; the result has the updated rows.
\<close>

definition update_outbox_row :: "db \<Rightarrow> (outbox_row \<Rightarrow> bool) \<Rightarrow> (outbox_row \<Rightarrow> outbox_row) \<Rightarrow>
    outbox_row \<Rightarrow> exn + outbox_row" where
  "update_outbox_row d p f r =
     (if current_org d = Some (o_org r) \<and> p r
      then bindE (int4 (o_attempt_count (f r))) (\<lambda>_.
           bindE (guard_outbox_event_mutation r (f r)) (\<lambda>new.
           bindE (with_check d (o_org new) ''outbox_events'') (\<lambda>_.
           bindE (constraints (outbox_checks new)) (\<lambda>_. Inr new))))
      else Inr r)"

definition update_outbox ::
  "(outbox_row \<Rightarrow> bool) \<Rightarrow> (outbox_row \<Rightarrow> outbox_row) \<Rightarrow> db \<Rightarrow> exn + outbox_row list \<times> db" where
  "update_outbox p f d =
     bindE (traverseE (update_outbox_row d p f) (db_outbox d)) (\<lambda>rows.
     Inr (map f (filter p (visible d o_org (db_outbox d))), d\<lparr>db_outbox := rows\<rparr>))"

text \<open>
  \<open>UPDATE cases SET state, version, updated_at WHERE ... RETURNING ...\<close>; at most one row has the
  primary key. Every updated row queues the deferred trigger.
\<close>

definition update_case_version ::
  "uuid \<Rightarrow> uuid \<Rightarrow> int \<Rightarrow> string \<Rightarrow> int \<Rightarrow> int \<Rightarrow> db \<Rightarrow> exn + case_row option \<times> db" where
  "update_case_version org case_id expected state version updated_at d =
     bindE (int4 version) (\<lambda>_.
     case find_row (\<lambda>r. c_org r = org \<and> c_id r = case_id \<and> c_version r = expected)
            (visible d c_org (db_cases d)) of
       None \<Rightarrow> Inr (None, d)
     | Some old \<Rightarrow>
         let new = old\<lparr>c_state := state, c_version := version, c_updated_at := updated_at\<rparr> in
         bindE (with_check d (c_org new) ''cases'') (\<lambda>_.
         bindE (constraints (case_checks new)) (\<lambda>_.
         Inr (Some new, d\<lparr>db_cases := map (\<lambda>r. if c_id r = case_id then new else r) (db_cases d),
                           deferred_checks := deferred_checks d @ [(Some old, new)]\<rparr>))))"

text \<open>
  \<open>netops_assert_case_projection_history\<close>, the deferred constraint trigger of \<open>cases\<close>. Its
  queries see what the committing transaction sees.
\<close>

definition creation_history :: "db \<Rightarrow> case_row \<Rightarrow> bool" where
  "creation_history d new \<longleftrightarrow>
     (\<exists>event \<in> set (visible d e_org (db_events d)). \<exists>outbox \<in> set (visible d o_org (db_outbox d)).
        o_org outbox = e_org event \<and> o_case_event_id outbox = e_id event
        \<and> e_org event = c_org new \<and> e_case_id event = c_id new
        \<and> e_event_type event = ''case.created.v1'' \<and> e_aggregate_version event = 0
        \<and> e_transition_id event = None \<and> o_case_id outbox = c_id new
        \<and> o_aggregate_version outbox = 0 \<and> o_event_type outbox = e_event_type event)"

definition transition_history :: "db \<Rightarrow> case_row \<Rightarrow> case_row \<Rightarrow> bool" where
  "transition_history d old new \<longleftrightarrow>
     (\<exists>transition \<in> set (visible d t_org (db_transitions d)).
      \<exists>event \<in> set (visible d e_org (db_events d)). \<exists>outbox \<in> set (visible d o_org (db_outbox d)).
        e_org event = t_org transition \<and> e_case_id event = t_case_id transition
        \<and> e_transition_id event = Some (t_id transition)
        \<and> o_org outbox = e_org event \<and> o_case_event_id outbox = e_id event
        \<and> t_org transition = c_org new \<and> t_case_id transition = c_id new
        \<and> t_from_state transition = c_state old \<and> t_to_state transition = c_state new
        \<and> t_version transition = c_version new \<and> e_aggregate_version event = c_version new
        \<and> o_case_id outbox = c_id new \<and> o_aggregate_version outbox = c_version new
        \<and> o_event_type outbox = e_event_type event)"

fun assert_case_projection_history :: "db \<Rightarrow> case_row option \<times> case_row \<Rightarrow> exn + unit" where
  "assert_case_projection_history d (None, new) =
     (if c_state new \<noteq> ''new'' \<or> c_version new \<noteq> 0
      then Inl (IntegrityError ''new case projection must begin at new version 0'')
      else if \<not> creation_history d new
      then Inl (IntegrityError ''case creation requires an immutable creation event and outbox row'')
      else Inr ())"
| "assert_case_projection_history d (Some old, new) =
     (if (c_state new \<noteq> c_state old) \<noteq> (c_version new \<noteq> c_version old)
      then Inl (IntegrityError ''case state and version must change together'')
      else if c_state new \<noteq> c_state old
      then if c_version new \<noteq> c_version old + 1
           then Inl (IntegrityError ''case version must advance exactly once per transition'')
           else if \<not> transition_history d old new
           then Inl (IntegrityError
             ''case projection transition requires matching immutable history and outbox'')
           else Inr ()
      else Inr ())"

section \<open>Transactions\<close>

text \<open>\<open>COMMIT\<close> runs the queued deferred triggers; the first that raises aborts the transaction.\<close>

definition commit :: "db \<Rightarrow> exn + db" where
  "commit d = bindE (traverseE (assert_case_projection_history d) (deferred_checks d))
     (\<lambda>_. Inr (d\<lparr>deferred_checks := []\<rparr>))"

text \<open>
  \<open>with tenant_transaction(connection, organization_id)\<close>: \<open>BEGIN\<close>, \<open>set_config(..., true)\<close>, the
  block, then \<open>COMMIT\<close>, or \<open>ROLLBACK\<close> when the block raises. The setting is local to the
  transaction. The result is what the block returned or raised, and the database afterwards.
\<close>

definition tenant_transaction :: "uuid \<Rightarrow> (db \<Rightarrow> exn + 'a \<times> db) \<Rightarrow> db \<Rightarrow> (exn + 'a) \<times> db" where
  "tenant_transaction org body d =
     (case bindE (body (d\<lparr>app_organization_id := Some (uuid_str org)\<rparr>))
             (\<lambda>(x, d2). bindE (commit d2) (\<lambda>d3. Inr (x, d3))) of
        Inl e \<Rightarrow> (Inl e, d)
      | Inr (x, d3) \<Rightarrow> (Inr x, d3\<lparr>app_organization_id := app_organization_id d\<rparr>))"

text \<open>\<open>TenantDatabase.tenant_connection\<close>: reads the setting back before it yields.\<close>

definition tenant_connection :: "uuid \<Rightarrow> (db \<Rightarrow> exn + 'a \<times> db) \<Rightarrow> db \<Rightarrow> (exn + 'a) \<times> db" where
  "tenant_connection org body = tenant_transaction org (\<lambda>d.
     if app_organization_id d \<noteq> Some (uuid_str org)
     then Inl (TenantContextError
       ''PostgreSQL tenant context was not bound to the verified organization.'')
     else body d)"

end
