(* ===== verification/Artifact_Schema.thy ===== *)
theory Artifact_Schema
  imports Case_Schema
begin

text \<open>
  The artifact tables of migrations \<open>20260716_03\<close> (evidence metadata), \<open>20260716_04\<close> (upload intents)
  and \<open>20260716_05\<close> (the processing ledger and its transition trigger), as what an \<open>INSERT\<close> or
  \<open>UPDATE\<close> by \<open>netops_app\<close> checks. An unnamed \<open>CHECK\<close> carries the name of its column; which of several
  violated checks PostgreSQL reports first does not matter to the application.
\<close>

section \<open>Values\<close>

definition int8 :: "int \<Rightarrow> exn + unit" where
  "int8 v = raise_unless (- 9223372036854775808 \<le> v \<and> v \<le> 9223372036854775807)
     (DataError ''bigint out of range'')"

text \<open>
  \<open>result_summary::text\<close>: PostgreSQL's rendering of a \<open>jsonb\<close> value, up to the order and repetition
  of keys. Only its length in bytes is used.
\<close>

definition jsonb_escape :: "char \<Rightarrow> string" where
  "jsonb_escape c = (let n = (of_char c :: nat) in if 127 \<le> n then [c] else json_escape c)"

fun jsonb_text :: "json \<Rightarrow> string" where
  "jsonb_text (JStr s) = CHR 0x22 # concat (map jsonb_escape s) @ [CHR 0x22]"
| "jsonb_text (JArr xs) = ''['' @ join '', '' (map jsonb_text xs) @ '']''"
| "jsonb_text (JObj kvs) = ''{'' @ join '', ''
     (map (\<lambda>kv. CHR 0x22 # concat (map jsonb_escape (fst kv)) @ [CHR 0x22] @ '': '' @ jsonb_text (snd kv)) kvs)
     @ ''}''"
| "jsonb_text v = json_dumps v"

definition is_object :: "json \<Rightarrow> bool" where
  "is_object v = (case v of JObj _ \<Rightarrow> True | _ \<Rightarrow> False)"

text \<open>\<open>^[a-z0-9][a-z0-9_.-]{0,127}$\<close>, the pattern of \<open>failure_code\<close>.\<close>

definition ledger_code_char :: "char \<Rightarrow> bool" where
  "ledger_code_char c \<longleftrightarrow> ascii_lower c \<or> ascii_digit c \<or> c \<in> {CHR ''_'', CHR ''.'', CHR ''-''}"

definition ledger_code :: "string \<Rightarrow> bool" where
  "ledger_code s = (case s of [] \<Rightarrow> False | c # cs \<Rightarrow>
     (ascii_lower c \<or> ascii_digit c) \<and> length cs \<le> 127 \<and> list_all ledger_code_char cs)"

section \<open>Upload intents\<close>

definition intent_checks :: "intent_row \<Rightarrow> (bool \<times> string) list" where
  "intent_checks r =
    [(u_artifact_kind r \<in> {''network-configuration'', ''incident-audio''}, ''artifact_upload_intents_artifact_kind_check''),
     (u_classification r = ''raw'', ''artifact_upload_intents_classification_check''),
     (is_sha256 (u_sha256 r), ''artifact_upload_intents_sha256_check''),
     (0 < u_byte_size r \<and> u_byte_size r \<le> 104857600, ''artifact_upload_intents_byte_size_check''),
     (u_created_at r \<le> u_expires_at r, ''artifact_upload_intents_expires_at_check''),
     (u_status r \<in> {''pending'', ''completed''}, ''artifact_upload_intents_status_check''),
     (u_status r = ''pending'' \<and> u_completed_at r = None \<or> u_status r = ''completed'' \<and> u_completed_at r \<noteq> None,
        ''artifact_upload_intents_completed_at_check'')]"

definition intent_keys :: "db \<Rightarrow> intent_row \<Rightarrow> (bool \<times> string) list" where
  "intent_keys d r =
    [(\<forall>q \<in> set (db_intents d). u_id q \<noteq> u_id r, ''artifact_upload_intents_pkey''),
     (\<forall>q \<in> set (db_intents d). u_artifact_id q \<noteq> u_artifact_id r, ''artifact_upload_intents_artifact_id_key''),
     (\<forall>q \<in> set (db_intents d). \<not> (u_org q = u_org r \<and> u_storage_key q = u_storage_key r),
        ''uq_artifact_upload_intents_storage_key''),
     (u_org r \<in> set (db_organizations d), ''artifact_upload_intents_organization_id_fkey''),
     (case_fk d (u_org r) (u_case_id r), ''artifact_upload_intents_organization_id_case_id_fkey'')]"

definition insert_intent_row :: "intent_row \<Rightarrow> db \<Rightarrow> exn + db" where
  "insert_intent_row r d =
     bindE (int8 (u_byte_size r)) (\<lambda>_.
     bindE (with_check d (u_org r) ''artifact_upload_intents'') (\<lambda>_.
     bindE (constraints (intent_checks r)) (\<lambda>_.
     bindE (constraints (intent_keys d r)) (\<lambda>_.
     Inr (d\<lparr>db_intents := db_intents d @ [r]\<rparr>)))))"

text \<open>
  \<open>UPDATE artifact_upload_intents SET status = 'completed', completed_at = ...
    WHERE id = ... AND status = 'pending'\<close>
\<close>

definition complete_intent_row :: "db \<Rightarrow> uuid \<Rightarrow> int \<Rightarrow> intent_row \<Rightarrow> exn + intent_row" where
  "complete_intent_row d intent_id completed_at r =
     (if current_org d = Some (u_org r) \<and> u_id r = intent_id \<and> u_status r = ''pending''
      then let new = r\<lparr>u_status := ''completed'', u_completed_at := Some completed_at\<rparr> in
        bindE (with_check d (u_org new) ''artifact_upload_intents'') (\<lambda>_.
        bindE (constraints (intent_checks new)) (\<lambda>_. Inr new))
      else Inr r)"

definition mark_intent_completed :: "uuid \<Rightarrow> int \<Rightarrow> db \<Rightarrow> exn + db" where
  "mark_intent_completed intent_id completed_at d =
     bindE (traverseE (complete_intent_row d intent_id completed_at) (db_intents d)) (\<lambda>rows.
     Inr (d\<lparr>db_intents := rows\<rparr>))"

section \<open>Evidence\<close>

definition artifact_checks :: "artifact_row \<Rightarrow> (bool \<times> string) list" where
  "artifact_checks r =
    [(0 \<le> r_byte_size r, ''ck_artifacts_byte_size_non_negative''),
     (r_classification r \<in> {''raw'', ''redacted'', ''derived''}, ''ck_artifacts_classification''),
     (0 < length (btrim (r_content_type r)), ''ck_artifacts_content_type_not_blank''),
     (0 < length (btrim (r_encryption_key_reference r)), ''ck_artifacts_encryption_key_reference_not_blank''),
     (0 < length (btrim (r_artifact_kind r)), ''ck_artifacts_kind_not_blank''),
     (r_created_at r \<le> r_retention_until r, ''ck_artifacts_retention_not_before_creation''),
     (is_sha256 (r_sha256 r), ''ck_artifacts_sha256''),
     (0 < length (btrim (r_storage_key r)), ''ck_artifacts_storage_key_not_blank'')]"

definition artifact_keys :: "db \<Rightarrow> artifact_row \<Rightarrow> (bool \<times> string) list" where
  "artifact_keys d r =
    [(\<forall>q \<in> set (db_artifacts d). r_id q \<noteq> r_id r, ''artifacts_pkey''),
     (\<forall>q \<in> set (db_artifacts d). \<not> (r_org q = r_org r \<and> r_storage_key q = r_storage_key r),
        ''uq_artifacts_organization_storage_key''),
     (r_org r \<in> set (db_organizations d), ''artifacts_organization_id_fkey''),
     (case_fk d (r_org r) (r_case_id r), ''artifacts_organization_id_case_id_fkey'')]"

definition insert_artifact_row :: "artifact_row \<Rightarrow> db \<Rightarrow> exn + db" where
  "insert_artifact_row r d =
     bindE (int8 (r_byte_size r)) (\<lambda>_.
     bindE (with_check d (r_org r) ''artifacts'') (\<lambda>_.
     bindE (constraints (artifact_checks r)) (\<lambda>_.
     bindE (constraints (artifact_keys d r)) (\<lambda>_.
     Inr (d\<lparr>db_artifacts := db_artifacts d @ [r]\<rparr>)))))"

section \<open>The processing ledger\<close>

text \<open>
  \<open>netops_validate_artifact_processing_event\<close>, the \<open>BEFORE INSERT\<close> trigger. Its queries run with the
  rights of the caller, so they see the rows of the bound organization.
\<close>

definition ledger_rows :: "db \<Rightarrow> uuid \<Rightarrow> processing_row list" where
  "ledger_rows d artifact_id =
     filter (\<lambda>q. p_artifact_id q = artifact_id) (visible d p_org (db_processing d))"

definition highest_attempt :: "processing_row list \<Rightarrow> int option" where
  "highest_attempt rows = (case map p_attempt rows of [] \<Rightarrow> None | a # rest \<Rightarrow> Some (fold max rest a))"

text \<open>\<open>ORDER BY occurred_at DESC, id DESC\<close>\<close>

definition latest_first :: "processing_row \<Rightarrow> processing_row \<Rightarrow> bool" where
  "latest_first a b \<longleftrightarrow>
     p_occurred_at b < p_occurred_at a \<or> p_occurred_at a = p_occurred_at b \<and> p_id b \<le> p_id a"

definition prior_state :: "processing_row list \<Rightarrow> int \<Rightarrow> string option" where
  "prior_state rows attempt =
     (case sort_by latest_first (filter (\<lambda>q. p_attempt q = attempt) rows) of [] \<Rightarrow> None | q # _ \<Rightarrow> Some (p_state q))"

definition processing_edge :: "string option \<Rightarrow> string \<Rightarrow> bool" where
  "processing_edge prior to_state \<longleftrightarrow>
     to_state = ''verified'' \<and> prior = Some ''quarantined''
     \<or> to_state = ''redacted'' \<and> prior = Some ''verified''
     \<or> to_state = ''failed'' \<and> prior \<in> {Some ''quarantined'', Some ''verified''}"

definition validate_artifact_processing_event :: "db \<Rightarrow> processing_row \<Rightarrow> exn + unit" where
  "validate_artifact_processing_event d new =
     (let rows = ledger_rows d (p_artifact_id new); highest = highest_attempt rows in
      if p_state new = ''quarantined'' then
        (case highest of
           None \<Rightarrow> raise_unless (p_attempt new = 1) (DatabaseRaise ''first artifact processing attempt must be 1'')
         | Some h \<Rightarrow> raise_unless (p_attempt new = h + 1)
             (DatabaseRaise ''new artifact processing attempts must increment by one''))
      else if highest \<noteq> Some (p_attempt new)
      then Inl (DatabaseRaise ''artifact processing state requires an active quarantined attempt'')
      else raise_unless (processing_edge (prior_state rows (p_attempt new)) (p_state new))
        (DatabaseRaise ''invalid artifact processing transition''))"

definition processing_checks :: "processing_row \<Rightarrow> (bool \<times> string) list" where
  "processing_checks r =
    [(1 \<le> p_attempt r, ''ck_artifact_processing_events_attempt_positive''),
     (case p_failure_code r of None \<Rightarrow> True | Some c \<Rightarrow> ledger_code c, ''ck_artifact_processing_events_failure_code''),
     ((p_state r = ''failed'') = (p_failure_code r \<noteq> None), ''ck_artifact_processing_events_failure_code_state''),
     (1 \<le> length (btrim (p_processor r)) \<and> length (btrim (p_processor r)) \<le> 128,
        ''ck_artifact_processing_events_processor''),
     (1 \<le> length (btrim (p_processor_version r)) \<and> length (btrim (p_processor_version r)) \<le> 128,
        ''ck_artifact_processing_events_processor_version''),
     (is_object (p_result_summary r) \<and> utf8_length (jsonb_text (p_result_summary r)) \<le> 8192,
        ''ck_artifact_processing_events_result_summary''),
     (p_state r \<in> {''quarantined'', ''verified'', ''redacted'', ''failed''}, ''ck_artifact_processing_events_state'')]"

definition processing_keys :: "db \<Rightarrow> processing_row \<Rightarrow> (bool \<times> string) list" where
  "processing_keys d r =
    [(\<forall>q \<in> set (db_processing d). p_id q \<noteq> p_id r, ''artifact_processing_events_pkey''),
     (\<forall>q \<in> set (db_processing d). \<not> (p_artifact_id q = p_artifact_id r \<and> p_attempt q = p_attempt r \<and> p_state q = p_state r),
        ''uq_artifact_processing_events_state_once''),
     (p_org r \<in> set (db_organizations d), ''artifact_processing_events_organization_id_fkey''),
     (\<exists>q \<in> set (db_artifacts d). r_org q = p_org r \<and> r_id q = p_artifact_id r,
        ''artifact_processing_events_organization_id_artifact_id_fkey'')]"

definition insert_processing_row :: "processing_row \<Rightarrow> db \<Rightarrow> exn + db" where
  "insert_processing_row r d =
     bindE (jsonb_cast (p_result_summary r)) (\<lambda>_.
     bindE (int4 (p_attempt r)) (\<lambda>_.
     bindE (validate_artifact_processing_event d r) (\<lambda>_.
     bindE (with_check d (p_org r) ''artifact_processing_events'') (\<lambda>_.
     bindE (constraints (processing_checks r)) (\<lambda>_.
     bindE (constraints (processing_keys d r)) (\<lambda>_.
     Inr (d\<lparr>db_processing := db_processing d @ [r]\<rparr>)))))))"

end
