(* ===== verification/Hashing.thy ===== *)
theory Hashing
  imports Py_Text "HOL-Library.Word"
begin

text \<open>
  \<open>hashlib.sha256(...).hexdigest()\<close> and \<open>str.encode("utf-8")\<close> of the standard library: FIPS 180-4
  SHA-256 over lists of 8-bit words, on 32-bit words with wrap-around addition. The digests the
  program compares and stores are computed with it, so no property rests on an assumed hash.
\<close>

type_synonym byte = "8 word"

definition byte_of :: "nat \<Rightarrow> byte" where
  "byte_of n = of_nat n"

definition utf8_char :: "char \<Rightarrow> byte list" where
  "utf8_char c = (let n = (of_char c :: nat) in
     if n < 128 then [byte_of n] else [byte_of (192 + n div 64), byte_of (128 + n mod 64)])"

definition utf8 :: "string \<Rightarrow> byte list" where
  "utf8 s = concat (map utf8_char s)"

text \<open>The round constants: the first 32 bits of the fractional parts of the cube roots of the first 64 primes.\<close>

definition sha_k :: "32 word list" where
  "sha_k = [
    1116352408, 1899447441, 3049323471, 3921009573, 961987163, 1508970993, 2453635748, 2870763221,
    3624381080, 310598401, 607225278, 1426881987, 1925078388, 2162078206, 2614888103, 3248222580,
    3835390401, 4022224774, 264347078, 604807628, 770255983, 1249150122, 1555081692, 1996064986,
    2554220882, 2821834349, 2952996808, 3210313671, 3336571891, 3584528711, 113926993, 338241895,
    666307205, 773529912, 1294757372, 1396182291, 1695183700, 1986661051, 2177026350, 2456956037,
    2730485921, 2820302411, 3259730800, 3345764771, 3516065817, 3600352804, 4094571909, 275423344,
    430227734, 506948616, 659060556, 883997877, 958139571, 1322822218, 1537002063, 1747873779,
    1955562222, 2024104815, 2227730452, 2361852424, 2428436474, 2756734187, 3204031479, 3329325298]"

type_synonym sha_state =
  "32 word \<times> 32 word \<times> 32 word \<times> 32 word \<times> 32 word \<times> 32 word \<times> 32 word \<times> 32 word"

definition sha_init :: sha_state where
  "sha_init = (1779033703, 3144134277, 1013904242, 2773480762, 1359893119, 2600822924, 528734635,
     1541459225)"

definition be32 :: "byte list \<Rightarrow> 32 word" where
  "be32 bs = fold (\<lambda>b w. push_bit 8 w + ucast b) bs 0"

fun be_words :: "nat \<Rightarrow> byte list \<Rightarrow> 32 word list" where
  "be_words 0 bs = []"
| "be_words (Suc n) bs = be32 (take 4 bs) # be_words n (drop 4 bs)"

definition small_sigma0 :: "32 word \<Rightarrow> 32 word" where
  "small_sigma0 x = xor (xor (word_rotr 7 x) (word_rotr 18 x)) (drop_bit 3 x)"

definition small_sigma1 :: "32 word \<Rightarrow> 32 word" where
  "small_sigma1 x = xor (xor (word_rotr 17 x) (word_rotr 19 x)) (drop_bit 10 x)"

definition big_sigma0 :: "32 word \<Rightarrow> 32 word" where
  "big_sigma0 x = xor (xor (word_rotr 2 x) (word_rotr 13 x)) (word_rotr 22 x)"

definition big_sigma1 :: "32 word \<Rightarrow> 32 word" where
  "big_sigma1 x = xor (xor (word_rotr 6 x) (word_rotr 11 x)) (word_rotr 25 x)"

text \<open>The message schedule, newest word first.\<close>

fun sha_schedule :: "nat \<Rightarrow> 32 word list \<Rightarrow> 32 word list" where
  "sha_schedule 0 ws = ws"
| "sha_schedule (Suc n) ws =
     sha_schedule n ((small_sigma1 (ws ! 1) + ws ! 6 + small_sigma0 (ws ! 14) + ws ! 15) # ws)"

definition sha_round :: "32 word \<times> 32 word \<Rightarrow> sha_state \<Rightarrow> sha_state" where
  "sha_round kw = (\<lambda>(a, b, c, d, e, f, g, h).
     let t1 = h + big_sigma1 e + xor (and e f) (and (not e) g) + fst kw + snd kw;
         t2 = big_sigma0 a + xor (xor (and a b) (and a c)) (and b c)
     in (t1 + t2, a, b, c, d + t1, e, f, g))"

definition sha_block :: "byte list \<Rightarrow> sha_state \<Rightarrow> sha_state" where
  "sha_block bs = (\<lambda>(a, b, c, d, e, f, g, h).
     let ws = rev (sha_schedule 48 (rev (be_words 16 bs)));
         (a', b', c', d', e', f', g', h') = fold sha_round (zip sha_k ws) (a, b, c, d, e, f, g, h)
     in (a + a', b + b', c + c', d + d', e + e', f + f', g + g', h + h'))"

fun sha_blocks :: "nat \<Rightarrow> byte list \<Rightarrow> sha_state \<Rightarrow> sha_state" where
  "sha_blocks 0 bs st = st"
| "sha_blocks (Suc n) bs st = sha_blocks n (drop 64 bs) (sha_block (take 64 bs) st)"

definition sha_pad :: "byte list \<Rightarrow> byte list" where
  "sha_pad m = (let n = length m in
     m @ [0x80] @ replicate ((119 - n mod 64) mod 64) 0 @
     map (\<lambda>i. ucast (drop_bit (8 * i) (of_nat (8 * n) :: 64 word))) (rev [0..<8]))"

definition sha256 :: "byte list \<Rightarrow> string" where
  "sha256 m = (let p = sha_pad m;
      (a, b, c, d, e, f, g, h) = sha_blocks (length p div 64) p sha_init
    in concat (map (\<lambda>w. hex_pad 8 (unat w)) [a, b, c, d, e, f, g, h]))"

section \<open>Facts\<close>

text \<open>A digest is 64 lower-case hexadecimal characters, whatever was hashed.\<close>

lemma sha256_length [simp]: "length (sha256 m) = 64"
  by (simp add: sha256_def Let_def split: prod.splits)

lemma sha256_lower_hex: "list_all is_lower_hex (sha256 m)"
proof -
  have "list_all is_lower_hex (hex_pad 8 n)" for n
    by (auto simp: list_all_iff dest: hex_pad_lower_hex)
  then show ?thesis
    by (simp add: sha256_def Let_def split: prod.splits)
qed

end
