(* ===== verification/Case_Store.thy ===== *)
theory Case_Store
  imports Case_Schema Hashing
begin

text \<open>
  \<open>services/api/netops_api/application/cases.py\<close>: the commands and read models, the
  \<open>TenantCaseRepository\<close> over the tables of \<open>Case_Schema\<close>, and \<open>CaseService\<close> over the
  \<open>CasePersistence\<close> port. A repository method is a function of the database; the identifiers it draws
  with \<open>uuid4()\<close> are its first arguments.
\<close>

section \<open>Commands\<close>

record case_input_command =
  in_input_id :: uuid
  in_input_kind :: string
  in_content_sha256 :: string
  in_content :: json

definition mk_case_input_command :: "case_input_command \<Rightarrow> exn + case_input_command" where
  "mk_case_input_command c =
     (if blank (in_input_kind c) \<or> length (in_input_kind c) > 100
      then Inl (ValueError ''input_kind must contain 1 to 100 non-blank characters.'')
      else if \<not> is_sha256 (in_content_sha256 c)
      then Inl (ValueError ''content_sha256 must be a lower-case SHA-256 hex digest.'')
      else Inr c)"

record create_case_command =
  cc_case_id :: uuid
  cc_event_id :: uuid
  cc_idempotency_key :: string
  cc_title :: string
  cc_category :: "string option"
  cc_severity :: string
  cc_asset_id :: "uuid option"
  cc_actor :: actor
  cc_correlation_id :: uuid
  cc_occurred_at :: datetime
  cc_case_input :: "case_input_command option"

text \<open>\<open>CreateCaseCommand.__post_init__\<close>; the content is a JSON value, which always serialises.\<close>

definition mk_create_case_command :: "create_case_command \<Rightarrow> exn + create_case_command" where
  "mk_create_case_command c =
     (if blank (cc_idempotency_key c) \<or> length (cc_idempotency_key c) > 255
      then Inl (ValueError ''idempotency_key must contain 1 to 255 non-blank characters.'')
      else if blank (cc_title c) \<or> length (cc_title c) > 500
      then Inl (ValueError ''title must contain 1 to 500 non-blank characters.'')
      else if (case cc_category c of None \<Rightarrow> False | Some g \<Rightarrow> blank g \<or> length g > 100)
      then Inl (ValueError ''category must be non-blank and at most 100 characters when supplied.'')
      else if cc_severity c \<notin> {''low'', ''medium'', ''high'', ''critical''}
      then Inl (ValueError ''severity must be low, medium, high, or critical.'')
      else if \<not> is_utc (cc_occurred_at c)
      then Inl (ValueError ''occurred_at must be timezone-aware UTC.'')
      else Inr c)"

definition request_payload :: "create_case_command \<Rightarrow> json" where
  "request_payload c = JObj
    [(''asset_id'', json_opt (\<lambda>u. JStr (uuid_str u)) (cc_asset_id c)),
     (''category'', json_opt JStr (cc_category c)),
     (''input'', json_opt (\<lambda>i. JObj
        [(''content'', in_content i), (''content_sha256'', JStr (in_content_sha256 i)),
         (''input_kind'', JStr (in_input_kind i))]) (cc_case_input c)),
     (''severity'', JStr (cc_severity c)),
     (''title'', JStr (cc_title c))]"

definition request_sha256 :: "create_case_command \<Rightarrow> string" where
  "request_sha256 c = sha256 (utf8 (json_canonical (request_payload c)))"

section \<open>Read models\<close>

record case_record =
  rec_case_id :: uuid
  rec_state :: case_state
  rec_version :: int
  rec_title :: string
  rec_category :: "string option"
  rec_severity :: string
  rec_asset_id :: "uuid option"
  rec_created_by :: "uuid option"
  rec_created_at :: datetime
  rec_updated_at :: datetime

record case_list_cursor =
  cur_updated_at :: datetime
  cur_case_id :: uuid

record case_list_page =
  page_items :: "case_record list"
  page_next_cursor :: "case_list_cursor option"

record case_timeline_entry =
  tl_event_id :: uuid
  tl_event_type :: string
  tl_aggregate_version :: int
  tl_transition_id :: "uuid option"
  tl_actor_id :: uuid
  tl_correlation_id :: uuid
  tl_occurred_at :: datetime
  tl_from_state :: "case_state option"
  tl_to_state :: "case_state option"
  tl_approval_id :: "uuid option"
  tl_verification_note :: "string option"
  tl_knowledge_item_id :: "uuid option"
  tl_note :: "string option"

record case_detail =
  det_case :: case_record
  det_timeline :: "case_timeline_entry list"

record create_case_result =
  res_case :: case_record
  res_created :: bool

text \<open>A \<open>timestamptz\<close> value as the driver returns it: aware, in the session's zone.\<close>

definition db_datetime :: "int \<Rightarrow> datetime" where
  "db_datetime t = \<lparr>wall_us = t, tz = TzOffset 0\<rparr>"

definition case_record_of :: "case_row \<Rightarrow> exn + case_record" where
  "case_record_of r = bindE (CaseState (c_state r)) (\<lambda>s. Inr
     \<lparr>rec_case_id = c_id r, rec_state = s, rec_version = c_version r, rec_title = c_title r,
      rec_category = c_category r, rec_severity = c_severity r, rec_asset_id = c_asset_id r,
      rec_created_by = c_created_by r, rec_created_at = db_datetime (c_created_at r),
      rec_updated_at = db_datetime (c_updated_at r)\<rparr>)"

text \<open>\<open>_uuid(value)\<close> on a nullable column: the text \<open>None\<close> is no UUID.\<close>

definition uuid_of :: "uuid option \<Rightarrow> exn + uuid" where
  "uuid_of v = (case v of
     None \<Rightarrow> Inl (ValueError ''badly formed hexadecimal UUID string'')
   | Some u \<Rightarrow> Inr u)"

definition optional_state :: "string option \<Rightarrow> exn + case_state option" where
  "optional_state v = (case v of None \<Rightarrow> Inr None | Some s \<Rightarrow> bindE (CaseState s) (\<lambda>c. Inr (Some c)))"

text \<open>A row of the timeline query: an event, left-joined with its transition.\<close>

definition timeline_entry :: "event_row \<times> transition_row option \<Rightarrow> exn + case_timeline_entry" where
  "timeline_entry = (\<lambda>(e, t).
     bindE (uuid_of (e_actor_id e)) (\<lambda>actor.
     bindE (optional_state (map_option t_from_state t)) (\<lambda>from_state.
     bindE (optional_state (map_option t_to_state t)) (\<lambda>to_state. Inr
       \<lparr>tl_event_id = e_id e, tl_event_type = e_event_type e,
        tl_aggregate_version = e_aggregate_version e, tl_transition_id = e_transition_id e,
        tl_actor_id = actor, tl_correlation_id = e_correlation_id e,
        tl_occurred_at = db_datetime (e_occurred_at e), tl_from_state = from_state,
        tl_to_state = to_state, tl_approval_id = Option.bind t t_approval_id,
        tl_verification_note = Option.bind t t_verification_note,
        tl_knowledge_item_id = Option.bind t t_knowledge_item_id,
        tl_note = Option.bind t t_note\<rparr>))))"

definition audit_subject :: "actor \<Rightarrow> string" where
  "audit_subject a = actor_kind_value (kind a) @ '':'' @ uuid_str (actor_id a)"

section \<open>Writes\<close>

definition new_case_row :: "uuid \<Rightarrow> create_case_command \<Rightarrow> case_row" where
  "new_case_row org c =
     \<lparr>c_id = cc_case_id c, c_org = org, c_asset_id = cc_asset_id c, c_title = cc_title c,
      c_category = cc_category c, c_severity = cc_severity c, c_state = ''new'', c_version = 0,
      c_idempotency_key = cc_idempotency_key c, c_request_sha256 = request_sha256 c,
      c_created_by = Some (actor_id (cc_actor c)), c_correlation_id = cc_correlation_id c,
      c_created_at = instant (cc_occurred_at c), c_updated_at = instant (cc_occurred_at c)\<rparr>"

definition require_case_by_idempotency :: "uuid \<Rightarrow> string \<Rightarrow> db \<Rightarrow> exn + case_record \<times> string" where
  "require_case_by_idempotency org key d =
     (case find_row (\<lambda>r. c_org r = org \<and> c_idempotency_key r = key) (visible d c_org (db_cases d)) of
        None \<Rightarrow> Inl (RuntimeError ''Case insert did not return a row and no idempotent record exists.'')
      | Some r \<Rightarrow> bindE (case_record_of r) (\<lambda>k. Inr (k, c_request_sha256 r)))"

definition insert_case_input :: "uuid \<Rightarrow> uuid \<Rightarrow> create_case_command \<Rightarrow> db \<Rightarrow> exn + db" where
  "insert_case_input org case_id c d = (case cc_case_input c of
     None \<Rightarrow> Inr d
   | Some i \<Rightarrow> insert_case_input_row
       \<lparr>ci_id = in_input_id i, ci_org = org, ci_case_id = case_id, ci_input_kind = in_input_kind i,
        ci_content_sha256 = in_content_sha256 i, ci_content = in_content i,
        ci_created_by = Some (actor_id (cc_actor c)), ci_correlation_id = cc_correlation_id c,
        ci_created_at = instant (cc_occurred_at c)\<rparr> d)"

definition event_payload :: "case_event_command \<Rightarrow> uuid option \<Rightarrow> string option \<Rightarrow> json" where
  "event_payload e transition_id sha = JObj (
    [(''case_id'', JStr (uuid_str (ev_case_id e))),
     (''aggregate_version'', JInt (ev_aggregate_version e)),
     (''transition_id'', json_opt (\<lambda>u. JStr (uuid_str u)) transition_id),
     (''actor_id'', JStr (uuid_str (ev_actor_id e))),
     (''correlation_id'', JStr (uuid_str (ev_correlation_id e)))] @
    (case sha of None \<Rightarrow> [] | Some h \<Rightarrow> [(''request_sha256'', JStr h)]))"

definition event_row_of :: "uuid \<Rightarrow> case_event_command \<Rightarrow> uuid option \<Rightarrow> json \<Rightarrow> event_row" where
  "event_row_of org e transition_id payload =
     \<lparr>e_id = ev_event_id e, e_org = org, e_case_id = ev_case_id e, e_transition_id = transition_id,
      e_event_type = ev_event_type e, e_aggregate_version = ev_aggregate_version e,
      e_actor_id = Some (ev_actor_id e), e_correlation_id = ev_correlation_id e,
      e_payload = payload, e_occurred_at = instant (ev_occurred_at e)\<rparr>"

definition outbox_row_of :: "uuid \<Rightarrow> uuid \<Rightarrow> case_event_command \<Rightarrow> json \<Rightarrow> outbox_row" where
  "outbox_row_of org outbox_id e payload =
     \<lparr>o_id = outbox_id, o_org = org, o_case_id = ev_case_id e, o_case_event_id = ev_event_id e,
      o_event_type = ev_event_type e, o_aggregate_version = ev_aggregate_version e,
      o_correlation_id = ev_correlation_id e, o_payload = payload,
      o_available_at = instant (ev_occurred_at e), o_published_at = None, o_attempt_count = 0,
      o_last_error = None, o_locked_at = None, o_locked_by = None,
      o_created_at = instant (ev_occurred_at e)\<rparr>"

definition insert_event_and_outbox :: "uuid \<Rightarrow> uuid \<Rightarrow> case_event_command \<Rightarrow> uuid option \<Rightarrow>
    string option \<Rightarrow> db \<Rightarrow> exn + db" where
  "insert_event_and_outbox org outbox_id e transition_id sha d =
     (let payload = event_payload e transition_id sha in
      bindE (insert_event_row (event_row_of org e transition_id payload) d) (\<lambda>d1.
      insert_outbox_row (outbox_row_of org outbox_id e payload) d1))"

definition insert_audit_event :: "uuid \<Rightarrow> uuid \<Rightarrow> actor \<Rightarrow> string \<Rightarrow> uuid \<Rightarrow> datetime \<Rightarrow> json \<Rightarrow>
    db \<Rightarrow> exn + db" where
  "insert_audit_event org audit_id a action correlation_id occurred_at details =
     insert_audit_row
       \<lparr>a_id = audit_id, a_org = org, a_actor_subject = audit_subject a, a_action = action,
        a_correlation_id = Some correlation_id, a_details = json_sort_keys details,
        a_occurred_at = instant occurred_at\<rparr>"

definition creation_event :: "create_case_command \<Rightarrow> case_record \<Rightarrow> case_event_command" where
  "creation_event c k =
     \<lparr>ev_event_id = cc_event_id c, ev_event_type = ''case.created.v1'', ev_case_id = rec_case_id k,
      ev_aggregate_version = rec_version k, ev_transition_id = cc_event_id c,
      ev_actor_id = actor_id (cc_actor c), ev_correlation_id = cc_correlation_id c,
      ev_occurred_at = cc_occurred_at c\<rparr>"

definition create_case :: "uuid \<Rightarrow> uuid \<Rightarrow> uuid \<Rightarrow> create_case_command \<Rightarrow> db \<Rightarrow>
    exn + create_case_result \<times> db" where
  "create_case outbox_id audit_id org c d =
     bindE (insert_case_row (new_case_row org c) d) (\<lambda>(inserted, d1). case inserted of
       None \<Rightarrow>
         bindE (require_case_by_idempotency org (cc_idempotency_key c) d1) (\<lambda>(existing, existing_sha).
         if existing_sha \<noteq> request_sha256 c
         then Inl (IdempotencyConflictError (cc_idempotency_key c) (rec_case_id existing) (cc_case_id c))
         else Inr (\<lparr>res_case = existing, res_created = False\<rparr>, d1))
     | Some row \<Rightarrow>
         bindE (case_record_of row) (\<lambda>k.
         let event = creation_event c k in
         bindE (insert_case_input org (rec_case_id k) c d1) (\<lambda>d2.
         bindE (insert_event_and_outbox org outbox_id event None (Some (request_sha256 c)) d2) (\<lambda>d3.
         bindE (insert_audit_event org audit_id (cc_actor c) ''case.created'' (cc_correlation_id c)
                  (cc_occurred_at c)
                  (JObj [(''case_id'', JStr (uuid_str (rec_case_id k))),
                         (''event_id'', JStr (uuid_str (ev_event_id event))),
                         (''event_type'', JStr (ev_event_type event)),
                         (''aggregate_version'', JInt (ev_aggregate_version event))]) d3) (\<lambda>d4.
         Inr (\<lparr>res_case = k, res_created = True\<rparr>, d4))))))"

definition get_snapshot :: "uuid \<Rightarrow> uuid \<Rightarrow> db \<Rightarrow> exn + case_snapshot" where
  "get_snapshot org case_id d =
     (case find_row (\<lambda>r. c_org r = org \<and> c_id r = case_id) (visible d c_org (db_cases d)) of
        None \<Rightarrow> Inl (CaseNotFoundError case_id)
      | Some r \<Rightarrow> bindE (CaseState (c_state r)) (\<lambda>s. mk_case_snapshot (c_id r) s (c_version r)))"

definition raise_write_conflict :: "uuid \<Rightarrow> case_snapshot \<Rightarrow> db \<Rightarrow> exn + 'a" where
  "raise_write_conflict org s d =
     bindE (get_snapshot org (snap_case_id s) d) (\<lambda>current.
     Inl (VersionConflictError (snap_case_id s) (snap_version s - 1) (snap_version current)))"

definition transition_row_of :: "uuid \<Rightarrow> case_state_transition \<Rightarrow> actor \<Rightarrow> transition_row" where
  "transition_row_of org t a =
     \<lparr>t_id = st_transition_id t, t_org = org, t_case_id = st_case_id t,
      t_from_state = case_state_value (st_from_state t), t_to_state = case_state_value (st_to_state t),
      t_version = st_version t, t_actor_id = st_actor_id t, t_actor_kind = actor_kind_value (kind a),
      t_correlation_id = st_correlation_id t, t_approval_id = st_approval_id t,
      t_verification_note = st_verification_note t, t_knowledge_item_id = st_knowledge_item_id t,
      t_note = st_note t, t_occurred_at = instant (st_occurred_at t)\<rparr>"

definition transition_details :: "transition_outcome \<Rightarrow> json" where
  "transition_details r = JObj
    [(''case_id'', JStr (uuid_str (snap_case_id (out_snapshot r)))),
     (''event_id'', JStr (uuid_str (ev_event_id (out_event r)))),
     (''transition_id'', JStr (uuid_str (st_transition_id (out_transition r)))),
     (''event_type'', JStr (ev_event_type (out_event r))),
     (''aggregate_version'', JInt (ev_aggregate_version (out_event r))),
     (''from_state'', JStr (case_state_value (st_from_state (out_transition r)))),
     (''to_state'', JStr (case_state_value (st_to_state (out_transition r))))]"

definition persist_transition :: "uuid \<Rightarrow> uuid \<Rightarrow> uuid \<Rightarrow> transition_outcome \<Rightarrow> actor \<Rightarrow> db \<Rightarrow>
    exn + case_record \<times> db" where
  "persist_transition outbox_id audit_id org r a d =
     bindE (update_case_version org (snap_case_id (out_snapshot r)) (snap_version (out_snapshot r) - 1)
              (case_state_value (snap_state (out_snapshot r))) (snap_version (out_snapshot r))
              (instant (st_occurred_at (out_transition r))) d) (\<lambda>(updated, d1). case updated of
       None \<Rightarrow> raise_write_conflict org (out_snapshot r) d1
     | Some row \<Rightarrow>
         bindE (insert_transition_row (transition_row_of org (out_transition r) a) d1) (\<lambda>d2.
         bindE (insert_event_and_outbox org outbox_id (out_event r)
                  (Some (ev_transition_id (out_event r))) None d2) (\<lambda>d3.
         bindE (insert_audit_event org audit_id a ''case.transitioned'' (ev_correlation_id (out_event r))
                  (ev_occurred_at (out_event r)) (transition_details r) d3) (\<lambda>d4.
         bindE (case_record_of row) (\<lambda>k. Inr (k, d4))))))"

section \<open>Reads\<close>

text \<open>
  \<open>value LIKE pattern\<close>: \<open>%\<close> matches any text, \<open>_\<close> one character, a backslash escapes the next;
  \<open>ILIKE\<close> compares the lower-cased texts. The query text is not escaped by the code.
\<close>

fun sql_like :: "string \<Rightarrow> string \<Rightarrow> bool" where
  "sql_like [] s = (s = [])"
| "sql_like (p # ps) s =
     (if p = CHR ''%'' then sql_like ps s \<or> (case s of [] \<Rightarrow> False | _ # cs \<Rightarrow> sql_like (p # ps) cs)
      else case s of
        [] \<Rightarrow> False
      | c # cs \<Rightarrow>
          if p = CHR ''_'' then sql_like ps cs
          else if p = CHR 0x5C then (case ps of [] \<Rightarrow> False | q # qs \<Rightarrow> q = c \<and> sql_like qs cs)
          else p = c \<and> sql_like ps cs)"

definition sql_ilike_any :: "string \<Rightarrow> string \<Rightarrow> bool" where
  "sql_ilike_any query value = sql_like (str_lower (''%'' @ query @ ''%'')) (str_lower value)"

definition list_selects :: "uuid \<Rightarrow> uuid list \<Rightarrow> case_list_cursor option \<Rightarrow> string option \<Rightarrow>
    string option \<Rightarrow> string option \<Rightarrow> case_row \<Rightarrow> bool" where
  "list_selects org asset_ids cursor query state severity r \<longleftrightarrow>
     c_org r = org
     \<and> (case c_asset_id r of None \<Rightarrow> True | Some a \<Rightarrow> a \<in> set asset_ids)
     \<and> (case state of None \<Rightarrow> True | Some s \<Rightarrow> c_state r = s)
     \<and> (case severity of None \<Rightarrow> True | Some s \<Rightarrow> c_severity r = s)
     \<and> (case query of None \<Rightarrow> True | Some q \<Rightarrow>
          sql_ilike_any q (c_title r)
          \<or> sql_ilike_any q (case c_category r of None \<Rightarrow> [] | Some g \<Rightarrow> g)
          \<or> sql_ilike_any q (uuid_str (c_id r)))
     \<and> (case cursor of None \<Rightarrow> True | Some k \<Rightarrow>
          c_updated_at r < instant (cur_updated_at k)
          \<or> c_updated_at r = instant (cur_updated_at k) \<and> c_id r < cur_case_id k)"

text \<open>\<open>ORDER BY updated_at DESC, id DESC\<close>\<close>

definition newest_first :: "case_row \<Rightarrow> case_row \<Rightarrow> bool" where
  "newest_first a b \<longleftrightarrow>
     c_updated_at b < c_updated_at a \<or> c_updated_at a = c_updated_at b \<and> c_id b \<le> c_id a"

definition select_list_cases :: "uuid \<Rightarrow> uuid list \<Rightarrow> nat \<Rightarrow> case_list_cursor option \<Rightarrow>
    string option \<Rightarrow> string option \<Rightarrow> string option \<Rightarrow> db \<Rightarrow> case_row list" where
  "select_list_cases org asset_ids limit cursor query state severity d =
     take limit (sort_by newest_first
       (filter (list_selects org asset_ids cursor query state severity) (visible d c_org (db_cases d))))"

definition next_cursor :: "nat \<Rightarrow> case_record list \<Rightarrow> case_list_cursor option" where
  "next_cursor limit records =
     (let items = take limit records in
      if length records > limit \<and> items \<noteq> []
      then Some \<lparr>cur_updated_at = rec_updated_at (last items), cur_case_id = rec_case_id (last items)\<rparr>
      else None)"

definition list_cases :: "uuid \<Rightarrow> uuid list \<Rightarrow> int \<Rightarrow> case_list_cursor option \<Rightarrow>
    string option \<Rightarrow> case_state option \<Rightarrow> string option \<Rightarrow> db \<Rightarrow> exn + case_list_page" where
  "list_cases org asset_ids limit cursor query state severity d =
     (if \<not> (1 \<le> limit \<and> limit \<le> 100)
      then Inl (ValueError ''limit must be between 1 and 100.'')
      else if (case query of None \<Rightarrow> False | Some q \<Rightarrow> length (strip q) > 100)
      then Inl (ValueError ''query must contain at most 100 characters.'')
      else if (case severity of None \<Rightarrow> False
               | Some s \<Rightarrow> s \<notin> {''low'', ''medium'', ''high'', ''critical''})
      then Inl (ValueError ''severity must be low, medium, high, or critical.'')
      else bindE (traverseE case_record_of (select_list_cases org asset_ids (nat (limit + 1)) cursor
             (case query of None \<Rightarrow> None | Some q \<Rightarrow> if blank q then None else Some (strip q))
             (map_option case_state_value state) severity d)) (\<lambda>records.
        Inr \<lparr>page_items = take (nat limit) records,
             page_next_cursor = next_cursor (nat limit) records\<rparr>))"

text \<open>\<open>ORDER BY aggregate_version, occurred_at, id\<close>\<close>

definition timeline_le :: "event_row \<Rightarrow> event_row \<Rightarrow> bool" where
  "timeline_le a b \<longleftrightarrow>
     e_aggregate_version a < e_aggregate_version b
     \<or> e_aggregate_version a = e_aggregate_version b
       \<and> (e_occurred_at a < e_occurred_at b \<or> e_occurred_at a = e_occurred_at b \<and> e_id a \<le> e_id b)"

definition select_timeline :: "uuid \<Rightarrow> uuid \<Rightarrow> db \<Rightarrow> (event_row \<times> transition_row option) list" where
  "select_timeline org case_id d =
     map (\<lambda>e. (e, find_row (\<lambda>t. t_org t = e_org e \<and> e_transition_id e = Some (t_id t))
                   (visible d t_org (db_transitions d))))
       (sort_by timeline_le
         (filter (\<lambda>e. e_org e = org \<and> e_case_id e = case_id) (visible d e_org (db_events d))))"

definition get_detail :: "uuid \<Rightarrow> uuid \<Rightarrow> db \<Rightarrow> exn + case_detail" where
  "get_detail org case_id d =
     (case find_row (\<lambda>r. c_org r = org \<and> c_id r = case_id) (visible d c_org (db_cases d)) of
        None \<Rightarrow> Inl (CaseNotFoundError case_id)
      | Some r \<Rightarrow>
          bindE (case_record_of r) (\<lambda>k.
          bindE (traverseE timeline_entry (select_timeline org case_id d)) (\<lambda>entries.
          Inr \<lparr>det_case = k, det_timeline = entries\<rparr>)))"

section \<open>The service\<close>

text \<open>\<open>CaseService.transition\<close> over any implementation of the \<open>CasePersistence\<close> port.\<close>

definition service_transition ::
  "(uuid \<Rightarrow> 's \<Rightarrow> exn + case_snapshot) \<Rightarrow>
   (transition_outcome \<Rightarrow> actor \<Rightarrow> 's \<Rightarrow> exn + case_record \<times> 's) \<Rightarrow>
   transition_command \<Rightarrow> 's \<Rightarrow> exn + case_record \<times> 's" where
  "service_transition snapshot persist c s =
     bindE (snapshot (tc_case_id c) s) (\<lambda>current.
     bindE (apply_transition current c) (\<lambda>outcome.
     persist outcome (tc_actor c) s))"

end
