(* ===== verification/Artifact_Store.thy ===== *)
theory Artifact_Store
  imports Case_Store
begin

text \<open>
  \<open>services/api/netops_api/application/artifacts.py\<close>: the byte-free boundary of private object storage.
  The S3 client is a parameter: a function that signs a URL and one that reads an object's metadata,
  whose responses are Python values, carried as \<open>json\<close>. Both adapters implement the contract that the
  upload handlers rely on.
\<close>

section \<open>Requests and results\<close>

record artifact_upload_request =
  ur_organization_id :: uuid
  ur_artifact_id :: uuid
  ur_content_type :: string
  ur_content_length :: int
  ur_sha256_hex :: string
  ur_case_id :: "uuid option"

definition mk_artifact_upload_request :: "artifact_upload_request \<Rightarrow> exn + artifact_upload_request" where
  "mk_artifact_upload_request r =
     (if blank (ur_content_type r) \<or> length (ur_content_type r) > 255
      then Inl (ValueError ''content_type must contain 1 to 255 non-blank characters.'')
      else if \<not> (1 \<le> ur_content_length r \<and> ur_content_length r \<le> 100 * 1024 * 1024)
      then Inl (ValueError ''content_length must be between 1 byte and 100 MiB.'')
      else if \<not> is_sha256 (ur_sha256_hex r)
      then Inl (ValueError ''sha256_hex must be a lowercase SHA-256 digest.'')
      else Inr r)"

record presigned_artifact_upload =
  pu_upload_url :: string
  pu_required_headers :: "(string \<times> string) list"
  pu_expires_at :: datetime

definition mk_presigned_artifact_upload :: "presigned_artifact_upload \<Rightarrow> exn + presigned_artifact_upload" where
  "mk_presigned_artifact_upload u =
     (if \<not> (startswith (pu_upload_url u) ''http://'' \<or> startswith (pu_upload_url u) ''https://'')
      then Inl (ValueError ''upload_url must be an absolute HTTP(S) URL.'')
      else if \<not> is_aware (pu_expires_at u)
      then Inl (ValueError ''expires_at must be timezone-aware.'')
      else if list_ex (\<lambda>h. blank (fst h) \<or> blank (snd h)) (pu_required_headers u)
      then Inl (ValueError ''required headers must have non-blank names and values.'')
      else Inr u)"

record artifact_object_metadata =
  om_content_type :: string
  om_content_length :: int
  om_sha256_hex :: string
  om_encryption_key_reference :: string

definition mk_artifact_object_metadata :: "artifact_object_metadata \<Rightarrow> exn + artifact_object_metadata" where
  "mk_artifact_object_metadata m =
     (if blank (om_content_type m) \<or> length (om_content_type m) > 255
      then Inl (ValueError ''content_type must contain 1 to 255 non-blank characters.'')
      else if \<not> (1 \<le> om_content_length m \<and> om_content_length m \<le> 100 * 1024 * 1024)
      then Inl (ValueError ''content_length must be between 1 byte and 100 MiB.'')
      else if \<not> is_sha256 (om_sha256_hex m)
      then Inl (ValueError ''sha256_hex must be a lowercase SHA-256 digest.'')
      else if blank (om_encryption_key_reference m) \<or> length (om_encryption_key_reference m) > 500
      then Inl (ValueError ''encryption_key_reference must contain 1 to 500 non-blank characters.'')
      else Inr m)"

text \<open>The fields of \<open>ArtifactStoreSettings\<close> (\<open>core/config.py\<close>).\<close>

record artifact_store_settings =
  as_enabled :: bool
  as_bucket :: string
  as_presign_ttl_seconds :: int
  as_public_endpoint_url :: string
  as_access_key_id :: "string option"
  as_secret_access_key :: "string option"

section \<open>The S3 adapter\<close>

definition object_key :: "artifact_upload_request \<Rightarrow> string" where
  "object_key r =
     ''organizations/'' @ uuid_str (ur_organization_id r) @ ''/cases/''
     @ (case ur_case_id r of None \<Rightarrow> ''unassigned'' | Some c \<Rightarrow> uuid_str c)
     @ ''/artifacts/'' @ uuid_str (ur_artifact_id r)"

definition require_aware_now :: "datetime \<Rightarrow> exn + unit" where
  "require_aware_now t = raise_unless (is_aware t) (ValueError ''now must be timezone-aware.'')"

text \<open>The \<open>Params\<close> of the signed \<open>put_object\<close>.\<close>

record put_object_params =
  put_bucket :: string
  put_key :: string
  put_content_type :: string
  put_content_length :: int
  put_sha256 :: string

definition upload_headers :: "artifact_upload_request \<Rightarrow> (string \<times> string) list" where
  "upload_headers r =
     [(''content-type'', strip (ur_content_type r)), (''x-amz-meta-sha256'', ur_sha256_hex r)]"

definition minio_presign_upload ::
  "(string \<Rightarrow> put_object_params \<Rightarrow> int \<Rightarrow> string \<Rightarrow> exn + string) \<Rightarrow> artifact_store_settings \<Rightarrow>
   artifact_upload_request \<Rightarrow> datetime \<Rightarrow> exn + presigned_artifact_upload" where
  "minio_presign_upload generate_presigned_url settings r now =
     bindE (require_aware_now now) (\<lambda>_.
     if \<not> as_enabled settings then Inl (RuntimeError ''Artifact storage is disabled.'')
     else bindE (generate_presigned_url ''put_object''
         \<lparr>put_bucket = as_bucket settings, put_key = object_key r, put_content_type = strip (ur_content_type r),
          put_content_length = ur_content_length r, put_sha256 = ur_sha256_hex r\<rparr>
         (as_presign_ttl_seconds settings) ''PUT'') (\<lambda>url.
       mk_presigned_artifact_upload
         \<lparr>pu_upload_url = url, pu_required_headers = upload_headers r,
          pu_expires_at = utc_at (instant now + seconds (as_presign_ttl_seconds settings))\<rparr>))"

text \<open>
  \<open>_is_not_found\<close>: the argument is the exception's \<open>response\<close> attribute, if it has one. A response
  whose \<open>Error\<close> is no dictionary has no \<open>get\<close>.
\<close>

definition is_not_found :: "json option \<Rightarrow> exn + bool" where
  "is_not_found response = (case response of
     Some (JObj kvs) \<Rightarrow>
       (case map_of kvs ''Error'' of
          None \<Rightarrow> Inr False
        | Some (JObj err) \<Rightarrow> Inr (case map_of err ''Code'' of
             Some (JStr s) \<Rightarrow> s \<in> {''404'', ''NoSuchKey'', ''NotFound''}
           | Some (JInt n) \<Rightarrow> n = 404
           | _ \<Rightarrow> False)
        | Some _ \<Rightarrow> Inl (AttributeError ''get''))
   | _ \<Rightarrow> Inr False)"

definition encryption_key_reference :: "(string \<times> json) list \<Rightarrow> string option" where
  "encryption_key_reference response =
     (case map_of response ''SSEKMSKeyId'' of
        Some (JStr key_id) \<Rightarrow> if \<not> blank key_id then Some key_id else
          (case map_of response ''ServerSideEncryption'' of
             Some (JStr algorithm) \<Rightarrow> if \<not> blank algorithm then Some (''s3:'' @ algorithm) else None
           | _ \<Rightarrow> None)
      | _ \<Rightarrow>
          (case map_of response ''ServerSideEncryption'' of
             Some (JStr algorithm) \<Rightarrow> if \<not> blank algorithm then Some (''s3:'' @ algorithm) else None
           | _ \<Rightarrow> None))"

text \<open>\<open>isinstance(value, int)\<close>, which a \<open>bool\<close> also satisfies.\<close>

fun as_int :: "json option \<Rightarrow> int option" where
  "as_int (Some (JInt n)) = Some n"
| "as_int (Some (JBool b)) = Some (if b then 1 else 0)"
| "as_int _ = None"

fun as_str :: "json option \<Rightarrow> string option" where
  "as_str (Some (JStr s)) = Some s"
| "as_str _ = None"

definition object_metadata_of :: "(string \<times> json) list \<Rightarrow> exn + artifact_object_metadata" where
  "object_metadata_of response =
     (case (as_str (map_of response ''ContentType''), as_int (map_of response ''ContentLength''),
            (case map_of response ''Metadata'' of Some (JObj m) \<Rightarrow> as_str (map_of m ''sha256'') | _ \<Rightarrow> None),
            encryption_key_reference response) of
        (Some content_type, Some content_length, Some sha256_hex, Some key_reference) \<Rightarrow>
          mk_artifact_object_metadata
            \<lparr>om_content_type = content_type, om_content_length = content_length, om_sha256_hex = sha256_hex,
             om_encryption_key_reference = key_reference\<rparr>
      | _ \<Rightarrow> Inl (RuntimeError ''Artifact storage returned incomplete object metadata.''))"

text \<open>The head client's \<open>head_object\<close> is \<open>None\<close> when it has no such callable.\<close>

definition minio_head_uploaded_object ::
  "(string \<Rightarrow> string \<Rightarrow> json option + (string \<times> json) list) option \<Rightarrow> artifact_store_settings \<Rightarrow>
   artifact_upload_request \<Rightarrow> exn + artifact_object_metadata" where
  "minio_head_uploaded_object head_object settings r =
     (if \<not> as_enabled settings then Inl (RuntimeError ''Artifact storage is disabled.'')
      else case head_object of
        None \<Rightarrow> Inl (RuntimeError ''Artifact storage does not support metadata verification.'')
      | Some head \<Rightarrow>
          (case head (as_bucket settings) (object_key r) of
             Inl response \<Rightarrow> bindE (is_not_found response) (\<lambda>missing.
               Inl (if missing then ArtifactObjectMissingError (ur_artifact_id r)
                    else RuntimeError ''Artifact storage metadata verification failed.''))
           | Inr response \<Rightarrow> object_metadata_of response))"

section \<open>The deterministic test double\<close>

record fake_artifact_store =
  fs_settings :: artifact_store_settings
  fs_requests :: "artifact_upload_request list"
  fs_objects :: "uuid \<rightharpoonup> artifact_object_metadata"

definition fake_presign_upload ::
  "fake_artifact_store \<Rightarrow> artifact_upload_request \<Rightarrow> datetime \<Rightarrow>
   (exn + presigned_artifact_upload) \<times> fake_artifact_store" where
  "fake_presign_upload s r now = (case require_aware_now now of
     Inl e \<Rightarrow> (Inl e, s)
   | Inr _ \<Rightarrow>
       if \<not> as_enabled (fs_settings s) then (Inl (RuntimeError ''Artifact storage is disabled.''), s)
       else (mk_presigned_artifact_upload
               \<lparr>pu_upload_url = ''https://artifact-upload.invalid/'' @ uuid_str (ur_artifact_id r) @ ''?capability=test-only'',
                pu_required_headers = upload_headers r,
                pu_expires_at = utc_at (instant now + seconds (as_presign_ttl_seconds (fs_settings s)))\<rparr>,
             s\<lparr>fs_requests := fs_requests s @ [r]\<rparr>))"

definition fake_head_uploaded_object ::
  "fake_artifact_store \<Rightarrow> artifact_upload_request \<Rightarrow> exn + artifact_object_metadata" where
  "fake_head_uploaded_object s r =
     (if \<not> as_enabled (fs_settings s) then Inl (RuntimeError ''Artifact storage is disabled.'')
      else case fs_objects s (ur_artifact_id r) of
        None \<Rightarrow> Inl (ArtifactObjectMissingError (ur_artifact_id r))
      | Some m \<Rightarrow> Inr m)"

section \<open>The contract of \<open>ArtifactStore\<close>\<close>

locale artifact_store =
  fixes ok :: "'s \<Rightarrow> bool" and settings :: "'s \<Rightarrow> artifact_store_settings"
    and presign :: "'s \<Rightarrow> artifact_upload_request \<Rightarrow> datetime \<Rightarrow> exn + presigned_artifact_upload"
    and head :: "'s \<Rightarrow> artifact_upload_request \<Rightarrow> exn + artifact_object_metadata"
  assumes presign_aware: "presign s r now = Inr u \<Longrightarrow> is_aware now"
    and presign_enabled: "presign s r now = Inr u \<Longrightarrow> as_enabled (settings s)"
    and presign_headers: "presign s r now = Inr u \<Longrightarrow> pu_required_headers u = upload_headers r"
    and presign_expiry: "presign s r now = Inr u \<Longrightarrow>
      pu_expires_at u = utc_at (instant now + seconds (as_presign_ttl_seconds (settings s)))"
    and presign_url: "presign s r now = Inr u \<Longrightarrow> mk_presigned_artifact_upload u = Inr u"
    and presign_disabled: "is_aware now \<Longrightarrow> \<not> as_enabled (settings s) \<Longrightarrow>
      presign s r now = Inl (RuntimeError ''Artifact storage is disabled.'')"
    and head_enabled: "head s r = Inr m \<Longrightarrow> as_enabled (settings s)"
    and head_valid: "ok s \<Longrightarrow> head s r = Inr m \<Longrightarrow> mk_artifact_object_metadata m = Inr m"
begin

text \<open>A capability expires after it was granted, and at most fifteen minutes later.\<close>

lemma presign_window:
  assumes "presign s r now = Inr u" "30 \<le> as_presign_ttl_seconds (settings s)" "as_presign_ttl_seconds (settings s) \<le> 900"
  shows "instant now < instant (pu_expires_at u)" "instant (pu_expires_at u) \<le> instant now + seconds 900"
  using assms(2,3) by (simp_all add: presign_expiry [OF assms(1)] seconds_def)

text \<open>Every capability carries the declared digest, so the store can be asked to check it.\<close>

lemma presign_binds_digest:
  "presign s r now = Inr u \<Longrightarrow> map_of (pu_required_headers u) ''x-amz-meta-sha256'' = Some (ur_sha256_hex r)"
  by (simp add: presign_headers upload_headers_def)

end

lemma mk_presigned_InrD: "mk_presigned_artifact_upload u = Inr v \<Longrightarrow> v = u"
  by (auto simp: mk_presigned_artifact_upload_def split: if_splits)

lemma mk_metadata_InrD: "mk_artifact_object_metadata m = Inr n \<Longrightarrow> n = m"
  by (auto simp: mk_artifact_object_metadata_def split: if_splits)

lemma mk_request_InrD: "mk_artifact_upload_request r = Inr q \<Longrightarrow> q = r"
  by (auto simp: mk_artifact_upload_request_def split: if_splits)

lemma minio_presign_InrD:
  assumes "minio_presign_upload gen cfg r now = Inr u"
  shows "is_aware now" "as_enabled cfg" "pu_required_headers u = upload_headers r"
    "pu_expires_at u = utc_at (instant now + seconds (as_presign_ttl_seconds cfg))"
    "mk_presigned_artifact_upload u = Inr u"
  using assms
  by (auto simp: minio_presign_upload_def require_aware_now_def bindE_eq_Inr split: if_splits
      dest: mk_presigned_InrD)

lemma minio_presign_disabled:
  "is_aware now \<Longrightarrow> \<not> as_enabled cfg \<Longrightarrow>
     minio_presign_upload gen cfg r now = Inl (RuntimeError ''Artifact storage is disabled.'')"
  by (simp add: minio_presign_upload_def require_aware_now_def)

lemma object_metadata_of_InrD:
  "object_metadata_of response = Inr m \<Longrightarrow> mk_artifact_object_metadata m = Inr m"
  by (auto simp: object_metadata_of_def split: option.splits dest: mk_metadata_InrD)

lemma minio_head_InrD:
  assumes "minio_head_uploaded_object head cfg r = Inr m"
  shows "as_enabled cfg" "mk_artifact_object_metadata m = Inr m"
  using assms object_metadata_of_InrD
  by (auto simp: minio_head_uploaded_object_def bindE_eq_Inr split: if_splits option.splits sum.splits)

interpretation minio: artifact_store "\<lambda>_. True" "\<lambda>cfg. cfg" "minio_presign_upload gen" "minio_head_uploaded_object head"
  for gen head
  by unfold_locales (auto dest: minio_presign_InrD minio_head_InrD simp: minio_presign_disabled)

lemma fake_presign_InrD:
  assumes "fst (fake_presign_upload s r now) = Inr u"
  shows "is_aware now" "as_enabled (fs_settings s)" "pu_required_headers u = upload_headers r"
    "pu_expires_at u = utc_at (instant now + seconds (as_presign_ttl_seconds (fs_settings s)))"
    "mk_presigned_artifact_upload u = Inr u"
  using assms
  by (auto simp: fake_presign_upload_def require_aware_now_def raise_unless_def split: if_splits
      dest: mk_presigned_InrD)

definition fake_ok :: "fake_artifact_store \<Rightarrow> bool" where
  "fake_ok s \<longleftrightarrow> (\<forall>m \<in> ran (fs_objects s). mk_artifact_object_metadata m = Inr m)"

interpretation fake: artifact_store fake_ok fs_settings "\<lambda>s r now. fst (fake_presign_upload s r now)"
  fake_head_uploaded_object
proof unfold_locales
  fix s r now u m
  assume "fst (fake_presign_upload s r now) = Inr u"
  note * = fake_presign_InrD [OF this]
  show "is_aware now" "as_enabled (fs_settings s)" "pu_required_headers u = upload_headers r"
    "pu_expires_at u = utc_at (instant now + seconds (as_presign_ttl_seconds (fs_settings s)))"
    "mk_presigned_artifact_upload u = Inr u" by (rule *)+
next
  fix s r now m
  show "fst (fake_presign_upload s r now) = Inl (RuntimeError ''Artifact storage is disabled.'')"
    if "is_aware now" "\<not> as_enabled (fs_settings s)"
    using that by (simp add: fake_presign_upload_def require_aware_now_def)
  show "as_enabled (fs_settings s)" if "fake_head_uploaded_object s r = Inr m"
    using that by (auto simp: fake_head_uploaded_object_def split: if_splits)
  show "mk_artifact_object_metadata m = Inr m" if "fake_ok s" "fake_head_uploaded_object s r = Inr m"
    using that by (auto simp: fake_head_uploaded_object_def fake_ok_def ran_def split: if_splits option.splits)
qed

end
