(* ===== verification/Artifact_Intents.thy ===== *)
theory Artifact_Intents
  imports Artifact_Schema Artifact_Store
begin

text \<open>
  \<open>services/api/netops_api/application/artifact_intents.py\<close> (upload declarations and their completion)
  and \<open>artifact_status.py\<close> (the read model of an artifact's lifecycle). Identifiers that the code or a
  column default draws are arguments. The object store is the \<open>head\<close> function of \<open>Artifact_Store\<close>.
\<close>

section \<open>Declarations\<close>

record create_artifact_upload_intent =
  ai_intent_id :: uuid
  ai_artifact_id :: uuid
  ai_case_id :: uuid
  ai_artifact_kind :: string
  ai_classification :: string
  ai_content_type :: string
  ai_byte_size :: int
  ai_sha256_hex :: string
  ai_original_filename :: "string option"
  ai_actor_id :: uuid
  ai_correlation_id :: uuid
  ai_created_at :: datetime
  ai_expires_at :: datetime

record completed_artifact_upload =
  done_artifact_id :: uuid
  done_completed_at :: datetime
  done_already_completed :: bool

definition storage_key :: "uuid \<Rightarrow> create_artifact_upload_intent \<Rightarrow> string" where
  "storage_key org c = ''organizations/'' @ uuid_str org @ ''/cases/'' @ uuid_str (ai_case_id c)
     @ ''/artifacts/'' @ uuid_str (ai_artifact_id c)"

definition new_intent_row :: "uuid \<Rightarrow> create_artifact_upload_intent \<Rightarrow> intent_row" where
  "new_intent_row org c =
     \<lparr>u_id = ai_intent_id c, u_artifact_id = ai_artifact_id c, u_org = org, u_case_id = ai_case_id c,
      u_artifact_kind = ai_artifact_kind c, u_classification = ai_classification c,
      u_storage_key = storage_key org c, u_sha256 = ai_sha256_hex c, u_byte_size = ai_byte_size c,
      u_content_type = ai_content_type c, u_original_filename = ai_original_filename c,
      u_created_by = Some (ai_actor_id c), u_correlation_id = ai_correlation_id c,
      u_expires_at = instant (ai_expires_at c), u_status = ''pending'', u_completed_at = None,
      u_created_at = instant (ai_created_at c)\<rparr>"

definition intent_audit_row :: "uuid \<Rightarrow> uuid \<Rightarrow> string \<Rightarrow> string \<Rightarrow> uuid \<Rightarrow> uuid \<Rightarrow> uuid \<Rightarrow> uuid \<Rightarrow> int \<Rightarrow> audit_row" where
  "intent_audit_row audit_id org subject action correlation_id artifact_id case_id intent_id occurred_at =
     \<lparr>a_id = audit_id, a_org = org, a_actor_subject = subject, a_action = action,
      a_correlation_id = Some correlation_id,
      a_details = JObj [(''artifact_id'', JStr (uuid_str artifact_id)), (''case_id'', JStr (uuid_str case_id)),
        (''intent_id'', JStr (uuid_str intent_id))],
      a_occurred_at = occurred_at\<rparr>"

definition create_intent :: "uuid \<Rightarrow> uuid \<Rightarrow> create_artifact_upload_intent \<Rightarrow> db \<Rightarrow> exn + unit \<times> db" where
  "create_intent audit_id org c d =
     bindE (insert_intent_row (new_intent_row org c) d) (\<lambda>d1.
     bindE (insert_audit_row (intent_audit_row audit_id org (''human:'' @ uuid_str (ai_actor_id c))
       ''artifact.upload_intent_created'' (ai_correlation_id c) (ai_artifact_id c) (ai_case_id c)
       (ai_intent_id c) (instant (ai_created_at c))) d1) (\<lambda>d2. Inr ((), d2)))"

section \<open>Completion\<close>

record upload_intent =
  up_intent_id :: uuid
  up_artifact_id :: uuid
  up_case_id :: uuid
  up_artifact_kind :: string
  up_classification :: string
  up_storage_key :: string
  up_sha256_hex :: string
  up_byte_size :: int
  up_content_type :: string
  up_original_filename :: "string option"
  up_created_by_actor_id :: "uuid option"
  up_correlation_id :: uuid
  up_expires_at :: datetime
  up_status :: string

definition select_intent :: "uuid \<Rightarrow> uuid \<Rightarrow> uuid \<Rightarrow> db \<Rightarrow> intent_row option" where
  "select_intent org case_id intent_id d =
     find_row (\<lambda>r. u_org r = org \<and> u_case_id r = case_id \<and> u_id r = intent_id) (visible d u_org (db_intents d))"

definition upload_intent_of :: "intent_row \<Rightarrow> upload_intent" where
  "upload_intent_of r =
     \<lparr>up_intent_id = u_id r, up_artifact_id = u_artifact_id r, up_case_id = u_case_id r,
      up_artifact_kind = u_artifact_kind r, up_classification = u_classification r,
      up_storage_key = u_storage_key r, up_sha256_hex = u_sha256 r, up_byte_size = u_byte_size r,
      up_content_type = u_content_type r, up_original_filename = u_original_filename r,
      up_created_by_actor_id = u_created_by r, up_correlation_id = u_correlation_id r,
      up_expires_at = db_datetime (u_expires_at r), up_status = u_status r\<rparr>"

definition load_for_completion :: "uuid \<Rightarrow> uuid \<Rightarrow> uuid \<Rightarrow> db \<Rightarrow> exn + upload_intent" where
  "load_for_completion org case_id intent_id d = (case select_intent org case_id intent_id d of
     None \<Rightarrow> Inl (ArtifactUploadIntentNotFoundError intent_id)
   | Some r \<Rightarrow> Inr (upload_intent_of r))"

definition completed_at_of :: "uuid \<Rightarrow> db \<Rightarrow> exn + datetime" where
  "completed_at_of intent_id d =
     (case find_row (\<lambda>r. u_id r = intent_id) (visible d u_org (db_intents d)) of
        None \<Rightarrow> Inl (NoResultFound ''No row was found when one was required'')
      | Some r \<Rightarrow> (case u_completed_at r of
          None \<Rightarrow> Inl (AssertionError '''')
        | Some t \<Rightarrow> Inr (db_datetime t)))"

definition verify_metadata :: "upload_intent \<Rightarrow> artifact_object_metadata \<Rightarrow> exn + unit" where
  "verify_metadata i m = raise_unless
     (om_content_type m = up_content_type i \<and> om_content_length m = up_byte_size i \<and> om_sha256_hex m = up_sha256_hex i)
     (ArtifactUploadVerificationError ''Uploaded object metadata does not match its signed declaration.'')"

definition retention_until :: "upload_intent \<Rightarrow> int \<Rightarrow> int" where
  "retention_until i completed_at = completed_at + days (if up_artifact_kind i = ''incident-audio'' then 30 else 90)"

definition completion_request :: "uuid \<Rightarrow> upload_intent \<Rightarrow> artifact_upload_request" where
  "completion_request org i =
     \<lparr>ur_organization_id = org, ur_artifact_id = up_artifact_id i, ur_content_type = up_content_type i,
      ur_content_length = up_byte_size i, ur_sha256_hex = up_sha256_hex i, ur_case_id = Some (up_case_id i)\<rparr>"

definition evidence_row :: "uuid \<Rightarrow> upload_intent \<Rightarrow> artifact_object_metadata \<Rightarrow> int \<Rightarrow> artifact_row" where
  "evidence_row org i m completed_at =
     \<lparr>r_id = up_artifact_id i, r_org = org, r_case_id = up_case_id i, r_artifact_kind = up_artifact_kind i,
      r_classification = up_classification i, r_storage_key = up_storage_key i, r_sha256 = up_sha256_hex i,
      r_byte_size = up_byte_size i, r_content_type = up_content_type i,
      r_original_filename = up_original_filename i, r_encryption_key_reference = om_encryption_key_reference m,
      r_created_by = up_created_by_actor_id i, r_retention_until = retention_until i completed_at,
      r_created_at = completed_at\<rparr>"

definition quarantined_row :: "uuid \<Rightarrow> uuid \<Rightarrow> upload_intent \<Rightarrow> int \<Rightarrow> processing_row" where
  "quarantined_row processing_id org i completed_at =
     \<lparr>p_id = processing_id, p_org = org, p_artifact_id = up_artifact_id i, p_attempt = 1, p_state = ''quarantined'',
      p_processor = ''artifact-upload-verifier'', p_processor_version = ''v1'', p_failure_code = None,
      p_result_summary = JObj [(''metadata_verified'', JBool True)], p_correlation_id = up_correlation_id i,
      p_created_by = up_created_by_actor_id i, p_occurred_at = completed_at\<rparr>"

definition completion_payload :: "upload_intent \<Rightarrow> json" where
  "completion_payload i = JObj
     [(''artifact_id'', JStr (uuid_str (up_artifact_id i))), (''artifact_kind'', JStr (up_artifact_kind i)),
      (''case_id'', JStr (uuid_str (up_case_id i))), (''classification'', JStr (up_classification i)),
      (''sha256'', JStr (up_sha256_hex i))]"

text \<open>\<open>_INSERT_ARTIFACT_COMPLETION_EVENT\<close> writes NULL as the transition and as the actor.\<close>

definition completion_event_row :: "uuid \<Rightarrow> uuid \<Rightarrow> upload_intent \<Rightarrow> int \<Rightarrow> int \<Rightarrow> event_row" where
  "completion_event_row event_id org i version completed_at =
     \<lparr>e_id = event_id, e_org = org, e_case_id = up_case_id i, e_transition_id = None,
      e_event_type = ''artifact.completed.v1'', e_aggregate_version = version, e_actor_id = None,
      e_correlation_id = up_correlation_id i, e_payload = completion_payload i, e_occurred_at = completed_at\<rparr>"

definition completion_outbox_row :: "uuid \<Rightarrow> uuid \<Rightarrow> uuid \<Rightarrow> upload_intent \<Rightarrow> int \<Rightarrow> int \<Rightarrow> outbox_row" where
  "completion_outbox_row outbox_id event_id org i version completed_at =
     \<lparr>o_id = outbox_id, o_org = org, o_case_id = up_case_id i, o_case_event_id = event_id,
      o_event_type = ''artifact.completed.v1'', o_aggregate_version = version,
      o_correlation_id = up_correlation_id i, o_payload = completion_payload i, o_available_at = completed_at,
      o_published_at = None, o_attempt_count = 0, o_last_error = None, o_locked_at = None, o_locked_by = None,
      o_created_at = completed_at\<rparr>"

definition insert_completion_outbox :: "uuid \<Rightarrow> uuid \<Rightarrow> uuid \<Rightarrow> upload_intent \<Rightarrow> int \<Rightarrow> db \<Rightarrow> exn + db" where
  "insert_completion_outbox event_id outbox_id org i completed_at d =
     bindE (case find_row (\<lambda>r. c_org r = org \<and> c_id r = up_case_id i) (visible d c_org (db_cases d)) of
              None \<Rightarrow> Inl (NoResultFound ''No row was found when one was required'')
            | Some r \<Rightarrow> Inr (c_version r)) (\<lambda>version.
     bindE (insert_event_row (completion_event_row event_id org i version completed_at) d) (\<lambda>d1.
     insert_outbox_row (completion_outbox_row outbox_id event_id org i version completed_at) d1))"

text \<open>The identifiers one completion draws.\<close>

record completion_ids =
  processing_event_id :: uuid
  completion_event_id :: uuid
  completion_outbox_id :: uuid
  completion_audit_id :: uuid

definition complete_upload ::
  "completion_ids \<Rightarrow> uuid \<Rightarrow> uuid \<Rightarrow> uuid \<Rightarrow> (artifact_upload_request \<Rightarrow> exn + artifact_object_metadata) \<Rightarrow> datetime \<Rightarrow>
   db \<Rightarrow> exn + completed_artifact_upload \<times> db" where
  "complete_upload ids org case_id intent_id head now d =
     (if \<not> is_aware now then Inl (ValueError ''now must be timezone-aware.'')
      else bindE (load_for_completion org case_id intent_id d) (\<lambda>i.
        if up_status i = ''completed''
        then bindE (completed_at_of intent_id d) (\<lambda>t. Inr
          (\<lparr>done_artifact_id = up_artifact_id i, done_completed_at = t, done_already_completed = True\<rparr>, d))
        else if up_status i \<noteq> ''pending''
        then Inl (ArtifactUploadVerificationError ''Upload intent is not completable.'')
        else if instant (up_expires_at i) \<le> instant now
        then Inl (ArtifactUploadIntentExpiredError ''Upload intent has expired.'')
        else
          bindE (mk_artifact_upload_request (completion_request org i)) (\<lambda>request.
          bindE (head request) (\<lambda>m.
          bindE (verify_metadata i m) (\<lambda>_.
          let completed_at = instant now in
          bindE (insert_artifact_row (evidence_row org i m completed_at) d) (\<lambda>d1.
          bindE (insert_processing_row (quarantined_row (processing_event_id ids) org i completed_at) d1) (\<lambda>d2.
          bindE (insert_completion_outbox (completion_event_id ids) (completion_outbox_id ids) org i completed_at d2) (\<lambda>d3.
          bindE (mark_intent_completed (up_intent_id i) completed_at d3) (\<lambda>d4.
          bindE (insert_audit_row (intent_audit_row (completion_audit_id ids) org
            (''human:'' @ (case up_created_by_actor_id i of None \<Rightarrow> ''None'' | Some a \<Rightarrow> uuid_str a))
            ''artifact.upload_completed'' (up_correlation_id i) (up_artifact_id i) (up_case_id i)
            (up_intent_id i) completed_at) d4) (\<lambda>d5.
          Inr (\<lparr>done_artifact_id = up_artifact_id i, done_completed_at = astimezone_utc now,
                 done_already_completed = False\<rparr>, d5)))))))))))"

section \<open>The status read model\<close>

record artifact_status =
  stat_artifact_id :: uuid
  stat_artifact_kind :: string
  stat_status :: string
  stat_status_updated_at :: int

definition pending_status :: "intent_row \<Rightarrow> artifact_status" where
  "pending_status r =
     \<lparr>stat_artifact_id = u_artifact_id r, stat_artifact_kind = u_artifact_kind r, stat_status = ''upload_pending'',
      stat_status_updated_at = u_created_at r\<rparr>"

definition latest_event :: "db \<Rightarrow> artifact_row \<Rightarrow> processing_row option" where
  "latest_event d a =
     (case sort_by latest_first (filter (\<lambda>q. p_org q = r_org a \<and> p_artifact_id q = r_id a)
             (visible d p_org (db_processing d))) of
        [] \<Rightarrow> None | q # _ \<Rightarrow> Some q)"

definition evidence_status :: "db \<Rightarrow> artifact_row \<Rightarrow> artifact_status" where
  "evidence_status d a =
     \<lparr>stat_artifact_id = r_id a, stat_artifact_kind = r_artifact_kind a,
      stat_status = (case latest_event d a of
        None \<Rightarrow> ''verified_awaiting_processing'' | Some q \<Rightarrow> ''processing_'' @ p_state q),
      stat_status_updated_at = (case latest_event d a of None \<Rightarrow> r_created_at a | Some q \<Rightarrow> p_occurred_at q)\<rparr>"

text \<open>\<open>ORDER BY status_updated_at ASC, artifact_id ASC\<close>\<close>

definition status_le :: "artifact_status \<Rightarrow> artifact_status \<Rightarrow> bool" where
  "status_le a b \<longleftrightarrow> stat_status_updated_at a < stat_status_updated_at b
     \<or> stat_status_updated_at a = stat_status_updated_at b \<and> stat_artifact_id a \<le> stat_artifact_id b"

definition list_for_case :: "uuid \<Rightarrow> uuid \<Rightarrow> db \<Rightarrow> artifact_status list" where
  "list_for_case org case_id d = sort_by status_le
     (map pending_status (filter (\<lambda>r. u_org r = org \<and> u_case_id r = case_id \<and> u_status r = ''pending'')
        (visible d u_org (db_intents d)))
      @ map (evidence_status d) (filter (\<lambda>a. r_org a = org \<and> r_case_id a = case_id)
        (visible d r_org (db_artifacts d))))"

end
