(* ===== verification/Case_Service.thy ===== *)
theory Case_Service
  imports Case_Store
begin

text \<open>
  The contract between \<open>CaseService\<close> and its \<open>CasePersistence\<close> port, stated as a locale, the lemmas
  the service owes to it, and its interpretation on \<open>TenantCaseRepository\<close>.
\<close>

section \<open>What the statements change\<close>

lemma insert_transition_row_InrD:
  "insert_transition_row r d = Inr d' \<Longrightarrow>
     d' = d\<lparr>db_transitions := db_transitions d @ [r]\<rparr> \<and> current_org d = Some (t_org r) \<and>
     t_version r \<le> 2147483647 \<and> (\<forall>c \<in> set (transition_checks r). fst c) \<and>
     (\<forall>c \<in> set (transition_keys d r). fst c)"
  by (auto simp: insert_transition_row_def bindE_eq_Inr)

lemma insert_event_row_InrD:
  "insert_event_row r d = Inr d' \<Longrightarrow>
     d' = d\<lparr>db_events := db_events d @ [r]\<rparr> \<and> current_org d = Some (e_org r) \<and>
     (\<forall>c \<in> set (event_keys d r). fst c)"
  by (auto simp: insert_event_row_def bindE_eq_Inr)

lemma insert_outbox_row_InrD:
  "insert_outbox_row r d = Inr d' \<Longrightarrow>
     d' = d\<lparr>db_outbox := db_outbox d @ [r]\<rparr> \<and> current_org d = Some (o_org r) \<and>
     (\<forall>c \<in> set (outbox_checks r). fst c) \<and> (\<forall>c \<in> set (outbox_keys d r). fst c)"
  by (auto simp: insert_outbox_row_def bindE_eq_Inr)

lemma insert_audit_row_InrD:
  "insert_audit_row r d = Inr d' \<Longrightarrow>
     d' = d\<lparr>db_audit := db_audit d @ [r]\<rparr> \<and> current_org d = Some (a_org r) \<and>
     (\<forall>q \<in> set (db_audit d). a_id q \<noteq> a_id r)"
  by (auto simp: insert_audit_row_def bindE_eq_Inr)

lemma insert_case_input_row_InrD:
  "insert_case_input_row r d = Inr d' \<Longrightarrow>
     d' = d\<lparr>db_case_inputs := db_case_inputs d @ [r]\<rparr> \<and> current_org d = Some (ci_org r) \<and>
     case_fk d (ci_org r) (ci_case_id r)"
  by (auto simp: insert_case_input_row_def bindE_eq_Inr)

lemma insert_case_row_InrD:
  "insert_case_row r d = Inr (q, d') \<Longrightarrow> current_org d = Some (c_org r) \<and>
     (q = None \<and> d' = d \<and>
        (\<exists>p \<in> set (db_cases d). c_org p = c_org r \<and> c_idempotency_key p = c_idempotency_key r) \<or>
      q = Some r \<and> (\<forall>c \<in> set (case_checks r). fst c) \<and> (\<forall>c \<in> set (case_keys d r). fst c) \<and>
        \<not> (\<exists>p \<in> set (db_cases d). c_org p = c_org r \<and> c_idempotency_key p = c_idempotency_key r) \<and>
        d' = d\<lparr>db_cases := db_cases d @ [r], deferred_checks := deferred_checks d @ [(None, r)]\<rparr>)"
  by (auto simp: insert_case_row_def bindE_eq_Inr split: if_splits)

definition bump_case :: "uuid \<Rightarrow> case_row \<Rightarrow> case_row list \<Rightarrow> case_row list" where
  "bump_case i new rows = map (\<lambda>r. if c_id r = i then new else r) rows"

definition moved_case :: "case_row \<Rightarrow> string \<Rightarrow> int \<Rightarrow> int \<Rightarrow> case_row" where
  "moved_case old state version updated_at =
     old\<lparr>c_state := state, c_version := version, c_updated_at := updated_at\<rparr>"

lemma moved_case_simps [simp]:
  "c_id (moved_case old s v u) = c_id old" "c_org (moved_case old s v u) = c_org old"
  "c_state (moved_case old s v u) = s" "c_version (moved_case old s v u) = v"
  "c_updated_at (moved_case old s v u) = u" "c_idempotency_key (moved_case old s v u) = c_idempotency_key old"
  "c_request_sha256 (moved_case old s v u) = c_request_sha256 old"
  "c_severity (moved_case old s v u) = c_severity old" "c_title (moved_case old s v u) = c_title old"
  by (simp_all add: moved_case_def)

lemma update_case_version_Some:
  assumes "update_case_version org i e s v u d = Inr (Some new, d')"
  obtains old where "old \<in> set (db_cases d)" "c_org old = org" "c_id old = i" "c_version old = e"
    "current_org d = Some org" "new = moved_case old s v u" "0 \<le> v" "v \<le> 2147483647" "state_check s"
    "d' = d\<lparr>db_cases := bump_case i new (db_cases d),
            deferred_checks := deferred_checks d @ [(Some old, new)]\<rparr>"
proof -
  from assms obtain old where
    f: "find_row (\<lambda>r. c_org r = org \<and> c_id r = i \<and> c_version r = e) (visible d c_org (db_cases d)) = Some old"
    and rest: "new = moved_case old s v u" "\<forall>c \<in> set (case_checks new). fst c" "v \<le> 2147483647"
    "d' = d\<lparr>db_cases := bump_case i new (db_cases d),
            deferred_checks := deferred_checks d @ [(Some old, new)]\<rparr>"
    by (auto simp: update_case_version_def bindE_eq_Inr Let_def moved_case_def bump_case_def
        split: option.splits)
  from find_row_Some [OF f] rest(2) that [of old] rest show ?thesis
    by (auto simp: case_checks_def)
qed

lemma update_case_version_None:
  "update_case_version org i e s v u d = Inr (None, d') \<Longrightarrow>
     d' = d \<and> (\<forall>r \<in> set (visible d c_org (db_cases d)). \<not> (c_org r = org \<and> c_id r = i \<and> c_version r = e))"
  by (auto simp: update_case_version_def bindE_eq_Inr Let_def split: option.splits)

lemma insert_event_and_outbox_InrD:
  assumes "insert_event_and_outbox org oid e t sha d = Inr d'"
  obtains ev ob where "ev = event_row_of org e t (event_payload e t sha)"
    "ob = outbox_row_of org oid e (event_payload e t sha)"
    "d' = d\<lparr>db_events := db_events d @ [ev], db_outbox := db_outbox d @ [ob]\<rparr>"
    "\<forall>c \<in> set (event_keys d ev). fst c"
    "\<forall>c \<in> set (outbox_keys (d\<lparr>db_events := db_events d @ [ev]\<rparr>) ob). fst c"
    "\<forall>c \<in> set (outbox_checks ob). fst c"
proof -
  let ?p = "event_payload e t sha"
  from assms obtain d1 where 1: "insert_event_row (event_row_of org e t ?p) d = Inr d1"
    and 2: "insert_outbox_row (outbox_row_of org oid e ?p) d1 = Inr d'"
    by (auto simp: insert_event_and_outbox_def Let_def bindE_eq_Inr)
  from insert_event_row_InrD [OF 1] insert_outbox_row_InrD [OF 2] show ?thesis
    by (intro that [OF refl refl]) auto
qed

text \<open>
  Everything \<open>persist_transition\<close> does when it succeeds: one projection row moved, one transition,
  event, outbox and audit row appended, one deferred check queued.
\<close>

definition outcome_payload :: "transition_outcome \<Rightarrow> json" where
  "outcome_payload r = event_payload (out_event r) (Some (ev_transition_id (out_event r))) None"

definition outcome_event :: "uuid \<Rightarrow> transition_outcome \<Rightarrow> event_row" where
  "outcome_event org r =
     event_row_of org (out_event r) (Some (ev_transition_id (out_event r))) (outcome_payload r)"

definition outcome_case :: "transition_outcome \<Rightarrow> case_row \<Rightarrow> case_row" where
  "outcome_case r old = moved_case old (case_state_value (snap_state (out_snapshot r)))
     (snap_version (out_snapshot r)) (instant (st_occurred_at (out_transition r)))"

definition persisted :: "uuid \<Rightarrow> uuid \<Rightarrow> transition_outcome \<Rightarrow> actor \<Rightarrow> case_row \<Rightarrow> audit_row \<Rightarrow> db \<Rightarrow> db" where
  "persisted oid org r a old au d =
     d\<lparr>db_cases := bump_case (c_id old) (outcome_case r old) (db_cases d),
       deferred_checks := deferred_checks d @ [(Some old, outcome_case r old)],
       db_transitions := db_transitions d @ [transition_row_of org (out_transition r) a],
       db_events := db_events d @ [outcome_event org r],
       db_outbox := db_outbox d @ [outbox_row_of org oid (out_event r) (outcome_payload r)],
       db_audit := db_audit d @ [au]\<rparr>"

definition persist_keys :: "uuid \<Rightarrow> uuid \<Rightarrow> uuid \<Rightarrow> transition_outcome \<Rightarrow> actor \<Rightarrow> db \<Rightarrow> bool" where
  "persist_keys oid aid org r a d \<longleftrightarrow>
     (let t = transition_row_of org (out_transition r) a; e = outcome_event org r in
      (\<forall>c \<in> set (transition_checks t). fst c)
      \<and> (\<forall>q \<in> set (db_transitions d).
           t_id q \<noteq> t_id t \<and> \<not> (t_case_id q = t_case_id t \<and> t_version q = t_version t))
      \<and> case_fk d org (t_case_id t) \<and> case_fk d org (e_case_id e)
      \<and> (\<forall>q \<in> set (db_events d). e_id q \<noteq> e_id e
           \<and> \<not> (e_org q = org \<and> e_transition_id q = e_transition_id e))
      \<and> (t_id t = ev_transition_id (out_event r)
         \<or> (\<exists>q \<in> set (db_transitions d). t_org q = org \<and> t_id q = ev_transition_id (out_event r)))
      \<and> (\<forall>q \<in> set (db_outbox d). o_id q \<noteq> oid \<and> o_case_event_id q \<noteq> e_id e)
      \<and> (\<forall>c \<in> set (outbox_checks (outbox_row_of org oid (out_event r) (outcome_payload r))). fst c)
      \<and> (\<forall>q \<in> set (db_audit d). a_id q \<noteq> aid))"

lemma outcome_event_simps [simp]:
  "e_id (outcome_event org r) = ev_event_id (out_event r)" "e_org (outcome_event org r) = org"
  "e_case_id (outcome_event org r) = ev_case_id (out_event r)"
  "e_transition_id (outcome_event org r) = Some (ev_transition_id (out_event r))"
  "e_event_type (outcome_event org r) = ev_event_type (out_event r)"
  "e_aggregate_version (outcome_event org r) = ev_aggregate_version (out_event r)"
  "e_actor_id (outcome_event org r) = Some (ev_actor_id (out_event r))"
  by (simp_all add: outcome_event_def event_row_of_def)

lemma outbox_row_of_simps [simp]:
  "o_id (outbox_row_of org oid e p) = oid" "o_org (outbox_row_of org oid e p) = org"
  "o_case_id (outbox_row_of org oid e p) = ev_case_id e"
  "o_case_event_id (outbox_row_of org oid e p) = ev_event_id e"
  "o_event_type (outbox_row_of org oid e p) = ev_event_type e"
  "o_aggregate_version (outbox_row_of org oid e p) = ev_aggregate_version e"
  "o_published_at (outbox_row_of org oid e p) = None" "o_attempt_count (outbox_row_of org oid e p) = 0"
  "o_locked_at (outbox_row_of org oid e p) = None" "o_locked_by (outbox_row_of org oid e p) = None"
  by (simp_all add: outbox_row_of_def)

lemma transition_row_of_simps [simp]:
  "t_id (transition_row_of org t a) = st_transition_id t" "t_org (transition_row_of org t a) = org"
  "t_case_id (transition_row_of org t a) = st_case_id t"
  "t_from_state (transition_row_of org t a) = case_state_value (st_from_state t)"
  "t_to_state (transition_row_of org t a) = case_state_value (st_to_state t)"
  "t_version (transition_row_of org t a) = st_version t"
  "t_actor_kind (transition_row_of org t a) = actor_kind_value (kind a)"
  "t_approval_id (transition_row_of org t a) = st_approval_id t"
  "t_verification_note (transition_row_of org t a) = st_verification_note t"
  "t_knowledge_item_id (transition_row_of org t a) = st_knowledge_item_id t"
  "t_note (transition_row_of org t a) = st_note t" "t_actor_id (transition_row_of org t a) = st_actor_id t"
  by (simp_all add: transition_row_of_def)

lemma outcome_case_simps [simp]:
  "c_id (outcome_case r old) = c_id old" "c_org (outcome_case r old) = c_org old"
  "c_state (outcome_case r old) = case_state_value (snap_state (out_snapshot r))"
  "c_version (outcome_case r old) = snap_version (out_snapshot r)"
  "c_idempotency_key (outcome_case r old) = c_idempotency_key old"
  by (simp_all add: outcome_case_def)

lemma case_fk_bump [simp]:
  "case_fk (d\<lparr>db_cases := bump_case i new (db_cases d)\<rparr>) org j \<longleftrightarrow>
     (\<exists>q \<in> set (bump_case i new (db_cases d)). c_org q = org \<and> c_id q = j)"
  by (simp add: case_fk_def)

lemma bump_case_mem:
  "q \<in> set (bump_case i new rows) \<Longrightarrow> q = new \<and> i \<in> c_id ` set rows \<or> q \<in> set rows \<and> c_id q \<noteq> i"
  by (auto simp: bump_case_def)

lemma persist_transition_InrD:
  assumes "persist_transition oid aid org r a d = Inr (k, d')"
  obtains old au where
    "old \<in> set (db_cases d)" "c_org old = org" "c_id old = snap_case_id (out_snapshot r)"
    "c_version old = snap_version (out_snapshot r) - 1" "current_org d = Some org"
    "0 \<le> snap_version (out_snapshot r)" "snap_version (out_snapshot r) \<le> 2147483647"
    "case_record_of (outcome_case r old) = Inr k" "persist_keys oid aid org r a d"
    "a_org au = org" "a_id au = aid" "d' = persisted oid org r a old au d"
proof -
  let ?o = "out_snapshot r" and ?t = "out_transition r" and ?e = "out_event r"
  let ?i = "snap_case_id ?o" and ?tr = "transition_row_of org ?t a"
  from assms obtain q d1 where u: "update_case_version org ?i (snap_version ?o - 1)
      (case_state_value (snap_state ?o)) (snap_version ?o) (instant (st_occurred_at ?t)) d = Inr (q, d1)"
    by (auto simp: persist_transition_def bindE_eq_Inr)
  show ?thesis
  proof (cases q)
    case None
    with assms u show ?thesis
      by (auto simp: persist_transition_def raise_write_conflict_def bindE_eq_Inr)
  next
    case (Some new)
    with assms u obtain d2 d3 where
      i1: "insert_transition_row ?tr d1 = Inr d2"
      and i2: "insert_event_and_outbox org oid ?e (Some (ev_transition_id ?e)) None d2 = Inr d3"
      and i3: "insert_audit_event org aid a ''case.transitioned'' (ev_correlation_id ?e)
        (ev_occurred_at ?e) (transition_details r) d3 = Inr d'"
      and k: "case_record_of new = Inr k"
      by (auto simp: persist_transition_def bindE_eq_Inr)
    from update_case_version_Some [OF u [unfolded Some]] obtain old where
      old: "old \<in> set (db_cases d)" "c_org old = org" "c_id old = ?i"
        "c_version old = snap_version ?o - 1" "current_org d = Some org"
        "0 \<le> snap_version ?o" "snap_version ?o \<le> 2147483647"
      and new: "new = outcome_case r old"
      and d1: "d1 = d\<lparr>db_cases := bump_case (c_id old) new (db_cases d),
            deferred_checks := deferred_checks d @ [(Some old, new)]\<rparr>"
      unfolding outcome_case_def by metis
    from insert_event_and_outbox_InrD [OF i2] 
    have d3: "d3 = d2\<lparr>db_events := db_events d2 @ [outcome_event org r],
          db_outbox := db_outbox d2 @ [outbox_row_of org oid ?e (outcome_payload r)]\<rparr>"
      and ek: "\<forall>c \<in> set (event_keys d2 (outcome_event org r)). fst c"
      and ok: "\<forall>c \<in> set (outbox_keys (d2\<lparr>db_events := db_events d2 @ [outcome_event org r]\<rparr>)
          (outbox_row_of org oid ?e (outcome_payload r))). fst c"
      and oc: "\<forall>c \<in> set (outbox_checks (outbox_row_of org oid ?e (outcome_payload r))). fst c"
      unfolding outcome_event_def outcome_payload_def by metis+
    from insert_transition_row_InrD [OF i1]
    have d2: "d2 = d1\<lparr>db_transitions := db_transitions d1 @ [?tr]\<rparr>"
      and tc: "\<forall>c \<in> set (transition_checks ?tr). fst c"
      and tk: "\<forall>c \<in> set (transition_keys d1 ?tr). fst c" by blast+
    from insert_audit_row_InrD [OF i3 [unfolded insert_audit_event_def]] obtain au where
      au: "a_org au = org" "a_id au = aid" "d' = d3\<lparr>db_audit := db_audit d3 @ [au]\<rparr>"
      and ak: "\<forall>q \<in> set (db_audit d3). a_id q \<noteq> aid" by force
    have fk: "case_fk d org j"
      if "\<exists>q \<in> set (bump_case (c_id old) new (db_cases d)). c_org q = org \<and> c_id q = j" for j
      using that old(1,2) by (auto simp: case_fk_def new dest!: bump_case_mem)
    have "persist_keys oid aid org r a d"
      using tc tk ek ok oc ak fk unfolding persist_keys_def Let_def
      by (simp add: transition_keys_def event_keys_def outbox_keys_def d1 d2 d3 case_fk_def)
    moreover have "d' = persisted oid org r a old au d"
      by (simp add: persisted_def au d1 d2 d3 new)
    ultimately show ?thesis
      using that old au(1,2) k new by blast
  qed
qed

section \<open>The port and its service\<close>

text \<open>
  A run of the service: each command is decided and persisted in turn, with the identifiers that
  step draws; the first refusal stops it.
\<close>

fun service_run ::
  "(uuid \<Rightarrow> 's \<Rightarrow> exn + case_snapshot) \<Rightarrow>
   ('f \<Rightarrow> transition_outcome \<Rightarrow> actor \<Rightarrow> 's \<Rightarrow> exn + case_record \<times> 's) \<Rightarrow>
   ('f \<times> transition_command) list \<Rightarrow> 's \<Rightarrow> exn + 's" where
  "service_run snapshot persist [] s = Inr s"
| "service_run snapshot persist (fc # fcs) s =
     bindE (service_transition snapshot (persist (fst fc)) (snd fc) s) (\<lambda>(_, s').
     service_run snapshot persist fcs s')"

text \<open>
  What the service relies on: a write succeeds only over the version it was computed from, stores
  exactly the outcome's snapshot, leaves every other case alone, and reports a stale version as a
  conflict. \<open>inv\<close> is the provider's own invariant; \<open>'f\<close> is what a write draws at random.
\<close>

locale case_persistence =
  fixes snapshot :: "uuid \<Rightarrow> 's \<Rightarrow> exn + case_snapshot"
    and persist :: "'f \<Rightarrow> transition_outcome \<Rightarrow> actor \<Rightarrow> 's \<Rightarrow> exn + case_record \<times> 's"
    and inv :: "'s \<Rightarrow> bool"
  assumes snapshot_id: "snapshot i s = Inr c \<Longrightarrow> snap_case_id c = i"
    and persist_inv: "inv s \<Longrightarrow> persist f r a s = Inr (k, s') \<Longrightarrow> inv s'"
    and persist_cas: "inv s \<Longrightarrow> persist f r a s = Inr (k, s') \<Longrightarrow>
      \<exists>c. snapshot (snap_case_id (out_snapshot r)) s = Inr c \<and>
          snap_version c = snap_version (out_snapshot r) - 1"
    and persist_stores: "inv s \<Longrightarrow> persist f r a s = Inr (k, s') \<Longrightarrow>
      snapshot (snap_case_id (out_snapshot r)) s' = Inr (out_snapshot r)"
    and persist_frame: "inv s \<Longrightarrow> persist f r a s = Inr (k, s') \<Longrightarrow>
      i \<noteq> snap_case_id (out_snapshot r) \<Longrightarrow> snapshot i s' = snapshot i s"
    and persist_conflict: "inv s \<Longrightarrow> snapshot (snap_case_id (out_snapshot r)) s = Inr c \<Longrightarrow>
      0 \<le> snap_version (out_snapshot r) \<Longrightarrow> snap_version (out_snapshot r) \<le> snap_version c \<Longrightarrow>
      persist f r a s = Inl (VersionConflictError (snap_case_id (out_snapshot r))
        (snap_version (out_snapshot r) - 1) (snap_version c))"
begin

lemma transition_step:
  assumes "inv s" and "service_transition snapshot (persist f) c s = Inr (k, s')"
  obtains cur r where "snapshot (tc_case_id c) s = Inr cur" "apply_transition cur c = Inr r"
    "snapshot (tc_case_id c) s' = Inr (out_snapshot r)" "inv s'"
    "\<And>i. i \<noteq> tc_case_id c \<Longrightarrow> snapshot i s' = snapshot i s"
proof -
  from assms(2) obtain cur r where cur: "snapshot (tc_case_id c) s = Inr cur"
    and r: "apply_transition cur c = Inr r" and p: "persist f r (tc_actor c) s = Inr (k, s')"
    by (auto simp: service_transition_def bindE_eq_Inr)
  from apply_transition_InrD(1,6) [OF r] have i: "snap_case_id (out_snapshot r) = tc_case_id c"
    by simp
  from that [OF cur r] persist_stores [OF assms(1) p] persist_inv [OF assms(1) p]
    persist_frame [OF assms(1) p] show ?thesis by (simp add: i)
qed

lemma run_inv: "inv s \<Longrightarrow> service_run snapshot persist fcs s = Inr s' \<Longrightarrow> inv s'"
  by (induction fcs arbitrary: s) (auto simp: bindE_eq_Inr elim: transition_step)

text \<open>What a run does to one case is the pure state machine on that case's own commands.\<close>

lemma run_refines:
  assumes "inv s" and "service_run snapshot persist fcs s = Inr s'" and "snapshot i s = Inr cur"
  shows "\<exists>final. run_commands cur (filter (\<lambda>c. tc_case_id c = i) (map snd fcs)) = Inr final \<and>
    snapshot i s' = Inr final"
  using assms
proof (induction fcs arbitrary: s cur)
  case Nil
  then show ?case by simp
next
  case (Cons fc fcs)
  obtain f c where fc: "fc = (f, c)" by (cases fc)
  from Cons.prems(2) obtain k s1 where
    t: "service_transition snapshot (persist f) c s = Inr (k, s1)"
    and rest: "service_run snapshot persist fcs s1 = Inr s'"
    by (auto simp: fc bindE_eq_Inr)
  from transition_step [OF Cons.prems(1) t] obtain cur' r where
    cur': "snapshot (tc_case_id c) s = Inr cur'" and r: "apply_transition cur' c = Inr r"
    and s1: "snapshot (tc_case_id c) s1 = Inr (out_snapshot r)" "inv s1"
    and frame: "\<And>i. i \<noteq> tc_case_id c \<Longrightarrow> snapshot i s1 = snapshot i s" by blast
  show ?case
  proof (cases "tc_case_id c = i")
    case True
    with cur' Cons.prems(3) r Cons.IH [OF s1(2) rest, of "out_snapshot r"] s1(1) show ?thesis
      by (simp add: fc)
  next
    case False
    with frame Cons.prems(3) Cons.IH [OF s1(2) rest, of cur] show ?thesis by (simp add: fc)
  qed
qed

text \<open>Of two decisions taken on the same snapshot, the second write loses.\<close>

lemma stale_write_loses:
  assumes "inv s" and "snapshot i s = Inr cur" and "0 \<le> snap_version cur"
    and "apply_transition cur c1 = Inr r1" and "apply_transition cur c2 = Inr r2"
    and "persist f1 r1 a1 s = Inr (k, s')"
  shows "persist f2 r2 a2 s' = Inl (VersionConflictError i (snap_version cur) (snap_version cur + 1))"
proof -
  note o1 = apply_transition_InrD(6) [OF assms(4)] and o2 = apply_transition_InrD(6) [OF assms(5)]
  from snapshot_id [OF assms(2)] have i: "snap_case_id cur = i" .
  from persist_stores [OF assms(1,6)] o1 i have "snapshot i s' = Inr (out_snapshot r1)" by simp
  with persist_conflict [OF persist_inv [OF assms(1,6)], of r2 "out_snapshot r1" f2 a2] o1 o2 i assms(3)
  show ?thesis by simp
qed

end

section \<open>The repository provides it\<close>

text \<open>Primary keys are unique and a projection carries a known state and a 32-bit version.\<close>

definition cases_ok :: "db \<Rightarrow> bool" where
  "cases_ok d \<longleftrightarrow> distinct (map c_id (db_cases d)) \<and>
     (\<forall>r \<in> set (db_cases d). 0 \<le> c_version r \<and> c_version r \<le> 2147483647 \<and> state_check (c_state r))"

lemma state_check_iff: "state_check t \<longleftrightarrow> (\<exists>s. t = case_state_value s)"
proof
  assume "state_check t"
  then have "\<exists>s \<in> set all_case_states. t = case_state_value s"
    by (auto simp: state_check_def all_case_states_def)
  then show "\<exists>s. t = case_state_value s" by blast
next
  assume "\<exists>s. t = case_state_value s"
  then obtain s where "t = case_state_value s" by blast
  then show "state_check t" by (cases s) (simp_all add: state_check_def)
qed

definition repo_snapshot :: "uuid \<Rightarrow> uuid \<Rightarrow> db \<Rightarrow> exn + case_snapshot" where
  "repo_snapshot org i d = get_snapshot org i d"

definition repo_persist :: "uuid \<Rightarrow> uuid \<times> uuid \<Rightarrow> transition_outcome \<Rightarrow> actor \<Rightarrow> db \<Rightarrow>
    exn + case_record \<times> db" where
  "repo_persist org f r a d = persist_transition (fst f) (snd f) org r a d"

lemma map_c_id_bump [simp]: "c_id new = i \<Longrightarrow> map c_id (bump_case i new rows) = map c_id rows"
  by (induction rows) (auto simp: bump_case_def)

lemma ball_bump_case:
  "P new \<Longrightarrow> (\<forall>r \<in> set rows. P r) \<Longrightarrow> (\<forall>r \<in> set (bump_case i new rows). P r)"
  by (auto simp: bump_case_def)

lemma find_row_distinct:
  assumes "distinct (map key rows)" "x \<in> set rows" "p x" "\<And>y. p y \<Longrightarrow> key y = key x"
  shows "find_row p rows = Some x"
  using assms by (intro find_row_unique) (auto dest: distinct_map_eqD)

lemma visible_distinct [simp]: "distinct (map f rows) \<Longrightarrow> distinct (map f (visible d g rows))"
  by (simp add: visible_def distinct_map_filter)

lemma get_snapshot_row:
  assumes "distinct (map c_id (db_cases d))" "row \<in> set (db_cases d)" "c_org row = org"
    "current_org d = Some org"
  shows "get_snapshot org (c_id row) d =
    bindE (CaseState (c_state row)) (\<lambda>s. mk_case_snapshot (c_id row) s (c_version row))"
proof -
  have "find_row (\<lambda>r. c_org r = org \<and> c_id r = c_id row) (visible d c_org (db_cases d)) = Some row"
    using assms by (intro find_row_distinct [where key = c_id]) auto
  then show ?thesis by (simp add: get_snapshot_def)
qed

lemma get_snapshot_InrD:
  assumes "get_snapshot org i d = Inr c"
  obtains row where "row \<in> set (db_cases d)" "c_org row = org" "c_id row = i" "current_org d = Some org"
    "CaseState (c_state row) = Inr (snap_state c)" "snap_version c = c_version row" "snap_case_id c = i"
    "0 \<le> c_version row"
proof -
  from assms obtain row s where
    f: "find_row (\<lambda>r. c_org r = org \<and> c_id r = i) (visible d c_org (db_cases d)) = Some row"
    and s: "CaseState (c_state row) = Inr s" "mk_case_snapshot (c_id row) s (c_version row) = Inr c"
    by (auto simp: get_snapshot_def bindE_eq_Inr split: option.splits)
  from find_row_Some [OF f] s that [of row] show ?thesis
    by (auto simp: mk_case_snapshot_def split: if_splits)
qed

lemma get_snapshot_cong:
  "current_org d' = current_org d \<Longrightarrow> db_cases d' = db_cases d \<Longrightarrow> get_snapshot org i d' = get_snapshot org i d"
  by (simp add: get_snapshot_def visible_def)

lemma persisted_simps [simp]:
  "current_org (persisted oid org r a old au d) = current_org d"
  "db_cases (persisted oid org r a old au d) = bump_case (c_id old) (outcome_case r old) (db_cases d)"
  by (simp_all add: persisted_def current_org_def)

lemma outcome_case_mem:
  "old \<in> set rows \<Longrightarrow> outcome_case r old \<in> set (bump_case (c_id old) (outcome_case r old) rows)"
  by (auto simp: bump_case_def)

lemma persist_transition_cases_ok:
  assumes "cases_ok d" and "persist_transition oid aid org r a d = Inr (k, d')"
  shows "cases_ok d'"
proof -
  from persist_transition_InrD [OF assms(2)] obtain old au where
    v: "0 \<le> snap_version (out_snapshot r)" "snap_version (out_snapshot r) \<le> 2147483647"
    and d': "d' = persisted oid org r a old au d" by metis
  have "state_check (c_state (outcome_case r old))"
    unfolding outcome_case_simps state_check_iff by blast
  with v have new: "0 \<le> c_version (outcome_case r old) \<and> c_version (outcome_case r old) \<le> 2147483647
      \<and> state_check (c_state (outcome_case r old))" by simp
  from assms(1) show ?thesis
    unfolding cases_ok_def d' persisted_simps
    by (elim conjE, intro conjI ball_bump_case new) simp_all
qed

lemma persist_transition_stores:
  assumes "cases_ok d" and "persist_transition oid aid org r a d = Inr (k, d')"
  shows "get_snapshot org (snap_case_id (out_snapshot r)) d' = Inr (out_snapshot r)"
proof -
  from persist_transition_InrD [OF assms(2)] obtain old au where
    old: "old \<in> set (db_cases d)" "c_org old = org" "c_id old = snap_case_id (out_snapshot r)"
      "current_org d = Some org" "0 \<le> snap_version (out_snapshot r)"
    and d': "d' = persisted oid org r a old au d" by metis
  let ?new = "outcome_case r old"
  from assms(1) have "distinct (map c_id (db_cases d'))"
    unfolding d' persisted_simps by (simp add: cases_ok_def)
  moreover from outcome_case_mem [OF old(1)] have "?new \<in> set (db_cases d')"
    unfolding d' persisted_simps .
  moreover from old(4) have "current_org d' = Some org" unfolding d' persisted_simps .
  ultimately have "get_snapshot org (c_id ?new) d' =
      bindE (CaseState (c_state ?new)) (\<lambda>s. mk_case_snapshot (c_id ?new) s (c_version ?new))"
    using old(2) by (intro get_snapshot_row) simp_all
  with old(3,5) show ?thesis by simp
qed

lemma persist_transition_frame:
  assumes "persist_transition oid aid org r a d = Inr (k, d')" "i \<noteq> snap_case_id (out_snapshot r)"
  shows "get_snapshot org' i d' = get_snapshot org' i d"
proof -
  from persist_transition_InrD [OF assms(1)] obtain old au where
    i: "c_id old = snap_case_id (out_snapshot r)" and d': "d' = persisted oid org r a old au d" by metis
  have "find_row (\<lambda>q. c_org q = org' \<and> c_id q = i) (visible d' c_org (bump_case (c_id old) (outcome_case r old) rows))
      = find_row (\<lambda>q. c_org q = org' \<and> c_id q = i) (visible d c_org rows)" for rows
    using i assms(2) d' by (induction rows) (auto simp: visible_def bump_case_def)
  then show ?thesis by (simp add: get_snapshot_def d')
qed

lemma persist_transition_conflict:
  assumes "cases_ok d" and "get_snapshot org (snap_case_id (out_snapshot r)) d = Inr c"
    and "0 \<le> snap_version (out_snapshot r)" "snap_version (out_snapshot r) \<le> snap_version c"
  shows "persist_transition oid aid org r a d = Inl (VersionConflictError (snap_case_id (out_snapshot r))
    (snap_version (out_snapshot r) - 1) (snap_version c))"
proof -
  let ?o = "out_snapshot r"
  from get_snapshot_InrD [OF assms(2)] obtain row where
    row: "row \<in> set (db_cases d)" "c_id row = snap_case_id ?o" "snap_version c = c_version row" by metis
  have other: "q = row" if "q \<in> set (db_cases d)" "c_id q = snap_case_id ?o" for q
    using that row assms(1) by (auto simp: cases_ok_def dest: distinct_map_eqD)
  have "\<not> (c_org q = org \<and> c_id q = snap_case_id ?o \<and> c_version q = snap_version ?o - 1)"
    if "q \<in> set (db_cases d)" for q
    using other [OF that] row(3) assms(4) by auto
  then have "find_row (\<lambda>q. c_org q = org \<and> c_id q = snap_case_id ?o \<and> c_version q = snap_version ?o - 1)
      (visible d c_org (db_cases d)) = None"
    unfolding find_row_None by simp
  moreover from assms(1) row have "c_version row \<le> 2147483647" by (auto simp: cases_ok_def)
  with assms(3,4) row(3) have "int4 (snap_version ?o) = Inr ()" by (intro int4_ok) simp_all
  ultimately have "update_case_version org (snap_case_id ?o) (snap_version ?o - 1)
      (case_state_value (snap_state ?o)) (snap_version ?o) t d = Inr (None, d)" for t
    by (simp only: update_case_version_def bindE_Inr option.case)
  with assms(2) show ?thesis by (simp add: persist_transition_def raise_write_conflict_def)
qed

interpretation repo: case_persistence "repo_snapshot org" "repo_persist org" cases_ok for org :: uuid
proof (unfold_locales, unfold repo_snapshot_def repo_persist_def)
  fix i s c assume "get_snapshot org i s = Inr c"
  then show "snap_case_id c = i" by (rule get_snapshot_InrD)
next
  fix s f r a k s' assume "cases_ok s" "persist_transition (fst f) (snd f) org r a s = Inr (k, s')"
  then show "cases_ok s'" by (rule persist_transition_cases_ok)
next
  fix s :: db and f r a k s'
  assume ok: "cases_ok s" and p: "persist_transition (fst f) (snd f) org r a s = Inr (k, s')"
  from persist_transition_InrD [OF p] obtain old au where
    old: "old \<in> set (db_cases s)" "c_org old = org" "c_id old = snap_case_id (out_snapshot r)"
      "c_version old = snap_version (out_snapshot r) - 1" "current_org s = Some org" by metis
  show "\<exists>c. get_snapshot org (snap_case_id (out_snapshot r)) s = Inr c \<and>
      snap_version c = snap_version (out_snapshot r) - 1"
  proof -
    from ok old(1) have "state_check (c_state old)" "0 \<le> c_version old" by (auto simp: cases_ok_def)
    then obtain st where "CaseState (c_state old) = Inr st" by (auto simp: state_check_iff)
    with get_snapshot_row [OF _ old(1,2,5)] ok old \<open>0 \<le> c_version old\<close>
    show ?thesis by (simp add: cases_ok_def)
  qed
next
  fix s f r a k s' assume "cases_ok s" "persist_transition (fst f) (snd f) org r a s = Inr (k, s')"
  then show "get_snapshot org (snap_case_id (out_snapshot r)) s' = Inr (out_snapshot r)"
    by (rule persist_transition_stores)
next
  fix s :: db and f r a k s' i
  assume "persist_transition (fst f) (snd f) org r a s = Inr (k, s')" "i \<noteq> snap_case_id (out_snapshot r)"
  then show "get_snapshot org i s' = get_snapshot org i s" by (rule persist_transition_frame)
next
  fix s :: db and r :: transition_outcome and c f a
  assume "cases_ok s" "get_snapshot org (snap_case_id (out_snapshot r)) s = Inr c"
    "0 \<le> snap_version (out_snapshot r)" "snap_version (out_snapshot r) \<le> snap_version c"
  then show "persist_transition (fst f) (snd f) org r a s =
      Inl (VersionConflictError (snap_case_id (out_snapshot r)) (snap_version (out_snapshot r) - 1)
        (snap_version c))" by (rule persist_transition_conflict)
qed

end
