(* ===== verification/Case_History.thy ===== *)
theory Case_History
  imports Case_Service
begin

text \<open>
  The invariants of the case tables at rest (between transactions), and that every repository write,
  run inside \<open>tenant_connection\<close> with the deferred triggers at commit, keeps them: the immutable
  transition rows of a case replay, version by version, from \<open>new\<close> to its projection, and every case
  event has exactly one outbox row that copies it.
\<close>

section \<open>Invariants\<close>

definition case_transitions :: "db \<Rightarrow> uuid \<Rightarrow> transition_row list" where
  "case_transitions d i = filter (\<lambda>t. t_case_id t = i) (db_transitions d)"

text \<open>The rows lead from one state and version to another, each along an allowed edge.\<close>

fun history_from :: "string \<Rightarrow> int \<Rightarrow> transition_row list \<Rightarrow> string \<Rightarrow> int \<Rightarrow> bool" where
  "history_from s v [] s' v' = (s = s' \<and> v = v')"
| "history_from s v (t # ts) s' v' =
     (t_from_state t = s \<and> t_version t = v + 1 \<and> allowed_edge s (t_to_state t) \<and>
      history_from (t_to_state t) (v + 1) ts s' v')"

definition history_ok :: "db \<Rightarrow> bool" where
  "history_ok d \<longleftrightarrow> (\<forall>c \<in> set (db_cases d).
     history_from ''new'' 0 (case_transitions d (c_id c)) (c_state c) (c_version c))"

definition transitions_ok :: "db \<Rightarrow> bool" where
  "transitions_ok d \<longleftrightarrow> (\<forall>t \<in> set (db_transitions d).
     case_fk d (t_org t) (t_case_id t) \<and> (\<forall>c \<in> set (transition_checks t). fst c))"

definition copies_event :: "outbox_row \<Rightarrow> event_row \<Rightarrow> bool" where
  "copies_event q e \<longleftrightarrow> o_case_event_id q = e_id e \<and> o_org q = e_org e \<and> o_case_id q = e_case_id e
     \<and> o_event_type q = e_event_type e \<and> o_aggregate_version q = e_aggregate_version e
     \<and> o_correlation_id q = e_correlation_id e \<and> o_payload q = e_payload e"

definition outbox_ok :: "db \<Rightarrow> bool" where
  "outbox_ok d \<longleftrightarrow> distinct (map e_id (db_events d)) \<and> list_all2 copies_event (db_outbox d) (db_events d)"

definition at_rest :: "db \<Rightarrow> bool" where
  "at_rest d \<longleftrightarrow> deferred_checks d = [] \<and> current_org d = None"

definition case_invariant :: "db \<Rightarrow> bool" where
  "case_invariant d \<longleftrightarrow>
     at_rest d \<and> cases_ok d \<and> transitions_ok d \<and> history_ok d \<and> outbox_ok d"

lemma case_invariantI:
  "at_rest d \<Longrightarrow> cases_ok d \<Longrightarrow> transitions_ok d \<Longrightarrow> history_ok d \<Longrightarrow> outbox_ok d \<Longrightarrow> case_invariant d"
  by (simp add: case_invariant_def)

section \<open>Histories\<close>

lemma history_from_append:
  "history_from s v (ts @ us) s' v' \<longleftrightarrow>
     (\<exists>s1 v1. history_from s v ts s1 v1 \<and> history_from s1 v1 us s' v')"
  by (induction ts arbitrary: s v) auto

lemma history_from_versions:
  "history_from s v ts s' v' \<Longrightarrow>
     v' = v + int (length ts) \<and> map t_version ts = map (\<lambda>i. v + 1 + int i) [0..<length ts]"
proof (induction ts arbitrary: s v)
  case Nil
  then show ?case by simp
next
  case (Cons t ts)
  from Cons.prems have h: "history_from (t_to_state t) (v + 1) ts s' v'" and t: "t_version t = v + 1"
    by simp_all
  have "map (\<lambda>i. v + 1 + int i) [0..<length (t # ts)] = (v + 1) # map (\<lambda>i. v + 2 + int i) [0..<length ts]"
    by (simp add: upt_conv_Cons map_Suc_upt [symmetric] algebra_simps del: upt_Suc map_Suc_upt)
  with Cons.IH [OF h] t show ?case by (simp add: algebra_simps)
qed

lemma history_from_version_le: "history_from s v ts s' v' \<Longrightarrow> t \<in> set ts \<Longrightarrow> t_version t \<le> v'"
proof -
  assume h: "history_from s v ts s' v'" and t: "t \<in> set ts"
  from t obtain i where i: "i < length ts" "t = ts ! i" by (auto simp: in_set_conv_nth)
  from history_from_versions [OF h] have "map t_version ts ! i = map (\<lambda>i. v + 1 + int i) [0..<length ts] ! i"
    by simp
  with i have "t_version t = v + 1 + int i" by simp
  with i history_from_versions [OF h] show ?thesis by simp
qed

text \<open>A state reached from \<open>new\<close> was entered by its last row, unless nothing happened.\<close>

lemma history_from_enters:
  "history_from s v ts s' v' \<Longrightarrow> s \<noteq> s' \<Longrightarrow> \<exists>t \<in> set ts. t_to_state t = s'"
proof (induction ts arbitrary: s v)
  case (Cons t ts)
  then show ?case by (cases "t_to_state t = s'") auto
qed simp

lemma history_from_prefix:
  "history_from s v ts s' v' \<Longrightarrow> t \<in> set ts \<Longrightarrow>
     \<exists>us v1. history_from s v us (t_from_state t) v1 \<and> set us \<subseteq> set ts"
proof (induction ts arbitrary: s v)
  case (Cons u ts)
  show ?case
  proof (cases "t = u")
    case True
    with Cons.prems have "history_from s v [] (t_from_state t) v" by simp
    then show ?thesis by (intro exI [of _ "[]"] exI [of _ v]) simp
  next
    case False
    with Cons.prems Cons.IH [of "t_to_state u" "v + 1"] obtain us v1 where
      "history_from (t_to_state u) (v + 1) us (t_from_state t) v1" "set us \<subseteq> set ts" by auto
    with Cons.prems show ?thesis by (intro exI [of _ "u # us"] exI [of _ v1]) auto
  qed
qed simp

section \<open>Transactions\<close>

definition bound :: "uuid \<Rightarrow> db \<Rightarrow> db" where
  "bound org d = d\<lparr>app_organization_id := Some (uuid_str org)\<rparr>"

lemma bound_simps [simp]:
  "current_org (bound org d) = Some org" "db_cases (bound org d) = db_cases d"
  "db_transitions (bound org d) = db_transitions d" "db_events (bound org d) = db_events d"
  "db_outbox (bound org d) = db_outbox d" "db_audit (bound org d) = db_audit d"
  "db_case_inputs (bound org d) = db_case_inputs d" "deferred_checks (bound org d) = deferred_checks d"
  "db_organizations (bound org d) = db_organizations d" "db_assets (bound org d) = db_assets d"
  "app_organization_id (bound org d) = Some (uuid_str org)" "db_inbox (bound org d) = db_inbox d"
  by (simp_all add: bound_def)

lemma case_fk_bound [simp]: "case_fk (bound org d) = case_fk d"
  by (intro ext) (simp add: case_fk_def)

text \<open>\<open>settled setting d\<close>: the database a commit leaves, with the transaction's setting gone.\<close>

definition settled :: "string option \<Rightarrow> db \<Rightarrow> db" where
  "settled setting d = d\<lparr>deferred_checks := [], app_organization_id := setting\<rparr>"

lemma settled_simps [simp]:
  "db_cases (settled g d) = db_cases d" "db_transitions (settled g d) = db_transitions d"
  "db_events (settled g d) = db_events d" "db_outbox (settled g d) = db_outbox d"
  "db_audit (settled g d) = db_audit d" "db_case_inputs (settled g d) = db_case_inputs d"
  "deferred_checks (settled g d) = []" "app_organization_id (settled g d) = g"
  "db_organizations (settled g d) = db_organizations d" "db_assets (settled g d) = db_assets d"
  "db_inbox (settled g d) = db_inbox d"
  by (simp_all add: settled_def)

lemma invariants_bound [simp]:
  "cases_ok (bound org d) = cases_ok d" "transitions_ok (bound org d) = transitions_ok d"
  "history_ok (bound org d) = history_ok d" "outbox_ok (bound org d) = outbox_ok d"
  by (simp_all add: cases_ok_def transitions_ok_def history_ok_def outbox_ok_def case_transitions_def)

lemma invariants_settled [simp]:
  "cases_ok (settled g d) = cases_ok d" "transitions_ok (settled g d) = transitions_ok d"
  "history_ok (settled g d) = history_ok d" "outbox_ok (settled g d) = outbox_ok d"
  by (simp_all add: cases_ok_def transitions_ok_def history_ok_def outbox_ok_def case_transitions_def
      case_fk_def)

lemma at_rest_settled: "at_rest d \<Longrightarrow> at_rest (settled (app_organization_id d) d')"
  by (simp add: at_rest_def current_org_def)

lemma traverseE_units_Inr: "traverseE f xs = Inr ys \<Longrightarrow> x \<in> set xs \<Longrightarrow> \<exists>y. f x = Inr y"
  by (induction xs arbitrary: ys) (auto simp: bindE_eq_Inr)

lemma traverseE_total: "(\<And>x. x \<in> set xs \<Longrightarrow> is_ok (f x)) \<Longrightarrow> is_ok (traverseE f xs)"
proof (induction xs)
  case (Cons a xs)
  from Cons.prems [of a] obtain y where "f a = Inr y" by (auto simp: is_ok_iff)
  with Cons show ?case by (auto simp: is_ok_iff)
qed simp

lemma commit_Inr:
  "commit d = Inr d' \<Longrightarrow> d' = d\<lparr>deferred_checks := []\<rparr> \<and>
     (\<forall>x \<in> set (deferred_checks d). assert_case_projection_history d x = Inr ())"
  by (auto simp: commit_def bindE_eq_Inr dest: traverseE_units_Inr)

lemma commit_ok:
  "(\<And>x. x \<in> set (deferred_checks d) \<Longrightarrow> assert_case_projection_history d x = Inr ()) \<Longrightarrow>
     commit d = Inr (d\<lparr>deferred_checks := []\<rparr>)"
  using traverseE_total [of "deferred_checks d" "assert_case_projection_history d"]
  by (auto simp: commit_def is_ok_iff)

text \<open>
  A tenant transaction either fails and leaves the database as it was, or commits what its block
  did after every deferred check passed.
\<close>

lemma tenant_connection_cases:
  obtains (failed) e where "tenant_connection org body d = (Inl e, d)"
  | (committed) x d2 where "body (bound org d) = Inr (x, d2)"
      "\<forall>q \<in> set (deferred_checks d2). assert_case_projection_history d2 q = Inr ()"
      "tenant_connection org body d = (Inr x, settled (app_organization_id d) d2)"
proof -
  have tc: "tenant_connection org body d =
    (case bindE (body (bound org d)) (\<lambda>(x, d2). bindE (commit d2) (\<lambda>d3. Inr (x, d3))) of
        Inl e \<Rightarrow> (Inl e, d)
      | Inr (x, d3) \<Rightarrow> (Inr x, d3\<lparr>app_organization_id := app_organization_id d\<rparr>))"
    by (simp add: tenant_connection_def tenant_transaction_def bound_def)
  show ?thesis
  proof (cases "bindE (body (bound org d)) (\<lambda>(x, d2). bindE (commit d2) (\<lambda>d3. Inr (x, d3)))")
    case (Inl e)
    with tc failed show ?thesis by simp
  next
    case (Inr xd)
    then obtain x d2 d3 where b: "body (bound org d) = Inr (x, d2)" and c: "commit d2 = Inr d3"
      and xd: "xd = (x, d3)" by (auto simp: bindE_eq_Inr)
    from commit_Inr [OF c] have "tenant_connection org body d =
        (Inr x, settled (app_organization_id d) d2)"
      by (simp add: tc Inr xd settled_def)
    with b commit_Inr [OF c] committed show ?thesis by blast
  qed
qed

lemma tenant_connection_committed:
  assumes "body (bound org d) = Inr (x, d2)"
    and "\<And>q. q \<in> set (deferred_checks d2) \<Longrightarrow> assert_case_projection_history d2 q = Inr ()"
  shows "tenant_connection org body d = (Inr x, settled (app_organization_id d) d2)"
  using commit_ok [OF assms(2)] assms(1)
  by (simp add: tenant_connection_def tenant_transaction_def bound_def settled_def)

lemma tenant_connection_failed:
  "body (bound org d) = Inl e \<Longrightarrow> tenant_connection org body d = (Inl e, d)"
  by (simp add: tenant_connection_def tenant_transaction_def bound_def)

section \<open>Transitions keep the invariant\<close>

lemma persisted_tables [simp]:
  "db_transitions (persisted oid org r a old au d) =
     db_transitions d @ [transition_row_of org (out_transition r) a]"
  "db_events (persisted oid org r a old au d) = db_events d @ [outcome_event org r]"
  "db_outbox (persisted oid org r a old au d) =
     db_outbox d @ [outbox_row_of org oid (out_event r) (outcome_payload r)]"
  "deferred_checks (persisted oid org r a old au d) = deferred_checks d @ [(Some old, outcome_case r old)]"
  by (simp_all add: persisted_def)

text \<open>What the moved row shares with the old one, the table keeps.\<close>

lemma map_bump_case:
  assumes "distinct (map c_id rows)" "old \<in> set rows" "c_id old = i" "f new = f old"
  shows "map f (bump_case i new rows) = map f rows"
proof -
  have "f (if c_id q = i then new else q) = f q" if "q \<in> set rows" for q
  proof (cases "c_id q = i")
    case True
    with distinct_map_eqD [OF assms(1) that assms(2)] assms(3) have "q = old" by simp
    with True assms(3,4) show ?thesis by simp
  qed simp
  then show ?thesis unfolding bump_case_def by simp
qed

lemma case_fk_bump_case:
  assumes "c_id new = i" "old \<in> set rows" "c_id old = i" "c_org new = c_org old" "distinct (map c_id rows)"
  shows "(\<exists>q \<in> set (bump_case i new rows). c_org q = org \<and> c_id q = j) \<longleftrightarrow>
     (\<exists>q \<in> set rows. c_org q = org \<and> c_id q = j)"
proof -
  let ?key = "\<lambda>q :: case_row. (c_org q, c_id q)"
  have "map ?key (bump_case i new rows) = map ?key rows"
    by (rule map_bump_case [OF assms(5,2,3)]) (use assms in simp)
  from arg_cong [OF this, of set] have "?key ` set (bump_case i new rows) = ?key ` set rows"
    unfolding set_map .
  then have "(org, j) \<in> ?key ` set (bump_case i new rows) \<longleftrightarrow> (org, j) \<in> ?key ` set rows" by simp
  then show ?thesis by (auto simp: image_iff)
qed

lemma outcome_copies:
  "copies_event (outbox_row_of org oid (out_event r) (outcome_payload r)) (outcome_event org r)"
  by (simp add: copies_event_def outbox_row_of_def outcome_event_def event_row_of_def)

lemma outbox_ok_snoc:
  assumes "outbox_ok d" "db_events d' = db_events d @ [e]" "db_outbox d' = db_outbox d @ [q]"
    "copies_event q e" "\<forall>x \<in> set (db_events d). e_id x \<noteq> e_id e"
  shows "outbox_ok d'"
proof -
  have "length (db_outbox d) = length (db_events d)"
    using assms(1) by (auto simp: outbox_ok_def dest: list_all2_lengthD)
  with assms show ?thesis by (auto simp: outbox_ok_def intro: list_all2_appendI)
qed

text \<open>
  The trigger's requirement at commit pins the appended transition row to the projection's move,
  because rows already there have versions up to the old one.
\<close>

lemma transition_history_new_row:
  assumes "transition_history d' old new" and "db_transitions d' = ts @ [t]"
    and "\<And>u. u \<in> set ts \<Longrightarrow> t_case_id u = c_id new \<Longrightarrow> t_version u < c_version new"
  shows "t_case_id t = c_id new" "t_org t = c_org new" "t_from_state t = c_state old"
    "t_to_state t = c_state new" "t_version t = c_version new"
proof -
  from assms(1) obtain u where u: "u \<in> set (db_transitions d')" "t_org u = c_org new"
    "t_case_id u = c_id new" "t_from_state u = c_state old" "t_to_state u = c_state new"
    "t_version u = c_version new" by (auto simp: transition_history_def)
  with assms(2,3) have "u = t" by fastforce
  with u show "t_case_id t = c_id new" "t_org t = c_org new" "t_from_state t = c_state old"
    "t_to_state t = c_state new" "t_version t = c_version new" by simp_all
qed

lemma persisted_history_ok:
  assumes inv: "cases_ok d" "history_ok d"
    and old: "old \<in> set (db_cases d)" "c_version old = snap_version (out_snapshot r) - 1"
    and keys: "persist_keys oid aid org r a d"
    and check: "assert_case_projection_history d' (Some old, outcome_case r old) = Inr ()"
    and d': "db_cases d' = bump_case (c_id old) (outcome_case r old) (db_cases d)"
      "db_transitions d' = db_transitions d @ [transition_row_of org (out_transition r) a]"
  shows "history_ok d'"
proof -
  let ?new = "outcome_case r old" and ?t = "transition_row_of org (out_transition r) a"
  have hist: "history_from ''new'' 0 (case_transitions d (c_id old)) (c_state old) (c_version old)"
    using inv(2) old(1) by (simp add: history_ok_def)
  have lt: "t_version u < c_version ?new" if "u \<in> set (db_transitions d)" "t_case_id u = c_id ?new" for u
    using history_from_version_le [OF hist, of u] that old(2) by (simp add: case_transitions_def)
  from check old(2) have "transition_history d' old ?new" by (simp split: if_splits)
  from transition_history_new_row [OF this d'(2) lt]
  have t: "t_case_id ?t = c_id old" "t_from_state ?t = c_state old" "t_to_state ?t = c_state ?new"
    "t_version ?t = c_version old + 1" using old(2) by simp_all
  have edge: "allowed_edge (t_from_state ?t) (t_to_state ?t)"
    using keys by (simp add: persist_keys_def transition_checks_def)
  show ?thesis unfolding history_ok_def
  proof
    fix c assume "c \<in> set (db_cases d')"
    then consider "c = ?new" | "c \<in> set (db_cases d)" "c_id c \<noteq> c_id old"
      unfolding d'(1) by (auto dest: bump_case_mem)
    then show "history_from ''new'' 0 (case_transitions d' (c_id c)) (c_state c) (c_version c)"
    proof cases
      case 1
      have "case_transitions d' (c_id c) = case_transitions d (c_id old) @ [?t]"
        unfolding case_transitions_def d'(2) using t(1) 1 by simp
      moreover have "history_from (c_state old) (c_version old) [?t] (c_state ?new) (c_version ?new)"
        using t edge old(2) by simp
      ultimately show ?thesis using hist 1 by (auto simp: history_from_append)
    next
      case 2
      then have "case_transitions d' (c_id c) = case_transitions d (c_id c)"
        unfolding case_transitions_def d'(2) using t(1) by simp
      with 2 inv(2) show ?thesis by (simp add: history_ok_def)
    qed
  qed
qed

lemma persisted_transitions_ok:
  assumes "cases_ok d" "transitions_ok d" "old \<in> set (db_cases d)" "persist_keys oid aid org r a d"
    and d': "db_cases d' = bump_case (c_id old) (outcome_case r old) (db_cases d)"
      "db_transitions d' = db_transitions d @ [transition_row_of org (out_transition r) a]"
  shows "transitions_ok d'"
proof -
  have "case_fk d' o' j \<longleftrightarrow> case_fk d o' j" for o' j
    using case_fk_bump_case [of "outcome_case r old" "c_id old" old "db_cases d" o' j] assms(1,3)
    unfolding case_fk_def d'(1) cases_ok_def by simp
  with assms(2,4) show ?thesis
    unfolding transitions_ok_def d'(2) persist_keys_def Let_def by simp
qed

lemma persist_keys_event:
  "persist_keys oid aid org r a d \<Longrightarrow> \<forall>x \<in> set (db_events d). e_id x \<noteq> e_id (outcome_event org r)"
  by (simp add: persist_keys_def Let_def)

lemma persist_commit_invariant:
  assumes inv: "case_invariant d"
  shows "case_invariant (snd (tenant_connection org (persist_transition oid aid org r a) d))"
proof (cases rule: tenant_connection_cases [of org "persist_transition oid aid org r a" d])
  case (failed e)
  with inv show ?thesis by simp
next
  case (committed k d2)
  let ?d = "bound org d" and ?s = "settled (app_organization_id d) d2"
  from inv have parts: "at_rest d" "cases_ok ?d" "transitions_ok ?d" "history_ok ?d" "outbox_ok ?d"
    by (simp_all add: case_invariant_def)
  from persist_transition_InrD [OF committed(1)] obtain old au where
    old: "old \<in> set (db_cases ?d)" "c_version old = snap_version (out_snapshot r) - 1"
    and keys: "persist_keys oid aid org r a ?d" and d2: "d2 = persisted oid org r a old au ?d" by metis
  have check: "assert_case_projection_history d2 (Some old, outcome_case r old) = Inr ()"
    using committed(2) by (simp add: d2)
  have tabs: "db_cases d2 = bump_case (c_id old) (outcome_case r old) (db_cases ?d)"
    "db_transitions d2 = db_transitions ?d @ [transition_row_of org (out_transition r) a]"
    unfolding d2 by simp_all
  have "cases_ok d2" by (rule persist_transition_cases_ok [OF parts(2) committed(1)])
  moreover have "history_ok d2" by (rule persisted_history_ok [OF parts(2,4) old keys check tabs])
  moreover have "transitions_ok d2" by (rule persisted_transitions_ok [OF parts(2,3) old(1) keys tabs])
  moreover have "outbox_ok d2"
    unfolding d2
    by (rule outbox_ok_snoc [OF parts(5) persisted_tables(2,3) outcome_copies persist_keys_event [OF keys]])
  ultimately have "case_invariant ?s"
    using at_rest_settled [OF parts(1)] by (simp add: case_invariant_def)
  with committed(3) show ?thesis by simp
qed

section \<open>Creation keeps the invariant\<close>

definition created_record :: "create_case_command \<Rightarrow> case_record" where
  "created_record c = \<lparr>rec_case_id = cc_case_id c, rec_state = NEW, rec_version = 0,
     rec_title = cc_title c, rec_category = cc_category c, rec_severity = cc_severity c,
     rec_asset_id = cc_asset_id c, rec_created_by = Some (actor_id (cc_actor c)),
     rec_created_at = db_datetime (instant (cc_occurred_at c)),
     rec_updated_at = db_datetime (instant (cc_occurred_at c))\<rparr>"

definition created_event :: "uuid \<Rightarrow> create_case_command \<Rightarrow> event_row" where
  "created_event org c = event_row_of org (creation_event c (created_record c)) None
     (event_payload (creation_event c (created_record c)) None (Some (request_sha256 c)))"

definition created_outbox :: "uuid \<Rightarrow> uuid \<Rightarrow> create_case_command \<Rightarrow> outbox_row" where
  "created_outbox org oid c = outbox_row_of org oid (creation_event c (created_record c))
     (event_payload (creation_event c (created_record c)) None (Some (request_sha256 c)))"

definition created :: "uuid \<Rightarrow> uuid \<Rightarrow> create_case_command \<Rightarrow> case_input_row list \<Rightarrow> audit_row \<Rightarrow> db \<Rightarrow> db" where
  "created oid org c ins au d =
     d\<lparr>db_cases := db_cases d @ [new_case_row org c],
       deferred_checks := deferred_checks d @ [(None, new_case_row org c)],
       db_case_inputs := db_case_inputs d @ ins,
       db_events := db_events d @ [created_event org c],
       db_outbox := db_outbox d @ [created_outbox org oid c], db_audit := db_audit d @ [au]\<rparr>"

lemma created_tables [simp]:
  "db_cases (created oid org c ins au d) = db_cases d @ [new_case_row org c]"
  "db_transitions (created oid org c ins au d) = db_transitions d"
  "db_events (created oid org c ins au d) = db_events d @ [created_event org c]"
  "db_outbox (created oid org c ins au d) = db_outbox d @ [created_outbox org oid c]"
  "deferred_checks (created oid org c ins au d) = deferred_checks d @ [(None, new_case_row org c)]"
  "current_org (created oid org c ins au d) = current_org d"
  by (simp_all add: created_def current_org_def)

lemma new_case_row_simps [simp]:
  "c_id (new_case_row org c) = cc_case_id c" "c_org (new_case_row org c) = org"
  "c_state (new_case_row org c) = ''new''" "c_version (new_case_row org c) = 0"
  "c_idempotency_key (new_case_row org c) = cc_idempotency_key c"
  "c_request_sha256 (new_case_row org c) = request_sha256 c"
  "c_asset_id (new_case_row org c) = cc_asset_id c"
  by (simp_all add: new_case_row_def)

lemma CaseState_new [simp]: "CaseState ''new'' = Inr NEW"
  using CaseState_value [of NEW] by simp

lemma created_record_of [simp]: "case_record_of (new_case_row org c) = Inr (created_record c)"
  by (simp add: case_record_of_def created_record_def new_case_row_def)

lemma created_event_simps [simp]:
  "e_id (created_event org c) = cc_event_id c" "e_org (created_event org c) = org"
  "e_case_id (created_event org c) = cc_case_id c" "e_transition_id (created_event org c) = None"
  "e_event_type (created_event org c) = ''case.created.v1''"
  "e_aggregate_version (created_event org c) = 0"
  "o_org (created_outbox org oid c) = org" "o_case_event_id (created_outbox org oid c) = cc_event_id c"
  "o_case_id (created_outbox org oid c) = cc_case_id c"
  "o_aggregate_version (created_outbox org oid c) = 0"
  "o_event_type (created_outbox org oid c) = ''case.created.v1''"
  by (simp_all add: created_event_def created_outbox_def event_row_of_def creation_event_def
      created_record_def)

lemma created_copies: "copies_event (created_outbox org oid c) (created_event org c)"
  by (simp add: copies_event_def created_outbox_def created_event_def outbox_row_of_def event_row_of_def)

lemma insert_case_input_InrD:
  "insert_case_input org i c d = Inr d' \<Longrightarrow>
     \<exists>ins. d' = d\<lparr>db_case_inputs := db_case_inputs d @ ins\<rparr> \<and> (\<forall>i \<in> set ins. ci_org i = org)"
  by (auto simp: insert_case_input_def split: option.splits dest!: insert_case_input_row_InrD
      intro: exI [of _ "[]"])

lemma create_case_InrD:
  assumes "create_case oid aid org c d = Inr (res, d')"
  obtains (replayed) existing where "d' = d" "res = \<lparr>res_case = existing, res_created = False\<rparr>"
      "require_case_by_idempotency org (cc_idempotency_key c) d = Inr (existing, request_sha256 c)"
  | (inserted) ins au where "res = \<lparr>res_case = created_record c, res_created = True\<rparr>"
      "d' = created oid org c ins au d"
      "\<forall>q \<in> set (db_cases d). c_id q \<noteq> cc_case_id c"
      "\<forall>q \<in> set (db_cases d). \<not> (c_org q = org \<and> c_idempotency_key q = cc_idempotency_key c)"
      "\<forall>q \<in> set (db_events d). e_id q \<noteq> cc_event_id c"
      "current_org d = Some org" "\<forall>x \<in> set (case_checks (new_case_row org c)). fst x"
      "\<forall>q \<in> set (db_outbox d). o_id q \<noteq> oid" "\<forall>x \<in> set (outbox_checks (created_outbox org oid c)). fst x"
      "a_org au = org" "a_id au = aid" "\<forall>i \<in> set ins. ci_org i = org"
proof -
  from assms obtain q d1 where i: "insert_case_row (new_case_row org c) d = Inr (q, d1)"
    by (auto simp: create_case_def bindE_eq_Inr)
  show ?thesis
  proof (cases q)
    case None
    with i assms insert_case_row_InrD [OF i] show ?thesis
      by (intro replayed [of "res_case res"])
        (auto simp: create_case_def bindE_eq_Inr split: if_splits)
  next
    case (Some row)
    from insert_case_row_InrD [OF i] Some have row: "row = new_case_row org c"
      and org: "current_org d = Some org"
      and checks: "\<forall>x \<in> set (case_checks (new_case_row org c)). fst x"
      and keys: "\<forall>x \<in> set (case_keys d row). fst x"
      and idem: "\<forall>q \<in> set (db_cases d). \<not> (c_org q = org \<and> c_idempotency_key q = cc_idempotency_key c)"
      and d1: "d1 = d\<lparr>db_cases := db_cases d @ [row], deferred_checks := deferred_checks d @ [(None, row)]\<rparr>"
      by auto
    let ?k = "created_record c" and ?e = "creation_event c (created_record c)"
    from assms i Some row obtain d2 d3 details where
      i1: "insert_case_input org (rec_case_id ?k) c d1 = Inr d2"
      and i2: "insert_event_and_outbox org oid ?e None (Some (request_sha256 c)) d2 = Inr d3"
      and i3: "insert_audit_event org aid (cc_actor c) ''case.created'' (cc_correlation_id c)
        (cc_occurred_at c) details d3 = Inr d'"
      and res: "res = \<lparr>res_case = ?k, res_created = True\<rparr>"
      by (auto simp: create_case_def Let_def bindE_eq_Inr)
    from insert_case_input_InrD [OF i1] obtain ins where
      d2: "d2 = d1\<lparr>db_case_inputs := db_case_inputs d1 @ ins\<rparr>" and ins: "\<forall>i \<in> set ins. ci_org i = org" by blast
    from insert_event_and_outbox_InrD [OF i2]
    have d3: "d3 = d2\<lparr>db_events := db_events d2 @ [created_event org c],
        db_outbox := db_outbox d2 @ [created_outbox org oid c]\<rparr>"
      and ek: "\<forall>x \<in> set (event_keys d2 (created_event org c)). fst x"
      and ok: "\<forall>x \<in> set (outbox_keys (d2\<lparr>db_events := db_events d2 @ [created_event org c]\<rparr>)
          (created_outbox org oid c)). fst x"
      and oc: "\<forall>x \<in> set (outbox_checks (created_outbox org oid c)). fst x"
      unfolding created_event_def created_outbox_def by metis+
    from insert_audit_row_InrD [OF i3 [unfolded insert_audit_event_def]] obtain au where
      d': "d' = d3\<lparr>db_audit := db_audit d3 @ [au]\<rparr>" and au: "a_org au = org" "a_id au = aid" by force
    have "d' = created oid org c ins au d"
      by (simp add: created_def d' d3 d2 d1 row)
    moreover have "\<forall>q \<in> set (db_cases d). c_id q \<noteq> cc_case_id c"
      using keys row by (simp add: case_keys_def)
    moreover have "\<forall>q \<in> set (db_events d). e_id q \<noteq> cc_event_id c"
      using ek by (simp add: event_keys_def d2 d1)
    moreover have "\<forall>q \<in> set (db_outbox d). o_id q \<noteq> oid"
      using ok by (simp add: outbox_keys_def d2 d1 created_outbox_def)
    ultimately show ?thesis using inserted res idem org checks oc au ins by blast
  qed
qed

lemma created_check:
  assumes "current_org d = Some org"
  shows "assert_case_projection_history (created oid org c ins au d) (None, new_case_row org c) = Inr ()"
proof -
  let ?d = "created oid org c ins au d"
  have "created_event org c \<in> set (visible ?d e_org (db_events ?d))"
    "created_outbox org oid c \<in> set (visible ?d o_org (db_outbox ?d))"
    using assms by simp_all
  then have "creation_history ?d (new_case_row org c)"
    unfolding creation_history_def
    by (intro bexI [of _ "created_event org c"] bexI [of _ "created_outbox org oid c"]) simp_all
  then show ?thesis by simp
qed

lemma created_invariants:
  assumes "cases_ok d" "transitions_ok d" "history_ok d" "outbox_ok d"
    and fresh: "\<forall>q \<in> set (db_cases d). c_id q \<noteq> cc_case_id c" "\<forall>q \<in> set (db_events d). e_id q \<noteq> cc_event_id c"
  shows "cases_ok (created oid org c ins au d)" "transitions_ok (created oid org c ins au d)"
    "history_ok (created oid org c ins au d)" "outbox_ok (created oid org c ins au d)"
proof -
  let ?d = "created oid org c ins au d"
  have "state_check ''new''" by (simp add: state_check_def)
  with assms(1) fresh(1) show "cases_ok ?d" by (auto simp: cases_ok_def)
  from assms(2) show "transitions_ok ?d"
    unfolding transitions_ok_def case_fk_def created_tables by auto
  have none: "case_transitions d (cc_case_id c) = []"
    using assms(2) fresh(1) by (fastforce simp: case_transitions_def transitions_ok_def case_fk_def filter_empty_conv)
  have "case_transitions ?d = case_transitions d"
    by (intro ext) (simp add: case_transitions_def)
  with assms(3) none show "history_ok ?d" by (simp add: history_ok_def)
  show "outbox_ok ?d"
    by (rule outbox_ok_snoc [OF assms(4) created_tables(3,4) created_copies])
      (use fresh(2) in simp)
qed

lemma create_commit_invariant:
  assumes inv: "case_invariant d"
  shows "case_invariant (snd (tenant_connection org (create_case oid aid org c) d))"
proof (cases rule: tenant_connection_cases [of org "create_case oid aid org c" d])
  case (failed e)
  with inv show ?thesis by simp
next
  case (committed res d2)
  from inv have parts: "at_rest d" "cases_ok (bound org d)" "transitions_ok (bound org d)"
    "history_ok (bound org d)" "outbox_ok (bound org d)" by (simp_all add: case_invariant_def)
  have "cases_ok d2 \<and> transitions_ok d2 \<and> history_ok d2 \<and> outbox_ok d2"
    by (rule create_case_InrD [OF committed(1)])
      (use parts in simp, simp add: created_invariants [OF parts(2-5)])
  with committed(3) at_rest_settled [OF parts(1)] show ?thesis by (simp add: case_invariant_def)
qed

text \<open>A creation whose statements succeed always passes the deferred trigger.\<close>

lemma create_commits:
  assumes "at_rest d" and "create_case oid aid org c (bound org d) = Inr (res, d2)"
  shows "tenant_connection org (create_case oid aid org c) d =
    (Inr res, settled (app_organization_id d) d2)"
proof (rule tenant_connection_committed [where body = "create_case oid aid org c", OF assms(2)])
  fix q assume q: "q \<in> set (deferred_checks d2)"
  show "assert_case_projection_history d2 q = Inr ()"
    by (rule create_case_InrD [OF assms(2)])
      (use q assms(1) created_check in \<open>auto simp: at_rest_def simp del: assert_case_projection_history.simps\<close>)
qed

text \<open>So does a transition that the service decided on the projection it moves.\<close>

lemma service_transition_InrD:
  assumes "service_transition (get_snapshot org) (persist_transition oid aid org) c d = Inr (k, d')"
  obtains cur r where "get_snapshot org (tc_case_id c) d = Inr cur" "apply_transition cur c = Inr r"
    "persist_transition oid aid org r (tc_actor c) d = Inr (k, d')"
  using assms by (auto simp: service_transition_def bindE_eq_Inr)

lemma persisted_check:
  assumes snap: "get_snapshot org (tc_case_id c) d = Inr cur" and r: "apply_transition cur c = Inr r"
    and p: "persist_transition oid aid org r a d = Inr (k, d')" and ok: "cases_ok d"
  obtains old where "deferred_checks d' = deferred_checks d @ [(Some old, outcome_case r old)]"
    "assert_case_projection_history d' (Some old, outcome_case r old) = Inr ()"
proof -
  from persist_transition_InrD [OF p] obtain old au where
    old: "old \<in> set (db_cases d)" "c_org old = org" "c_id old = snap_case_id (out_snapshot r)"
      "c_version old = snap_version (out_snapshot r) - 1" "current_org d = Some org"
    and d': "d' = persisted oid org r a old au d" by metis
  note o = apply_transition_InrD [OF r]
  let ?new = "outcome_case r old" and ?t = "transition_row_of org (out_transition r) a"
    and ?q = "outbox_row_of org oid (out_event r) (outcome_payload r)"
  from get_snapshot_InrD [OF snap] obtain row where
    row: "row \<in> set (db_cases d)" "c_id row = tc_case_id c" "CaseState (c_state row) = Inr (snap_state cur)"
      "snap_case_id cur = tc_case_id c" by metis
  have "row = old"
    using ok row old(1,3) o(6) by (intro distinct_map_eqD [of c_id "db_cases d"]) (simp_all add: cases_ok_def)
  with row(3) have st: "c_state old = case_state_value (snap_state cur)" by (simp add: CaseState_Inr)
  have "?t \<in> set (visible d' t_org (db_transitions d'))"
    "outcome_event org r \<in> set (visible d' e_org (db_events d'))"
    "?q \<in> set (visible d' o_org (db_outbox d'))"
    using old(5) by (simp_all add: d')
  then have "transition_history d' old ?new"
    unfolding transition_history_def
    by (intro bexI [of _ ?t] bexI [of _ "outcome_event org r"] bexI [of _ ?q])
      (use o(6-8) row(4) old(2,3) st in simp_all)
  moreover have "snap_state cur \<noteq> tc_to_state c"
    using o(3) by (cases "snap_state cur"; cases "tc_to_state c") auto
  ultimately have "assert_case_projection_history d' (Some old, ?new) = Inr ()"
    using old(4) o(6) st by simp
  with that [of old] show ?thesis by (simp add: d')
qed

lemma transition_commits:
  assumes "at_rest d" "cases_ok d"
    and b: "service_transition (get_snapshot org) (persist_transition oid aid org) c (bound org d) = Inr (k, d2)"
  shows "tenant_connection org (service_transition (get_snapshot org) (persist_transition oid aid org) c) d =
    (Inr k, settled (app_organization_id d) d2)"
proof -
  from service_transition_InrD [OF b] obtain cur r where
    p: "get_snapshot org (tc_case_id c) (bound org d) = Inr cur" "apply_transition cur c = Inr r"
      "persist_transition oid aid org r (tc_actor c) (bound org d) = Inr (k, d2)" by metis
  from persisted_check [OF p] assms(2) obtain old where
    "deferred_checks d2 = [(Some old, outcome_case r old)]"
    "assert_case_projection_history d2 (Some old, outcome_case r old) = Inr ()"
    using assms(1) by (auto simp: at_rest_def)
  then show ?thesis
    by (intro tenant_connection_committed [where
        body = "service_transition (get_snapshot org) (persist_transition oid aid org) c", OF b]) simp
qed

end
