(* ===== verification/Case_Progress.thy ===== *)
theory Case_Progress
  imports Case_History
begin

text \<open>
  Progress of the case store: what the domain accepts, the schema never rejects. A validated creation
  command and an accepted transition, with fresh identifiers, are written and committed; and a
  replayed creation returns the original case without writing.
\<close>

section \<open>The schema's checks hold for what the code writes\<close>

lemma is_sha256_sha256 [simp]: "is_sha256 (sha256 m)"
  using sha256_lower_hex [of m] by (simp add: is_sha256_def)

lemma is_sha256_request [simp]: "is_sha256 (request_sha256 c)"
  by (simp add: request_sha256_def)

lemma no_nul_lower_hex: "list_all is_lower_hex s \<Longrightarrow> CHR 0x00 \<notin> set s"
proof
  assume "list_all is_lower_hex s" "CHR 0x00 \<in> set s"
  then have "is_lower_hex (CHR 0x00)" by (simp add: list_all_iff)
  then show False by (simp add: is_lower_hex_def ascii_digit_def Let_def)
qed

lemma no_nul_sha256 [simp]: "CHR 0x00 \<notin> set (sha256 m)"
  by (rule no_nul_lower_hex [OF sha256_lower_hex])

lemma no_nul_request [simp]: "CHR 0x00 \<notin> set (request_sha256 c)"
  by (simp add: request_sha256_def)

lemma no_nul_uuid_str [simp]: "CHR 0x00 \<notin> set (uuid_str u)"
proof
  assume "CHR 0x00 \<in> set (uuid_str u)"
  then have "is_lower_hex (CHR 0x00)" using uuid_str_chars by fastforce
  then show False using no_nul_lower_hex [of "[CHR 0x00]"] by simp
qed

lemma jsonb_ok_event_payload:
  "(\<forall>h. sha = Some h \<longrightarrow> CHR 0x00 \<notin> set h) \<Longrightarrow> jsonb_ok (event_payload e t sha)"
  by (simp add: event_payload_def json_opt_def split: option.splits)

lemma jsonb_cast_ok: "jsonb_ok v \<Longrightarrow> jsonb_cast v = Inr v"
  by (simp add: jsonb_cast_def)

text \<open>The edge constraint of the schema is the transition table of the domain.\<close>

lemma allowed_edge_iff:
  "allowed_edge (case_state_value a) (case_state_value b) \<longleftrightarrow> b \<in> allowed_transitions a"
  by (cases a; cases b) (simp_all add: allowed_edge_def)

lemma state_check_value [simp]: "state_check (case_state_value s)"
  using state_check_iff by blast

lemma case_state_value_eqs:
  "case_state_value s = ''confirmed'' \<longleftrightarrow> s = CONFIRMED" "case_state_value s = ''resolved'' \<longleftrightarrow> s = RESOLVED"
  "case_state_value s = ''learned'' \<longleftrightarrow> s = LEARNED"
  "case_state_value s = ''needs_information'' \<longleftrightarrow> s = NEEDS_INFORMATION"
  by (cases s; simp)+

lemma actor_kind_value_eqs:
  "actor_kind_value k = ''human'' \<longleftrightarrow> k = HUMAN" "actor_kind_value k = ''service'' \<longleftrightarrow> k = SERVICE"
  by (cases k; simp)+

lemma text_given_not_blank: "\<not> blank s \<Longrightarrow> text_given (Some s)"
  using not_blank_btrim [of s] by (simp add: text_given_def)

lemma event_types_not_blank [simp]: "btrim (event_types s) \<noteq> []"
  by (cases s) (simp_all add: btrim_def strip_of_def rstrip_of_def)

text \<open>
  Every transition the domain accepts satisfies every \<open>CHECK\<close> of \<open>case_transitions\<close>: the schema
  repeats the policy, it adds nothing to it.
\<close>

lemma accepted_transition_checks:
  assumes c: "mk_transition_command c = Inr c" and r: "apply_transition s c = Inr r" and "0 \<le> snap_version s"
  shows "\<forall>x \<in> set (transition_checks (transition_row_of org (out_transition r) (tc_actor c))). fst x"
proof -
  note o = apply_transition_InrD [OF r]
  from c have given: "\<And>v. tc_verification_note c = Some v \<Longrightarrow> \<not> blank v"
    "\<And>v. tc_note c = Some v \<Longrightarrow> \<not> blank v" by (auto simp: mk_transition_command_Inr)
  have kinds: "kind (tc_actor c) = HUMAN \<or> kind (tc_actor c) = SERVICE"
    using actor_may_not_model [OF o(4)] by (cases "kind (tc_actor c)") auto
  have who: "tc_to_state c \<in> {CONFIRMED, RESOLVED} \<Longrightarrow> kind (tc_actor c) = HUMAN"
    "tc_to_state c = LEARNED \<Longrightarrow> kind (tc_actor c) = SERVICE"
    using o(4) by (auto simp: actor_may_def split: actor_kind.splits)
  from o(3) have edge: "allowed_edge (case_state_value (snap_state s)) (case_state_value (tc_to_state c))"
    by (simp add: allowed_edge_iff)
  have evid: "tc_to_state c = CONFIRMED \<Longrightarrow> tc_approval_id c \<noteq> None"
    "tc_to_state c = RESOLVED \<Longrightarrow> text_given (tc_verification_note c)"
    "tc_to_state c = LEARNED \<Longrightarrow> tc_knowledge_item_id c \<noteq> None"
    "tc_to_state c = NEEDS_INFORMATION \<Longrightarrow> text_given (tc_note c)"
    using o(5) given by (auto simp: evidence_ok_def intro: text_given_not_blank)
  show ?thesis
    using kinds who edge evid assms(3)
    by (simp add: transition_checks_def o(7) case_state_value_eqs actor_kind_value_eqs)
qed

section \<open>A validated creation is written\<close>

text \<open>The identifiers drawn for a creation are new, and the rows it refers to exist.\<close>

definition create_ready :: "uuid \<Rightarrow> uuid \<Rightarrow> uuid \<Rightarrow> create_case_command \<Rightarrow> db \<Rightarrow> bool" where
  "create_ready oid aid org c d \<longleftrightarrow>
     org \<in> set (db_organizations d)
     \<and> (case cc_asset_id c of None \<Rightarrow> True | Some a \<Rightarrow> (org, a) \<in> set (db_assets d))
     \<and> (case cc_case_input c of None \<Rightarrow> True | Some i \<Rightarrow>
          mk_case_input_command i = Inr i \<and> jsonb_ok (in_content i)
          \<and> (\<forall>q \<in> set (db_case_inputs d). ci_id q \<noteq> in_input_id i))
     \<and> (\<forall>q \<in> set (db_cases d). c_id q \<noteq> cc_case_id c
          \<and> \<not> (c_org q = org \<and> c_idempotency_key q = cc_idempotency_key c))
     \<and> (\<forall>q \<in> set (db_events d). e_id q \<noteq> cc_event_id c)
     \<and> (\<forall>q \<in> set (db_outbox d). o_id q \<noteq> oid) \<and> (\<forall>q \<in> set (db_audit d). a_id q \<noteq> aid)"

lemma mk_create_case_command_Inr:
  "mk_create_case_command c = Inr c' \<longleftrightarrow> c' = c \<and>
     \<not> blank (cc_idempotency_key c) \<and> length (cc_idempotency_key c) \<le> 255 \<and>
     \<not> blank (cc_title c) \<and> length (cc_title c) \<le> 500 \<and>
     (case cc_category c of None \<Rightarrow> True | Some g \<Rightarrow> \<not> blank g \<and> length g \<le> 100) \<and>
     cc_severity c \<in> {''low'', ''medium'', ''high'', ''critical''} \<and> is_utc (cc_occurred_at c)"
  by (auto simp: mk_create_case_command_def split: option.splits)

lemma new_case_row_ok:
  assumes "mk_create_case_command c = Inr c"
  shows "\<forall>x \<in> set (case_checks (new_case_row org c)). fst x"
proof -
  from assms have k: "\<not> blank (cc_idempotency_key c)" "length (cc_idempotency_key c) \<le> 255"
    "\<not> blank (cc_title c)" "cc_severity c \<in> {''low'', ''medium'', ''high'', ''critical''}"
    by (simp_all add: mk_create_case_command_Inr)
  have "btrim (cc_idempotency_key c) \<noteq> []" "btrim (cc_title c) \<noteq> []"
    using k(1,3) by (simp_all add: not_blank_btrim)
  moreover have "length (btrim (cc_idempotency_key c)) \<le> 255"
    using length_btrim [of "cc_idempotency_key c"] k(2) by simp
  moreover have "c_title (new_case_row org c) = cc_title c" "c_severity (new_case_row org c) = cc_severity c"
    by (simp_all add: new_case_row_def)
  ultimately show ?thesis
    using k(4) by (simp add: case_checks_def severity_check_def state_check_def Suc_le_eq)
qed

lemma outbox_event_ids:
  "outbox_ok d \<Longrightarrow> q \<in> set (db_outbox d) \<Longrightarrow> \<exists>e \<in> set (db_events d). copies_event q e"
  by (auto simp: outbox_ok_def list_all2_conv_all_nth in_set_conv_nth) (metis nth_mem)

lemma insert_event_and_outbox_ok:
  assumes org: "current_org d = Some org" and nul: "\<forall>h. sha = Some h \<longrightarrow> CHR 0x00 \<notin> set h"
    and v: "0 \<le> ev_aggregate_version e" "ev_aggregate_version e \<le> 2147483647"
    and ty: "0 < length (btrim (ev_event_type e))"
    and keys: "\<forall>x \<in> set (event_keys d (event_row_of org e t (event_payload e t sha))). fst x"
      "\<forall>q \<in> set (db_outbox d). o_id q \<noteq> oid \<and> o_case_event_id q \<noteq> ev_event_id e"
  shows "insert_event_and_outbox org oid e t sha d = Inr
    (d\<lparr>db_events := db_events d @ [event_row_of org e t (event_payload e t sha)],
       db_outbox := db_outbox d @ [outbox_row_of org oid e (event_payload e t sha)]\<rparr>)"
proof -
  let ?p = "event_payload e t sha"
  let ?e = "event_row_of org e t ?p" and ?o = "outbox_row_of org oid e ?p"
  have p: "jsonb_cast ?p = Inr ?p" by (rule jsonb_cast_ok [OF jsonb_ok_event_payload [OF nul]])
  have es: "e_payload ?e = ?p" "e_aggregate_version ?e = ev_aggregate_version e" "e_org ?e = org"
    "e_actor_id ?e = Some (ev_actor_id e)" "e_event_type ?e = ev_event_type e" "e_case_id ?e = ev_case_id e"
    "e_id ?e = ev_event_id e" by (simp_all add: event_row_of_def)
  have "insert_event_row ?e d = Inr (d\<lparr>db_events := db_events d @ [?e]\<rparr>)"
    using org v ty keys(1) p by (simp add: insert_event_row_def ok_rules es)
  moreover
  let ?d = "d\<lparr>db_events := db_events d @ [?e]\<rparr>"
  have "case_fk d org (ev_case_id e)" using keys(1) es by (simp add: event_keys_def)
  then have ok: "\<forall>x \<in> set (outbox_keys ?d ?o). fst x"
    using keys(2) es by (simp add: outbox_keys_def case_fk_def)
  have os: "o_payload ?o = ?p" by (simp add: outbox_row_of_def)
  have oc: "\<forall>x \<in> set (outbox_checks ?o). fst x" using v ty by (simp add: outbox_checks_def)
  have o2: "current_org ?d = Some org" using org by (simp add: current_org_def)
  have "insert_outbox_row ?o ?d = Inr (?d\<lparr>db_outbox := db_outbox ?d @ [?o]\<rparr>)"
    using v p by (simp add: insert_outbox_row_def os ok_rules o2 constraints_ok [OF ok] constraints_ok [OF oc])
  ultimately show ?thesis by (simp add: insert_event_and_outbox_def Let_def)
qed

lemma insert_audit_event_ok:
  assumes "current_org d = Some org" "org \<in> set (db_organizations d)" "\<forall>q \<in> set (db_audit d). a_id q \<noteq> aid"
  shows "\<exists>au. insert_audit_event org aid a act cid t details d = Inr (d\<lparr>db_audit := db_audit d @ [au]\<rparr>)"
  using assms by (simp add: insert_audit_event_def insert_audit_row_def ok_rules) blast

lemma create_case_ok:
  assumes c: "mk_create_case_command c = Inr c" and org: "current_org d = Some org"
    and ready: "create_ready oid aid org c d" and ob: "outbox_ok d"
  shows "\<exists>ins au. create_case oid aid org c d =
    Inr (\<lparr>res_case = created_record c, res_created = True\<rparr>, created oid org c ins au d)"
proof -
  let ?row = "new_case_row org c" and ?e = "creation_event c (created_record c)"
  let ?d1 = "d\<lparr>db_cases := db_cases d @ [?row], deferred_checks := deferred_checks d @ [(None, ?row)]\<rparr>"
  have keys: "\<forall>x \<in> set (case_keys d ?row). fst x"
    using ready by (simp add: case_keys_def create_ready_def split: option.splits)
  have unused: "\<not> (\<exists>q \<in> set (db_cases d). c_org q = org \<and> c_idempotency_key q = cc_idempotency_key c)"
    using ready by (auto simp: create_ready_def)
  have i1: "insert_case_row ?row d = Inr (Some ?row, ?d1)"
    using unused org by (simp add: insert_case_row_def int4_ok with_check_ok
        constraints_ok [OF new_case_row_ok [OF c]] constraints_ok [OF keys])
  have o1: "current_org ?d1 = Some org" using org by (simp add: current_org_def)
  have "\<exists>ins. insert_case_input org (cc_case_id c) c ?d1 = Inr (?d1\<lparr>db_case_inputs := db_case_inputs d @ ins\<rparr>)"
  proof (cases "cc_case_input c")
    case None
    then show ?thesis by (intro exI [of _ "[]"]) (simp add: insert_case_input_def)
  next
    case (Some i)
    with ready have i: "\<not> blank (in_input_kind i)" "is_sha256 (in_content_sha256 i)" "jsonb_ok (in_content i)"
      "\<forall>q \<in> set (db_case_inputs d). ci_id q \<noteq> in_input_id i"
      by (auto simp: create_ready_def mk_case_input_command_def split: if_splits)
    from not_blank_btrim [OF i(1)] i(2-4) Some o1 show ?thesis
      by (simp add: insert_case_input_def insert_case_input_row_def jsonb_cast_ok ok_rules case_fk_def) blast
  qed
  then obtain ins where i2: "insert_case_input org (cc_case_id c) c ?d1 =
      Inr (?d1\<lparr>db_case_inputs := db_case_inputs d @ ins\<rparr>)" ..
  let ?d2 = "?d1\<lparr>db_case_inputs := db_case_inputs d @ ins\<rparr>"
  have o2: "current_org ?d2 = Some org" using org by (simp add: current_org_def)
  have es: "ev_aggregate_version ?e = 0" "ev_event_type ?e = ''case.created.v1''"
    "ev_event_id ?e = cc_event_id c" "ev_case_id ?e = cc_case_id c"
    by (simp_all add: creation_event_def created_record_def)
  have ek: "\<forall>x \<in> set (event_keys ?d2 (created_event org c)). fst x"
    using ready by (simp add: event_keys_def create_ready_def case_fk_def)
  have oq: "\<forall>q \<in> set (db_outbox ?d2). o_id q \<noteq> oid \<and> o_case_event_id q \<noteq> ev_event_id ?e"
    using ready outbox_event_ids [OF ob] by (fastforce simp: create_ready_def es copies_event_def)
  have ty: "0 < length (btrim (ev_event_type ?e))" using event_types_not_blank [of NEW] by (simp add: es)
  have i3: "insert_event_and_outbox org oid ?e None (Some (request_sha256 c)) ?d2 = Inr
      (?d2\<lparr>db_events := db_events ?d2 @ [created_event org c],
           db_outbox := db_outbox ?d2 @ [created_outbox org oid c]\<rparr>)"
    unfolding created_event_def created_outbox_def
    by (rule insert_event_and_outbox_ok [OF o2 _ _ _ ty ek [unfolded created_event_def] oq]) (simp_all add: es)
  let ?d3 = "?d2\<lparr>db_events := db_events ?d2 @ [created_event org c],
           db_outbox := db_outbox ?d2 @ [created_outbox org oid c]\<rparr>"
  have "\<exists>au. insert_audit_event org aid a act cid t details ?d3 = Inr (?d3\<lparr>db_audit := db_audit ?d3 @ [au]\<rparr>)"
    for a act cid t details
    using ready org by (intro insert_audit_event_ok) (simp_all add: create_ready_def current_org_def)
  then obtain au where i4: "insert_audit_event org aid (cc_actor c) ''case.created'' (cc_correlation_id c)
      (cc_occurred_at c) (JObj [(''case_id'', JStr (uuid_str (rec_case_id (created_record c)))),
        (''event_id'', JStr (uuid_str (ev_event_id ?e))), (''event_type'', JStr (ev_event_type ?e)),
        (''aggregate_version'', JInt (ev_aggregate_version ?e))]) ?d3 = Inr (?d3\<lparr>db_audit := db_audit ?d3 @ [au]\<rparr>)"
    by blast
  have id: "rec_case_id (created_record c) = cc_case_id c" by (simp add: created_record_def)
  have "create_case oid aid org c d = Inr (\<lparr>res_case = created_record c, res_created = True\<rparr>,
      ?d3\<lparr>db_audit := db_audit ?d3 @ [au]\<rparr>)"
    by (simp only: create_case_def i1 bindE_Inr prod.case option.case created_record_of Let_def id i2 i3
        i4 [unfolded id])
  also have "?d3\<lparr>db_audit := db_audit ?d3 @ [au]\<rparr> = created oid org c ins au d"
    by (simp add: created_def)
  finally show ?thesis by blast
qed

section \<open>An accepted transition is written\<close>

definition transition_ready :: "uuid \<Rightarrow> uuid \<Rightarrow> uuid \<Rightarrow> transition_command \<Rightarrow> db \<Rightarrow> bool" where
  "transition_ready oid aid org c d \<longleftrightarrow>
     org \<in> set (db_organizations d)
     \<and> (\<forall>q \<in> set (db_transitions d). t_id q \<noteq> tc_transition_id c)
     \<and> (\<forall>q \<in> set (db_events d). e_id q \<noteq> tc_event_id c \<and> e_transition_id q \<noteq> Some (tc_transition_id c))
     \<and> (\<forall>q \<in> set (db_outbox d). o_id q \<noteq> oid) \<and> (\<forall>q \<in> set (db_audit d). a_id q \<noteq> aid)"

text \<open>The stored title, key, digest and severity of a projection satisfy the checks they were inserted under.\<close>

definition projections_ok :: "db \<Rightarrow> bool" where
  "projections_ok d \<longleftrightarrow> (\<forall>q \<in> set (db_cases d). \<forall>x \<in> set (case_checks q). fst x)"

lemma outcome_case_checks:
  assumes "\<forall>x \<in> set (case_checks old). fst x" "0 \<le> snap_version (out_snapshot r)"
  shows "\<forall>x \<in> set (case_checks (outcome_case r old)). fst x"
  using assms by (simp add: case_checks_def outcome_case_def)

lemma case_record_of_outcome: "\<exists>k. case_record_of (outcome_case r old) = Inr k"
  by (simp add: case_record_of_def)

lemma persist_transition_ok:
  assumes cmd: "mk_transition_command c = Inr c" and org: "current_org d = Some org"
    and ok: "cases_ok d" "history_ok d" "outbox_ok d" "projections_ok d"
    and ready: "transition_ready oid aid org c d"
    and snap: "get_snapshot org (tc_case_id c) d = Inr cur" and r: "apply_transition cur c = Inr r"
    and small: "snap_version cur < 2147483647"
  shows "is_ok (persist_transition oid aid org r (tc_actor c) d)"
proof -
  note o = apply_transition_InrD [OF r]
  let ?o = "out_snapshot r" and ?tr = "transition_row_of org (out_transition r) (tc_actor c)"
    and ?e = "out_event r"
  from get_snapshot_InrD [OF snap] obtain old where
    old: "old \<in> set (db_cases d)" "c_org old = org" "c_id old = tc_case_id c"
      "snap_version cur = c_version old" "snap_case_id cur = tc_case_id c" "0 \<le> c_version old" by metis
  let ?new = "outcome_case r old"
  let ?d1 = "d\<lparr>db_cases := bump_case (tc_case_id c) ?new (db_cases d),
               deferred_checks := deferred_checks d @ [(Some old, ?new)]\<rparr>"
  let ?d2 = "?d1\<lparr>db_transitions := db_transitions d @ [?tr]\<rparr>"
  have f: "find_row (\<lambda>q. c_org q = org \<and> c_id q = tc_case_id c \<and> c_version q = c_version old)
      (visible d c_org (db_cases d)) = Some old"
    using ok(1) old org by (intro find_row_distinct [where key = c_id]) (simp_all add: cases_ok_def)
  have nc: "\<forall>x \<in> set (case_checks ?new). fst x"
    using ok(4) old o(6) by (intro outcome_case_checks) (simp_all add: projections_ok_def)
  have u: "update_case_version org (snap_case_id ?o) (snap_version ?o - 1) (case_state_value (snap_state ?o))
      (snap_version ?o) (instant (st_occurred_at (out_transition r))) d = Inr (Some ?new, ?d1)"
    using small old(2,4-6) o(6) org nc
    by (simp add: update_case_version_def f int4_ok with_check_ok Let_def bump_case_def
        outcome_case_def moved_case_def constraints_ok)
  have fk: "case_fk ?d1 org (tc_case_id c)"
    unfolding case_fk_def
    by (intro bexI [of _ ?new]) (use outcome_case_mem [OF old(1), of r] old(2,3) in simp_all)
  have hist: "history_from ''new'' 0 (case_transitions d (c_id old)) (c_state old) (c_version old)"
    using ok(2) old(1) by (simp add: history_ok_def)
  have "t_version q \<noteq> snap_version cur + 1" if "q \<in> set (db_transitions d)" "t_case_id q = tc_case_id c" for q
    using history_from_version_le [OF hist, of q] that old(3,4) by (simp add: case_transitions_def)
  then have tk: "\<forall>x \<in> set (transition_keys ?d1 ?tr). fst x"
    using ready fk o(7) old(5) by (auto simp: transition_keys_def transition_ready_def)
  have tc: "\<forall>x \<in> set (transition_checks ?tr). fst x"
    by (rule accepted_transition_checks [OF cmd r]) (use old in simp)
  have o1: "current_org ?d1 = Some org" and o2: "current_org ?d2 = Some org"
    using org by (simp_all add: current_org_def)
  have tv: "st_version (out_transition r) = c_version old + 1" using o(7) old(4) by simp
  have i1: "insert_transition_row ?tr ?d1 = Inr ?d2"
    using small old(4,6) tv
    by (simp add: insert_transition_row_def int4_ok with_check_ok o1 constraints_ok [OF tk] constraints_ok [OF tc])
  have ek: "\<forall>x \<in> set (event_keys ?d2 (outcome_event org r)). fst x"
    using ready fk o(7,8) old(5) by (auto simp: event_keys_def transition_ready_def case_fk_def)
  have oq: "\<forall>q \<in> set (db_outbox ?d2). o_id q \<noteq> oid \<and> o_case_event_id q \<noteq> ev_event_id ?e"
    using ready outbox_event_ids [OF ok(3)] by (fastforce simp: transition_ready_def o(8) copies_event_def)
  let ?d3 = "?d2\<lparr>db_events := db_events ?d2 @ [outcome_event org r],
      db_outbox := db_outbox ?d2 @ [outbox_row_of org oid ?e (outcome_payload r)]\<rparr>"
  have i2: "insert_event_and_outbox org oid ?e (Some (ev_transition_id ?e)) None ?d2 = Inr ?d3"
    unfolding outcome_event_def outcome_payload_def
    by (rule insert_event_and_outbox_ok [OF o2 _ _ _ _ ek [unfolded outcome_event_def outcome_payload_def] oq])
      (use o(8) old(4,6) small in simp_all)
  have d3: "current_org ?d3 = Some org" "db_organizations ?d3 = db_organizations d" "db_audit ?d3 = db_audit d"
    using org by (simp_all add: current_org_def)
  have "org \<in> set (db_organizations ?d3)" "\<forall>q \<in> set (db_audit ?d3). a_id q \<noteq> aid"
    using ready unfolding d3 transition_ready_def by blast+
  from insert_audit_event_ok [OF d3(1) this] obtain d4 where
    i3: "insert_audit_event org aid (tc_actor c) ''case.transitioned'' (ev_correlation_id ?e)
      (ev_occurred_at ?e) (transition_details r) ?d3 = Inr d4" by blast
  from case_record_of_outcome obtain k where k: "case_record_of ?new = Inr k" by blast
  show ?thesis
    by (simp only: persist_transition_def u i1 i2 i3 k bindE_Inr prod.case option.case is_ok_Inr simp_thms)
qed

section \<open>A replayed creation is answered from the store\<close>

lemma require_case_after_create:
  assumes "current_org d = Some org" "row \<in> set (db_cases d)" "c_org row = org" "c_idempotency_key row = key"
    and "\<And>q. q \<in> set (db_cases d) \<Longrightarrow> c_org q = org \<Longrightarrow> c_idempotency_key q = key \<Longrightarrow> q = row"
    and "case_record_of row = Inr k"
  shows "require_case_by_idempotency org key d = Inr (k, c_request_sha256 row)"
proof -
  have "find_row (\<lambda>r. c_org r = org \<and> c_idempotency_key r = key) (visible d c_org (db_cases d)) = Some row"
  proof (rule find_row_unique)
    show "row \<in> set (visible d c_org (db_cases d))" using assms(1-3) by simp
    show "c_org row = org \<and> c_idempotency_key row = key" using assms(3,4) by simp
    show "q = row" if "q \<in> set (visible d c_org (db_cases d))" "c_org q = org \<and> c_idempotency_key q = key" for q
      using that assms(5) by simp
  qed
  then show ?thesis by (simp add: require_case_by_idempotency_def assms(6))
qed

text \<open>
  At most one case per organization and key (the unique index), so the selection on it is
  unambiguous.
\<close>

definition idempotency_ok :: "db \<Rightarrow> bool" where
  "idempotency_ok d \<longleftrightarrow> distinct (map (\<lambda>q. (c_org q, c_idempotency_key q)) (db_cases d))"

lemma create_case_replay:
  assumes org: "current_org d = Some org" and uniq: "idempotency_ok d"
    and row: "row \<in> set (db_cases d)" "c_org row = org" "c_idempotency_key row = cc_idempotency_key c"
    and rec: "case_record_of row = Inr k"
    and cmd: "\<forall>x \<in> set (case_checks (new_case_row org c)). fst x"
  shows "create_case oid aid org c d =
    (if c_request_sha256 row = request_sha256 c
     then Inr (\<lparr>res_case = k, res_created = False\<rparr>, d)
     else Inl (IdempotencyConflictError (cc_idempotency_key c) (c_id row) (cc_case_id c)))"
proof -
  have "q = row" if "q \<in> set (db_cases d)" "c_org q = org" "c_idempotency_key q = cc_idempotency_key c" for q
    using distinct_map_eqD [OF uniq [unfolded idempotency_ok_def] that(1) row(1)] that row by simp
  note req = require_case_after_create [OF org row this rec]
  have "insert_case_row (new_case_row org c) d = Inr (None, d)"
    using row org by (auto simp: insert_case_row_def int4_ok with_check_ok constraints_ok [OF cmd])
  moreover have "rec_case_id k = c_id row"
    using rec by (auto simp: case_record_of_def bindE_eq_Inr)
  ultimately show ?thesis by (simp add: create_case_def req)
qed

section \<open>The whole invariant\<close>

definition store_invariant :: "db \<Rightarrow> bool" where
  "store_invariant d \<longleftrightarrow> case_invariant d \<and> projections_ok d \<and> idempotency_ok d"

lemma projections_ok_tables [simp]:
  "projections_ok (bound org d) = projections_ok d" "projections_ok (settled g d) = projections_ok d"
  "idempotency_ok (bound org d) = idempotency_ok d" "idempotency_ok (settled g d) = idempotency_ok d"
  by (simp_all add: projections_ok_def idempotency_ok_def)

lemma created_projections:
  assumes "projections_ok d" "idempotency_ok d" "\<forall>x \<in> set (case_checks (new_case_row org c)). fst x"
    and "\<forall>q \<in> set (db_cases d). \<not> (c_org q = org \<and> c_idempotency_key q = cc_idempotency_key c)"
  shows "projections_ok (created oid org c ins au d)" "idempotency_ok (created oid org c ins au d)"
  using assms by (auto simp: projections_ok_def idempotency_ok_def)

lemma persisted_projections:
  assumes "cases_ok d" "projections_ok d" "idempotency_ok d" "old \<in> set (db_cases d)"
    "0 \<le> snap_version (out_snapshot r)"
  shows "projections_ok (persisted oid org r a old au d)" "idempotency_ok (persisted oid org r a old au d)"
proof -
  have new: "\<forall>x \<in> set (case_checks (outcome_case r old)). fst x"
    using assms(2,4,5) by (intro outcome_case_checks) (simp_all add: projections_ok_def)
  from assms(2) show "projections_ok (persisted oid org r a old au d)"
    unfolding projections_ok_def persisted_simps by (intro ball_bump_case new)
  let ?key = "\<lambda>q :: case_row. (c_org q, c_idempotency_key q)"
  have "map ?key (bump_case (c_id old) (outcome_case r old) (db_cases d)) = map ?key (db_cases d)"
    using assms(1,4) by (intro map_bump_case) (simp_all add: cases_ok_def)
  with assms(3) show "idempotency_ok (persisted oid org r a old au d)"
    unfolding idempotency_ok_def persisted_simps by simp
qed

lemma create_store_invariant:
  assumes inv: "store_invariant d"
  shows "store_invariant (snd (tenant_connection org (create_case oid aid org c) d))"
proof -
  have ci: "case_invariant (snd (tenant_connection org (create_case oid aid org c) d))"
    using inv by (simp add: store_invariant_def create_commit_invariant)
  from inv have p: "projections_ok (bound org d)" "idempotency_ok (bound org d)"
    by (simp_all add: store_invariant_def)
  have "projections_ok d' \<and> idempotency_ok d'"
    if d': "d' = snd (tenant_connection org (create_case oid aid org c) d)" for d'
  proof (cases rule: tenant_connection_cases [of org "create_case oid aid org c" d])
    case (failed e)
    with inv d' show ?thesis by (simp add: store_invariant_def)
  next
    case (committed res d2)
    have "projections_ok d2 \<and> idempotency_ok d2"
      by (rule create_case_InrD [OF committed(1)]) (use p created_projections in simp_all)
    with committed(3) d' show ?thesis by simp
  qed
  with ci show ?thesis by (simp add: store_invariant_def)
qed

lemma persist_store_invariant:
  assumes inv: "store_invariant d"
  shows "store_invariant (snd (tenant_connection org (persist_transition oid aid org r a) d))"
proof -
  have ci: "case_invariant (snd (tenant_connection org (persist_transition oid aid org r a) d))"
    using inv by (simp add: store_invariant_def persist_commit_invariant)
  from inv have p: "cases_ok (bound org d)" "projections_ok (bound org d)" "idempotency_ok (bound org d)"
    by (simp_all add: store_invariant_def case_invariant_def)
  have "projections_ok d' \<and> idempotency_ok d'"
    if d': "d' = snd (tenant_connection org (persist_transition oid aid org r a) d)" for d'
  proof (cases rule: tenant_connection_cases [of org "persist_transition oid aid org r a" d])
    case (failed e)
    with inv d' show ?thesis by (simp add: store_invariant_def)
  next
    case (committed k d2)
    from persist_transition_InrD [OF committed(1)] obtain old au where
      "old \<in> set (db_cases (bound org d))" "0 \<le> snap_version (out_snapshot r)"
      "d2 = persisted oid org r a old au (bound org d)" by metis
    with persisted_projections [OF p] committed(3) d' show ?thesis by simp
  qed
  with ci show ?thesis by (simp add: store_invariant_def)
qed

end
