(* ===== verification/Outbox.thy ===== *)
theory Outbox
  imports Case_Progress
begin

text \<open>
  \<open>services/api/netops_api/application/outbox.py\<close>: leasing, settling and retrying outbox rows, and the
  consumer inbox. A row that \<open>FOR UPDATE SKIP LOCKED\<close> skips because another open transaction holds it
  is given by the predicate \<open>skip\<close>; \<open>RETURNING\<close> lists the updated rows in table order. A \<open>timedelta\<close>
  is a number of microseconds.
\<close>

section \<open>Leases\<close>

text \<open>\<open>re.fullmatch(r"[a-z0-9][a-z0-9._:-]{0,127}", code)\<close>\<close>

definition code_head :: "char \<Rightarrow> bool" where
  "code_head c = (ascii_digit c \<or> ascii_lower c)"

definition delivery_error_code :: "string \<Rightarrow> bool" where
  "delivery_error_code s = (case s of [] \<Rightarrow> False
     | c # cs \<Rightarrow> code_head c \<and> length cs \<le> 127 \<and> list_all (\<lambda>x. code_head x \<or> x \<in> set ''._:-'') cs)"

record outbox_lease =
  lease_outbox_id :: uuid
  lease_token :: string

definition mk_outbox_lease :: "uuid \<Rightarrow> string \<Rightarrow> exn + outbox_lease" where
  "mk_outbox_lease i token =
     (if blank token \<or> length token > 255
      then Inl (ValueError ''lease_token must contain 1 to 255 non-blank characters.'')
      else Inr \<lparr>lease_outbox_id = i, lease_token = token\<rparr>)"

record leased_event =
  le_outbox_id :: uuid
  le_organization_id :: uuid
  le_case_id :: uuid
  le_case_event_id :: uuid
  le_event_type :: string
  le_aggregate_version :: int
  le_correlation_id :: uuid
  le_payload :: json
  le_available_at :: int
  le_created_at :: int
  le_attempt_count :: int
  le_locked_at :: int
  le_locked_by :: string

definition lease_of :: "leased_event \<Rightarrow> exn + outbox_lease" where
  "lease_of e = mk_outbox_lease (le_outbox_id e) (le_locked_by e)"

definition validate_worker_id :: "string \<Rightarrow> exn + unit" where
  "validate_worker_id w = raise_unless (\<not> (blank w \<or> length w > 200))
     (ValueError ''worker_id must contain 1 to 200 non-blank characters.'')"

definition validate_utc :: "datetime \<Rightarrow> string \<Rightarrow> exn + unit" where
  "validate_utc t field = raise_unless (is_utc t) (ValueError (field @ '' must be timezone-aware UTC.''))"

text \<open>
  \<open>_leased_event(row)\<close>. No writer stores a JSON string as payload, which the code would parse
  again; every payload but an object is refused here.
\<close>

definition leased_event_of :: "outbox_row \<Rightarrow> exn + leased_event" where
  "leased_event_of r = (case o_payload r of
     JObj kvs \<Rightarrow> (case (o_locked_at r, o_locked_by r) of
         (Some t, Some token) \<Rightarrow> Inr
           \<lparr>le_outbox_id = o_id r, le_organization_id = o_org r, le_case_id = o_case_id r,
            le_case_event_id = o_case_event_id r, le_event_type = o_event_type r,
            le_aggregate_version = o_aggregate_version r, le_correlation_id = o_correlation_id r,
            le_payload = JObj kvs, le_available_at = o_available_at r, le_created_at = o_created_at r,
            le_attempt_count = o_attempt_count r, le_locked_at = t, le_locked_by = token\<rparr>
       | _ \<Rightarrow> Inl (RuntimeError ''Leased outbox event did not retain its delivery lease.''))
   | _ \<Rightarrow> Inl (ValueError ''outbox payload must be a JSON object.''))"

text \<open>\<open>ORDER BY available_at, created_at, id\<close>\<close>

definition lease_le :: "outbox_row \<Rightarrow> outbox_row \<Rightarrow> bool" where
  "lease_le a b \<longleftrightarrow>
     o_available_at a < o_available_at b
     \<or> o_available_at a = o_available_at b
       \<and> (o_created_at a < o_created_at b \<or> o_created_at a = o_created_at b \<and> o_id a \<le> o_id b)"

definition leasable :: "uuid \<Rightarrow> int \<Rightarrow> int \<Rightarrow> outbox_row \<Rightarrow> bool" where
  "leasable org now expired_at r \<longleftrightarrow>
     o_org r = org \<and> o_published_at r = None \<and> o_available_at r \<le> now
     \<and> (case o_locked_at r of None \<Rightarrow> True | Some t \<Rightarrow> t \<le> expired_at)"

definition lease_candidates :: "(uuid \<Rightarrow> bool) \<Rightarrow> uuid \<Rightarrow> int \<Rightarrow> int \<Rightarrow> nat \<Rightarrow> db \<Rightarrow> outbox_row list" where
  "lease_candidates skip org now expired_at limit d =
     take limit (sort_by lease_le
       (filter (\<lambda>r. leasable org now expired_at r \<and> \<not> skip (o_id r)) (visible d o_org (db_outbox d))))"

definition lease_row :: "int \<Rightarrow> string \<Rightarrow> outbox_row \<Rightarrow> outbox_row" where
  "lease_row now token r =
     r\<lparr>o_locked_at := Some now, o_locked_by := Some token, o_attempt_count := o_attempt_count r + 1\<rparr>"

definition lease_available :: "uuid \<Rightarrow> (uuid \<Rightarrow> bool) \<Rightarrow> uuid \<Rightarrow> string \<Rightarrow> datetime \<Rightarrow> int \<Rightarrow> int \<Rightarrow> db \<Rightarrow>
    exn + leased_event list \<times> db" where
  "lease_available token_id skip org worker_id now limit lease_for d =
     bindE (validate_worker_id worker_id) (\<lambda>_.
     bindE (validate_utc now ''now'') (\<lambda>_.
     if \<not> (1 \<le> limit \<and> limit \<le> 100) then Inl (ValueError ''limit must be between 1 and 100.'')
     else if lease_for \<le> 0 then Inl (ValueError ''lease_for must be positive.'')
     else
       let token = worker_id @ '':'' @ uuid_str token_id;
           ids = map o_id (lease_candidates skip org (instant now) (instant now - lease_for) (nat limit) d)
       in bindE (update_outbox (\<lambda>r. o_id r \<in> set ids \<and> o_org r = org) (lease_row (instant now) token) d)
            (\<lambda>(rows, d'). bindE (traverseE leased_event_of rows) (\<lambda>events. Inr (events, d')))))"

section \<open>Settlement\<close>

text \<open>The \<open>WHERE\<close> clause both settlements share.\<close>

definition holds_lease :: "uuid \<Rightarrow> outbox_lease \<Rightarrow> outbox_row \<Rightarrow> bool" where
  "holds_lease org l r \<longleftrightarrow> o_org r = org \<and> o_id r = lease_outbox_id l \<and> o_published_at r = None
     \<and> o_locked_by r = Some (lease_token l)"

definition publish_row :: "int \<Rightarrow> outbox_row \<Rightarrow> outbox_row" where
  "publish_row t r =
     r\<lparr>o_published_at := Some t, o_locked_at := None, o_locked_by := None, o_last_error := None\<rparr>"

definition mark_published :: "uuid \<Rightarrow> outbox_lease \<Rightarrow> datetime \<Rightarrow> db \<Rightarrow> exn + unit \<times> db" where
  "mark_published org l published_at d =
     bindE (validate_utc published_at ''published_at'') (\<lambda>_.
     bindE (update_outbox (holds_lease org l) (publish_row (instant published_at)) d) (\<lambda>(rows, d').
     if length rows \<noteq> 1 then Inl (OutboxLeaseLostError (lease_outbox_id l)) else Inr ((), d')))"

definition retry_row :: "int \<Rightarrow> string \<Rightarrow> outbox_row \<Rightarrow> outbox_row" where
  "retry_row t code r =
     r\<lparr>o_available_at := t, o_locked_at := None, o_locked_by := None, o_last_error := Some code\<rparr>"

definition schedule_retry :: "uuid \<Rightarrow> outbox_lease \<Rightarrow> datetime \<Rightarrow> string \<Rightarrow> db \<Rightarrow> exn + unit \<times> db" where
  "schedule_retry org l retry_at code d =
     bindE (validate_utc retry_at ''retry_at'') (\<lambda>_.
     if \<not> delivery_error_code code
     then Inl (ValueError ''error_code must be a 1 to 128 character safe delivery code.'')
     else bindE (update_outbox (holds_lease org l) (retry_row (instant retry_at) code) d) (\<lambda>(rows, d').
       if length rows \<noteq> 1 then Inl (OutboxLeaseLostError (lease_outbox_id l)) else Inr ((), d')))"

section \<open>The consumer inbox\<close>

definition payload_sha256 :: "json \<Rightarrow> string" where
  "payload_sha256 p = sha256 (utf8 (json_canonical p))"

definition record_once :: "uuid \<Rightarrow> uuid \<Rightarrow> string \<Rightarrow> uuid \<Rightarrow> json \<Rightarrow> datetime \<Rightarrow> db \<Rightarrow> exn + bool \<times> db" where
  "record_once inbox_id org consumer event_id payload processed_at d =
     (if blank consumer \<or> length consumer > 255
      then Inl (ValueError ''consumer_name must contain 1 to 255 non-blank characters.'')
      else bindE (validate_utc processed_at ''processed_at'') (\<lambda>_.
        let sha = payload_sha256 payload; name = strip consumer in
        bindE (insert_inbox_row
          \<lparr>i_id = inbox_id, i_org = org, i_consumer_name = name, i_event_id = event_id,
           i_payload_sha256 = sha, i_processed_at = instant processed_at\<rparr> d) (\<lambda>(inserted, d').
        if inserted then Inr (True, d')
        else case find_row (\<lambda>r. i_org r = org \<and> i_consumer_name r = name \<and> i_event_id r = event_id)
                    (visible d' i_org (db_inbox d')) of
          None \<Rightarrow> Inl (RuntimeError ''Consumer deduplication conflict did not retain its receipt.'')
        | Some existing \<Rightarrow>
            if i_payload_sha256 existing \<noteq> sha
            then Inl (ConsumerPayloadMismatchError event_id consumer)
            else Inr (False, d'))))"

section \<open>What an update of the outbox does\<close>

text \<open>The delivery columns are all an update may change; the identity of a row and its order stay.\<close>

definition same_business :: "outbox_row \<Rightarrow> outbox_row \<Rightarrow> bool" where
  "same_business a b \<longleftrightarrow> o_id b = o_id a \<and> o_org b = o_org a \<and> o_case_id b = o_case_id a
     \<and> o_case_event_id b = o_case_event_id a \<and> o_event_type b = o_event_type a
     \<and> o_aggregate_version b = o_aggregate_version a \<and> o_correlation_id b = o_correlation_id a
     \<and> o_payload b = o_payload a \<and> o_created_at b = o_created_at a
     \<and> o_attempt_count a \<le> o_attempt_count b
     \<and> (o_published_at a \<noteq> None \<longrightarrow> o_published_at b = o_published_at a)"

lemma same_business_refl [simp]: "same_business r r"
  by (simp add: same_business_def)

lemma guard_outbox_Inr:
  "guard_outbox_event_mutation old new = Inr r \<longleftrightarrow> r = new \<and> same_business old new"
  by (auto simp: guard_outbox_event_mutation_def same_business_def)

lemma update_outbox_row_Inr:
  "update_outbox_row d p f r = Inr r' \<Longrightarrow>
     r' = (if current_org d = Some (o_org r) \<and> p r then f r else r) \<and> same_business r r'"
  by (auto simp: update_outbox_row_def bindE_eq_Inr guard_outbox_Inr split: if_splits)

lemma update_outbox_Inr:
  assumes "update_outbox p f d = Inr (rows, d')"
  shows "d' = d\<lparr>db_outbox :=
      map (\<lambda>r. if current_org d = Some (o_org r) \<and> p r then f r else r) (db_outbox d)\<rparr>"
    and "rows = map f (filter p (visible d o_org (db_outbox d)))"
    and "list_all2 same_business (db_outbox d) (db_outbox d')"
proof -
  from assms obtain new where t: "traverseE (update_outbox_row d p f) (db_outbox d) = Inr new"
    and d': "d' = d\<lparr>db_outbox := new\<rparr>" and "rows = map f (filter p (visible d o_org (db_outbox d)))"
    by (auto simp: update_outbox_def bindE_eq_Inr)
  then show "rows = map f (filter p (visible d o_org (db_outbox d)))" by simp
  from traverseE_list_all2 [OF t]
  have "list_all2 (\<lambda>r r'. r' = (if current_org d = Some (o_org r) \<and> p r then f r else r) \<and> same_business r r')
      (db_outbox d) new" by (rule list_all2_mono) (rule update_outbox_row_Inr)
  then have a: "list_all2 (\<lambda>r r'. r' = (if current_org d = Some (o_org r) \<and> p r then f r else r)) (db_outbox d) new"
    and b: "list_all2 same_business (db_outbox d) new"
    by (auto elim: list_all2_mono)
  from list_all2_eq_map [OF a] d' show "d' = d\<lparr>db_outbox :=
      map (\<lambda>r. if current_org d = Some (o_org r) \<and> p r then f r else r) (db_outbox d)\<rparr>" by simp
  from b d' show "list_all2 same_business (db_outbox d) (db_outbox d')" by simp
qed

text \<open>An update that keeps the business columns and the checks goes through.\<close>

lemma update_outbox_ok:
  assumes "\<And>r. r \<in> set (db_outbox d) \<Longrightarrow> current_org d = Some (o_org r) \<Longrightarrow> p r \<Longrightarrow>
      same_business r (f r) \<and> (\<forall>x \<in> set (outbox_checks (f r)). fst x) \<and> o_attempt_count (f r) \<le> 2147483647"
  shows "update_outbox p f d = Inr (map f (filter p (visible d o_org (db_outbox d))),
    d\<lparr>db_outbox := map (\<lambda>r. if current_org d = Some (o_org r) \<and> p r then f r else r) (db_outbox d)\<rparr>)"
proof -
  have "update_outbox_row d p f r = Inr (if current_org d = Some (o_org r) \<and> p r then f r else r)"
    if r: "r \<in> set (db_outbox d)" for r
  proof (cases "current_org d = Some (o_org r) \<and> p r")
    case True
    with assms [OF r] have a: "same_business r (f r)" "\<forall>x \<in> set (outbox_checks (f r)). fst x"
      "o_attempt_count (f r) \<le> 2147483647" by blast+
    then have "0 \<le> o_attempt_count (f r)" by (simp add: outbox_checks_def)
    moreover have "o_org (f r) = o_org r" using a(1) by (simp add: same_business_def)
    moreover have "guard_outbox_event_mutation r (f r) = Inr (f r)" using a(1) by (simp add: guard_outbox_Inr)
    ultimately show ?thesis
      using a True by (simp add: update_outbox_row_def int4_ok with_check_ok constraints_ok)
  qed (auto simp: update_outbox_row_def)
  then have "traverseE (update_outbox_row d p f) (db_outbox d) =
      Inr (map (\<lambda>r. if current_org d = Some (o_org r) \<and> p r then f r else r) (db_outbox d))"
    by (rule traverseE_eq_map)
  then show ?thesis by (simp add: update_outbox_def)
qed

text \<open>Rows the schema keeps distinct.\<close>

definition outbox_keys_ok :: "db \<Rightarrow> bool" where
  "outbox_keys_ok d \<longleftrightarrow> distinct (map o_id (db_outbox d)) \<and>
     (\<forall>r \<in> set (db_outbox d). (\<forall>x \<in> set (outbox_checks r). fst x) \<and> (\<exists>kvs. o_payload r = JObj kvs))"

lemma map_o_id_update [simp]:
  "(\<And>r. o_id (f r) = o_id r) \<Longrightarrow> map o_id (map (\<lambda>r. if q r then f r else r) rows) = map o_id rows"
  by (induction rows) auto

lemma publish_row_simps [simp]:
  "o_id (publish_row t r) = o_id r" "o_org (publish_row t r) = o_org r"
  "o_published_at (publish_row t r) = Some t" "o_locked_by (publish_row t r) = None"
  "o_case_event_id (publish_row t r) = o_case_event_id r"
  "o_published_at r = None \<Longrightarrow> same_business r (publish_row t r)"
  by (simp_all add: publish_row_def same_business_def)

lemma retry_row_simps [simp]:
  "o_id (retry_row t c r) = o_id r" "o_org (retry_row t c r) = o_org r"
  "o_published_at (retry_row t c r) = o_published_at r" "o_locked_by (retry_row t c r) = None"
  "o_available_at (retry_row t c r) = t" "o_locked_at (retry_row t c r) = None"
  "o_last_error (retry_row t c r) = Some c"
  "same_business r (retry_row t c r)"
  by (simp_all add: retry_row_def same_business_def)

lemma lease_row_simps [simp]:
  "o_id (lease_row t k r) = o_id r" "o_org (lease_row t k r) = o_org r"
  "o_published_at (lease_row t k r) = o_published_at r" "o_locked_by (lease_row t k r) = Some k"
  "o_locked_at (lease_row t k r) = Some t" "o_attempt_count (lease_row t k r) = o_attempt_count r + 1"
  "o_case_event_id (lease_row t k r) = o_case_event_id r" "o_payload (lease_row t k r) = o_payload r"
  "same_business r (lease_row t k r)"
  by (simp_all add: lease_row_def same_business_def)

lemma outbox_checks_delivery [simp]:
  "(\<forall>x \<in> set (outbox_checks (publish_row t r)). fst x) \<longleftrightarrow> (\<forall>x \<in> set (outbox_checks r). fst x)"
  "(\<forall>x \<in> set (outbox_checks (retry_row t c r)). fst x) \<longleftrightarrow> (\<forall>x \<in> set (outbox_checks r). fst x)"
  by (simp_all add: outbox_checks_def publish_row_def retry_row_def)

section \<open>Settlement is decided by the lease token\<close>

definition set_row :: "uuid \<Rightarrow> (outbox_row \<Rightarrow> outbox_row) \<Rightarrow> outbox_row list \<Rightarrow> outbox_row list" where
  "set_row i f rows = map (\<lambda>r. if o_id r = i then f r else r) rows"

lemma filter_unique_key:
  assumes "distinct (map key rows)" "x \<in> set rows" "p x" "\<And>y. y \<in> set rows \<Longrightarrow> p y \<Longrightarrow> key y = key x"
  shows "filter p rows = [x]"
  using assms
proof (induction rows)
  case (Cons y rows)
  show ?case
  proof (cases "y = x")
    case True
    have "\<not> p z" if "z \<in> set rows" for z
    proof
      assume "p z"
      with Cons.prems(4) that have "key z = key x" by (metis list.set_intros(2))
      moreover from Cons.prems(1) have "key y \<notin> key ` set rows" by simp
      ultimately show False using True that by (metis imageI)
    qed
    with True Cons.prems(3) show ?thesis by (simp add: filter_empty_conv)
  next
    case False
    with Cons.prems have x: "x \<in> set rows" by simp
    have "\<not> p y"
    proof
      assume "p y"
      with Cons.prems(4) have "key y = key x" by (metis list.set_intros(1))
      moreover from Cons.prems(1) have "key y \<notin> key ` set rows" by simp
      ultimately show False using x by (metis imageI)
    qed
    moreover have "filter p rows = [x]"
    proof (rule Cons.IH)
      show "distinct (map key rows)" using Cons.prems(1) by simp
      show "x \<in> set rows" by (rule x)
      show "p x" by (rule Cons.prems(3))
      show "key z = key x" if "z \<in> set rows" "p z" for z
        using Cons.prems(4) [of z] that by simp
    qed
    ultimately show ?thesis by simp
  qed
qed simp

lemma holder_rows:
  assumes "outbox_keys_ok d" "current_org d = Some org" "r \<in> set (db_outbox d)" "holds_lease org l r"
  shows "filter (holds_lease org l) (visible d o_org (db_outbox d)) = [r]"
    and "map (\<lambda>q. if current_org d = Some (o_org q) \<and> holds_lease org l q then f q else q) (db_outbox d) =
      set_row (o_id r) f (db_outbox d)"
proof -
  have ids: "distinct (map o_id (db_outbox d))" using assms(1) by (simp add: outbox_keys_ok_def)
  have rid: "o_id r = lease_outbox_id l" "o_org r = org" using assms(4) by (simp_all add: holds_lease_def)
  show "filter (holds_lease org l) (visible d o_org (db_outbox d)) = [r]"
    using assms rid ids by (intro filter_unique_key [where key = o_id]) (auto simp: holds_lease_def)
  have "(if current_org d = Some (o_org q) \<and> holds_lease org l q then f q else q) =
      (if o_id q = o_id r then f q else q)" if q: "q \<in> set (db_outbox d)" for q
  proof (cases "o_id q = o_id r")
    case True
    with distinct_map_eqD [OF ids q assms(3)] have "q = r" by simp
    with assms(2,4) rid show ?thesis by simp
  next
    case False
    with rid have "\<not> holds_lease org l q" by (simp add: holds_lease_def)
    with False show ?thesis by simp
  qed
  then show "map (\<lambda>q. if current_org d = Some (o_org q) \<and> holds_lease org l q then f q else q) (db_outbox d) =
      set_row (o_id r) f (db_outbox d)" by (simp add: set_row_def)
qed

lemma no_holder_rows:
  assumes "\<forall>r \<in> set (db_outbox d). \<not> holds_lease org l r"
  shows "filter (holds_lease org l) (visible d o_org (db_outbox d)) = []"
  using assms by (auto simp: filter_empty_conv)

lemma settle_ok:
  assumes "outbox_keys_ok d" "current_org d = Some org" "r \<in> set (db_outbox d)" "holds_lease org l r"
    and "same_business r (f r)" "\<forall>x \<in> set (outbox_checks (f r)). fst x" "o_attempt_count (f r) \<le> 2147483647"
  shows "update_outbox (holds_lease org l) f d = Inr ([f r], d\<lparr>db_outbox := set_row (o_id r) f (db_outbox d)\<rparr>)"
proof -
  have only: "q = r" if "q \<in> set (db_outbox d)" "holds_lease org l q" for q
    using that assms(1,3,4) by (auto simp: outbox_keys_ok_def holds_lease_def dest: distinct_map_eqD)
  have "update_outbox (holds_lease org l) f d =
      Inr (map f (filter (holds_lease org l) (visible d o_org (db_outbox d))),
        d\<lparr>db_outbox := map (\<lambda>q. if current_org d = Some (o_org q) \<and> holds_lease org l q then f q else q) (db_outbox d)\<rparr>)"
    by (rule update_outbox_ok) (use assms(5-7) only in blast)
  then show ?thesis by (simp add: holder_rows [OF assms(1-4)])
qed

lemma settle_none:
  assumes "\<forall>r \<in> set (db_outbox d). \<not> holds_lease org l r"
  shows "update_outbox (holds_lease org l) f d = Inr ([], d)"
proof -
  have "update_outbox (holds_lease org l) f d =
      Inr (map f (filter (holds_lease org l) (visible d o_org (db_outbox d))),
        d\<lparr>db_outbox := map (\<lambda>q. if current_org d = Some (o_org q) \<and> holds_lease org l q then f q else q) (db_outbox d)\<rparr>)"
    by (rule update_outbox_ok) (use assms in blast)
  moreover have "map (\<lambda>q. if current_org d = Some (o_org q) \<and> holds_lease org l q then f q else q) (db_outbox d)
      = db_outbox d" using assms by (intro map_idI) auto
  ultimately show ?thesis by (simp add: no_holder_rows [OF assms])
qed

text \<open>
  In a well-formed store an acknowledgement succeeds exactly when some row still carries the lease,
  and then publishes that row and nothing else.
\<close>

lemma mark_published_cases:
  assumes ok: "outbox_keys_ok d" "\<forall>r \<in> set (db_outbox d). o_attempt_count r \<le> 2147483647"
    and org: "current_org d = Some org" and t: "is_utc t"
  shows "mark_published org l t d =
    (if \<exists>r \<in> set (db_outbox d). holds_lease org l r
     then Inr ((), d\<lparr>db_outbox := set_row (lease_outbox_id l) (publish_row (instant t)) (db_outbox d)\<rparr>)
     else Inl (OutboxLeaseLostError (lease_outbox_id l)))"
proof (cases "\<exists>r \<in> set (db_outbox d). holds_lease org l r")
  case True
  then obtain r where r: "r \<in> set (db_outbox d)" "holds_lease org l r" by blast
  then have u: "o_published_at r = None" and i: "o_id r = lease_outbox_id l" by (simp_all add: holds_lease_def)
  have "o_attempt_count (publish_row (instant t) r) = o_attempt_count r" by (simp add: publish_row_def)
  then have "update_outbox (holds_lease org l) (publish_row (instant t)) d =
      Inr ([publish_row (instant t) r], d\<lparr>db_outbox := set_row (o_id r) (publish_row (instant t)) (db_outbox d)\<rparr>)"
    using ok r u by (intro settle_ok org) (auto simp: outbox_keys_ok_def)
  with True t i show ?thesis by (simp add: mark_published_def validate_utc_def)
next
  case False
  then have "\<forall>r \<in> set (db_outbox d). \<not> holds_lease org l r" by blast
  from settle_none [OF this] False t show ?thesis by (simp add: mark_published_def validate_utc_def)
qed

lemma schedule_retry_cases:
  assumes ok: "outbox_keys_ok d" "\<forall>r \<in> set (db_outbox d). o_attempt_count r \<le> 2147483647"
    and org: "current_org d = Some org" and t: "is_utc t" and code: "delivery_error_code code"
  shows "schedule_retry org l t code d =
    (if \<exists>r \<in> set (db_outbox d). holds_lease org l r
     then Inr ((), d\<lparr>db_outbox := set_row (lease_outbox_id l) (retry_row (instant t) code) (db_outbox d)\<rparr>)
     else Inl (OutboxLeaseLostError (lease_outbox_id l)))"
proof (cases "\<exists>r \<in> set (db_outbox d). holds_lease org l r")
  case True
  then obtain r where r: "r \<in> set (db_outbox d)" "holds_lease org l r" by blast
  then have i: "o_id r = lease_outbox_id l" by (simp add: holds_lease_def)
  have "o_attempt_count (retry_row (instant t) code r) = o_attempt_count r" by (simp add: retry_row_def)
  then have "update_outbox (holds_lease org l) (retry_row (instant t) code) d = Inr ([retry_row (instant t) code r],
      d\<lparr>db_outbox := set_row (o_id r) (retry_row (instant t) code) (db_outbox d)\<rparr>)"
    using ok r by (intro settle_ok org) (auto simp: outbox_keys_ok_def)
  with True t code i show ?thesis by (simp add: schedule_retry_def validate_utc_def)
next
  case False
  then have "\<forall>r \<in> set (db_outbox d). \<not> holds_lease org l r" by blast
  from settle_none [OF this] False t code show ?thesis by (simp add: schedule_retry_def validate_utc_def)
qed

section \<open>Leasing\<close>

lemma lease_le_total: "lease_le a b \<or> lease_le b a"
  by (auto simp: lease_le_def)

lemma lease_le_trans: "lease_le a b \<Longrightarrow> lease_le b c \<Longrightarrow> lease_le a c"
  by (auto simp: lease_le_def)

definition lease_token_of :: "string \<Rightarrow> uuid \<Rightarrow> string" where
  "lease_token_of worker_id token_id = worker_id @ '':'' @ uuid_str token_id"

lemma lease_token_inject:
  "lease_token_of w1 u1 = lease_token_of w2 u2 \<longleftrightarrow> w1 = w2 \<and> u1 = u2"
proof
  assume eq: "lease_token_of w1 u1 = lease_token_of w2 u2"
  have "drop (length (lease_token_of w u) - 36) (lease_token_of w u) = uuid_str u" for w u
    by (simp add: lease_token_of_def)
  with eq have "uuid_str u1 = uuid_str u2" by metis
  with eq show "w1 = w2 \<and> u1 = u2" by (simp add: lease_token_of_def)
qed simp

text \<open>A token built from an accepted worker id fits the lease constructor's 255 characters.\<close>

lemma lease_token_ok:
  assumes "validate_worker_id w = Inr ()"
  shows "mk_outbox_lease i (lease_token_of w u) = Inr \<lparr>lease_outbox_id = i, lease_token = lease_token_of w u\<rparr>"
proof -
  from assms have "\<not> blank w" "length w \<le> 200" by (auto simp: validate_worker_id_def raise_unless_def split: if_splits)
  moreover have "\<not> blank (lease_token_of w u)"
    using \<open>\<not> blank w\<close> by (auto simp: blank_def lease_token_of_def)
  ultimately show ?thesis by (simp add: mk_outbox_lease_def lease_token_of_def)
qed

definition lease_ids :: "(uuid \<Rightarrow> bool) \<Rightarrow> uuid \<Rightarrow> int \<Rightarrow> int \<Rightarrow> nat \<Rightarrow> db \<Rightarrow> uuid list" where
  "lease_ids skip org now expired limit d = map o_id (lease_candidates skip org now expired limit d)"

lemma candidate_mem:
  assumes "r \<in> set (lease_candidates skip org now expired limit d)"
  shows "r \<in> set (db_outbox d)" "leasable org now expired r" "\<not> skip (o_id r)" "current_org d = Some (o_org r)"
  using assms by (auto simp: lease_candidates_def dest: in_set_takeD)

lemma lease_available_InrD:
  assumes "lease_available u skip org w now limit lease_for d = Inr (events, d')"
  obtains "validate_worker_id w = Inr ()" "is_utc now" "1 \<le> limit" "limit \<le> 100" "0 < lease_for"
    "d' = d\<lparr>db_outbox := map (\<lambda>r. if current_org d = Some (o_org r) \<and> o_org r = org
        \<and> o_id r \<in> set (lease_ids skip org (instant now) (instant now - lease_for) (nat limit) d)
        then lease_row (instant now) (lease_token_of w u) r else r) (db_outbox d)\<rparr>"
    "traverseE leased_event_of (map (lease_row (instant now) (lease_token_of w u))
       (filter (\<lambda>r. o_id r \<in> set (lease_ids skip org (instant now) (instant now - lease_for) (nat limit) d)
          \<and> o_org r = org) (visible d o_org (db_outbox d)))) = Inr events"
    "list_all2 same_business (db_outbox d) (db_outbox d')"
proof -
  let ?ids = "lease_ids skip org (instant now) (instant now - lease_for) (nat limit) d"
  from assms obtain rows where v: "validate_worker_id w = Inr ()" "is_utc now" "1 \<le> limit" "limit \<le> 100" "0 < lease_for"
    and up: "update_outbox (\<lambda>r. o_id r \<in> set ?ids \<and> o_org r = org) (lease_row (instant now) (lease_token_of w u)) d
      = Inr (rows, d')"
    and tr: "traverseE leased_event_of rows = Inr events"
    by (auto simp: lease_available_def bindE_eq_Inr Let_def lease_ids_def lease_token_of_def validate_utc_def
        split: if_splits)
  note U = update_outbox_Inr [OF up]
  show ?thesis
    by (rule that [OF v]) (use U tr in \<open>simp_all add: conj_commute conj_left_commute\<close>)
qed

text \<open>
  Every leased event is one of the candidates, carries the new token, and its lease settles the row
  it came from.
\<close>

lemma leased_events_hold:
  assumes l: "lease_available u skip org w now limit lease_for d = Inr (events, d')" and e: "e \<in> set events"
  obtains r where "r \<in> set (db_outbox d)" "leasable org (instant now) (instant now - lease_for) r \<or> \<not> distinct (map o_id (db_outbox d))"
    "o_id r = le_outbox_id e" "o_org r = org" "le_organization_id e = org" "le_case_event_id e = o_case_event_id r"
    "le_payload e = o_payload r" "le_locked_by e = lease_token_of w u"
    "lease_row (instant now) (lease_token_of w u) r \<in> set (db_outbox d')"
    "lease_of e = Inr \<lparr>lease_outbox_id = o_id r, lease_token = lease_token_of w u\<rparr>"
proof -
  let ?ids = "lease_ids skip org (instant now) (instant now - lease_for) (nat limit) d"
    and ?k = "lease_token_of w u"
  have v: "validate_worker_id w = Inr ()" by (rule lease_available_InrD [OF l])
  have d': "db_outbox d' = map (\<lambda>r. if current_org d = Some (o_org r) \<and> o_org r = org \<and> o_id r \<in> set ?ids
        then lease_row (instant now) ?k r else r) (db_outbox d)"
    by (rule lease_available_InrD [OF l]) simp
  have tr: "traverseE leased_event_of (map (lease_row (instant now) ?k)
       (filter (\<lambda>r. o_id r \<in> set ?ids \<and> o_org r = org) (visible d o_org (db_outbox d)))) = Inr events"
    by (rule lease_available_InrD [OF l])
  from traverseE_mem [OF tr e] obtain q where
    q: "q \<in> set (map (lease_row (instant now) ?k)
       (filter (\<lambda>r. o_id r \<in> set ?ids \<and> o_org r = org) (visible d o_org (db_outbox d))))"
    and qe: "leased_event_of q = Inr e" by blast
  from q obtain r where r: "r \<in> set (db_outbox d)" "o_id r \<in> set ?ids" "o_org r = org" "current_org d = Some org"
    and q': "q = lease_row (instant now) ?k r" by auto
  from qe q' have fields: "o_id r = le_outbox_id e" "le_organization_id e = o_org r"
    "le_case_event_id e = o_case_event_id r" "le_payload e = o_payload r" "le_locked_by e = ?k"
    by (auto simp: leased_event_of_def split: json.splits option.splits)
  from r(2) obtain c where c: "c \<in> set (lease_candidates skip org (instant now) (instant now - lease_for) (nat limit) d)"
    and cid: "o_id c = o_id r" by (auto simp: lease_ids_def)
  have "leasable org (instant now) (instant now - lease_for) r \<or> \<not> distinct (map o_id (db_outbox d))"
    using candidate_mem [OF c] cid r(1) distinct_map_eqD by metis
  moreover have "lease_row (instant now) ?k r \<in> set (db_outbox d')"
    using r unfolding d' by force
  moreover have "lease_of e = Inr \<lparr>lease_outbox_id = o_id r, lease_token = ?k\<rparr>"
    using lease_token_ok [OF v] fields by (simp add: lease_of_def)
  ultimately show ?thesis using that r(1,3) fields by simp
qed

text \<open>A row nobody else holds, due, and with fewer than \<open>limit\<close> rows before it in the queue is leased.\<close>

definition ahead_of :: "uuid \<Rightarrow> int \<Rightarrow> int \<Rightarrow> outbox_row \<Rightarrow> db \<Rightarrow> outbox_row list" where
  "ahead_of org now expired r d =
     filter (\<lambda>q. leasable org now expired q \<and> lease_le q r \<and> q \<noteq> r) (db_outbox d)"

lemma take_sorted_mem:
  assumes "sorted_wrt le xs" "x \<in> set xs" "\<And>y. y \<in> set xs \<Longrightarrow> le x y \<or> le y x"
    and "length (filter (\<lambda>y. le y x \<and> y \<noteq> x) xs) < n"
  shows "x \<in> set (take n xs)"
proof (rule ccontr)
  assume no: "x \<notin> set (take n xs)"
  with assms(2) have dr: "x \<in> set (drop n xs)" by (metis Un_iff append_take_drop_id set_append)
  have "\<forall>y \<in> set (take n xs). le y x \<and> y \<noteq> x"
    using sorted_wrt_take_drop [OF assms(1) _ dr] no by blast
  then have "filter (\<lambda>y. le y x \<and> y \<noteq> x) (take n xs) = take n xs" by simp
  then have "length (take n xs) \<le> length (filter (\<lambda>y. le y x \<and> y \<noteq> x) xs)"
    by (metis append_take_drop_id filter_append le_add1 length_append)
  moreover have "length (take n xs) = n"
    using dr by (metis length_take min.absorb2 nle_le drop_all empty_iff empty_set)
  ultimately show False using assms(4) by simp
qed

lemma length_filter_sort_by: "length (filter p (sort_by le xs)) = length (filter p xs)"
  by (metis mset_filter mset_sort_by size_mset)

lemma lease_candidate_due:
  assumes "r \<in> set (db_outbox d)" "current_org d = Some org" "leasable org now expired r" "\<not> skip (o_id r)"
    and "length (ahead_of org now expired r d) < limit"
  shows "r \<in> set (lease_candidates skip org now expired limit d)"
  unfolding lease_candidates_def
proof (rule take_sorted_mem [where le = lease_le])
  let ?rows = "filter (\<lambda>r. leasable org now expired r \<and> \<not> skip (o_id r)) (visible d o_org (db_outbox d))"
  show "sorted_wrt lease_le (sort_by lease_le ?rows)"
    by (intro sorted_wrt_sort_by lease_le_total) (rule lease_le_trans)
  show "r \<in> set (sort_by lease_le ?rows)" using assms(1-4) by (auto simp: leasable_def)
  show "lease_le r y \<or> lease_le y r" for y by (rule lease_le_total)
  have "filter (\<lambda>y. lease_le y r \<and> y \<noteq> r) ?rows =
      filter (\<lambda>q. \<not> skip (o_id q) \<and> current_org d = Some (o_org q)) (ahead_of org now expired r d)"
    unfolding ahead_of_def visible_def filter_filter by (rule filter_cong [OF refl]) blast
  then have "length (filter (\<lambda>y. lease_le y r \<and> y \<noteq> r) ?rows) \<le> length (ahead_of org now expired r d)"
    by (simp only: length_filter_le)
  then show "length (filter (\<lambda>y. lease_le y r \<and> y \<noteq> r) (sort_by lease_le ?rows)) < limit"
    using assms(5) by (simp only: length_filter_sort_by)
qed

section \<open>Delivery never touches a business fact\<close>

definition delivery_update :: "db \<Rightarrow> db \<Rightarrow> bool" where
  "delivery_update d d' \<longleftrightarrow> (\<exists>rows. d' = d\<lparr>db_outbox := rows\<rparr> \<and> list_all2 same_business (db_outbox d) rows)"

lemma delivery_update_lease: "lease_available u skip org w now limit lf d = Inr (es, d') \<Longrightarrow> delivery_update d d'"
  by (erule lease_available_InrD) (auto simp: delivery_update_def)

lemma delivery_update_of: "update_outbox p f d = Inr (rows, d') \<Longrightarrow> delivery_update d d'"
  using update_outbox_Inr [of p f d rows d'] by (auto simp: delivery_update_def)

lemma delivery_update_mark: "mark_published org l t d = Inr (x, d') \<Longrightarrow> delivery_update d d'"
  by (auto simp: mark_published_def bindE_eq_Inr intro: delivery_update_of split: if_splits)

lemma delivery_update_retry: "schedule_retry org l t c d = Inr (x, d') \<Longrightarrow> delivery_update d d'"
  by (auto simp: schedule_retry_def bindE_eq_Inr intro: delivery_update_of split: if_splits)

lemma copies_event_delivery: "same_business a b \<Longrightarrow> copies_event a e \<Longrightarrow> copies_event b e"
  by (simp add: same_business_def copies_event_def)

lemma outbox_ok_delivery:
  assumes "outbox_ok d" "delivery_update d d'"
  shows "outbox_ok d'"
proof -
  from assms(2) obtain rows where d': "d' = d\<lparr>db_outbox := rows\<rparr>" and s: "list_all2 same_business (db_outbox d) rows"
    by (auto simp: delivery_update_def)
  have "list_all2 copies_event rows (db_events d)"
    unfolding list_all2_conv_all_nth
  proof (intro conjI allI impI)
    from assms(1) s show len: "length rows = length (db_events d)"
      by (auto simp: outbox_ok_def dest!: list_all2_lengthD)
    fix i assume "i < length rows"
    with assms(1) s len have "same_business (db_outbox d ! i) (rows ! i)" "copies_event (db_outbox d ! i) (db_events d ! i)"
      by (simp_all add: outbox_ok_def list_all2_conv_all_nth)
    then show "copies_event (rows ! i) (db_events d ! i)" by (rule copies_event_delivery)
  qed
  with assms(1) show ?thesis by (simp add: outbox_ok_def d')
qed

lemma same_business_ids: "list_all2 same_business rows rows' \<Longrightarrow> map o_id rows' = map o_id rows"
  by (induction rule: list_all2_induct) (simp_all add: same_business_def)

lemma outbox_checks_same: "same_business a b \<Longrightarrow> (\<forall>x \<in> set (outbox_checks a). fst x) \<Longrightarrow> (\<forall>x \<in> set (outbox_checks b). fst x)"
proof -
  assume s: "same_business a b" and c: "\<forall>x \<in> set (outbox_checks a). fst x"
  from s have eq: "o_event_type b = o_event_type a" "o_aggregate_version b = o_aggregate_version a"
    "o_attempt_count a \<le> o_attempt_count b" unfolding same_business_def by blast+
  from c have "0 \<le> o_attempt_count a" "0 < length (btrim (o_event_type a))" "0 \<le> o_aggregate_version a"
    by (simp_all add: outbox_checks_def)
  with eq show "\<forall>x \<in> set (outbox_checks b). fst x" by (simp add: outbox_checks_def)
qed

lemma outbox_keys_ok_delivery:
  assumes "outbox_keys_ok d" "delivery_update d d'"
  shows "outbox_keys_ok d'"
proof -
  from assms(2) obtain rows where d': "d' = d\<lparr>db_outbox := rows\<rparr>" and s: "list_all2 same_business (db_outbox d) rows"
    by (auto simp: delivery_update_def)
  have row: "(\<forall>x \<in> set (outbox_checks r). fst x) \<and> (\<exists>kvs. o_payload r = JObj kvs)" if r: "r \<in> set rows" for r
  proof -
    from r obtain i where i: "i < length rows" "rows ! i = r" unfolding in_set_conv_nth by blast
    have q: "same_business (db_outbox d ! i) r" using list_all2_nthD2 [OF s i(1)] i(2) by (simp only:)
    have "i < length (db_outbox d)" using list_all2_lengthD [OF s] i(1) by simp
    then have "db_outbox d ! i \<in> set (db_outbox d)" by (rule nth_mem)
    with assms(1) have "\<forall>x \<in> set (outbox_checks (db_outbox d ! i)). fst x" "\<exists>kvs. o_payload (db_outbox d ! i) = JObj kvs"
      unfolding outbox_keys_ok_def by blast+
    moreover have "o_payload r = o_payload (db_outbox d ! i)" using q by (simp add: same_business_def)
    ultimately show ?thesis using outbox_checks_same [OF q] by simp
  qed
  with assms(1) same_business_ids [OF s] show ?thesis by (simp add: outbox_keys_ok_def d')
qed

text \<open>The whole invariant of the store, outbox keys included.\<close>

definition full_invariant :: "db \<Rightarrow> bool" where
  "full_invariant d \<longleftrightarrow> store_invariant d \<and> outbox_keys_ok d"

lemma outbox_keys_ok_tables [simp]:
  "outbox_keys_ok (bound org d) = outbox_keys_ok d" "outbox_keys_ok (settled g d) = outbox_keys_ok d"
  by (simp_all add: outbox_keys_ok_def)

lemma store_invariant_delivery:
  assumes "store_invariant d" "delivery_update (bound org d) d2"
  shows "store_invariant (settled (app_organization_id d) d2)"
proof -
  from assms(2) obtain rows where d2: "d2 = (bound org d)\<lparr>db_outbox := rows\<rparr>"
    by (auto simp: delivery_update_def)
  from assms(1) have "outbox_ok (bound org d)" by (simp add: store_invariant_def case_invariant_def)
  from outbox_ok_delivery [OF this assms(2)] have "outbox_ok d2" .
  moreover have "cases_ok d2 = cases_ok d" "transitions_ok d2 = transitions_ok d" "history_ok d2 = history_ok d"
    "projections_ok d2 = projections_ok d" "idempotency_ok d2 = idempotency_ok d"
    by (simp_all add: d2 cases_ok_def transitions_ok_def history_ok_def projections_ok_def idempotency_ok_def
        case_transitions_def case_fk_def)
  ultimately show ?thesis
    using assms(1) at_rest_settled by (simp add: store_invariant_def case_invariant_def)
qed

text \<open>Any transaction whose block only updates deliveries keeps it.\<close>

lemma full_invariant_delivery:
  assumes inv: "full_invariant d" and body: "\<And>x d2. body (bound org d) = Inr (x, d2) \<Longrightarrow> delivery_update (bound org d) d2"
  shows "full_invariant (snd (tenant_connection org body d))"
proof (cases rule: tenant_connection_cases [of org body d])
  case (failed e)
  with inv show ?thesis by simp
next
  case (committed x d2)
  from inv have "outbox_keys_ok (bound org d)" by (simp add: full_invariant_def)
  from outbox_keys_ok_delivery [OF this body [OF committed(1)]]
    store_invariant_delivery [OF _ body [OF committed(1)]] inv committed(3)
  show ?thesis by (simp add: full_invariant_def)
qed

lemma event_payload_obj: "\<exists>kvs. event_payload e t sha = JObj kvs"
  by (simp add: event_payload_def)

lemma created_keys:
  assumes "outbox_keys_ok d" "\<forall>q \<in> set (db_outbox d). o_id q \<noteq> oid"
    "\<forall>x \<in> set (outbox_checks (created_outbox org oid c)). fst x"
  shows "outbox_keys_ok (created oid org c ins au d)"
proof -
  have "o_id (created_outbox org oid c) = oid" "\<exists>kvs. o_payload (created_outbox org oid c) = JObj kvs"
    by (simp_all add: created_outbox_def outbox_row_of_def event_payload_def)
  with assms show ?thesis unfolding outbox_keys_ok_def created_tables by auto
qed

lemma create_full_invariant:
  assumes inv: "full_invariant d"
  shows "full_invariant (snd (tenant_connection org (create_case oid aid org c) d))"
proof -
  have si: "store_invariant (snd (tenant_connection org (create_case oid aid org c) d))"
    using inv by (simp add: full_invariant_def create_store_invariant)
  from inv have k: "outbox_keys_ok (bound org d)" by (simp add: full_invariant_def)
  have "outbox_keys_ok (snd (tenant_connection org (create_case oid aid org c) d))"
  proof (cases rule: tenant_connection_cases [of org "create_case oid aid org c" d])
    case (failed e)
    with inv show ?thesis by (simp add: full_invariant_def)
  next
    case (committed res d2)
    have "outbox_keys_ok d2"
      by (rule create_case_InrD [OF committed(1)]) (use k created_keys in simp_all)
    with committed(3) show ?thesis by simp
  qed
  with si show ?thesis by (simp add: full_invariant_def)
qed

lemma persist_full_invariant:
  assumes inv: "full_invariant d"
  shows "full_invariant (snd (tenant_connection org (persist_transition oid aid org r a) d))"
proof -
  have si: "store_invariant (snd (tenant_connection org (persist_transition oid aid org r a) d))"
    using inv by (simp add: full_invariant_def persist_store_invariant)
  from inv have k: "outbox_keys_ok (bound org d)" by (simp add: full_invariant_def)
  have "outbox_keys_ok (snd (tenant_connection org (persist_transition oid aid org r a) d))"
  proof (cases rule: tenant_connection_cases [of org "persist_transition oid aid org r a" d])
    case (failed e)
    with inv show ?thesis by (simp add: full_invariant_def)
  next
    case (committed x d2)
    from persist_transition_InrD [OF committed(1)] obtain old au where
      keys: "persist_keys oid aid org r a (bound org d)" and d2: "d2 = persisted oid org r a old au (bound org d)" by metis
    let ?q = "outbox_row_of org oid (out_event r) (outcome_payload r)"
    have "\<exists>kvs. o_payload ?q = JObj kvs" by (simp add: outbox_row_of_def outcome_payload_def event_payload_def)
    moreover have "\<forall>q \<in> set (db_outbox (bound org d)). o_id q \<noteq> oid" "\<forall>x \<in> set (outbox_checks ?q). fst x"
      using keys by (simp_all add: persist_keys_def Let_def)
    ultimately have "outbox_keys_ok d2"
      using k unfolding outbox_keys_ok_def d2 persisted_tables by auto
    with committed(3) show ?thesis by simp
  qed
  with si show ?thesis by (simp add: full_invariant_def)
qed

section \<open>Receipts\<close>

text \<open>One immutable receipt per organization, consumer and event.\<close>

definition receipts_ok :: "db \<Rightarrow> bool" where
  "receipts_ok d \<longleftrightarrow> distinct (map (\<lambda>r. (i_org r, i_consumer_name r, i_event_id r)) (db_inbox d))"

definition has_receipt :: "uuid \<Rightarrow> string \<Rightarrow> uuid \<Rightarrow> db \<Rightarrow> bool" where
  "has_receipt org consumer event_id d \<longleftrightarrow> (\<exists>r \<in> set (db_inbox d).
     i_org r = org \<and> i_consumer_name r = strip consumer \<and> i_event_id r = event_id)"

lemma record_once_InrD:
  assumes "record_once u org consumer e payload t d = Inr (new, d')"
  obtains (first) r where "new" "d' = d\<lparr>db_inbox := db_inbox d @ [r]\<rparr>" "i_org r = org" "i_id r = u"
      "i_consumer_name r = strip consumer" "i_event_id r = e" "i_payload_sha256 r = payload_sha256 payload"
      "\<not> has_receipt org consumer e d" "current_org d = Some org"
  | (replay) r where "\<not> new" "d' = d" "r \<in> set (db_inbox d)" "i_org r = org" "i_consumer_name r = strip consumer"
      "i_event_id r = e" "i_payload_sha256 r = payload_sha256 payload" "current_org d = Some org"
proof -
  let ?row = "\<lparr>i_id = u, i_org = org, i_consumer_name = strip consumer, i_event_id = e,
     i_payload_sha256 = payload_sha256 payload, i_processed_at = instant t\<rparr>"
  from assms obtain ins d1 where i: "insert_inbox_row ?row d = Inr (ins, d1)"
    and rest: "(if ins then Inr (True, d1)
        else case find_row (\<lambda>r. i_org r = org \<and> i_consumer_name r = strip consumer \<and> i_event_id r = e)
                    (visible d1 i_org (db_inbox d1)) of
          None \<Rightarrow> Inl (RuntimeError ''Consumer deduplication conflict did not retain its receipt.'')
        | Some existing \<Rightarrow>
            if i_payload_sha256 existing \<noteq> payload_sha256 payload
            then Inl (ConsumerPayloadMismatchError e consumer)
            else Inr (False, d1)) = Inr (new, d')"
    by (auto simp: record_once_def bindE_eq_Inr Let_def split: if_splits)
  show ?thesis
  proof (cases ins)
    case True
    with i have "current_org d = Some org" "\<not> has_receipt org consumer e d"
      "d1 = d\<lparr>db_inbox := db_inbox d @ [?row]\<rparr>"
      by (auto simp: insert_inbox_row_def bindE_eq_Inr has_receipt_def split: if_splits)
    with rest True first [of ?row] show ?thesis by simp
  next
    case False
    with i have d1: "d1 = d" and org: "current_org d = Some org"
      by (auto simp: insert_inbox_row_def bindE_eq_Inr split: if_splits)
    from rest False obtain r where
      f: "find_row (\<lambda>r. i_org r = org \<and> i_consumer_name r = strip consumer \<and> i_event_id r = e)
        (visible d1 i_org (db_inbox d1)) = Some r"
      and p: "i_payload_sha256 r = payload_sha256 payload" "\<not> new" "d' = d1"
      by (auto split: option.splits if_splits)
    from find_row_Some [OF f] have "r \<in> set (db_inbox d)" "i_org r = org" "i_consumer_name r = strip consumer"
      "i_event_id r = e" unfolding d1 visible_iff by blast+
    with p d1 org show ?thesis by (intro replay) blast+
  qed
qed

lemma record_once_receipt:
  assumes "record_once u org consumer e payload t d = Inr (new, d')"
  shows "has_receipt org consumer e d'"
  by (rule record_once_InrD [OF assms]) (auto simp: has_receipt_def)

lemma record_once_receipts_ok:
  assumes "receipts_ok d" "record_once u org consumer e payload t d = Inr (new, d')"
  shows "receipts_ok d'"
  by (rule record_once_InrD [OF assms(2)]) (use assms(1) in \<open>auto simp: receipts_ok_def has_receipt_def\<close>)

end
