(* ===== verification/Artifact_Ledger.thy ===== *)
theory Artifact_Ledger
  imports Artifact_Intents Outbox
begin

text \<open>
  \<open>services/api/netops_api/application/artifact_processing.py\<close>: appending one scanner verdict to the
  processing ledger, and the invariant that the table's trigger and keys keep.
\<close>

section \<open>Verdicts\<close>

datatype scan_disposition = CLEAN | REJECTED | UNAVAILABLE

fun scan_disposition_value :: "scan_disposition \<Rightarrow> string" where
  "scan_disposition_value CLEAN = ''clean''"
| "scan_disposition_value REJECTED = ''rejected''"
| "scan_disposition_value UNAVAILABLE = ''unavailable''"

text \<open>\<open>ArtifactScanDisposition(value)\<close>\<close>

definition ScanDisposition :: "string \<Rightarrow> exn + scan_disposition" where
  "ScanDisposition s =
     (case find_row (\<lambda>v. scan_disposition_value v = s) [CLEAN, REJECTED, UNAVAILABLE] of
        None \<Rightarrow> Inl (ValueError ''not a valid ArtifactScanDisposition'')
      | Some v \<Rightarrow> Inr v)"

record record_artifact_scan_outcome =
  so_artifact_id :: uuid
  so_disposition :: scan_disposition
  so_reason_code :: string
  so_processor :: string
  so_processor_version :: string
  so_occurred_at :: datetime

text \<open>\<open>_SAFE_CODE\<close> is the pattern of \<open>_DELIVERY_ERROR_CODE\<close>: \<open>[a-z0-9][a-z0-9._:-]{0,127}\<close>.\<close>

definition mk_record_artifact_scan_outcome :: "record_artifact_scan_outcome \<Rightarrow> exn + record_artifact_scan_outcome" where
  "mk_record_artifact_scan_outcome c =
     (if \<not> delivery_error_code (so_reason_code c)
      then Inl (ValueError ''reason_code must be a 1 to 128 character safe code.'')
      else if \<not> delivery_error_code (so_processor c)
      then Inl (ValueError ''processor must be a 1 to 128 character safe code.'')
      else if \<not> delivery_error_code (so_processor_version c)
      then Inl (ValueError ''processor_version must be a 1 to 128 character safe code.'')
      else if \<not> is_aware (so_occurred_at c) then Inl (ValueError ''occurred_at must be timezone-aware.'')
      else Inr c)"

record recorded_artifact_scan_outcome =
  rs_artifact_id :: uuid
  rs_attempt :: int
  rs_state :: string
  rs_occurred_at :: datetime

text \<open>\<open>ORDER BY attempt DESC, occurred_at DESC, id DESC LIMIT 1\<close>\<close>

definition active_first :: "processing_row \<Rightarrow> processing_row \<Rightarrow> bool" where
  "active_first a b \<longleftrightarrow> p_attempt b < p_attempt a \<or> p_attempt a = p_attempt b \<and> latest_first a b"

definition select_active_attempt :: "uuid \<Rightarrow> uuid \<Rightarrow> db \<Rightarrow> processing_row option" where
  "select_active_attempt org artifact_id d =
     (case sort_by active_first (filter (\<lambda>q. p_org q = org \<and> p_artifact_id q = artifact_id)
             (visible d p_org (db_processing d))) of
        [] \<Rightarrow> None | q # _ \<Rightarrow> Some q)"

definition verdict_row :: "uuid \<Rightarrow> uuid \<Rightarrow> record_artifact_scan_outcome \<Rightarrow> processing_row \<Rightarrow> processing_row" where
  "verdict_row row_id org c active =
     (let state = (if so_disposition c = CLEAN then ''verified'' else ''failed'') in
      \<lparr>p_id = row_id, p_org = org, p_artifact_id = so_artifact_id c, p_attempt = p_attempt active, p_state = state,
       p_processor = so_processor c, p_processor_version = so_processor_version c,
       p_failure_code = (if state = ''verified'' then None else Some (so_reason_code c)),
       p_result_summary = JObj [(''scanner_checks_completed'', JInt 1)],
       p_correlation_id = p_correlation_id active, p_created_by = None,
       p_occurred_at = instant (so_occurred_at c)\<rparr>)"

definition record_scan_outcome :: "uuid \<Rightarrow> uuid \<Rightarrow> record_artifact_scan_outcome \<Rightarrow> db \<Rightarrow>
    exn + recorded_artifact_scan_outcome \<times> db" where
  "record_scan_outcome row_id org c d =
     (case select_active_attempt org (so_artifact_id c) d of
        None \<Rightarrow> Inl (ArtifactProcessingStateConflictError (so_artifact_id c))
      | Some active \<Rightarrow>
          if p_state active \<noteq> ''quarantined''
          then Inl (ArtifactProcessingStateConflictError (so_artifact_id c))
          else bindE (insert_processing_row (verdict_row row_id org c active) d) (\<lambda>d'.
            Inr (\<lparr>rs_artifact_id = so_artifact_id c, rs_attempt = p_attempt active,
                  rs_state = p_state (verdict_row row_id org c active),
                  rs_occurred_at = astimezone_utc (so_occurred_at c)\<rparr>, d')))"

section \<open>What an insert guarantees\<close>

lemma insert_processing_InrD:
  assumes "insert_processing_row r d = Inr d'"
  shows "d' = d\<lparr>db_processing := db_processing d @ [r]\<rparr>" "current_org d = Some (p_org r)"
    "validate_artifact_processing_event d r = Inr ()" "\<forall>c \<in> set (processing_checks r). fst c"
    "\<forall>c \<in> set (processing_keys d r). fst c"
  using assms by (auto simp: insert_processing_row_def bindE_eq_Inr)

lemma head_of_sort_by:
  assumes "\<And>a b. le a b \<or> le b a" and "\<And>a b c. le a b \<Longrightarrow> le b c \<Longrightarrow> le a c"
    and "x \<in> set xs" and "\<And>y. y \<in> set xs \<Longrightarrow> le x y" and "\<And>y. y \<in> set xs \<Longrightarrow> le y x \<Longrightarrow> y = x"
  shows "\<exists>ys. sort_by le xs = x # ys"
proof -
  from assms(3) obtain h ys where h: "sort_by le xs = h # ys"
    by (metis empty_iff list.exhaust list.set(1) set_sort_by)
  have "h \<in> set xs" using h set_sort_by [of le xs] by auto
  moreover have "le h x"
  proof (cases "x = h")
    case True
    with assms(1) [of x x] show ?thesis by simp
  next
    case False
    have "sorted_wrt le (h # ys)" using sorted_wrt_sort_by [of le xs, OF assms(1,2)] h by simp
    moreover have "x \<in> set ys" using False assms(3) h set_sort_by [of le xs] by auto
    ultimately show ?thesis by simp
  qed
  ultimately show ?thesis using assms(5) h by blast
qed

lemma latest_first_order:
  "latest_first a b \<or> latest_first b a" "latest_first a b \<Longrightarrow> latest_first b c \<Longrightarrow> latest_first a c"
  "latest_first a b \<Longrightarrow> latest_first b a \<Longrightarrow> p_id a = p_id b"
  by (auto simp: latest_first_def)

lemma active_first_order:
  "active_first a b \<or> active_first b a" "active_first a b \<Longrightarrow> active_first b c \<Longrightarrow> active_first a c"
  "active_first a b \<Longrightarrow> active_first b a \<Longrightarrow> p_id a = p_id b"
  by (auto simp: active_first_def latest_first_def)

lemma fold_max_ge: "a \<le> fold max xs (a::int)" "x \<in> set xs \<Longrightarrow> x \<le> fold max xs a"
proof (induction xs arbitrary: a)
  case (Cons y ys)
  {
    case 1
    show ?case using Cons.IH(1) [of "max y a"] by simp
  next
    case 2
    then show ?case using Cons.IH(1) [of "max y a"] Cons.IH(2) [of "max y a"] by auto
  }
qed simp_all

lemma fold_max_in: "fold max xs (a::int) \<in> insert a (set xs)"
proof (induction xs arbitrary: a)
  case (Cons y ys)
  show ?case using Cons.IH [of "max y a"] by (auto simp: max_def split: if_splits)
qed simp

lemma highest_attempt_None [simp]: "highest_attempt rows = None \<longleftrightarrow> rows = []"
  by (auto simp: highest_attempt_def split: list.splits)

lemma highest_attempt_Nil [simp]: "highest_attempt [] = None"
  by simp

lemma highest_attempt_SomeD:
  assumes "highest_attempt rows = Some h"
  shows "\<exists>q \<in> set rows. p_attempt q = h" "q \<in> set rows \<Longrightarrow> p_attempt q \<le> h"
proof -
  from assms obtain a as where m: "map p_attempt rows = a # as" "h = fold max as a"
    by (auto simp: highest_attempt_def split: list.splits)
  have "h \<in> set (map p_attempt rows)" unfolding m using fold_max_in by auto
  then show "\<exists>q \<in> set rows. p_attempt q = h" by auto
  show "p_attempt q \<le> h" if "q \<in> set rows"
  proof -
    have "p_attempt q \<in> set (map p_attempt rows)" using that by simp
    then show ?thesis unfolding m using fold_max_ge by auto
  qed
qed

section \<open>The invariant of the ledger\<close>

definition attempt_rows :: "db \<Rightarrow> uuid \<Rightarrow> int \<Rightarrow> processing_row list" where
  "attempt_rows d a k = filter (\<lambda>q. p_artifact_id q = a \<and> p_attempt q = k) (db_processing d)"

definition attempt_states :: "db \<Rightarrow> uuid \<Rightarrow> int \<Rightarrow> string list" where
  "attempt_states d a k = map p_state (attempt_rows d a k)"

text \<open>
  Whatever timestamps the workers send: rows belong to evidence of their organization, attempts count
  from 1 without gaps, each opens with a quarantine, and no state is recorded twice in an attempt.
\<close>

definition ledger_ok :: "db \<Rightarrow> bool" where
  "ledger_ok d \<longleftrightarrow> distinct (map r_id (db_artifacts d)) \<and> distinct (map p_id (db_processing d))
     \<and> (\<forall>q \<in> set (db_processing d). \<exists>a \<in> set (db_artifacts d). r_org a = p_org q \<and> r_id a = p_artifact_id q)
     \<and> (\<forall>q \<in> set (db_processing d). 1 \<le> p_attempt q
          \<and> (\<forall>k. 1 \<le> k \<and> k \<le> p_attempt q \<longrightarrow> ''quarantined'' \<in> set (attempt_states d (p_artifact_id q) k)))
     \<and> (\<forall>a k. distinct (attempt_states d a k))"

lemma ledger_okD:
  assumes "ledger_ok d"
  shows "distinct (map r_id (db_artifacts d))" "distinct (map p_id (db_processing d))"
    "q \<in> set (db_processing d) \<Longrightarrow> \<exists>a \<in> set (db_artifacts d). r_org a = p_org q \<and> r_id a = p_artifact_id q"
    "q \<in> set (db_processing d) \<Longrightarrow> 1 \<le> p_attempt q"
    "q \<in> set (db_processing d) \<Longrightarrow> 1 \<le> k \<Longrightarrow> k \<le> p_attempt q \<Longrightarrow>
      ''quarantined'' \<in> set (attempt_states d (p_artifact_id q) k)"
    "distinct (attempt_states d a k)"
  using assms by (auto simp: ledger_ok_def)

lemma attempt_rows_append:
  "attempt_rows (d\<lparr>db_processing := db_processing d @ [r]\<rparr>) a k =
     attempt_rows d a k @ (if p_artifact_id r = a \<and> p_attempt r = k then [r] else [])"
  by (simp add: attempt_rows_def)

lemma attempt_states_append:
  "attempt_states (d\<lparr>db_processing := db_processing d @ [r]\<rparr>) a k =
     attempt_states d a k @ (if p_artifact_id r = a \<and> p_attempt r = k then [p_state r] else [])"
  by (simp add: attempt_states_def attempt_rows_append)

text \<open>Evidence belongs to one organization, so the trigger sees the whole ledger of the artifact.\<close>

lemma ledger_rows_all:
  assumes "ledger_ok d" "current_org d = Some org" "a \<in> set (db_artifacts d)" "r_org a = org" "r_id a = i"
  shows "ledger_rows d i = filter (\<lambda>q. p_artifact_id q = i) (db_processing d)"
proof -
  have "p_org q = org" if "q \<in> set (db_processing d)" "p_artifact_id q = i" for q
  proof -
    from ledger_okD(3) [OF assms(1) that(1)] obtain b where
      b: "b \<in> set (db_artifacts d)" "r_org b = p_org q" "r_id b = p_artifact_id q" by blast
    have "b = a" using distinct_map_eqD [OF ledger_okD(1) [OF assms(1)] b(1) assms(3)] b(3) that(2) assms(5) by simp
    with b(2) assms(4) show ?thesis by simp
  qed
  then show ?thesis unfolding ledger_rows_def visible_def filter_filter by (intro filter_cong) (auto simp: assms(2))
qed

lemma processing_keys_artifact:
  "\<forall>c \<in> set (processing_keys d r). fst c \<Longrightarrow> \<exists>q \<in> set (db_artifacts d). r_org q = p_org r \<and> r_id q = p_artifact_id r"
  by (simp add: processing_keys_def)

lemma processing_keys_fresh:
  assumes "\<forall>c \<in> set (processing_keys d r). fst c"
  shows "q \<in> set (db_processing d) \<Longrightarrow> p_id q \<noteq> p_id r"
    and "p_state r \<notin> set (attempt_states d (p_artifact_id r) (p_attempt r))"
  using assms by (auto simp: processing_keys_def attempt_states_def attempt_rows_def)

lemma validate_Inr_cases:
  assumes "validate_artifact_processing_event d r = Inr ()"
  obtains (open_first) "p_state r = ''quarantined''" "ledger_rows d (p_artifact_id r) = []" "p_attempt r = 1"
  | (open_next) h where "p_state r = ''quarantined''" "highest_attempt (ledger_rows d (p_artifact_id r)) = Some h"
      "p_attempt r = h + 1"
  | (advance) "p_state r \<noteq> ''quarantined''" "highest_attempt (ledger_rows d (p_artifact_id r)) = Some (p_attempt r)"
      "processing_edge (prior_state (ledger_rows d (p_artifact_id r)) (p_attempt r)) (p_state r)"
proof (cases "p_state r = ''quarantined''")
  case True
  show thesis
  proof (cases "highest_attempt (ledger_rows d (p_artifact_id r))")
    case None
    with True assms open_first show thesis by (simp add: validate_artifact_processing_event_def Let_def)
  next
    case (Some h)
    with True assms open_next show thesis by (simp add: validate_artifact_processing_event_def Let_def)
  qed
next
  case False
  with assms advance show thesis
    by (simp add: validate_artifact_processing_event_def Let_def split: if_splits)
qed

lemma insert_processing_opened:
  assumes ok: "ledger_ok d" and ins: "insert_processing_row r d = Inr d'" and k: "1 \<le> k" "k \<le> p_attempt r"
  shows "''quarantined'' \<in> set (attempt_states d' (p_artifact_id r) k)"
proof -
  note i = insert_processing_InrD [OF ins]
  let ?i = "p_artifact_id r"
  obtain a where a: "a \<in> set (db_artifacts d)" "r_org a = p_org r" "r_id a = ?i"
    using processing_keys_artifact [OF i(5)] by blast
  note rows = ledger_rows_all [OF ok i(2) a]
  have old: "''quarantined'' \<in> set (attempt_states d ?i k)" if "highest_attempt (ledger_rows d ?i) = Some h" "k \<le> h" for h
  proof -
    from highest_attempt_SomeD(1) [OF that(1)] rows obtain q where
      q: "q \<in> set (db_processing d)" "p_artifact_id q = ?i" "p_attempt q = h" by auto
    from ledger_okD(5) [OF ok q(1) k(1)] that(2) q(2,3) show ?thesis by simp
  qed
  from i(3) show ?thesis
  proof (cases rule: validate_Inr_cases)
    case open_first
    then show ?thesis using k by (simp add: i(1) attempt_states_append)
  next
    case (open_next h)
    then show ?thesis using k old [of h] by (cases "k = p_attempt r") (simp_all add: i(1) attempt_states_append)
  next
    case advance
    then show ?thesis using k old by (simp add: i(1) attempt_states_append)
  qed
qed

lemma insert_processing_ledger_ok:
  assumes ok: "ledger_ok d" and ins: "insert_processing_row r d = Inr d'"
  shows "ledger_ok d'"
proof -
  note i = insert_processing_InrD [OF ins]
  have d': "set (db_processing d') = insert r (set (db_processing d))" "db_artifacts d' = db_artifacts d"
    by (simp_all add: i(1))
  have grow: "set (attempt_states d a k) \<subseteq> set (attempt_states d' a k)" for a k
    by (auto simp: i(1) attempt_states_append)
  have attempt: "1 \<le> p_attempt r" using i(4) by (simp add: processing_checks_def)
  show ?thesis unfolding ledger_ok_def
  proof (intro conjI allI ballI impI)
    show "distinct (map r_id (db_artifacts d'))" using ledger_okD(1) [OF ok] by (simp add: d')
    have "p_id r \<notin> p_id ` set (db_processing d)" using processing_keys_fresh(1) [OF i(5)] by force
    then show "distinct (map p_id (db_processing d'))" using ledger_okD(2) [OF ok] by (simp add: i(1))
    show "distinct (attempt_states d' a k)" for a k
      using ledger_okD(6) [OF ok] processing_keys_fresh(2) [OF i(5)] by (auto simp: i(1) attempt_states_append)
    fix q assume "q \<in> set (db_processing d')"
    then have q: "q = r \<or> q \<in> set (db_processing d)" by (simp add: d')
    show "\<exists>a \<in> set (db_artifacts d'). r_org a = p_org q \<and> r_id a = p_artifact_id q"
      using q ledger_okD(3) [OF ok] processing_keys_artifact [OF i(5)] by (auto simp: d')
    show "1 \<le> p_attempt q" using q ledger_okD(4) [OF ok] attempt by auto
    show "''quarantined'' \<in> set (attempt_states d' (p_artifact_id q) k)" if "1 \<le> k \<and> k \<le> p_attempt q" for k
      using q that ledger_okD(5) [OF ok] grow insert_processing_opened [OF ok ins] by blast
  qed
qed

section \<open>The lifecycle, when timestamps do not run backwards\<close>

text \<open>The states of one attempt, oldest first.\<close>

definition lifecycle :: "string list \<Rightarrow> bool" where
  "lifecycle xs \<longleftrightarrow> xs \<in> {[], [''quarantined''], [''quarantined'', ''verified''],
     [''quarantined'', ''verified'', ''redacted''], [''quarantined'', ''verified'', ''failed''],
     [''quarantined'', ''failed'']}"

definition ledger_in_order :: "db \<Rightarrow> bool" where
  "ledger_in_order d \<longleftrightarrow> (\<forall>a k. sorted_wrt (\<lambda>p q. latest_first q p) (attempt_rows d a k) \<and> lifecycle (attempt_states d a k))"

text \<open>A row that is not older than what its attempt already holds.\<close>

definition not_backdated :: "db \<Rightarrow> processing_row \<Rightarrow> bool" where
  "not_backdated d r \<longleftrightarrow> (\<forall>q \<in> set (attempt_rows d (p_artifact_id r) (p_attempt r)). latest_first r q)"

lemma sorted_wrt_rev_conv: "sorted_wrt (\<lambda>x y. R y x) xs \<Longrightarrow> sorted_wrt R (rev xs)"
  by (simp add: sorted_wrt_rev)

lemma prior_state_last:
  assumes "distinct (map p_id rows)"
    and "sorted_wrt (\<lambda>p q. latest_first q p) (filter (\<lambda>q. p_attempt q = k) rows)"
  shows "prior_state rows k = (if filter (\<lambda>q. p_attempt q = k) rows = [] then None
    else Some (p_state (last (filter (\<lambda>q. p_attempt q = k) rows))))"
proof -
  define xs where "xs = filter (\<lambda>q. p_attempt q = k) rows"
  let ?xs = xs
  have "sort_by latest_first ?xs = rev ?xs"
  proof (rule sorted_wrt_unique)
    show "sorted_wrt latest_first (sort_by latest_first ?xs)"
      by (intro sorted_wrt_sort_by latest_first_order(1)) (rule latest_first_order(2))
    show "sorted_wrt latest_first (rev ?xs)" using assms(2) unfolding xs_def by (rule sorted_wrt_rev_conv)
    show "mset (sort_by latest_first ?xs) = mset (rev ?xs)" by simp
    fix a b
    assume ab: "a \<in> set (sort_by latest_first ?xs)" "b \<in> set (sort_by latest_first ?xs)"
      "latest_first a b" "latest_first b a"
    show "a = b"
    proof (rule distinct_map_eqD [OF assms(1)])
      show "a \<in> set rows" "b \<in> set rows" using ab(1,2) by (simp_all add: xs_def)
      show "p_id a = p_id b" using ab(3,4) by (rule latest_first_order(3))
    qed
  qed
  then have "prior_state rows k = (case rev xs of [] \<Rightarrow> None | q # _ \<Rightarrow> Some (p_state q))"
    by (simp add: prior_state_def xs_def)
  also have "\<dots> = (if xs = [] then None else Some (p_state (last xs)))" by (cases xs rule: rev_cases) simp_all
  finally show ?thesis by (simp only: xs_def)
qed

lemma lifecycle_step:
  assumes "lifecycle xs" and "s = ''quarantined'' \<and> xs = [] \<or> xs \<noteq> [] \<and> processing_edge (Some (last xs)) s"
  shows "lifecycle (xs @ [s])"
  using assms(2)
proof
  assume "xs \<noteq> [] \<and> processing_edge (Some (last xs)) s"
  with assms(1) show ?thesis unfolding lifecycle_def insert_iff empty_iff
    by (elim disjE FalseE) (simp_all add: processing_edge_def)
qed (simp add: lifecycle_def)

lemma insert_processing_lifecycle:
  assumes ok: "ledger_ok d" and ord: "ledger_in_order d" and ins: "insert_processing_row r d = Inr d'"
    and fresh: "not_backdated d r"
  shows "ledger_in_order d'"
proof -
  note i = insert_processing_InrD [OF ins]
  let ?i = "p_artifact_id r" and ?k = "p_attempt r"
  obtain a where a: "a \<in> set (db_artifacts d)" "r_org a = p_org r" "r_id a = ?i"
    using processing_keys_artifact [OF i(5)] by blast
  note rows = ledger_rows_all [OF ok i(2) a]
  have of_attempt: "filter (\<lambda>q. p_attempt q = k) (ledger_rows d ?i) = attempt_rows d ?i k" for k
    by (simp add: rows attempt_rows_def conj_commute)
  have step: "p_state r = ''quarantined'' \<and> attempt_states d ?i ?k = []
      \<or> attempt_states d ?i ?k \<noteq> [] \<and> processing_edge (Some (last (attempt_states d ?i ?k))) (p_state r)"
    using i(3)
  proof (cases rule: validate_Inr_cases)
    case open_first
    with of_attempt [of ?k] show ?thesis by (simp add: attempt_states_def)
  next
    case (open_next h)
    have "attempt_rows d ?i ?k = []"
      unfolding of_attempt [symmetric] filter_empty_conv
      using highest_attempt_SomeD(2) [OF open_next(2)] open_next(3) by force
    with open_next(1) show ?thesis by (simp add: attempt_states_def)
  next
    case advance
    have dist: "distinct (map p_id (ledger_rows d ?i))"
      using ledger_okD(2) [OF ok] by (simp add: rows distinct_map_filter)
    have sorted: "sorted_wrt (\<lambda>p q. latest_first q p) (attempt_rows d ?i ?k)"
      using ord by (simp add: ledger_in_order_def)
    have prior: "prior_state (ledger_rows d ?i) ?k =
        (if attempt_rows d ?i ?k = [] then None else Some (p_state (last (attempt_rows d ?i ?k))))"
      using prior_state_last [OF dist, of ?k] sorted by (simp only: of_attempt)
    have "attempt_rows d ?i ?k \<noteq> []"
    proof
      assume "attempt_rows d ?i ?k = []"
      with prior advance(3) show False by (simp add: processing_edge_def)
    qed
    with prior advance(3) show ?thesis by (simp add: attempt_states_def last_map)
  qed
  show ?thesis unfolding ledger_in_order_def
  proof (intro allI conjI)
    fix a k
    have "sorted_wrt (\<lambda>p q. latest_first q p) (attempt_rows d a k)" "lifecycle (attempt_states d a k)"
      using ord by (simp_all add: ledger_in_order_def)
    with fresh lifecycle_step [OF _ step]
    show "sorted_wrt (\<lambda>p q. latest_first q p) (attempt_rows d' a k)" "lifecycle (attempt_states d' a k)"
      by (auto simp: i(1) attempt_rows_append attempt_states_append sorted_wrt_append not_backdated_def)
  qed
qed

section \<open>Recording a verdict\<close>

lemma select_active_InrD:
  assumes "select_active_attempt org a d = Some q"
  shows "q \<in> set (db_processing d)" "p_artifact_id q = a" "p_org q = org" "current_org d = Some org"
proof -
  let ?xs = "filter (\<lambda>q. p_org q = org \<and> p_artifact_id q = a) (visible d p_org (db_processing d))"
  from assms obtain ys where "sort_by active_first ?xs = q # ys"
    by (auto simp: select_active_attempt_def split: list.splits)
  then have "q \<in> set (sort_by active_first ?xs)" by simp
  then show "q \<in> set (db_processing d)" "p_artifact_id q = a" "p_org q = org" "current_org d = Some org" by auto
qed

lemma record_scan_InrD:
  assumes "record_scan_outcome u org c d = Inr (res, d')"
  obtains active where "select_active_attempt org (so_artifact_id c) d = Some active"
    "p_state active = ''quarantined''" "insert_processing_row (verdict_row u org c active) d = Inr d'"
    "res = \<lparr>rs_artifact_id = so_artifact_id c, rs_attempt = p_attempt active,
      rs_state = p_state (verdict_row u org c active), rs_occurred_at = astimezone_utc (so_occurred_at c)\<rparr>"
  using assms by (auto simp: record_scan_outcome_def bindE_eq_Inr split: option.splits if_splits)

lemma verdict_row_simps [simp]:
  "p_id (verdict_row u org c q) = u" "p_org (verdict_row u org c q) = org"
  "p_artifact_id (verdict_row u org c q) = so_artifact_id c" "p_attempt (verdict_row u org c q) = p_attempt q"
  "p_state (verdict_row u org c q) = (if so_disposition c = CLEAN then ''verified'' else ''failed'')"
  "p_occurred_at (verdict_row u org c q) = instant (so_occurred_at c)"
  "p_correlation_id (verdict_row u org c q) = p_correlation_id q"
  "p_failure_code (verdict_row u org c q) = (if so_disposition c = CLEAN then None else Some (so_reason_code c))"
  by (simp_all add: verdict_row_def Let_def)

text \<open>After a verdict that is not backdated, the verdict is the active row of its artifact.\<close>

lemma verdict_becomes_active:
  assumes ok: "ledger_ok d" and rec: "record_scan_outcome u org c d = Inr (res, d')"
    and later: "\<forall>q \<in> set (db_processing d). p_artifact_id q = so_artifact_id c \<longrightarrow> p_occurred_at q < instant (so_occurred_at c)"
  shows "\<exists>q. select_active_attempt org (so_artifact_id c) d' = Some q
    \<and> p_state q = (if so_disposition c = CLEAN then ''verified'' else ''failed'')"
proof -
  from rec obtain active where act: "select_active_attempt org (so_artifact_id c) d = Some active"
    and ins: "insert_processing_row (verdict_row u org c active) d = Inr d'" by (rule record_scan_InrD)
  let ?r = "verdict_row u org c active"
  note i = insert_processing_InrD [OF ins]
  note a = select_active_InrD [OF act]
  obtain b where b: "b \<in> set (db_artifacts d)" "r_org b = p_org ?r" "r_id b = p_artifact_id ?r"
    using processing_keys_artifact [OF i(5)] by blast
  have rows: "ledger_rows d (so_artifact_id c) = filter (\<lambda>q. p_artifact_id q = so_artifact_id c) (db_processing d)"
    using ledger_rows_all [OF ok i(2) b] by simp
  have "highest_attempt (ledger_rows d (so_artifact_id c)) = Some (p_attempt active)"
    using i(3) by (cases rule: validate_Inr_cases) (simp_all split: if_splits)
  from highest_attempt_SomeD(2) [OF this] rows have top:
    "p_attempt q \<le> p_attempt active" if "q \<in> set (db_processing d)" "p_artifact_id q = so_artifact_id c" for q
    using that by simp
  let ?xs = "filter (\<lambda>q. p_org q = org \<and> p_artifact_id q = so_artifact_id c) (visible d' p_org (db_processing d'))"
  have co: "current_org d' = Some org" using i(2) by (simp add: i(1) current_org_def)
  have mem: "?r \<in> set ?xs" using co by (simp add: i(1))
  have first: "active_first ?r y" if y: "y \<in> set ?xs" for y
  proof (cases "y = ?r")
    case False
    with y have "y \<in> set (db_processing d)" "p_artifact_id y = so_artifact_id c" by (auto simp: i(1))
    with top [of y] later show ?thesis by (auto simp: active_first_def latest_first_def)
  qed (simp add: active_first_def latest_first_def)
  have "distinct (map p_id (db_processing d'))"
    by (rule ledger_okD(2) [OF insert_processing_ledger_ok [OF ok ins]])
  then have uniq: "y = ?r" if "y \<in> set ?xs" "active_first y ?r" for y
  proof (rule distinct_map_eqD)
    show "y \<in> set (db_processing d')" using that(1) by simp
    show "?r \<in> set (db_processing d')" by (simp add: i(1))
    show "p_id y = p_id ?r" using active_first_order(3) [OF that(2) first [OF that(1)]] .
  qed
  have "\<exists>ys. sort_by active_first ?xs = ?r # ys"
  proof (rule head_of_sort_by)
    show "active_first a b \<or> active_first b a" for a b by (rule active_first_order(1))
    show "active_first a c" if "active_first a b" "active_first b c" for a b c
      using that by (rule active_first_order(2))
    show "?r \<in> set ?xs" by (rule mem)
    show "active_first ?r y" if "y \<in> set ?xs" for y by (rule first [OF that])
    show "y = ?r" if "y \<in> set ?xs" "active_first y ?r" for y by (rule uniq [OF that])
  qed
  then obtain ys where "sort_by active_first ?xs = ?r # ys" ..
  then have "select_active_attempt org (so_artifact_id c) d' = Some ?r" by (simp add: select_active_attempt_def)
  then show ?thesis by simp
qed

end
