(* ===== verification/Publisher.thy ===== *)
theory Publisher
  imports Outbox
begin

text \<open>
  \<open>services/worker/netops_worker/outbox_publisher.py\<close> and \<open>outbox_transport.py\<close>: the publisher loop
  over its repository and transport ports, the durable receipt transport, and both on the database.
  An operation that opens its own transactions is an action on a world \<open>'s\<close>; the clock reading that
  the code takes after opening a connection is taken just before it.
\<close>

section \<open>The publisher\<close>

record publisher_settings =
  ps_worker_id :: string
  ps_batch_size :: int
  ps_lease_for :: int
  ps_retry_after :: int
  ps_poll_interval :: int

definition mk_publisher_settings :: "publisher_settings \<Rightarrow> exn + publisher_settings" where
  "mk_publisher_settings p =
     (if blank (ps_worker_id p) \<or> length (ps_worker_id p) > 200
      then Inl (ValueError ''worker_id must contain 1 to 200 non-blank characters.'')
      else if \<not> (1 \<le> ps_batch_size p \<and> ps_batch_size p \<le> 100)
      then Inl (ValueError ''batch_size must be between 1 and 100.'')
      else if ps_lease_for p \<le> 0 then Inl (ValueError ''lease_for must be positive.'')
      else if ps_retry_after p \<le> 0 then Inl (ValueError ''retry_after must be positive.'')
      else if ps_poll_interval p \<le> 0 then Inl (ValueError ''poll_interval must be positive.'')
      else Inr p)"

text \<open>\<open>RetryablePublishError(error_code)\<close>: a bad code raises \<open>ValueError\<close> instead.\<close>

definition mk_retryable_publish_error :: "string \<Rightarrow> exn" where
  "mk_retryable_publish_error code =
     (if \<not> delivery_error_code code
      then ValueError ''error_code must be a 1 to 128 character safe delivery code.''
      else RetryablePublishError code)"

record publish_cycle_result =
  cycle_leased :: nat
  cycle_published :: nat
  cycle_retries_scheduled :: nat
  cycle_settlements_lost :: nat

definition publisher_now :: "('s, exn, datetime) action \<Rightarrow> ('s, exn, datetime) action" where
  "publisher_now clock = bindS clock (\<lambda>t.
     if is_utc t then returnS t
     else raiseS (ValueError ''clock must return a timezone-aware UTC datetime.''))"

text \<open>\<open>try: ... except OutboxLeaseLostError: return False\<close>, else \<open>True\<close>.\<close>

definition unless_lease_lost :: "('s, exn, unit) action \<Rightarrow> ('s, exn, bool) action" where
  "unless_lease_lost m s = (case m s of
     (Inl (OutboxLeaseLostError _), s') \<Rightarrow> (Inr False, s')
   | (Inl e, s') \<Rightarrow> (Inl e, s')
   | (Inr _, s') \<Rightarrow> (Inr True, s'))"

definition publisher_mark_published ::
  "('s, exn, datetime) action \<Rightarrow> (outbox_lease \<Rightarrow> datetime \<Rightarrow> ('s, exn, unit) action) \<Rightarrow>
   outbox_lease \<Rightarrow> ('s, exn, bool) action" where
  "publisher_mark_published clock mark l = unless_lease_lost (bindS (publisher_now clock) (mark l))"

definition plus_us :: "datetime \<Rightarrow> int \<Rightarrow> datetime" where
  "plus_us t n = t\<lparr>wall_us := wall_us t + n\<rparr>"

definition publisher_schedule_retry ::
  "('s, exn, datetime) action \<Rightarrow> (outbox_lease \<Rightarrow> datetime \<Rightarrow> string \<Rightarrow> ('s, exn, unit) action) \<Rightarrow>
   publisher_settings \<Rightarrow> outbox_lease \<Rightarrow> string \<Rightarrow> ('s, exn, bool) action" where
  "publisher_schedule_retry clock retry p l code = unless_lease_lost
     (bindS (publisher_now clock) (\<lambda>t. retry l (plus_us t (ps_retry_after p)) code))"

fun retry_code :: "exn \<Rightarrow> string" where
  "retry_code (RetryablePublishError code) = code"
| "retry_code _ = ''transport.failed''"

datatype settlement = Published | SettlementLost | RetryScheduled | RetryLost

text \<open>The body of the loop over the leased events.\<close>

definition publish_event ::
  "('s, exn, datetime) action \<Rightarrow> (outbox_lease \<Rightarrow> datetime \<Rightarrow> ('s, exn, unit) action) \<Rightarrow>
   (outbox_lease \<Rightarrow> datetime \<Rightarrow> string \<Rightarrow> ('s, exn, unit) action) \<Rightarrow>
   (leased_event \<Rightarrow> ('s, exn, unit) action) \<Rightarrow> publisher_settings \<Rightarrow>
   leased_event \<Rightarrow> ('s, exn, settlement) action" where
  "publish_event clock mark retry publish p e s = (case publish e s of
     (Inl x, s1) \<Rightarrow>
       bindS (liftS (lease_of e)) (\<lambda>l.
       bindS (publisher_schedule_retry clock retry p l (retry_code x)) (\<lambda>ok.
       returnS (if ok then RetryScheduled else RetryLost))) s1
   | (Inr _, s1) \<Rightarrow>
       bindS (liftS (lease_of e)) (\<lambda>l.
       bindS (publisher_mark_published clock mark l) (\<lambda>ok.
       returnS (if ok then Published else SettlementLost))) s1)"

fun publish_events ::
  "(leased_event \<Rightarrow> ('s, exn, settlement) action) \<Rightarrow> leased_event list \<Rightarrow> ('s, exn, settlement list) action" where
  "publish_events step [] = returnS []"
| "publish_events step (e # es) =
     bindS (step e) (\<lambda>r. bindS (publish_events step es) (\<lambda>rs. returnS (r # rs)))"

definition publish_once ::
  "('s, exn, datetime) action \<Rightarrow> (string \<Rightarrow> datetime \<Rightarrow> int \<Rightarrow> int \<Rightarrow> ('s, exn, leased_event list) action) \<Rightarrow>
   (outbox_lease \<Rightarrow> datetime \<Rightarrow> ('s, exn, unit) action) \<Rightarrow>
   (outbox_lease \<Rightarrow> datetime \<Rightarrow> string \<Rightarrow> ('s, exn, unit) action) \<Rightarrow>
   (leased_event \<Rightarrow> ('s, exn, unit) action) \<Rightarrow> publisher_settings \<Rightarrow>
   ('s, exn, publish_cycle_result) action" where
  "publish_once clock lease mark retry publish p =
     bindS (publisher_now clock) (\<lambda>leased_at.
     bindS (lease (ps_worker_id p) leased_at (ps_batch_size p) (ps_lease_for p)) (\<lambda>events.
     bindS (publish_events (publish_event clock mark retry publish p) events) (\<lambda>rs.
     returnS \<lparr>cycle_leased = length events, cycle_published = length (filter ((=) Published) rs),
              cycle_retries_scheduled = length (filter ((=) RetryScheduled) rs),
              cycle_settlements_lost = length (filter ((=) SettlementLost) rs)\<rparr>)))"

text \<open>
  \<open>run_until_stopped\<close>: the list holds what \<open>stop_event.is_set()\<close> answers at each test of the loop.
\<close>

fun run_until_stopped :: "('s, exn, publish_cycle_result) action \<Rightarrow> bool list \<Rightarrow> ('s, exn, unit) action" where
  "run_until_stopped sweep [] = returnS ()"
| "run_until_stopped sweep (stopped # tests) =
     (if stopped then returnS () else bindS sweep (\<lambda>_. run_until_stopped sweep tests))"

section \<open>The durable receipt transport\<close>

definition mk_receipt_consumer :: "string \<Rightarrow> exn + string" where
  "mk_receipt_consumer name =
     (if blank name \<or> length name > 255
      then Inl (ValueError ''consumer_name must contain 1 to 255 non-blank characters.'')
      else Inr (strip name))"

definition receipt_publish ::
  "('s, exn, datetime) action \<Rightarrow> (string \<Rightarrow> uuid \<Rightarrow> json \<Rightarrow> datetime \<Rightarrow> ('s, exn, bool) action) \<Rightarrow>
   uuid \<Rightarrow> string \<Rightarrow> leased_event \<Rightarrow> ('s, exn, unit) action" where
  "receipt_publish clock record org consumer e =
     (if le_organization_id e \<noteq> org
      then raiseS (ValueError ''Outbox event organization does not match this publisher scope.'')
      else bindS clock (\<lambda>t.
        if \<not> is_utc t
        then raiseS (ValueError ''clock must return a timezone-aware UTC datetime.'')
        else bindS (record consumer (le_case_event_id e) (le_payload e) t) (\<lambda>_. returnS ())))"

section \<open>The contract of the ports\<close>

text \<open>
  \<open>known s e\<close>: the store holds the row the leased event came from. \<open>accepted\<close> is the transport's
  durable acceptance of a business event, \<open>published\<close> the store's acknowledgement of it. The
  environment may do anything between two actions that these laws allow an action to do.
\<close>

locale delivery_ports =
  fixes clock :: "('s, exn, datetime) action"
    and lease :: "string \<Rightarrow> datetime \<Rightarrow> int \<Rightarrow> int \<Rightarrow> ('s, exn, leased_event list) action"
    and mark :: "outbox_lease \<Rightarrow> datetime \<Rightarrow> ('s, exn, unit) action"
    and retry :: "outbox_lease \<Rightarrow> datetime \<Rightarrow> string \<Rightarrow> ('s, exn, unit) action"
    and publish :: "leased_event \<Rightarrow> ('s, exn, unit) action"
    and inv :: "'s \<Rightarrow> bool"
    and known :: "leased_event \<Rightarrow> 's \<Rightarrow> bool"
    and accepted :: "uuid \<Rightarrow> 's \<Rightarrow> bool"
    and published :: "uuid \<Rightarrow> 's \<Rightarrow> bool"
  assumes inv: "keeps inv clock" "keeps inv (lease w t n k)" "keeps inv (mark l t)"
      "keeps inv (retry l t c)" "keeps inv (publish e)"
    and known: "keeps (\<lambda>s. inv s \<and> known x s) clock" "keeps (\<lambda>s. inv s \<and> known x s) (mark l t)"
      "keeps (\<lambda>s. inv s \<and> known x s) (retry l t c)" "keeps (\<lambda>s. inv s \<and> known x s) (publish e)"
    and accepted: "keeps (\<lambda>s. inv s \<and> accepted i s) clock" "keeps (\<lambda>s. inv s \<and> accepted i s) (lease w t n k)"
      "keeps (\<lambda>s. inv s \<and> accepted i s) (mark l t)" "keeps (\<lambda>s. inv s \<and> accepted i s) (retry l t c)"
      "keeps (\<lambda>s. inv s \<and> accepted i s) (publish e)"
    and unpublished: "keeps (\<lambda>s. inv s \<and> \<not> published i s) clock"
      "keeps (\<lambda>s. inv s \<and> \<not> published i s) (lease w t n k)"
      "keeps (\<lambda>s. inv s \<and> \<not> published i s) (retry l t c)" "keeps (\<lambda>s. inv s \<and> \<not> published i s) (publish e)"
    and lease_known: "inv s \<Longrightarrow> lease w t n k s = (Inr es, s') \<Longrightarrow> e \<in> set es \<Longrightarrow> known e s'"
    and publish_accepts: "inv s \<Longrightarrow> publish e s = (Inr u, s') \<Longrightarrow> accepted (le_case_event_id e) s'"
    and mark_only: "inv s \<Longrightarrow> known e s \<Longrightarrow> lease_of e = Inr l \<Longrightarrow> mark l t s = (r, s') \<Longrightarrow>
      published i s' \<Longrightarrow> published i s \<or> i = le_case_event_id e"
begin

text \<open>Nothing is acknowledged that the transport has not durably accepted.\<close>

definition safe :: "'s \<Rightarrow> bool" where
  "safe s \<longleftrightarrow> inv s \<and> (\<forall>i. published i s \<longrightarrow> accepted i s)"

definition ready :: "leased_event list \<Rightarrow> 's \<Rightarrow> bool" where
  "ready es s \<longleftrightarrow> safe s \<and> (\<forall>e \<in> set es. known e s)"

lemma keeps_safeI:
  assumes "keeps inv m" "\<And>i. keeps (\<lambda>s. inv s \<and> accepted i s) m" "\<And>i. keeps (\<lambda>s. inv s \<and> \<not> published i s) m"
  shows "keeps safe m"
  unfolding keeps_def
proof (intro allI impI)
  fix s assume s: "safe s"
  have "published i (snd (m s)) \<Longrightarrow> accepted i (snd (m s))" for i
    using s assms(2) [of i] assms(3) [of i] by (auto simp: keeps_def safe_def)
  with s assms(1) show "safe (snd (m s))" by (auto simp: keeps_def safe_def)
qed

lemma keeps_readyI:
  assumes "keeps safe m" "\<And>x. keeps (\<lambda>s. inv s \<and> known x s) m"
  shows "keeps (ready es) m"
  using assms by (auto simp: keeps_def ready_def safe_def)

lemma ports_keep_ready [simp]:
  "keeps (ready es) clock" "keeps (ready es) (retry l t c)" "keeps (ready es) (publish e)"
  by (intro keeps_readyI keeps_safeI inv known accepted unpublished)+

lemma lease_ready: "safe s \<Longrightarrow> lease w t n k s = (Inr es, s') \<Longrightarrow> ready es s'"
proof -
  assume s: "safe s" and l: "lease w t n k s = (Inr es, s')"
  have "inv s" using s by (simp add: safe_def)
  from lease_known [OF this l] have "\<forall>e \<in> set es. known e s'" by blast
  moreover have "safe s'" using keepsD [OF keeps_safeI [OF inv(2) accepted(2) unpublished(2)] s l] .
  ultimately show ?thesis by (simp add: ready_def)
qed

lemma keeps_now [simp]: "keeps (ready es) (publisher_now clock)"
  by (auto simp: publisher_now_def intro!: keeps_bindS)

lemma keeps_unless_lease_lost: "keeps p m \<Longrightarrow> keeps p (unless_lease_lost m)"
  by (auto simp: keeps_def unless_lease_lost_def split: prod.splits sum.splits exn.splits)

text \<open>The acknowledgement is the one action that publishes; it follows the acceptance it needs.\<close>

lemma mark_ready:
  assumes r: "ready es s" and e: "e \<in> set es" and l: "lease_of e = Inr l"
    and acc: "accepted (le_case_event_id e) s" and m: "mark l t s = (x, s')"
  shows "ready es s'"
proof -
  from r e have inv': "inv s" "known e s" by (simp_all add: ready_def safe_def)
  have "accepted i s'" if "published i s'" for i
  proof -
    from mark_only [OF inv' l m that] r acc have "accepted i s" by (auto simp: ready_def safe_def)
    with inv'(1) have "inv s \<and> accepted i s" by blast
    from keepsD [OF accepted(3) [of i l t] this m] show ?thesis by blast
  qed
  moreover from keepsD [OF inv(3) [of l t] inv'(1) m] have "inv s'" .
  moreover have "known y s'" if "y \<in> set es" for y
  proof -
    have "inv s \<and> known y s" using r that by (simp add: ready_def safe_def)
    from keepsD [OF known(2) [of y l t] this m] show ?thesis by blast
  qed
  ultimately show ?thesis by (simp add: ready_def safe_def)
qed

lemma publisher_mark_ready:
  assumes r: "ready es s" and e: "e \<in> set es" and l: "lease_of e = Inr l" and acc: "accepted (le_case_event_id e) s"
    and m: "publisher_mark_published clock mark l s = (x, s')"
  shows "ready es s'"
proof -
  have "ready es s'" if b: "bindS (publisher_now clock) (mark l) s = (y, s')" for y
  proof (cases "publisher_now clock s")
    case (Pair z s1)
    have r1: "ready es s1" using keepsD [OF keeps_now r] Pair by blast
    have inv1: "inv s" using r by (simp add: ready_def safe_def)
    have k: "keeps (\<lambda>s. inv s \<and> accepted (le_case_event_id e) s) (publisher_now clock)"
      unfolding publisher_now_def by (intro keeps_bindS accepted) auto
    have "inv s \<and> accepted (le_case_event_id e) s" using inv1 acc by blast
    from keepsD [OF k this Pair] have "accepted (le_case_event_id e) s1" by blast
    with b Pair r1 mark_ready [OF r1 e l] show ?thesis
      by (cases z) (auto simp: bindS_def)
  qed
  with m show ?thesis
    by (auto simp: publisher_mark_published_def unless_lease_lost_def split: prod.splits sum.splits exn.splits)
qed

lemma publish_event_ready:
  assumes r: "ready es s" and e: "e \<in> set es" and p: "publish_event clock mark retry publish q e s = (x, s')"
  shows "ready es s'"
proof (cases "publish e s")
  case (Pair y s1)
  have r1: "ready es s1" using keepsD [OF ports_keep_ready(3) r Pair] .
  show ?thesis
  proof (cases y)
    case (Inl err)
    have "keeps (ready es) (bindS (liftS (lease_of e)) (\<lambda>l.
       bindS (publisher_schedule_retry clock retry q l (retry_code err)) (\<lambda>ok.
       returnS (if ok then RetryScheduled else RetryLost))))"
      unfolding publisher_schedule_retry_def
      by (intro keeps_bindS keeps_unless_lease_lost keeps_liftS keeps_now ports_keep_ready keeps_returnS)
    from keepsD [OF this r1] p Pair Inl show ?thesis by (auto simp: publish_event_def)
  next
    case (Inr u)
    from r have "inv s" by (simp add: ready_def safe_def)
    with publish_accepts Pair Inr have acc: "accepted (le_case_event_id e) s1" by blast
    show ?thesis
    proof (cases "lease_of e")
      case (Inl err)
      with p Pair Inr r1 show ?thesis by (simp add: publish_event_def bindS_def liftS_def)
    next
      case l: (Inr l)
      obtain z s2 where z: "publisher_mark_published clock mark l s1 = (z, s2)" by fastforce
      from publisher_mark_ready [OF r1 e l acc z] p Pair Inr l z show ?thesis
        by (cases z) (auto simp: publish_event_def bindS_def liftS_def returnS_def)
    qed
  qed
qed

lemma publish_events_ready:
  assumes "ready es s" "set fs \<subseteq> set es" "publish_events (publish_event clock mark retry publish q) fs s = (x, s')"
  shows "ready es s'"
  using assms
proof (induction fs arbitrary: s x s')
  case Nil
  then show ?case by (simp add: returnS_def)
next
  case (Cons f fs)
  obtain y s1 where y: "publish_event clock mark retry publish q f s = (y, s1)" by fastforce
  obtain z s2 where z: "publish_events (publish_event clock mark retry publish q) fs s1 = (z, s2)" by fastforce
  from publish_event_ready [OF Cons.prems(1) _ y] Cons.prems(2) have r1: "ready es s1" by simp
  from Cons.IH [OF r1 _ z] Cons.prems(2) have "ready es s2" by simp
  with r1 Cons.prems(3) y z show ?case
    by (cases y; cases z) (auto simp: bindS_def returnS_def)
qed

lemma publish_once_safe: "keeps safe (publish_once clock lease mark retry publish q)"
  unfolding keeps_def
proof (intro allI impI)
  fix s assume s: "safe s"
  have r0: "ready [] s" using s by (simp add: ready_def)
  obtain t s1 where t: "publisher_now clock s = (t, s1)" by fastforce
  from keepsD [OF keeps_now r0 t] have s1: "safe s1" by (simp add: ready_def)
  show "safe (snd (publish_once clock lease mark retry publish q s))"
  proof (cases t)
    case (Inl e)
    with t s1 show ?thesis by (simp add: publish_once_def bindS_def)
  next
    case (Inr now)
    obtain es s2 where es: "lease (ps_worker_id q) now (ps_batch_size q) (ps_lease_for q) s1 = (es, s2)" by fastforce
    have s2: "safe s2" using keepsD [OF keeps_safeI [OF inv(2) accepted(2) unpublished(2)] s1 es] .
    show ?thesis
    proof (cases es)
      case (Inl e)
      with t Inr es s2 show ?thesis by (simp add: publish_once_def bindS_def)
    next
      case e: (Inr events)
      obtain rs s3 where rs: "publish_events (publish_event clock mark retry publish q) events s2 = (rs, s3)" by fastforce
      from publish_events_ready [OF lease_ready [OF s1 es [unfolded e]] subset_refl rs]
      have "safe s3" by (simp add: ready_def)
      with t Inr es e rs show ?thesis
        by (cases rs) (simp_all add: publish_once_def bindS_def returnS_def)
    qed
  qed
qed

lemma run_until_stopped_safe:
  "keeps safe (run_until_stopped (publish_once clock lease mark retry publish q) tests)"
  by (induction tests) (auto intro!: keeps_bindS publish_once_safe)

end

section \<open>The ports on the database\<close>

text \<open>
  The world of one publisher process: the database, and the clock readings, drawn UUIDs and locked
  rows it will meet, indexed by a counter that every reading or transaction advances.
\<close>

record world =
  w_db :: db
  w_tick :: nat
  w_clock :: "nat \<Rightarrow> datetime"
  w_uuid :: "nat \<Rightarrow> uuid"
  w_locked :: "nat \<Rightarrow> uuid \<Rightarrow> bool"

definition world_clock :: "(world, exn, datetime) action" where
  "world_clock w = (Inr (w_clock w (w_tick w)), w\<lparr>w_tick := Suc (w_tick w)\<rparr>)"

definition in_tenant :: "uuid \<Rightarrow> (uuid \<Rightarrow> (uuid \<Rightarrow> bool) \<Rightarrow> db \<Rightarrow> exn + 'a \<times> db) \<Rightarrow> (world, exn, 'a) action" where
  "in_tenant org body w =
     (let (r, d') = tenant_connection org (body (w_uuid w (w_tick w)) (w_locked w (w_tick w))) (w_db w)
      in (r, w\<lparr>w_db := d', w_tick := Suc (w_tick w)\<rparr>))"

definition world_lease :: "uuid \<Rightarrow> string \<Rightarrow> datetime \<Rightarrow> int \<Rightarrow> int \<Rightarrow> (world, exn, leased_event list) action" where
  "world_lease org worker now limit k =
     in_tenant org (\<lambda>u skip. lease_available u skip org worker now limit k)"

definition world_mark :: "uuid \<Rightarrow> outbox_lease \<Rightarrow> datetime \<Rightarrow> (world, exn, unit) action" where
  "world_mark org l t = in_tenant org (\<lambda>u skip. mark_published org l t)"

definition world_retry :: "uuid \<Rightarrow> outbox_lease \<Rightarrow> datetime \<Rightarrow> string \<Rightarrow> (world, exn, unit) action" where
  "world_retry org l t code = in_tenant org (\<lambda>u skip. schedule_retry org l t code)"

definition world_record :: "uuid \<Rightarrow> string \<Rightarrow> uuid \<Rightarrow> json \<Rightarrow> datetime \<Rightarrow> (world, exn, bool) action" where
  "world_record org consumer e payload t =
     in_tenant org (\<lambda>u skip. record_once u org consumer e payload t)"

definition world_publish :: "uuid \<Rightarrow> string \<Rightarrow> leased_event \<Rightarrow> (world, exn, unit) action" where
  "world_publish org consumer = receipt_publish world_clock (world_record org) org consumer"

definition world_inv :: "world \<Rightarrow> bool" where
  "world_inv w \<longleftrightarrow> outbox_keys_ok (w_db w) \<and> receipts_ok (w_db w)"

definition event_known :: "uuid \<Rightarrow> leased_event \<Rightarrow> db \<Rightarrow> bool" where
  "event_known org e d \<longleftrightarrow> (\<exists>r \<in> set (db_outbox d).
     o_id r = le_outbox_id e \<and> o_org r = org \<and> o_case_event_id r = le_case_event_id e)"

definition event_published :: "uuid \<Rightarrow> uuid \<Rightarrow> db \<Rightarrow> bool" where
  "event_published org i d \<longleftrightarrow> (\<exists>r \<in> set (db_outbox d).
     o_org r = org \<and> o_case_event_id r = i \<and> o_published_at r \<noteq> None)"

subsection \<open>What one transaction can do to the observed facts\<close>

definition same_facts :: "db \<Rightarrow> db \<Rightarrow> bool" where
  "same_facts d d' \<longleftrightarrow> list_all2 (\<lambda>a b. o_id b = o_id a \<and> o_org b = o_org a
       \<and> o_case_event_id b = o_case_event_id a) (db_outbox d) (db_outbox d')
     \<and> set (db_inbox d) \<subseteq> set (db_inbox d')"

definition same_published :: "db \<Rightarrow> db \<Rightarrow> bool" where
  "same_published d d' \<longleftrightarrow> list_all2 (\<lambda>a b. o_org b = o_org a \<and> o_case_event_id b = o_case_event_id a
     \<and> o_published_at b = o_published_at a) (db_outbox d) (db_outbox d')"

lemma list_all2_mem2: "list_all2 p xs ys \<Longrightarrow> y \<in> set ys \<Longrightarrow> \<exists>x \<in> set xs. p x y"
  by (induction rule: list_all2_induct) auto

lemma list_all2_mem1: "list_all2 p xs ys \<Longrightarrow> x \<in> set xs \<Longrightarrow> \<exists>y \<in> set ys. p x y"
  by (induction rule: list_all2_induct) auto

lemma same_facts_refl [simp]: "same_facts d d"
  by (simp add: same_facts_def list.rel_refl)

lemma same_published_refl [simp]: "same_published d d"
  by (simp add: same_published_def list.rel_refl)

lemma event_known_stable: "same_facts d d' \<Longrightarrow> event_known org e d \<Longrightarrow> event_known org e d'"
  unfolding same_facts_def event_known_def by (metis (mono_tags, lifting) list_all2_mem1)

lemma has_receipt_stable: "same_facts d d' \<Longrightarrow> has_receipt org c i d \<Longrightarrow> has_receipt org c i d'"
  unfolding same_facts_def has_receipt_def by blast

lemma event_published_stable: "same_published d d' \<Longrightarrow> event_published org i d' \<Longrightarrow> event_published org i d"
  unfolding same_published_def event_published_def by (metis (mono_tags, lifting) list_all2_mem2)

lemma delivery_same_facts: "delivery_update (bound org d) d2 \<Longrightarrow> same_facts d (settled g d2)"
  unfolding delivery_update_def same_facts_def
  by (auto elim!: list_all2_mono simp: same_business_def)

lemma update_same_published:
  assumes "update_outbox p f d = Inr (rows, d')" "\<And>r. o_published_at (f r) = o_published_at r"
    "\<And>r. o_org (f r) = o_org r" "\<And>r. o_case_event_id (f r) = o_case_event_id r"
  shows "same_published d d'"
  using assms(2-4) unfolding update_outbox_Inr(1) [OF assms(1)] same_published_def
  by (simp add: list_all2_conv_all_nth)

lemma retry_row_event [simp]: "o_case_event_id (retry_row t c r) = o_case_event_id r"
  by (simp add: retry_row_def)

lemma schedule_retry_same_published: "schedule_retry org l t c d = Inr (x, d') \<Longrightarrow> same_published d d'"
  by (auto simp: schedule_retry_def bindE_eq_Inr intro: update_same_published split: if_splits)

lemma lease_same_published: "lease_available u skip org w now n k d = Inr (es, d') \<Longrightarrow> same_published d d'"
  by (auto simp: lease_available_def bindE_eq_Inr Let_def intro: update_same_published split: if_splits)

lemma record_same: "record_once u org c e p t d = Inr (x, d') \<Longrightarrow>
    db_outbox d' = db_outbox d \<and> set (db_inbox d) \<subseteq> set (db_inbox d')"
  by (erule record_once_InrD) auto

text \<open>A transaction that keeps a relation between its two databases keeps it for the world.\<close>

lemma in_tenant_rel:
  assumes "in_tenant org body w = (r, w')"
    and "\<And>x d2. body (w_uuid w (w_tick w)) (w_locked w (w_tick w)) (bound org (w_db w)) = Inr (x, d2) \<Longrightarrow>
      R (w_db w) (settled (app_organization_id (w_db w)) d2)"
    and "R (w_db w) (w_db w)"
  shows "R (w_db w) (w_db w')"
proof (cases rule: tenant_connection_cases [of org "body (w_uuid w (w_tick w)) (w_locked w (w_tick w))" "w_db w"])
  case (failed e)
  with assms show ?thesis by (auto simp: in_tenant_def)
next
  case (committed x d2)
  with assms show ?thesis by (auto simp: in_tenant_def)
qed

definition step_ok :: "db \<Rightarrow> db \<Rightarrow> bool" where
  "step_ok d d' \<longleftrightarrow> same_facts d d' \<and> (outbox_keys_ok d \<and> receipts_ok d \<longrightarrow> outbox_keys_ok d' \<and> receipts_ok d')"

lemma step_ok_refl [simp]: "step_ok d d"
  by (simp add: step_ok_def)

lemma step_ok_delivery:
  assumes "delivery_update (bound org d) d2"
  shows "step_ok d (settled g d2)"
proof -
  have "outbox_keys_ok d2" if "outbox_keys_ok d"
    using outbox_keys_ok_delivery [OF _ assms] that by simp
  moreover have "db_inbox d2 = db_inbox d" using assms by (auto simp: delivery_update_def)
  ultimately show ?thesis using delivery_same_facts [OF assms] by (simp add: step_ok_def receipts_ok_def)
qed

lemma step_ok_record:
  assumes "record_once u org c e p t (bound org d) = Inr (x, d2)"
  shows "step_ok d (settled g d2)"
proof -
  note r = record_same [OF assms]
  have "receipts_ok d2" if "receipts_ok d"
    using record_once_receipts_ok [OF _ assms] that by (simp add: receipts_ok_def)
  then show ?thesis
    using r by (simp add: step_ok_def same_facts_def outbox_keys_ok_def receipts_ok_def list.rel_refl)
qed

definition world_rel :: "(db \<Rightarrow> db \<Rightarrow> bool) \<Rightarrow> (world, exn, 'a) action \<Rightarrow> bool" where
  "world_rel R m \<longleftrightarrow> (\<forall>w. R (w_db w) (w_db (snd (m w))))"

lemma world_rel_clock: "(\<And>d. R d d) \<Longrightarrow> world_rel R world_clock"
  by (simp add: world_rel_def world_clock_def)

lemma world_rel_in_tenant:
  assumes "\<And>d. R d d" and "\<And>u skip d x d2. body u skip (bound org d) = Inr (x, d2) \<Longrightarrow>
    R d (settled (app_organization_id d) d2)"
  shows "world_rel R (in_tenant org body)"
  unfolding world_rel_def
proof
  fix w
  obtain r w' where "in_tenant org body w = (r, w')" by fastforce
  from in_tenant_rel [OF this] assms show "R (w_db w) (w_db (snd (in_tenant org body w)))"
    using \<open>in_tenant org body w = (r, w')\<close> by (metis snd_conv)
qed

lemma world_rel_bindS:
  assumes "world_rel R m" "\<And>x. world_rel R (f x)" "\<And>a b c. R a b \<Longrightarrow> R b c \<Longrightarrow> R a c"
  shows "world_rel R (bindS m f)"
  unfolding world_rel_def
proof
  fix w
  obtain r w1 where m: "m w = (r, w1)" by fastforce
  from assms(1) m have 1: "R (w_db w) (w_db w1)" unfolding world_rel_def by (metis snd_conv)
  show "R (w_db w) (w_db (snd (bindS m f w)))"
  proof (cases r)
    case (Inl e)
    with m 1 show ?thesis by (simp add: bindS_def)
  next
    case (Inr x)
    from assms(2) have "R (w_db w1) (w_db (snd (f x w1)))" unfolding world_rel_def by blast
    with assms(3) [OF 1] m Inr show ?thesis by (simp add: bindS_def)
  qed
qed

lemma world_rel_return: "(\<And>d. R d d) \<Longrightarrow> world_rel R (returnS x)" "(\<And>d. R d d) \<Longrightarrow> world_rel R (raiseS e)"
  by (simp_all add: world_rel_def returnS_def raiseS_def)

lemma world_rel_if: "world_rel R a \<Longrightarrow> world_rel R b \<Longrightarrow> world_rel R (if c then a else b)"
  by simp

lemma list_all2_transp:
  "list_all2 P as bs \<Longrightarrow> list_all2 P bs cs \<Longrightarrow> (\<And>a b c. P a b \<Longrightarrow> P b c \<Longrightarrow> P a c) \<Longrightarrow> list_all2 P as cs"
  by (rule list_all2_trans)

lemma same_facts_trans: "same_facts a b \<Longrightarrow> same_facts b c \<Longrightarrow> same_facts a c"
  unfolding same_facts_def by (elim conjE, intro conjI, erule (1) list_all2_transp) auto

lemma step_ok_trans: "step_ok a b \<Longrightarrow> step_ok b c \<Longrightarrow> step_ok a c"
  unfolding step_ok_def by (blast intro: same_facts_trans)

lemma same_published_trans: "same_published a b \<Longrightarrow> same_published b c \<Longrightarrow> same_published a c"
  unfolding same_published_def by (erule (1) list_all2_transp) auto

lemma world_step_ok:
  "world_rel step_ok world_clock" "world_rel step_ok (world_lease org wk t n k)"
  "world_rel step_ok (world_mark org l t)" "world_rel step_ok (world_retry org l t c)"
  "world_rel step_ok (world_record org cn i p t)" "world_rel step_ok (world_publish org cn e)"
proof -
  show c: "world_rel step_ok world_clock" by (simp add: world_rel_clock)
  show "world_rel step_ok (world_lease org wk t n k)" unfolding world_lease_def
    by (rule world_rel_in_tenant) (auto intro: step_ok_delivery delivery_update_lease)
  show "world_rel step_ok (world_mark org l t)" unfolding world_mark_def
    by (rule world_rel_in_tenant) (auto intro: step_ok_delivery delivery_update_mark)
  show "world_rel step_ok (world_retry org l t c)" unfolding world_retry_def
    by (rule world_rel_in_tenant) (auto intro: step_ok_delivery delivery_update_retry)
  show r: "world_rel step_ok (world_record org cn i p t)" for cn i p t unfolding world_record_def
    by (rule world_rel_in_tenant) (auto intro: step_ok_record)
  show "world_rel step_ok (world_publish org cn e)"
    unfolding world_publish_def receipt_publish_def
    by (intro world_rel_if world_rel_bindS c r world_rel_return step_ok_refl) (erule (1) step_ok_trans)+
qed

lemma world_same_published:
  "world_rel same_published world_clock" "world_rel same_published (world_lease org wk t n k)"
  "world_rel same_published (world_retry org l t c)" "world_rel same_published (world_publish org cn e)"
proof -
  show c: "world_rel same_published world_clock" by (simp add: world_rel_clock)
  have st: "same_published d (settled g d2)" if "same_published (bound org d) d2" for d d2 g
    using that by (simp add: same_published_def)
  show "world_rel same_published (world_lease org wk t n k)" unfolding world_lease_def
    by (rule world_rel_in_tenant) (auto intro: st lease_same_published)
  show "world_rel same_published (world_retry org l t c)" unfolding world_retry_def
    by (rule world_rel_in_tenant) (auto intro: st schedule_retry_same_published)
  have r: "world_rel same_published (world_record org cn i p t)" for cn i p t unfolding world_record_def
    by (rule world_rel_in_tenant) (auto simp: same_published_def list.rel_refl dest!: record_same)
  show "world_rel same_published (world_publish org cn e)"
    unfolding world_publish_def receipt_publish_def
    by (intro world_rel_if world_rel_bindS c r world_rel_return same_published_refl)
      (erule (1) same_published_trans)+
qed

lemma world_relD: "world_rel R m \<Longrightarrow> R (w_db w) (w_db (snd (m w)))"
  by (simp add: world_rel_def)

lemma keeps_world:
  assumes "world_rel step_ok m"
  shows "keeps world_inv m" "keeps (\<lambda>w. world_inv w \<and> event_known org e (w_db w)) m"
    "keeps (\<lambda>w. world_inv w \<and> has_receipt org c i (w_db w)) m"
  using world_relD [OF assms]
  by (auto simp: keeps_def world_inv_def step_ok_def intro: event_known_stable has_receipt_stable)

lemma keeps_unpublished:
  assumes "world_rel step_ok m" "world_rel same_published m"
  shows "keeps (\<lambda>w. world_inv w \<and> \<not> event_published org i (w_db w)) m"
  using world_relD [OF assms(1)] world_relD [OF assms(2)]
  by (auto simp: keeps_def world_inv_def step_ok_def dest: event_published_stable)

lemma in_tenant_Inr:
  assumes "in_tenant org body w = (Inr x, w')"
  obtains d2 where "body (w_uuid w (w_tick w)) (w_locked w (w_tick w)) (bound org (w_db w)) = Inr (x, d2)"
    "w_db w' = settled (app_organization_id (w_db w)) d2"
proof (cases rule: tenant_connection_cases [of org "body (w_uuid w (w_tick w)) (w_locked w (w_tick w))" "w_db w"])
  case (failed e)
  with assms show ?thesis by (auto simp: in_tenant_def)
next
  case (committed y d2)
  with assms show ?thesis by (intro that [of d2]) (auto simp: in_tenant_def)
qed

lemma world_lease_known:
  assumes "world_lease org wk t n k w = (Inr es, w')" "e \<in> set es"
  shows "event_known org e (w_db w')"
proof -
  from in_tenant_Inr [OF assms(1) [unfolded world_lease_def]] obtain d2 where
    l: "lease_available (w_uuid w (w_tick w)) (w_locked w (w_tick w)) org wk t n k (bound org (w_db w)) = Inr (es, d2)"
    and w': "w_db w' = settled (app_organization_id (w_db w)) d2" by blast
  from leased_events_hold [OF l assms(2)] obtain r where
    r: "o_id r = le_outbox_id e" "o_org r = org" "le_case_event_id e = o_case_event_id r"
      "lease_row (instant t) (lease_token_of wk (w_uuid w (w_tick w))) r \<in> set (db_outbox d2)" by metis
  then show ?thesis unfolding event_known_def w' settled_simps
    by (intro bexI [OF _ r(4)]) simp
qed

lemma world_publish_accepts:
  assumes "world_publish org consumer e w = (Inr u, w')"
  shows "has_receipt org consumer (le_case_event_id e) (w_db w')"
proof -
  from assms obtain t x w1 where
    "world_record org consumer (le_case_event_id e) (le_payload e) t w1 = (Inr x, w')"
    by (auto simp: world_publish_def receipt_publish_def bindS_Inr raiseS_def returnS_def split: if_splits)
  from in_tenant_Inr [OF this [unfolded world_record_def]] obtain d2 where
    r: "record_once (w_uuid w1 (w_tick w1)) org consumer (le_case_event_id e) (le_payload e) t (bound org (w_db w1)) = Inr (x, d2)"
    and w': "w_db w' = settled (app_organization_id (w_db w1)) d2" by blast
  from record_once_receipt [OF r] show ?thesis by (simp add: has_receipt_def w')
qed

lemma mark_published_only:
  assumes m: "mark_published org l t d = Inr (x, d')" and i: "event_published org i d'"
    and ids: "distinct (map o_id (db_outbox d))"
    and r: "r \<in> set (db_outbox d)" "o_id r = lease_outbox_id l"
  shows "event_published org i d \<or> i = o_case_event_id r"
proof -
  from m obtain rows where up: "update_outbox (holds_lease org l) (publish_row (instant t)) d = Inr (rows, d')"
    by (auto simp: mark_published_def bindE_eq_Inr split: if_splits)
  from i obtain q' where q': "q' \<in> set (db_outbox d')" "o_org q' = org" "o_case_event_id q' = i"
    "o_published_at q' \<noteq> None" by (auto simp: event_published_def)
  from q'(1) obtain q where q: "q \<in> set (db_outbox d)"
    and eq: "q' = (if current_org d = Some (o_org q) \<and> holds_lease org l q then publish_row (instant t) q else q)"
    unfolding update_outbox_Inr(1) [OF up] by auto
  show ?thesis
  proof (cases "holds_lease org l q")
    case True
    then have "o_id q = o_id r" by (simp add: holds_lease_def r(2))
    with distinct_map_eqD [OF ids q r(1)] have "q = r" by simp
    with q'(3) eq show ?thesis by (auto split: if_splits)
  next
    case False
    with eq have "q' = q" by simp
    with q q'(2-4) show ?thesis by (auto simp: event_published_def)
  qed
qed

lemma world_mark_only:
  assumes inv: "world_inv w" and k: "event_known org e (w_db w)" and l: "lease_of e = Inr l"
    and m: "world_mark org l t w = (x, w')" and i: "event_published org i (w_db w')"
  shows "event_published org i (w_db w) \<or> i = le_case_event_id e"
proof -
  from k obtain r where r: "r \<in> set (db_outbox (w_db w))" "o_id r = le_outbox_id e"
    "o_case_event_id r = le_case_event_id e" by (auto simp: event_known_def)
  have lid: "lease_outbox_id l = le_outbox_id e"
    using l by (auto simp: lease_of_def mk_outbox_lease_def split: if_splits)
  let ?R = "\<lambda>d d'. event_published org i d' \<longrightarrow> event_published org i d \<or> d = w_db w \<and> i = le_case_event_id e"
  have "?R (w_db w) (w_db w')"
  proof (rule in_tenant_rel [OF m [unfolded world_mark_def]])
    fix y d2 assume b: "mark_published org l t (bound org (w_db w)) = Inr (y, d2)"
    have "event_published org i (bound org (w_db w)) \<or> i = o_case_event_id r" if "event_published org i d2"
      by (rule mark_published_only [OF b that]) (use inv r lid in \<open>simp_all add: world_inv_def outbox_keys_ok_def\<close>)
    then show "?R (w_db w) (settled (app_organization_id (w_db w)) d2)"
      using r(3) by (auto simp: event_published_def)
  qed simp
  with i show ?thesis by blast
qed

interpretation receipt_delivery: delivery_ports world_clock "world_lease org" "world_mark org"
  "world_retry org" "world_publish org consumer" world_inv "\<lambda>e w. event_known org e (w_db w)"
  "\<lambda>i w. has_receipt org consumer i (w_db w)" "\<lambda>i w. event_published org i (w_db w)"
  for org :: uuid and consumer :: string
  by unfold_locales
    (blast intro: keeps_world keeps_unpublished world_step_ok world_same_published world_lease_known
      world_publish_accepts dest: world_mark_only)+

end
