(* ===== verification/Worker_Artifacts.thy ===== *)
theory Worker_Artifacts
  imports Artifact_Ledger Publisher
begin

text \<open>
  \<open>services/worker/netops_worker/artifact_processing.py\<close> (from a completion event to an opaque job, and
  the scanner-then-redactor orchestration) and \<open>artifact_processing_persistence.py\<close> (recording the
  verdict). Scanner, redactor, clock and ledger are ports: actions on the world.
\<close>

section \<open>Jobs\<close>

datatype artifact_kind = NETWORK_CONFIGURATION | INCIDENT_AUDIO

fun artifact_kind_value :: "artifact_kind \<Rightarrow> string" where
  "artifact_kind_value NETWORK_CONFIGURATION = ''network-configuration''"
| "artifact_kind_value INCIDENT_AUDIO = ''incident-audio''"

datatype artifact_classification = RAW | REDACTED | DERIVED

fun artifact_classification_value :: "artifact_classification \<Rightarrow> string" where
  "artifact_classification_value RAW = ''raw''"
| "artifact_classification_value REDACTED = ''redacted''"
| "artifact_classification_value DERIVED = ''derived''"

definition ArtifactKind :: "string \<Rightarrow> exn + artifact_kind" where
  "ArtifactKind s = (case find_row (\<lambda>v. artifact_kind_value v = s) [NETWORK_CONFIGURATION, INCIDENT_AUDIO] of
     None \<Rightarrow> Inl (ValueError ''not a valid ArtifactKind'') | Some v \<Rightarrow> Inr v)"

definition ArtifactClassification :: "string \<Rightarrow> exn + artifact_classification" where
  "ArtifactClassification s =
     (case find_row (\<lambda>v. artifact_classification_value v = s) [RAW, REDACTED, DERIVED] of
        None \<Rightarrow> Inl (ValueError ''not a valid ArtifactClassification'') | Some v \<Rightarrow> Inr v)"

definition validate_job_sha256 :: "string \<Rightarrow> exn + unit" where
  "validate_job_sha256 s = raise_unless (is_sha256 s) (ValueError ''sha256_hex must be a lowercase SHA-256 digest.'')"

record artifact_completion_event =
  ace_organization_id :: uuid
  ace_case_id :: uuid
  ace_artifact_id :: uuid
  ace_artifact_kind :: artifact_kind
  ace_classification :: artifact_classification
  ace_sha256_hex :: string

definition mk_artifact_completion_event :: "artifact_completion_event \<Rightarrow> exn + artifact_completion_event" where
  "mk_artifact_completion_event e = bindE (validate_job_sha256 (ace_sha256_hex e)) (\<lambda>_. Inr e)"

record artifact_processing_job =
  job_organization_id :: uuid
  job_case_id :: uuid
  job_artifact_id :: uuid
  job_artifact_kind :: artifact_kind
  job_classification :: artifact_classification
  job_sha256_hex :: string

definition from_completion_event :: "artifact_completion_event \<Rightarrow> exn + artifact_processing_job" where
  "from_completion_event e =
     bindE (validate_job_sha256 (ace_sha256_hex e)) (\<lambda>_. Inr
       \<lparr>job_organization_id = ace_organization_id e, job_case_id = ace_case_id e,
        job_artifact_id = ace_artifact_id e, job_artifact_kind = ace_artifact_kind e,
        job_classification = ace_classification e, job_sha256_hex = ace_sha256_hex e\<rparr>)"

definition string_payload :: "(string \<times> json) list \<Rightarrow> string \<Rightarrow> exn + string" where
  "string_payload payload key = (case map_of payload key of
     Some (JStr s) \<Rightarrow> Inr s
   | _ \<Rightarrow> Inl (ValueError (''artifact completion payload field '' @ key @ '' must be a string.'')))"

text \<open>\<open>UUID(text)\<close>\<close>

definition UUID :: "string \<Rightarrow> exn + uuid" where
  "UUID s = (case uuid_parse s of
     None \<Rightarrow> Inl (ValueError ''badly formed hexadecimal UUID string'') | Some u \<Rightarrow> Inr u)"

definition completion_of_payload :: "leased_event \<Rightarrow> (string \<times> json) list \<Rightarrow> exn + artifact_completion_event" where
  "completion_of_payload e payload =
     bindE (bindE (string_payload payload ''case_id'') UUID) (\<lambda>case_id.
     if case_id \<noteq> le_case_id e
     then Inl (ValueError ''artifact.completed.v1 case_id does not match its envelope.'')
     else
       bindE (bindE (string_payload payload ''artifact_id'') UUID) (\<lambda>artifact_id.
       bindE (bindE (string_payload payload ''artifact_kind'') ArtifactKind) (\<lambda>kind.
       bindE (bindE (string_payload payload ''classification'') ArtifactClassification) (\<lambda>classification.
       bindE (string_payload payload ''sha256'') (\<lambda>sha256_hex.
       mk_artifact_completion_event
         \<lparr>ace_organization_id = le_organization_id e, ace_case_id = case_id, ace_artifact_id = artifact_id,
          ace_artifact_kind = kind, ace_classification = classification, ace_sha256_hex = sha256_hex\<rparr>)))))"

text \<open>A payload that is no object has no keys to compare (\<open>set(payload)\<close> on a leased event's dict).\<close>

definition artifact_job_from_outbox_event :: "leased_event \<Rightarrow> exn + artifact_processing_job option" where
  "artifact_job_from_outbox_event e =
     (if le_event_type e \<noteq> ''artifact.completed.v1'' then Inr None
      else case le_payload e of
        JObj payload \<Rightarrow>
          if set (map fst payload) \<noteq> {''artifact_id'', ''artifact_kind'', ''case_id'', ''classification'', ''sha256''}
          then Inl (ValueError ''artifact.completed.v1 payload does not match its safe schema.'')
          else bindE (mapE (\<lambda>x. ValueError ''artifact.completed.v1 payload is invalid.'') (completion_of_payload e payload))
            (\<lambda>c. bindE (from_completion_event c) (\<lambda>j. Inr (Some j)))
      | _ \<Rightarrow> Inl (ValueError ''artifact.completed.v1 payload does not match its safe schema.''))"

section \<open>Verdicts of the worker\<close>

datatype worker_disposition = ScanClean | ScanRejected | ScanUnavailable

fun worker_disposition_value :: "worker_disposition \<Rightarrow> string" where
  "worker_disposition_value ScanClean = ''clean''"
| "worker_disposition_value ScanRejected = ''rejected''"
| "worker_disposition_value ScanUnavailable = ''unavailable''"

definition worker_safe_code :: "string \<Rightarrow> bool" where
  "worker_safe_code s \<longleftrightarrow> 1 \<le> length s \<and> length s \<le> 128 \<and> strip s = s
     \<and> list_all (\<lambda>c. c \<in> set ''abcdefghijklmnopqrstuvwxyz0123456789._:-'') s"

definition validate_safe_code :: "string \<Rightarrow> exn + unit" where
  "validate_safe_code s = raise_unless (worker_safe_code s) (ValueError ''value must be a 1 to 128 character safe code.'')"

record scan_result =
  sr_disposition :: worker_disposition
  sr_reason_code :: string

definition mk_scan_result :: "scan_result \<Rightarrow> exn + scan_result" where
  "mk_scan_result r = bindE (validate_safe_code (sr_reason_code r)) (\<lambda>_. Inr r)"

record redaction_result =
  rr_derivative_sha256_hex :: string
  rr_redaction_version :: string

definition mk_redaction_result :: "redaction_result \<Rightarrow> exn + redaction_result" where
  "mk_redaction_result r =
     bindE (validate_job_sha256 (rr_derivative_sha256_hex r)) (\<lambda>_.
     bindE (validate_safe_code (rr_redaction_version r)) (\<lambda>_. Inr r))"

record artifact_processing_result =
  apr_artifact_id :: uuid
  apr_scan :: scan_result
  apr_redaction :: "redaction_result option"

definition process :: "(artifact_processing_job \<Rightarrow> ('s, exn, scan_result) action) \<Rightarrow>
    (artifact_processing_job \<Rightarrow> ('s, exn, redaction_result) action) \<Rightarrow>
    artifact_processing_job \<Rightarrow> ('s, exn, artifact_processing_result) action" where
  "process scan redact job =
     bindS (scan job) (\<lambda>verdict.
     if sr_disposition verdict \<noteq> ScanClean
     then returnS \<lparr>apr_artifact_id = job_artifact_id job, apr_scan = verdict, apr_redaction = None\<rparr>
     else bindS (redact job) (\<lambda>redaction. returnS
       \<lparr>apr_artifact_id = job_artifact_id job, apr_scan = verdict, apr_redaction = Some redaction\<rparr>))"

text \<open>The no-I/O fakes: a fixed result, and the jobs they were given.\<close>

record fake_processor =
  fp_scan_result :: scan_result
  fp_scan_jobs :: "artifact_processing_job list"
  fp_redaction_result :: redaction_result
  fp_redaction_jobs :: "artifact_processing_job list"

definition fake_scan :: "artifact_processing_job \<Rightarrow> (fake_processor, exn, scan_result) action" where
  "fake_scan job s = (Inr (fp_scan_result s), s\<lparr>fp_scan_jobs := fp_scan_jobs s @ [job]\<rparr>)"

definition fake_redact :: "artifact_processing_job \<Rightarrow> (fake_processor, exn, redaction_result) action" where
  "fake_redact job s = (Inr (fp_redaction_result s), s\<lparr>fp_redaction_jobs := fp_redaction_jobs s @ [job]\<rparr>)"

section \<open>Persistence\<close>

definition scan_outcome_command :: "string \<Rightarrow> string \<Rightarrow> artifact_processing_job \<Rightarrow> artifact_processing_result \<Rightarrow> datetime \<Rightarrow>
    exn + record_artifact_scan_outcome" where
  "scan_outcome_command processor version job result occurred_at =
     bindE (ScanDisposition (worker_disposition_value (sr_disposition (apr_scan result)))) (\<lambda>disposition.
     mk_record_artifact_scan_outcome
       \<lparr>so_artifact_id = job_artifact_id job, so_disposition = disposition,
        so_reason_code = sr_reason_code (apr_scan result), so_processor = processor,
        so_processor_version = version, so_occurred_at = occurred_at\<rparr>)"

definition persist_verdict ::
  "('s, exn, datetime) action \<Rightarrow> (uuid \<Rightarrow> record_artifact_scan_outcome \<Rightarrow> ('s, exn, recorded_artifact_scan_outcome) action) \<Rightarrow>
   string \<Rightarrow> string \<Rightarrow> artifact_processing_job \<Rightarrow> artifact_processing_result \<Rightarrow>
   ('s, exn, recorded_artifact_scan_outcome) action" where
  "persist_verdict clock ledger processor version job result =
     (if apr_artifact_id result \<noteq> job_artifact_id job
      then raiseS (ValueError ''Processing result artifact does not match its job.'')
      else bindS clock (\<lambda>occurred_at.
        if \<not> is_utc occurred_at
        then raiseS (ValueError ''clock must return a timezone-aware UTC datetime.'')
        else bindS (liftS (scan_outcome_command processor version job result occurred_at))
          (ledger (job_organization_id job))))"

text \<open>The ledger on the database: \<open>record_scan_outcome\<close> in a tenant transaction.\<close>

definition world_ledger :: "uuid \<Rightarrow> record_artifact_scan_outcome \<Rightarrow> (world, exn, recorded_artifact_scan_outcome) action" where
  "world_ledger org c = in_tenant org (\<lambda>u skip. record_scan_outcome u org c)"

text \<open>What the persistence adapter relies on, and what it then guarantees.\<close>

locale verdict_ledger =
  fixes inv :: "'s \<Rightarrow> bool" and clock :: "('s, exn, datetime) action"
    and ledger :: "uuid \<Rightarrow> record_artifact_scan_outcome \<Rightarrow> ('s, exn, recorded_artifact_scan_outcome) action"
  assumes clock_keeps: "keeps inv clock" and ledger_keeps: "keeps inv (ledger org c)"
    and ledger_artifact: "ledger org c s = (Inr r, s') \<Longrightarrow> rs_artifact_id r = so_artifact_id c"
    and ledger_state: "ledger org c s = (Inr r, s') \<Longrightarrow>
      rs_state r = (if so_disposition c = CLEAN then ''verified'' else ''failed'')"
begin

lemma persist_keeps: "keeps inv (persist_verdict clock ledger processor version job result)"
  unfolding persist_verdict_def
  by (simp add: keeps_bindS clock_keeps ledger_keeps)

lemma persist_InrD:
  assumes "persist_verdict clock ledger processor version job result s = (Inr r, s')"
  shows "rs_artifact_id r = job_artifact_id job" "apr_artifact_id result = job_artifact_id job"
    "rs_state r = (if sr_disposition (apr_scan result) = ScanClean then ''verified'' else ''failed'')"
proof -
  from assms show same: "apr_artifact_id result = job_artifact_id job"
    by (auto simp: persist_verdict_def raiseS_def split: if_splits)
  from assms same obtain t s1 c where c: "scan_outcome_command processor version job result t = Inr c"
    and l: "ledger (job_organization_id job) c s1 = (Inr r, s')"
    by (auto simp: persist_verdict_def bindS_Inr liftS_def raiseS_def split: if_splits)
  from c have f: "so_artifact_id c = job_artifact_id job"
    "so_disposition c = CLEAN \<longleftrightarrow> sr_disposition (apr_scan result) = ScanClean"
    by (cases "sr_disposition (apr_scan result)";
        auto simp: scan_outcome_command_def mk_record_artifact_scan_outcome_def ScanDisposition_def split: if_splits)+
  from ledger_artifact [OF l] f(1) show "rs_artifact_id r = job_artifact_id job" by simp
  from ledger_state [OF l] f(2)
  show "rs_state r = (if sr_disposition (apr_scan result) = ScanClean then ''verified'' else ''failed'')" by simp
qed

end

lemma artifact_tables_simps [simp]:
  "db_artifacts (bound org d) = db_artifacts d" "db_processing (bound org d) = db_processing d"
  "db_intents (bound org d) = db_intents d" "db_artifacts (settled g d) = db_artifacts d"
  "db_processing (settled g d) = db_processing d" "db_intents (settled g d) = db_intents d"
  by (simp_all add: bound_def settled_def)

lemma ledger_tables_simps [simp]:
  "ledger_ok (bound org d) = ledger_ok d" "ledger_ok (settled g d) = ledger_ok d"
  by (simp_all add: ledger_ok_def attempt_states_def attempt_rows_def)

lemma world_ledger_InrD:
  assumes "world_ledger org c w = (Inr r, w')"
  shows "\<exists>d d'. record_scan_outcome (w_uuid w (w_tick w)) org c d = Inr (r, d')"
  using assms
proof (cases rule: tenant_connection_cases [of org "record_scan_outcome (w_uuid w (w_tick w)) org c" "w_db w"])
  case (failed e)
  with assms show ?thesis by (simp add: world_ledger_def in_tenant_def)
next
  case (committed x d2)
  with assms show ?thesis by (auto simp: world_ledger_def in_tenant_def)
qed

lemma world_ledger_keeps: "keeps (\<lambda>w. ledger_ok (w_db w)) (world_ledger org c)"
  unfolding keeps_def
proof (intro allI impI)
  fix w :: world assume ok: "ledger_ok (w_db w)"
  show "ledger_ok (w_db (snd (world_ledger org c w)))"
  proof (cases rule: tenant_connection_cases [of org "record_scan_outcome (w_uuid w (w_tick w)) org c" "w_db w"])
    case (failed e)
    with ok show ?thesis by (simp add: world_ledger_def in_tenant_def)
  next
    case (committed x d2)
    obtain active where "insert_processing_row (verdict_row (w_uuid w (w_tick w)) org c active) (bound org (w_db w)) = Inr d2"
      using committed(1) by (cases x) (auto elim!: record_scan_InrD)
    from insert_processing_ledger_ok [OF _ this] ok have "ledger_ok d2" by simp
    with committed(3) show ?thesis by (simp add: world_ledger_def in_tenant_def)
  qed
qed

interpretation ledger: verdict_ledger "\<lambda>w::world. ledger_ok (w_db w)" world_clock world_ledger
proof unfold_locales
  show "keeps (\<lambda>w::world. ledger_ok (w_db w)) world_clock" by (simp add: keeps_def world_clock_def)
  show "keeps (\<lambda>w::world. ledger_ok (w_db w)) (world_ledger org c)" for org c by (rule world_ledger_keeps)
  fix org c r and w w' :: world
  assume "world_ledger org c w = (Inr r, w')"
  then obtain d d' where "record_scan_outcome (w_uuid w (w_tick w)) org c d = Inr (r, d')"
    using world_ledger_InrD by blast
  then show "rs_artifact_id r = so_artifact_id c" "rs_state r = (if so_disposition c = CLEAN then ''verified'' else ''failed'')"
    by (auto elim!: record_scan_InrD)
qed

end
