(* ===== verification/Case_Listing.thy ===== *)
theory Case_Listing
  imports Case_Progress
begin

text \<open>
  The paged case listing and the timeline of \<open>TenantCaseRepository\<close>: pages follow a strict order
  that the cursor cuts exactly, so walking the cursors enumerates the selection once, and neither
  reads anything outside the bound organization.
\<close>

definition all_selected :: "uuid \<Rightarrow> uuid list \<Rightarrow> case_list_cursor option \<Rightarrow> string option \<Rightarrow>
    string option \<Rightarrow> string option \<Rightarrow> db \<Rightarrow> case_row list" where
  "all_selected org asset_ids cursor query state severity d = sort_by newest_first
     (filter (list_selects org asset_ids cursor query state severity) (visible d c_org (db_cases d)))"

lemma newest_first_total: "newest_first a b \<or> newest_first b a"
  by (auto simp: newest_first_def)

lemma newest_first_trans: "newest_first a b \<Longrightarrow> newest_first b c \<Longrightarrow> newest_first a c"
  by (auto simp: newest_first_def)

lemma newest_first_antisym: "newest_first a b \<Longrightarrow> newest_first b a \<Longrightarrow> c_id a = c_id b"
  by (auto simp: newest_first_def)

definition cursor_of :: "case_row \<Rightarrow> case_list_cursor" where
  "cursor_of r = \<lparr>cur_updated_at = db_datetime (c_updated_at r), cur_case_id = c_id r\<rparr>"

lemma instant_db_datetime [simp]: "instant (db_datetime t) = t"
  by (simp add: instant_def db_datetime_def utcoffset_def)

definition strictly_newer :: "case_row \<Rightarrow> case_row \<Rightarrow> bool" where
  "strictly_newer a b \<longleftrightarrow> c_updated_at b < c_updated_at a \<or> c_updated_at a = c_updated_at b \<and> c_id b < c_id a"

definition within_cursor :: "case_list_cursor option \<Rightarrow> case_row \<Rightarrow> bool" where
  "within_cursor cur r = (case cur of None \<Rightarrow> True | Some k \<Rightarrow>
     c_updated_at r < instant (cur_updated_at k)
     \<or> c_updated_at r = instant (cur_updated_at k) \<and> c_id r < cur_case_id k)"

lemma list_selects_cursor_split:
  "list_selects org as cur q st sv r \<longleftrightarrow> list_selects org as None q st sv r \<and> within_cursor cur r"
  by (cases cur) (simp_all add: list_selects_def within_cursor_def conj_assoc)

lemma within_cursor_of: "within_cursor (Some (cursor_of b)) r \<longleftrightarrow> strictly_newer b r"
  by (auto simp: within_cursor_def cursor_of_def strictly_newer_def)

lemma within_cursor_trans: "within_cursor cur b \<Longrightarrow> strictly_newer b r \<Longrightarrow> within_cursor cur r"
  by (cases cur) (auto simp: within_cursor_def strictly_newer_def)

text \<open>Filtering a strictly sorted list by ``after its n-th element'' drops the first n.\<close>

lemma filter_after_nth:
  assumes "sorted_wrt r xs" "n < length xs" and "\<And>x. x \<in> set xs \<Longrightarrow> \<not> r x x"
    and "\<And>x y. r x y \<Longrightarrow> \<not> r y x"
  shows "filter (r (xs ! n)) xs = drop (Suc n) xs"
proof -
  have xs: "xs = take n xs @ xs ! n # drop (Suc n) xs" using assms(2) by (rule id_take_nth_drop)
  have s: "sorted_wrt r (take n xs @ xs ! n # drop (Suc n) xs)" using assms(1) xs by simp
  have "filter (r (xs ! n)) (take n xs) = []"
    using s assms(4) by (auto simp: sorted_wrt_append filter_empty_conv)
  moreover have "filter (r (xs ! n)) (drop (Suc n) xs) = drop (Suc n) xs"
    using s by (intro filter_True) (auto simp: sorted_wrt_append)
  moreover have "\<not> r (xs ! n) (xs ! n)" using assms(2,3) by simp
  ultimately have "filter (r (xs ! n)) (take n xs @ xs ! n # drop (Suc n) xs) = drop (Suc n) xs" by simp
  with xs show ?thesis by simp
qed

lemma sorted_wrt_distinct_key:
  "sorted_wrt le xs \<Longrightarrow> distinct (map f xs) \<Longrightarrow> sorted_wrt (\<lambda>a b. le a b \<and> f a \<noteq> f b) xs"
  by (induction xs) auto

lemma distinct_key_sort_by: "distinct (map f (sort_by le xs)) = distinct (map f xs)"
  by (rule mset_eq_imp_distinct_iff) simp

lemma all_selected_strict:
  assumes "distinct (map c_id (db_cases d))"
  shows "sorted_wrt strictly_newer (all_selected org as cur q st sv d)"
proof -
  let ?rows = "filter (list_selects org as cur q st sv) (visible d c_org (db_cases d))"
  have "distinct (map c_id (sort_by newest_first ?rows))"
    using assms by (simp add: distinct_key_sort_by distinct_map_filter)
  moreover have "sorted_wrt newest_first (sort_by newest_first ?rows)"
    by (intro sorted_wrt_sort_by newest_first_total) (rule newest_first_trans)
  ultimately have "sorted_wrt (\<lambda>a b. newest_first a b \<and> c_id a \<noteq> c_id b) (sort_by newest_first ?rows)"
    by (intro sorted_wrt_distinct_key)
  then show ?thesis
    unfolding all_selected_def by (rule sorted_wrt_mono_rel [rotated]) (auto simp: newest_first_def strictly_newer_def)
qed

lemma all_selected_next:
  assumes "distinct (map c_id (db_cases d))" and "n < length (all_selected org as cur q st sv d)"
  shows "all_selected org as (Some (cursor_of (all_selected org as cur q st sv d ! n))) q st sv d =
    drop (Suc n) (all_selected org as cur q st sv d)"
proof -
  let ?all = "all_selected org as cur q st sv d" and ?vis = "visible d c_org (db_cases d)"
  let ?b = "?all ! n" and ?sel = "list_selects org as cur q st sv"
  have "?sel r" if "r \<in> set ?all" for r using that by (simp add: all_selected_def)
  then have sel: "?sel ?b" using assms(2) nth_mem by blast
  have after: "list_selects org as (Some (cursor_of ?b)) q st sv r \<longleftrightarrow> ?sel r \<and> strictly_newer ?b r" for r
  proof (cases "strictly_newer ?b r")
    case True
    from sel have "within_cursor cur ?b" unfolding list_selects_cursor_split [of org as cur] by (rule conjunct2)
    from within_cursor_trans [OF this True] True show ?thesis
      unfolding list_selects_cursor_split [of org as cur] list_selects_cursor_split [of org as "Some _"]
        within_cursor_of by (simp only: simp_thms)
  next
    case False
    then show ?thesis
      unfolding list_selects_cursor_split [of org as "Some _"] within_cursor_of by (simp only: simp_thms)
  qed
  have "all_selected org as (Some (cursor_of ?b)) q st sv d =
      sort_by newest_first (filter (strictly_newer ?b) (filter ?sel ?vis))"
    unfolding all_selected_def [of org as "Some _"] by (simp add: after [abs_def] conj_commute)
  also have "\<dots> = filter (strictly_newer ?b) ?all"
    unfolding all_selected_def
  proof (rule sort_by_filter)
    show "newest_first a b \<or> newest_first b a" for a b by (rule newest_first_total)
    show "newest_first a c" if "newest_first a b" "newest_first b c" for a b c
      using that by (rule newest_first_trans)
    show "a = b" if "a \<in> set (filter ?sel ?vis)" "b \<in> set (filter ?sel ?vis)" "newest_first a b" "newest_first b a"
      for a b
    proof (rule distinct_map_eqD [OF assms(1)])
      show "a \<in> set (db_cases d)" "b \<in> set (db_cases d)" using that(1,2) by simp_all
      show "c_id a = c_id b" using that(3,4) by (rule newest_first_antisym)
    qed
  qed
  also have "\<dots> = drop (Suc n) ?all"
    by (rule filter_after_nth [OF all_selected_strict [OF assms(1)] assms(2)]) (auto simp: strictly_newer_def)
  finally show ?thesis .
qed

lemma case_record_of_cursor:
  "case_record_of r = Inr k \<Longrightarrow>
     \<lparr>cur_updated_at = rec_updated_at k, cur_case_id = rec_case_id k\<rparr> = cursor_of r"
  by (auto simp: case_record_of_def bindE_eq_Inr cursor_of_def)

definition effective_query :: "string option \<Rightarrow> string option" where
  "effective_query q = (case q of None \<Rightarrow> None | Some t \<Rightarrow> if blank t then None else Some (strip t))"

text \<open>
  A page is the first \<open>limit\<close> rows of its selection; with a next cursor, the selection that cursor
  makes is exactly what the page left out, and without one the page left nothing out.
\<close>

lemma list_cases_page:
  assumes ids: "distinct (map c_id (db_cases d))"
    and page: "list_cases org as limit cur q st sv d = Inr p"
  shows "traverseE case_record_of (take (nat limit)
      (all_selected org as cur (effective_query q) (map_option case_state_value st) sv d)) = Inr (page_items p)"
    and "page_next_cursor p = None \<Longrightarrow>
      length (all_selected org as cur (effective_query q) (map_option case_state_value st) sv d) \<le> nat limit"
    and "page_next_cursor p = Some k \<Longrightarrow>
      all_selected org as (Some k) (effective_query q) (map_option case_state_value st) sv d =
      drop (nat limit) (all_selected org as cur (effective_query q) (map_option case_state_value st) sv d)"
proof -
  let ?all = "all_selected org as cur (effective_query q) (map_option case_state_value st) sv d"
  from page obtain records where lim: "1 \<le> limit" "limit \<le> 100"
    and tr: "traverseE case_record_of (take (nat (limit + 1)) ?all) = Inr records"
    and p: "p = \<lparr>page_items = take (nat limit) records, page_next_cursor = next_cursor (nat limit) records\<rparr>"
    by (auto simp: list_cases_def bindE_eq_Inr select_list_cases_def all_selected_def effective_query_def
        split: if_splits)
  have Suc: "nat (limit + 1) = Suc (nat limit)" using lim by simp
  have len: "length records = min (Suc (nat limit)) (length ?all)"
    using traverseE_length [OF tr] by (simp add: Suc)
  have "take (nat limit) (take (nat (limit + 1)) ?all) = take (nat limit) ?all"
    by (simp add: Suc min_def)
  with traverseE_take [OF tr, of "nat limit"] show "traverseE case_record_of (take (nat limit) ?all) = Inr (page_items p)"
    by (simp add: p)
  have pos: "0 < nat limit" using lim by simp
  show "length ?all \<le> nat limit" if "page_next_cursor p = None"
    using that pos len by (auto simp: p next_cursor_def Let_def min_def split: if_splits)
  show "all_selected org as (Some k) (effective_query q) (map_option case_state_value st) sv d =
      drop (nat limit) ?all" if k: "page_next_cursor p = Some k"
  proof -
    let ?n = "nat limit - 1"
    from k have more: "nat limit < length records"
      and ke: "k = \<lparr>cur_updated_at = rec_updated_at (last (take (nat limit) records)),
                    cur_case_id = rec_case_id (last (take (nat limit) records))\<rparr>"
      by (auto simp: p next_cursor_def Let_def split: if_splits)
    have n: "?n < length ?all" "?n < length records" "?n < nat (limit + 1)" using more len pos by auto
    have "last (take (nat limit) records) = records ! ?n"
      using more pos by (subst last_conv_nth) (auto simp: min_def)
    moreover have "case_record_of (take (nat (limit + 1)) ?all ! ?n) = Inr (records ! ?n)"
      by (rule traverseE_nth [OF tr]) (use n in simp)
    then have "case_record_of (?all ! ?n) = Inr (records ! ?n)" using n by simp
    ultimately have "k = cursor_of (?all ! ?n)" using ke case_record_of_cursor by simp
    with all_selected_next [OF ids n(1)] pos show ?thesis by simp
  qed
qed

end
