(* ===== verification/Event_Feed.thy ===== *)
theory Event_Feed
  imports Case_Listing
begin

text \<open>
  \<open>services/api/netops_api/application/event_feed.py\<close>: the replayable feed of immutable case events
  that the SSE endpoint reads. A client that follows the last event id of each page reads every
  event it may see exactly once and in order; the argument is made once for any cursor-paged read.
\<close>

section \<open>The reader\<close>

record case_feed_event =
  fe_event_id :: uuid
  fe_case_id :: uuid
  fe_event_type :: string
  fe_aggregate_version :: int
  fe_transition_id :: "uuid option"
  fe_actor_id :: uuid
  fe_correlation_id :: uuid
  fe_occurred_at :: datetime

definition feed_event :: "event_row \<Rightarrow> exn + case_feed_event" where
  "feed_event e = bindE (uuid_of (e_actor_id e)) (\<lambda>actor. Inr
     \<lparr>fe_event_id = e_id e, fe_case_id = e_case_id e, fe_event_type = e_event_type e,
      fe_aggregate_version = e_aggregate_version e, fe_transition_id = e_transition_id e,
      fe_actor_id = actor, fe_correlation_id = e_correlation_id e,
      fe_occurred_at = db_datetime (e_occurred_at e)\<rparr>)"

text \<open>
  The join with \<open>cases\<close> and \<open>_VISIBLE_CASES\<close>: the event's case, of which the primary key allows one,
  is organization-level or belongs to a granted asset.
\<close>

definition visible_case :: "uuid \<Rightarrow> uuid list \<Rightarrow> db \<Rightarrow> event_row \<Rightarrow> bool" where
  "visible_case org asset_ids d e \<longleftrightarrow>
     (\<exists>c \<in> set (visible d c_org (db_cases d)). c_org c = e_org e \<and> c_id c = e_case_id e \<and> c_org c = org
        \<and> (case c_asset_id c of None \<Rightarrow> True | Some a \<Rightarrow> a \<in> set asset_ids))"

definition feed_rows :: "uuid \<Rightarrow> uuid list \<Rightarrow> db \<Rightarrow> event_row list" where
  "feed_rows org asset_ids d =
     filter (\<lambda>e. e_org e = org \<and> visible_case org asset_ids d e) (visible d e_org (db_events d))"

text \<open>\<open>ORDER BY e.occurred_at ASC, e.id ASC\<close> and the row comparison of the cursor.\<close>

definition feed_le :: "event_row \<Rightarrow> event_row \<Rightarrow> bool" where
  "feed_le a b \<longleftrightarrow> e_occurred_at a < e_occurred_at b \<or> e_occurred_at a = e_occurred_at b \<and> e_id a \<le> e_id b"

definition after_cursor :: "int \<Rightarrow> uuid \<Rightarrow> event_row \<Rightarrow> bool" where
  "after_cursor occurred_at event_id e \<longleftrightarrow>
     occurred_at < e_occurred_at e \<or> occurred_at = e_occurred_at e \<and> event_id < e_id e"

definition select_initial_page :: "uuid \<Rightarrow> uuid list \<Rightarrow> nat \<Rightarrow> db \<Rightarrow> event_row list" where
  "select_initial_page org asset_ids limit d = take limit (sort_by feed_le (feed_rows org asset_ids d))"

definition select_visible_cursor :: "uuid \<Rightarrow> uuid list \<Rightarrow> uuid \<Rightarrow> db \<Rightarrow> int option" where
  "select_visible_cursor org asset_ids after_event_id d =
     map_option e_occurred_at (find_row (\<lambda>e. e_id e = after_event_id) (feed_rows org asset_ids d))"

definition select_page_after_cursor :: "uuid \<Rightarrow> uuid list \<Rightarrow> int \<Rightarrow> uuid \<Rightarrow> nat \<Rightarrow> db \<Rightarrow> event_row list" where
  "select_page_after_cursor org asset_ids occurred_at event_id limit d =
     take limit (sort_by feed_le (filter (after_cursor occurred_at event_id) (feed_rows org asset_ids d)))"

definition read_after :: "uuid \<Rightarrow> uuid option \<Rightarrow> uuid list \<Rightarrow> int \<Rightarrow> db \<Rightarrow> exn + case_feed_event list" where
  "read_after org after_event_id asset_ids limit d =
     (if \<not> (1 \<le> limit \<and> limit \<le> 500) then Inl (ValueError ''limit must be between 1 and 500.'')
      else bindE
        (case after_event_id of
           None \<Rightarrow> Inr (select_initial_page org asset_ids (nat limit) d)
         | Some i \<Rightarrow> (case select_visible_cursor org asset_ids i d of
             None \<Rightarrow> Inl (EventCursorNotFoundError i)
           | Some t \<Rightarrow> Inr (select_page_after_cursor org asset_ids t i (nat limit) d)))
        (traverseE feed_event))"

section \<open>Following the cursor\<close>

text \<open>
  A client that asks for the page after the last item it holds until a page is empty; the number
  bounds the requests it makes.
\<close>

fun walk :: "('k option \<Rightarrow> 'e + 'a list) \<Rightarrow> ('a \<Rightarrow> 'k) \<Rightarrow> nat \<Rightarrow> 'k option \<Rightarrow> 'e + 'a list" where
  "walk page key 0 c = Inr []"
| "walk page key (Suc n) c = bindE (page c) (\<lambda>xs. if xs = [] then Inr [] else
     bindE (walk page key n (Some (key (last xs)))) (\<lambda>ys. Inr (xs @ ys)))"

text \<open>
  The contract of a cursor-paged read on a state: the first page is a prefix of the rows, the page
  after a row's key continues behind that row.
\<close>

locale cursor_feed =
  fixes ok :: "'s \<Rightarrow> bool" and page :: "'s \<Rightarrow> 'k option \<Rightarrow> 'e + 'a list" and key :: "'a \<Rightarrow> 'k"
    and rows :: "'s \<Rightarrow> 'r list" and render :: "'r \<Rightarrow> 'e + 'a" and row_key :: "'r \<Rightarrow> 'k" and limit :: nat
  assumes limit_pos: "ok s \<Longrightarrow> 0 < limit"
    and first_page: "ok s \<Longrightarrow> page s None = traverseE render (take limit (rows s))"
    and next_page: "ok s \<Longrightarrow> i < length (rows s) \<Longrightarrow>
      page s (Some (row_key (rows s ! i))) = traverseE render (take limit (drop (Suc i) (rows s)))"
    and key_render: "render r = Inr x \<Longrightarrow> key x = row_key r"
begin

definition cursor_at :: "'s \<Rightarrow> nat \<Rightarrow> 'k option" where
  "cursor_at s k = (case k of 0 \<Rightarrow> None | Suc i \<Rightarrow> Some (row_key (rows s ! i)))"

lemma page_at: "ok s \<Longrightarrow> k \<le> length (rows s) \<Longrightarrow> page s (cursor_at s k) = traverseE render (take limit (drop k (rows s)))"
  by (cases k) (simp_all add: cursor_at_def first_page next_page)

lemma last_key:
  assumes "traverseE render (rows s) = Inr xs" "m < length (rows s)"
  shows "Some (key (xs ! m)) = cursor_at s (Suc m)"
  using traverseE_nth [OF assms] key_render by (simp add: cursor_at_def)

lemma walk_from:
  assumes "ok s" "traverseE render (rows s) = Inr xs" "k \<le> length (rows s)" "length (rows s) - k < n"
  shows "walk (page s) key n (cursor_at s k) = Inr (drop k xs)"
  using assms(3,4)
proof (induction n arbitrary: k)
  case 0
  then show ?case by simp
next
  case (Suc n)
  have len: "length xs = length (rows s)" using traverseE_length [OF assms(2)] by simp
  have "traverseE render (drop k (rows s)) = Inr (drop k xs)"
    by (rule traverseE_drop [OF assms(2)])
  from traverseE_take [OF this, of limit] have page:
    "page s (cursor_at s k) = Inr (take limit (drop k xs))" by (simp add: page_at assms(1) Suc.prems(1))
  show ?case
  proof (cases "k = length (rows s)")
    case True
    with page len have "page s (cursor_at s k) = Inr []" by simp
    then show ?thesis using True len by simp
  next
    case False
    define m where "m = min limit (length xs - k)"
    have m: "0 < m" "k + m \<le> length xs" using False Suc.prems(1) limit_pos [OF assms(1)] by (auto simp: m_def len)
    have tk: "take limit (drop k xs) = take m (drop k xs)" by (simp add: m_def min_def)
    have "length (take m (drop k xs)) = m" using m by simp
    moreover from this m(1) have "take m (drop k xs) \<noteq> []" by force
    ultimately have "last (take m (drop k xs)) = xs ! (k + (m - 1))" using m
      by (simp add: last_conv_nth)
    with m have "Some (key (last (take m (drop k xs)))) = cursor_at s (Suc (k + (m - 1)))"
      using last_key [OF assms(2)] len by simp
    then have "Some (key (last (take m (drop k xs)))) = cursor_at s (k + m)" using m(1) by simp
    moreover have "walk (page s) key n (cursor_at s (k + m)) = Inr (drop (k + m) xs)"
      by (rule Suc.IH) (use m Suc.prems len in auto)
    moreover have "take m (drop k xs) \<noteq> []" using m by simp
    ultimately show ?thesis by (simp add: page tk) (metis append_take_drop_id drop_drop add.commute)
  qed
qed

text \<open>Reading from the start with enough requests returns every row once, in order.\<close>

lemma walk_all:
  assumes "ok s" "traverseE render (rows s) = Inr xs" "length (rows s) < n"
  shows "walk (page s) key n None = Inr xs"
  using walk_from [OF assms(1,2), of 0 n] assms(3) by (simp add: cursor_at_def)

text \<open>Resuming behind any row returns exactly what follows it.\<close>

lemma walk_resume:
  assumes "ok s" "traverseE render (rows s) = Inr xs" "i < length (rows s)" "length (rows s) < n"
  shows "walk (page s) key n (Some (row_key (rows s ! i))) = Inr (drop (Suc i) xs)"
  using walk_from [OF assms(1,2), of "Suc i" n] assms(3,4) by (simp add: cursor_at_def)

end

section \<open>The feed follows the contract\<close>

definition ordered_feed :: "uuid \<Rightarrow> uuid list \<Rightarrow> db \<Rightarrow> event_row list" where
  "ordered_feed org asset_ids d = sort_by feed_le (feed_rows org asset_ids d)"

definition feed_ok :: "int \<Rightarrow> db \<Rightarrow> bool" where
  "feed_ok limit d \<longleftrightarrow> 1 \<le> limit \<and> limit \<le> 500 \<and> distinct (map e_id (db_events d))"

definition strictly_earlier :: "event_row \<Rightarrow> event_row \<Rightarrow> bool" where
  "strictly_earlier a b \<longleftrightarrow> after_cursor (e_occurred_at a) (e_id a) b"

lemma feed_le_total: "feed_le a b \<or> feed_le b a"
  by (auto simp: feed_le_def)

lemma feed_le_trans: "feed_le a b \<Longrightarrow> feed_le b c \<Longrightarrow> feed_le a c"
  by (auto simp: feed_le_def)

lemma feed_le_antisym: "feed_le a b \<Longrightarrow> feed_le b a \<Longrightarrow> e_id a = e_id b"
  by (auto simp: feed_le_def)

lemma set_feed_rows: "set (feed_rows org as d) \<subseteq> set (db_events d)"
  by (auto simp: feed_rows_def)

lemma distinct_feed_rows:
  "distinct (map e_id (db_events d)) \<Longrightarrow> distinct (map e_id (feed_rows org as d))"
  by (simp add: feed_rows_def visible_def distinct_map_filter)

lemma ordered_feed_strict:
  assumes "distinct (map e_id (db_events d))"
  shows "sorted_wrt strictly_earlier (ordered_feed org as d)"
proof -
  have "sorted_wrt feed_le (ordered_feed org as d)"
    unfolding ordered_feed_def by (intro sorted_wrt_sort_by feed_le_total) (rule feed_le_trans)
  moreover have "distinct (map e_id (ordered_feed org as d))"
    unfolding ordered_feed_def distinct_key_sort_by by (rule distinct_feed_rows [OF assms])
  ultimately have "sorted_wrt (\<lambda>a b. feed_le a b \<and> e_id a \<noteq> e_id b) (ordered_feed org as d)"
    by (rule sorted_wrt_distinct_key)
  then show ?thesis
    by (rule sorted_wrt_mono_rel [rotated]) (auto simp: feed_le_def strictly_earlier_def after_cursor_def)
qed

lemma page_after_row:
  assumes "distinct (map e_id (db_events d))" "i < length (ordered_feed org as d)"
  shows "sort_by feed_le (filter (strictly_earlier (ordered_feed org as d ! i)) (feed_rows org as d)) =
    drop (Suc i) (ordered_feed org as d)"
proof -
  let ?all = "ordered_feed org as d"
  have "sort_by feed_le (filter (strictly_earlier (?all ! i)) (feed_rows org as d)) =
      filter (strictly_earlier (?all ! i)) ?all"
    unfolding ordered_feed_def
  proof (rule sort_by_filter)
    show "feed_le a b \<or> feed_le b a" for a b by (rule feed_le_total)
    show "feed_le a c" if "feed_le a b" "feed_le b c" for a b c using that by (rule feed_le_trans)
    show "a = b" if "a \<in> set (feed_rows org as d)" "b \<in> set (feed_rows org as d)" "feed_le a b" "feed_le b a" for a b
    proof (rule distinct_map_eqD [OF assms(1)])
      show "a \<in> set (db_events d)" "b \<in> set (db_events d)" using that(1,2) set_feed_rows by blast+
      show "e_id a = e_id b" using that(3,4) by (rule feed_le_antisym)
    qed
  qed
  also have "\<dots> = drop (Suc i) ?all"
    by (rule filter_after_nth [OF ordered_feed_strict [OF assms(1)] assms(2)])
      (auto simp: strictly_earlier_def after_cursor_def)
  finally show ?thesis .
qed

lemma visible_cursor_row:
  assumes "distinct (map e_id (db_events d))" "e \<in> set (feed_rows org as d)"
  shows "select_visible_cursor org as (e_id e) d = Some (e_occurred_at e)"
proof -
  have "find_row (\<lambda>x. e_id x = e_id e) (feed_rows org as d) = Some e"
    by (rule find_row_unique [OF assms(2) refl])
      (use distinct_map_eqD [OF distinct_feed_rows [OF assms(1)] _ assms(2)] in blast)
  then show ?thesis by (simp add: select_visible_cursor_def)
qed

interpretation feed: cursor_feed "feed_ok limit" "\<lambda>d after. read_after org after asset_ids limit d" fe_event_id
  "ordered_feed org asset_ids" feed_event e_id "nat limit" for org asset_ids limit
proof unfold_locales
  fix d :: db and i :: nat and r x
  show "0 < nat limit" if "feed_ok limit d" using that by (simp add: feed_ok_def)
  show "read_after org None asset_ids limit d = traverseE feed_event (take (nat limit) (ordered_feed org asset_ids d))"
    if "feed_ok limit d"
    using that by (simp add: feed_ok_def read_after_def select_initial_page_def ordered_feed_def)
  show "fe_event_id x = e_id r" if "feed_event r = Inr x" using that by (auto simp: feed_event_def bindE_eq_Inr)
  assume ok: "feed_ok limit d" and i: "i < length (ordered_feed org asset_ids d)"
  let ?e = "ordered_feed org asset_ids d ! i"
  have "?e \<in> set (feed_rows org asset_ids d)" using nth_mem [OF i] by (simp add: ordered_feed_def)
  with ok have "select_visible_cursor org asset_ids (e_id ?e) d = Some (e_occurred_at ?e)"
    by (simp add: feed_ok_def visible_cursor_row)
  moreover have "sort_by feed_le (filter (after_cursor (e_occurred_at ?e) (e_id ?e)) (feed_rows org asset_ids d)) =
      drop (Suc i) (ordered_feed org asset_ids d)"
    using page_after_row [OF _ i] ok by (simp add: feed_ok_def strictly_earlier_def [abs_def])
  ultimately show "read_after org (Some (e_id ?e)) asset_ids limit d =
      traverseE feed_event (take (nat limit) (drop (Suc i) (ordered_feed org asset_ids d)))"
    using ok by (simp add: feed_ok_def read_after_def select_page_after_cursor_def)
qed

lemma read_after_unknown_cursor:
  assumes "1 \<le> limit" "limit \<le> 500" "\<forall>e \<in> set (feed_rows org as d). e_id e \<noteq> i"
  shows "read_after org (Some i) as limit d = Inl (EventCursorNotFoundError i)"
proof -
  have "select_visible_cursor org as i d = None" using assms(3) by (simp add: select_visible_cursor_def)
  then show ?thesis using assms(1,2) by (simp add: read_after_def)
qed

lemma feed_event_total: "e_actor_id e \<noteq> None \<Longrightarrow> is_ok (feed_event e)"
  by (auto simp: feed_event_def uuid_of_def is_ok_def)

end
