(* ===== verification/Case_System.thy ===== *)
theory Case_System
  imports Publisher Case_Listing
begin

text \<open>
  The case store in motion: any interleaving of API commands of any organization with any number of
  publisher processes of one organization, each of which may crash between two of its transactions.
  A transaction is one step. The invariants of the component theories hold in every reachable
  database.
\<close>

section \<open>Steps\<close>

text \<open>What a publisher process holds in memory between two transactions of \<open>publish_once\<close>.\<close>

datatype phase =
    Idle
  | Batch "leased_event list"
  | Handed leased_event "leased_event list"
  | Failed leased_event string "leased_event list"

type_synonym system = "db \<times> (nat \<Rightarrow> phase)"

definition receipt_transaction :: "uuid \<Rightarrow> string \<Rightarrow> leased_event \<Rightarrow> uuid \<Rightarrow> datetime \<Rightarrow> db \<Rightarrow> (exn + bool) \<times> db" where
  "receipt_transaction org consumer e u t =
     tenant_connection org (record_once u org consumer (le_case_event_id e) (le_payload e) t)"

inductive system_step :: "uuid \<Rightarrow> string \<Rightarrow> system \<Rightarrow> system \<Rightarrow> bool" for org :: uuid and consumer :: string where
  create: "mk_create_case_command c = Inr c \<Longrightarrow>
     tenant_connection tenant (create_case oid aid tenant c) d = (r, d') \<Longrightarrow> system_step org consumer (d, ph) (d', ph)"
| transition: "mk_transition_command c = Inr c \<Longrightarrow> apply_transition cur c = Inr out \<Longrightarrow>
     tenant_connection tenant (persist_transition oid aid tenant out (tc_actor c)) d = (r, d') \<Longrightarrow>
     system_step org consumer (d, ph) (d', ph)"
| lease: "ph n = Idle \<Longrightarrow>
     tenant_connection org (lease_available u skip org worker now limit k) d = (Inr es, d') \<Longrightarrow>
     system_step org consumer (d, ph) (d', ph(n := Batch es))"
| hand_over: "ph n = Batch (e # es) \<Longrightarrow> receipt_transaction org consumer e u t d = (Inr new, d') \<Longrightarrow>
     system_step org consumer (d, ph) (d', ph(n := Handed e es))"
| refuse: "ph n = Batch (e # es) \<Longrightarrow> receipt_transaction org consumer e u t d = (Inl x, d') \<Longrightarrow>
     system_step org consumer (d, ph) (d', ph(n := Failed e (retry_code x) es))"
| acknowledge: "ph n = Handed e es \<Longrightarrow> lease_of e = Inr l \<Longrightarrow>
     tenant_connection org (mark_published org l t) d = (r, d') \<Longrightarrow>
     system_step org consumer (d, ph) (d', ph(n := Batch es))"
| retry_later: "ph n = Failed e code es \<Longrightarrow> lease_of e = Inr l \<Longrightarrow>
     tenant_connection org (schedule_retry org l t code) d = (r, d') \<Longrightarrow>
     system_step org consumer (d, ph) (d', ph(n := Batch es))"
| crash: "system_step org consumer (d, ph) (d, ph(n := Idle))"

inductive_cases system_stepE: "system_step org consumer s s'"

definition empty_store :: "db \<Rightarrow> bool" where
  "empty_store d \<longleftrightarrow> at_rest d \<and> db_cases d = [] \<and> db_case_inputs d = [] \<and> db_transitions d = []
     \<and> db_events d = [] \<and> db_outbox d = [] \<and> db_inbox d = [] \<and> db_audit d = []"

inductive reachable :: "uuid \<Rightarrow> string \<Rightarrow> system \<Rightarrow> bool" for org :: uuid and consumer :: string where
  start: "empty_store d \<Longrightarrow> reachable org consumer (d, \<lambda>n. Idle)"
| step: "reachable org consumer s \<Longrightarrow> system_step org consumer s s' \<Longrightarrow> reachable org consumer s'"

section \<open>What each step keeps\<close>

definition acknowledged_accepted :: "uuid \<Rightarrow> string \<Rightarrow> db \<Rightarrow> bool" where
  "acknowledged_accepted org consumer d \<longleftrightarrow>
     (\<forall>i. event_published org i d \<longrightarrow> has_receipt org consumer i d)"

fun phase_ok :: "uuid \<Rightarrow> string \<Rightarrow> db \<Rightarrow> phase \<Rightarrow> bool" where
  "phase_ok org consumer d Idle = True"
| "phase_ok org consumer d (Batch es) = (\<forall>e \<in> set es. event_known org e d)"
| "phase_ok org consumer d (Handed e es) =
     (has_receipt org consumer (le_case_event_id e) d \<and> (\<forall>x \<in> set (e # es). event_known org x d))"
| "phase_ok org consumer d (Failed e code es) = (\<forall>x \<in> set (e # es). event_known org x d)"

definition system_invariant :: "uuid \<Rightarrow> string \<Rightarrow> system \<Rightarrow> bool" where
  "system_invariant org consumer s \<longleftrightarrow>
     full_invariant (fst s) \<and> receipts_ok (fst s) \<and> acknowledged_accepted org consumer (fst s)
     \<and> (\<forall>n. phase_ok org consumer (fst s) (snd s n))"

text \<open>Nothing known or received is ever lost.\<close>

definition facts_grow :: "db \<Rightarrow> db \<Rightarrow> bool" where
  "facts_grow d d' \<longleftrightarrow>
     (\<forall>org e. event_known org e d \<longrightarrow> event_known org e d') \<and>
     (\<forall>org c i. has_receipt org c i d \<longrightarrow> has_receipt org c i d')"

lemma phase_ok_grow: "facts_grow d d' \<Longrightarrow> phase_ok org consumer d p \<Longrightarrow> phase_ok org consumer d' p"
  unfolding facts_grow_def by (cases p) simp_all

lemma facts_grow_refl [simp]: "facts_grow d d"
  by (simp add: facts_grow_def)

lemma facts_grow_same: "same_facts d d' \<Longrightarrow> facts_grow d d'"
  by (auto simp: facts_grow_def intro: event_known_stable has_receipt_stable)

text \<open>A business write appends one unpublished outbox row and leaves the inbox alone.\<close>

definition appends :: "db \<Rightarrow> db \<Rightarrow> bool" where
  "appends d d' \<longleftrightarrow> (\<exists>q. db_outbox d' = db_outbox d @ q \<and> (\<forall>x \<in> set q. o_published_at x = None))
     \<and> db_inbox d' = db_inbox d"

lemma appends_published: "appends d d' \<Longrightarrow> event_published org i d' \<Longrightarrow> event_published org i d"
  unfolding appends_def event_published_def by (metis UnE set_append)

lemma appends_receipts: "appends d d' \<Longrightarrow> has_receipt org c i d' = has_receipt org c i d"
  by (simp add: appends_def has_receipt_def)

lemma appends_facts:
  assumes "appends d d'"
  shows "facts_grow d d'" "receipts_ok d' = receipts_ok d"
    "acknowledged_accepted org consumer d \<Longrightarrow> acknowledged_accepted org consumer d'"
proof -
  have "event_known o' e d'" if "event_known o' e d" for o' e
    using that assms by (auto simp: appends_def event_known_def)
  then show "facts_grow d d'"
    using appends_receipts [OF assms] by (simp add: facts_grow_def)
  show "receipts_ok d' = receipts_ok d" using assms by (simp add: appends_def receipts_ok_def)
  show "acknowledged_accepted org consumer d'" if "acknowledged_accepted org consumer d"
    using that appends_published [OF assms] appends_receipts [OF assms]
    unfolding acknowledged_accepted_def by blast
qed

lemma appends_refl [simp]: "appends d d"
  by (simp add: appends_def)

lemma created_appends: "appends d (created oid org c ins au d)"
  by (simp add: appends_def created_def created_outbox_def)

lemma persisted_appends: "appends d (persisted oid org r a old au d)"
  by (simp add: appends_def persisted_def)

lemma appends_settled [simp]: "appends (bound org d) d2 \<Longrightarrow> appends d (settled g d2)"
  by (simp add: appends_def)

lemma create_appends:
  assumes "tenant_connection org (create_case oid aid org c) d = (r, d')"
  shows "appends d d'"
proof (cases rule: tenant_connection_cases [of org "create_case oid aid org c" d])
  case (failed e)
  with assms show ?thesis by simp
next
  case (committed res d2)
  have "appends (bound org d) d2"
    by (rule create_case_InrD [OF committed(1)]) (simp_all add: created_appends)
  with committed(3) assms show ?thesis by simp
qed

lemma persist_appends:
  assumes "tenant_connection org (persist_transition oid aid org out a) d = (r, d')"
  shows "appends d d'"
proof (cases rule: tenant_connection_cases [of org "persist_transition oid aid org out a" d])
  case (failed e)
  with assms show ?thesis by simp
next
  case (committed k d2)
  from persist_transition_InrD [OF committed(1)] have "appends (bound org d) d2"
    by (metis persisted_appends)
  with committed(3) assms show ?thesis by simp
qed

text \<open>Transactions of a publisher, seen from outside.\<close>

lemma tenant_rel:
  assumes "tenant_connection org body d = (r, d')" "R d d"
    and "\<And>x d2. body (bound org d) = Inr (x, d2) \<Longrightarrow> R d (settled (app_organization_id d) d2)"
  shows "R d d'"
  by (cases rule: tenant_connection_cases [of org body d]) (use assms in auto)

lemma tenant_committed:
  assumes "tenant_connection org body d = (Inr x, d')"
  obtains d2 where "body (bound org d) = Inr (x, d2)" "d' = settled (app_organization_id d) d2"
  by (cases rule: tenant_connection_cases [of org body d]) (use assms that in auto)

lemma full_invariant_outbox:
  assumes "full_invariant d" "tenant_connection org body d = (r, d')"
    and "\<And>x d2. body (bound org d) = Inr (x, d2) \<Longrightarrow> delivery_update (bound org d) d2"
  shows "full_invariant d'"
  using full_invariant_delivery [OF assms(1), of body org] assms(2,3) by simp

lemma inbox_only_full:
  assumes inv: "full_invariant d" and eq: "db_cases d' = db_cases d" "db_transitions d' = db_transitions d"
    "db_events d' = db_events d" "db_outbox d' = db_outbox d" and rest: "at_rest d'"
  shows "full_invariant d'"
proof -
  have "case_fk d' = case_fk d" "case_transitions d' = case_transitions d"
    by (intro ext, simp add: case_fk_def case_transitions_def eq)+
  then have "cases_ok d' = cases_ok d" "transitions_ok d' = transitions_ok d" "history_ok d' = history_ok d"
    "outbox_ok d' = outbox_ok d" "projections_ok d' = projections_ok d" "idempotency_ok d' = idempotency_ok d"
    "outbox_keys_ok d' = outbox_keys_ok d"
    unfolding cases_ok_def transitions_ok_def history_ok_def outbox_ok_def projections_ok_def
      idempotency_ok_def outbox_keys_ok_def eq by simp_all
  with inv rest show ?thesis by (simp add: full_invariant_def store_invariant_def case_invariant_def)
qed

lemma record_once_tables:
  assumes "record_once u org c e p t d = Inr (x, d')"
  shows "\<exists>rows. d' = d\<lparr>db_inbox := db_inbox d @ rows\<rparr>"
proof (cases rule: record_once_InrD [OF assms])
  case (1 r)
  then show ?thesis by blast
next
  case (2 r)
  then have "d' = d\<lparr>db_inbox := db_inbox d @ []\<rparr>" by simp
  then show ?thesis ..
qed

lemma receipt_full:
  assumes inv: "full_invariant d" and t: "receipt_transaction org consumer e u t d = (r, d')"
  shows "full_invariant d'"
proof -
  have "full_invariant d \<longrightarrow> full_invariant d'"
  proof (rule tenant_rel [OF t [unfolded receipt_transaction_def], where R = "\<lambda>a b. full_invariant a \<longrightarrow> full_invariant b"])
    fix x d2 assume "record_once u org consumer (le_case_event_id e) (le_payload e) t (bound org d) = Inr (x, d2)"
    from record_once_tables [OF this] obtain rows where d2: "d2 = (bound org d)\<lparr>db_inbox := db_inbox (bound org d) @ rows\<rparr>" ..
    have rest: "at_rest (settled (app_organization_id d) d2)"
      using inv by (intro at_rest_settled) (simp add: full_invariant_def store_invariant_def case_invariant_def)
    have eq: "db_cases (settled (app_organization_id d) d2) = db_cases d"
      "db_transitions (settled (app_organization_id d) d2) = db_transitions d"
      "db_events (settled (app_organization_id d) d2) = db_events d"
      "db_outbox (settled (app_organization_id d) d2) = db_outbox d" unfolding settled_simps d2 by simp_all
    show "full_invariant d \<longrightarrow> full_invariant (settled (app_organization_id d) d2)"
      using inbox_only_full [OF inv eq rest] by blast
  qed blast
  with inv show ?thesis by blast
qed

section \<open>The invariant is inductive\<close>

lemma step_ok_transaction:
  assumes "tenant_connection org body d = (r, d')"
    and "\<And>x d2. body (bound org d) = Inr (x, d2) \<Longrightarrow> delivery_update (bound org d) d2"
  shows "step_ok d d'"
  by (rule tenant_rel [OF assms(1)]) (use assms(2) step_ok_delivery in \<open>blast intro: step_ok_refl\<close>)+

lemma step_ok_receipt:
  assumes "receipt_transaction org consumer e u t d = (r, d')"
  shows "step_ok d d'" "same_published d d'"
proof -
  show "step_ok d d'"
    by (rule tenant_rel [OF assms [unfolded receipt_transaction_def]]) (blast intro: step_ok_refl step_ok_record)+
  show "same_published d d'"
  proof (rule tenant_rel [OF assms [unfolded receipt_transaction_def], where R = same_published])
    fix x d2 assume "record_once u org consumer (le_case_event_id e) (le_payload e) t (bound org d) = Inr (x, d2)"
    from record_same [OF this] show "same_published d (settled (app_organization_id d) d2)"
      by (simp add: same_published_def list.rel_refl)
  qed simp
qed

lemma acknowledged_stable:
  assumes "step_ok d d'" "same_published d d'" "acknowledged_accepted org consumer d"
  shows "acknowledged_accepted org consumer d'"
proof -
  from assms(1) have "same_facts d d'" by (simp add: step_ok_def)
  then show ?thesis
    using assms(2,3) has_receipt_stable event_published_stable unfolding acknowledged_accepted_def by blast
qed

lemma receipt_transaction_accepts:
  assumes "receipt_transaction org consumer e u t d = (Inr x, d')"
  shows "has_receipt org consumer (le_case_event_id e) d'"
proof -
  from tenant_committed [OF assms [unfolded receipt_transaction_def]] obtain d2 where
    r: "record_once u org consumer (le_case_event_id e) (le_payload e) t (bound org d) = Inr (x, d2)"
    and d': "d' = settled (app_organization_id d) d2" by blast
  from record_once_receipt [OF r] show ?thesis by (simp add: has_receipt_def d')
qed

lemma lease_transaction_known:
  assumes "tenant_connection org (lease_available u skip org worker now limit k) d = (Inr es, d')" "e \<in> set es"
  shows "event_known org e d'"
proof -
  from tenant_committed [OF assms(1)] obtain d2 where
    l: "lease_available u skip org worker now limit k (bound org d) = Inr (es, d2)"
    and d': "d' = settled (app_organization_id d) d2" by blast
  from leased_events_hold [OF l assms(2)] obtain r where
    r: "o_id r = le_outbox_id e" "o_org r = org" "le_case_event_id e = o_case_event_id r"
      "lease_row (instant now) (lease_token_of worker u) r \<in> set (db_outbox d2)" by metis
  then show ?thesis unfolding event_known_def d' settled_simps by (intro bexI [OF _ r(4)]) simp
qed

lemma acknowledge_transaction:
  assumes t: "tenant_connection org (mark_published org l t) d = (r, d')"
    and ids: "distinct (map o_id (db_outbox d))" and known: "event_known org e d" and l: "lease_of e = Inr l"
    and acc: "has_receipt org consumer (le_case_event_id e) d" and inv: "acknowledged_accepted org consumer d"
  shows "acknowledged_accepted org consumer d'"
proof -
  from known obtain q where q: "q \<in> set (db_outbox d)" "o_id q = le_outbox_id e"
    "o_case_event_id q = le_case_event_id e" by (auto simp: event_known_def)
  have lid: "lease_outbox_id l = le_outbox_id e"
    using l by (auto simp: lease_of_def mk_outbox_lease_def split: if_splits)
  have grow: "step_ok d d'" by (rule step_ok_transaction [OF t]) (rule delivery_update_mark)
  have "event_published org i d \<or> i = le_case_event_id e" if "event_published org i d'" for i
  proof -
    have "event_published org i d' \<longrightarrow> event_published org i d \<or> i = le_case_event_id e"
    proof (rule tenant_rel [OF t, where R = "\<lambda>a b. event_published org i b \<longrightarrow> event_published org i d \<or> i = le_case_event_id e"])
      fix x d2 assume b: "mark_published org l t (bound org d) = Inr (x, d2)"
      have "event_published org i (bound org d) \<or> i = o_case_event_id q" if "event_published org i d2"
        by (rule mark_published_only [OF b that]) (use ids q lid in simp_all)
      then show "event_published org i (settled (app_organization_id d) d2) \<longrightarrow>
          event_published org i d \<or> i = le_case_event_id e"
        using q(3) by (simp add: event_published_def)
    qed simp
    with that show ?thesis by blast
  qed
  moreover have "has_receipt org consumer i d'" if "has_receipt org consumer i d" for i
    using has_receipt_stable grow that unfolding step_ok_def by blast
  ultimately show ?thesis using inv acc unfolding acknowledged_accepted_def by blast
qed

lemma system_invariantI:
  assumes "full_invariant d'" "receipts_ok d'" "acknowledged_accepted org consumer d'" "facts_grow d d'"
    and "\<forall>n. phase_ok org consumer d (ph n)" "phase_ok org consumer d' p"
  shows "system_invariant org consumer (d', ph(n := p))"
  using assms phase_ok_grow by (simp add: system_invariant_def)

lemma system_invariantI':
  assumes "full_invariant d'" "receipts_ok d'" "acknowledged_accepted org consumer d'" "facts_grow d d'"
    and "\<forall>n. phase_ok org consumer d (ph n)"
  shows "system_invariant org consumer (d', ph)"
  using system_invariantI [OF assms, of "ph n" n] phase_ok_grow [OF assms(4)] assms(5) by simp

lemma system_step_invariant:
  assumes "system_step org consumer s s'" "system_invariant org consumer s"
  shows "system_invariant org consumer s'"
  using assms
proof (cases rule: system_step.cases)
  case (create c tenant oid aid d r d' ph)
  note i = assms(2) [unfolded create(1) system_invariant_def fst_conv snd_conv]
  note a = appends_facts [OF create_appends [OF create(4)]]
  have f: "full_invariant d'" using create_full_invariant [of d tenant oid aid c] create(4) i by simp
  show ?thesis unfolding create(2)
    by (rule system_invariantI' [OF f _ a(3) a(1)]) (use i a(2) in simp_all)
next
  case (transition c cur out tenant oid aid d r d' ph)
  note i = assms(2) [unfolded transition(1) system_invariant_def fst_conv snd_conv]
  note a = appends_facts [OF persist_appends [OF transition(5)]]
  have f: "full_invariant d'"
    using persist_full_invariant [of d tenant oid aid out "tc_actor c"] transition(5) i by simp
  show ?thesis unfolding transition(2)
    by (rule system_invariantI' [OF f _ a(3) a(1)]) (use i a(2) in simp_all)
next
  case (lease ph n u skip worker now limit k d es d')
  note i = assms(2) [unfolded lease(1) system_invariant_def fst_conv snd_conv]
  have s: "step_ok d d'" by (rule step_ok_transaction [OF lease(4)]) (rule delivery_update_lease)
  have p: "same_published d d'"
    by (rule tenant_rel [OF lease(4)]) (auto dest: lease_same_published simp: same_published_def list.rel_refl)
  show ?thesis unfolding lease(2)
  proof (rule system_invariantI [of d' org consumer d])
    show "full_invariant d'" using i lease(4) by (blast intro: full_invariant_outbox delivery_update_lease)
    show "receipts_ok d'" using s i by (simp add: step_ok_def full_invariant_def)
    show "acknowledged_accepted org consumer d'" using acknowledged_stable [OF s p] i by blast
    show "facts_grow d d'" using s facts_grow_same by (simp add: step_ok_def)
    show "phase_ok org consumer d' (Batch es)" using lease_transaction_known [OF lease(4)] by simp
  qed (use i in blast)
next
  case (hand_over ph n e es u t d new d')
  note i = assms(2) [unfolded hand_over(1) system_invariant_def fst_conv snd_conv]
  note s = step_ok_receipt [OF hand_over(4)]
  have g: "facts_grow d d'" using s facts_grow_same by (simp add: step_ok_def)
  from i hand_over(3) have "phase_ok org consumer d (Batch (e # es))" by metis
  from phase_ok_grow [OF g this] receipt_transaction_accepts [OF hand_over(4)]
  have ph: "phase_ok org consumer d' (Handed e es)" by simp
  show ?thesis unfolding hand_over(2)
  proof (rule system_invariantI [of d' org consumer d, OF _ _ _ g _ ph])
    show "full_invariant d'" using i hand_over(4) receipt_full by blast
    show "receipts_ok d'" using s i by (simp add: step_ok_def full_invariant_def)
    show "acknowledged_accepted org consumer d'" using acknowledged_stable [OF s] i by blast
  qed (use i in blast)
next
  case (refuse ph n e es u t d x d')
  note i = assms(2) [unfolded refuse(1) system_invariant_def fst_conv snd_conv]
  note s = step_ok_receipt [OF refuse(4)]
  have g: "facts_grow d d'" using s facts_grow_same by (simp add: step_ok_def)
  from i refuse(3) have "phase_ok org consumer d (Batch (e # es))" by metis
  from phase_ok_grow [OF g this] have ph: "phase_ok org consumer d' (Failed e (retry_code x) es)" by simp
  show ?thesis unfolding refuse(2)
  proof (rule system_invariantI [of d' org consumer d, OF _ _ _ g _ ph])
    show "full_invariant d'" using i refuse(4) receipt_full by blast
    show "receipts_ok d'" using s i by (simp add: step_ok_def full_invariant_def)
    show "acknowledged_accepted org consumer d'" using acknowledged_stable [OF s] i by blast
  qed (use i in blast)
next
  case (acknowledge ph n e es l t d r d')
  note i = assms(2) [unfolded acknowledge(1) system_invariant_def fst_conv snd_conv]
  have s: "step_ok d d'" by (rule step_ok_transaction [OF acknowledge(5)]) (rule delivery_update_mark)
  have g: "facts_grow d d'" using s facts_grow_same by (simp add: step_ok_def)
  from i acknowledge(3) have p: "phase_ok org consumer d (Handed e es)" by metis
  from phase_ok_grow [OF g p] have ph: "phase_ok org consumer d' (Batch es)" by simp
  show ?thesis unfolding acknowledge(2)
  proof (rule system_invariantI [of d' org consumer d, OF _ _ _ g _ ph])
    show "full_invariant d'" using i acknowledge(5) by (blast intro: full_invariant_outbox delivery_update_mark)
    show "receipts_ok d'" using s i by (simp add: step_ok_def full_invariant_def)
    have ids: "distinct (map o_id (db_outbox d))" using i by (simp add: full_invariant_def outbox_keys_ok_def)
    show "acknowledged_accepted org consumer d'"
      by (rule acknowledge_transaction [OF acknowledge(5) ids _ acknowledge(4)]) (use p i in simp_all)
  qed (use i in blast)
next
  case (retry_later ph n e code es l t d r d')
  note i = assms(2) [unfolded retry_later(1) system_invariant_def fst_conv snd_conv]
  have s: "step_ok d d'" by (rule step_ok_transaction [OF retry_later(5)]) (rule delivery_update_retry)
  have g: "facts_grow d d'" using s facts_grow_same by (simp add: step_ok_def)
  have sp: "same_published d d'"
    by (rule tenant_rel [OF retry_later(5)]) (auto dest: schedule_retry_same_published simp: same_published_def list.rel_refl)
  from i retry_later(3) have p: "phase_ok org consumer d (Failed e code es)" by metis
  from phase_ok_grow [OF g p] have ph: "phase_ok org consumer d' (Batch es)" by simp
  show ?thesis unfolding retry_later(2)
  proof (rule system_invariantI [of d' org consumer d, OF _ _ _ g _ ph])
    show "full_invariant d'" using i retry_later(5) by (blast intro: full_invariant_outbox delivery_update_retry)
    show "receipts_ok d'" using s i by (simp add: step_ok_def full_invariant_def)
    show "acknowledged_accepted org consumer d'" using acknowledged_stable [OF s sp] i by blast
  qed (use i in blast)
next
  case (crash d ph n)
  with assms(2) show ?thesis by (simp add: system_invariant_def)
qed

lemma empty_store_invariant: "empty_store d \<Longrightarrow> system_invariant org consumer (d, \<lambda>n. Idle)"
  by (simp add: empty_store_def system_invariant_def full_invariant_def store_invariant_def case_invariant_def
      cases_ok_def transitions_ok_def history_ok_def outbox_ok_def projections_ok_def idempotency_ok_def
      outbox_keys_ok_def receipts_ok_def acknowledged_accepted_def event_published_def)

lemma reachable_invariant: "reachable org consumer s \<Longrightarrow> system_invariant org consumer s"
  by (induction rule: reachable.induct) (simp_all add: empty_store_invariant system_step_invariant)

end
