(* ===== verification/Tenant_Isolation.thy ===== *)
theory Tenant_Isolation
  imports Case_System
begin

text \<open>
  Tenant isolation of the case store: a transaction bound to one organization changes no row of
  another, and without a well-formed binding the repository reads nothing and writes nothing.
\<close>

section \<open>Writes\<close>

definition tenant_rows :: "uuid \<Rightarrow> db \<Rightarrow> case_row list \<times> case_input_row list \<times> transition_row list \<times>
    event_row list \<times> outbox_row list \<times> inbox_row list \<times> audit_row list \<times> intent_row list \<times>
    artifact_row list \<times> processing_row list" where
  "tenant_rows org d =
     (filter (\<lambda>r. c_org r = org) (db_cases d), filter (\<lambda>r. ci_org r = org) (db_case_inputs d),
      filter (\<lambda>r. t_org r = org) (db_transitions d), filter (\<lambda>r. e_org r = org) (db_events d),
      filter (\<lambda>r. o_org r = org) (db_outbox d), filter (\<lambda>r. i_org r = org) (db_inbox d),
      filter (\<lambda>r. a_org r = org) (db_audit d), filter (\<lambda>r. u_org r = org) (db_intents d),
      filter (\<lambda>r. r_org r = org) (db_artifacts d), filter (\<lambda>r. p_org r = org) (db_processing d))"

lemma tenant_rows_tables [simp]:
  "tenant_rows b (bound org d) = tenant_rows b d" "tenant_rows b (settled g d) = tenant_rows b d"
  by (simp_all add: tenant_rows_def bound_def settled_def)

lemma tenant_rows_transaction:
  assumes "\<And>x d2. body (bound a d) = Inr (x, d2) \<Longrightarrow> tenant_rows b d2 = tenant_rows b (bound a d)"
  shows "tenant_rows b (snd (tenant_connection a body d)) = tenant_rows b d"
  by (cases rule: tenant_connection_cases [of a body d]) (use assms in auto)

lemma tenant_rows_create:
  "a \<noteq> b \<Longrightarrow> create_case oid aid a c d = Inr (res, d') \<Longrightarrow> tenant_rows b d' = tenant_rows b d"
  by (erule create_case_InrD) (auto simp: tenant_rows_def created_def filter_empty_conv)

lemma filter_bump_case:
  assumes "distinct (map c_id rows)" "old \<in> set rows" "c_org old \<noteq> b" "c_org new \<noteq> b"
  shows "filter (\<lambda>r. c_org r = b) (bump_case (c_id old) new rows) = filter (\<lambda>r. c_org r = b) rows"
proof -
  have "filter (\<lambda>r. c_org r = b) (map (\<lambda>r. if c_id r = c_id old then new else r) rs) = filter (\<lambda>r. c_org r = b) rs"
    if "set rs \<subseteq> set rows" for rs
    using that
  proof (induction rs)
    case (Cons r rs)
    have "c_org r \<noteq> b" if "c_id r = c_id old"
      using distinct_map_eqD [OF assms(1) _ assms(2) that] Cons.prems assms(3) by simp
    with Cons assms(4) show ?case by auto
  qed simp
  then show ?thesis by (simp add: bump_case_def)
qed

lemma tenant_rows_persist:
  assumes "a \<noteq> b" "cases_ok d" "persist_transition oid aid a out who d = Inr (k, d')"
  shows "tenant_rows b d' = tenant_rows b d"
proof -
  from persist_transition_InrD [OF assms(3)] obtain old au where
    old: "old \<in> set (db_cases d)" "c_org old = a" and au: "a_org au = a"
    and d': "d' = persisted oid a out who old au d" by metis
  have "filter (\<lambda>r. c_org r = b) (bump_case (c_id old) (outcome_case out old) (db_cases d)) =
      filter (\<lambda>r. c_org r = b) (db_cases d)"
    using assms(1,2) old by (intro filter_bump_case) (simp_all add: cases_ok_def)
  then show ?thesis
    using assms(1) au by (simp add: tenant_rows_def d' persisted_def)
qed

lemma update_outbox_other:
  assumes "update_outbox p f d = Inr (rows, d')" "current_org d = Some a" "a \<noteq> b" "\<And>r. o_org (f r) = o_org r"
  shows "tenant_rows b d' = tenant_rows b d"
proof -
  have "filter (\<lambda>r. o_org r = b) (map (\<lambda>r. if current_org d = Some (o_org r) \<and> p r then f r else r) rs) =
      filter (\<lambda>r. o_org r = b) rs" for rs
    using assms(2-4) by (induction rs) auto
  then show ?thesis by (simp add: tenant_rows_def update_outbox_Inr(1) [OF assms(1)])
qed

lemma tenant_rows_delivery:
  assumes "a \<noteq> b" "current_org d = Some a"
  shows "lease_available u skip a w now n k d = Inr (es, d') \<Longrightarrow> tenant_rows b d' = tenant_rows b d"
    and "mark_published a l t d = Inr (x, d') \<Longrightarrow> tenant_rows b d' = tenant_rows b d"
    and "schedule_retry a l t code d = Inr (x, d') \<Longrightarrow> tenant_rows b d' = tenant_rows b d"
    and "record_once u a cn e p t d = Inr (new, d') \<Longrightarrow> tenant_rows b d' = tenant_rows b d"
proof -
  note up = update_outbox_other [OF _ assms(2,1)]
  show "lease_available u skip a w now n k d = Inr (es, d') \<Longrightarrow> tenant_rows b d' = tenant_rows b d"
    by (auto simp: lease_available_def bindE_eq_Inr Let_def intro: up split: if_splits)
  show "mark_published a l t d = Inr (x, d') \<Longrightarrow> tenant_rows b d' = tenant_rows b d"
    by (auto simp: mark_published_def bindE_eq_Inr intro: up split: if_splits)
  show "schedule_retry a l t code d = Inr (x, d') \<Longrightarrow> tenant_rows b d' = tenant_rows b d"
    by (auto simp: schedule_retry_def bindE_eq_Inr intro: up split: if_splits)
  show "record_once u a cn e p t d = Inr (new, d') \<Longrightarrow> tenant_rows b d' = tenant_rows b d"
    by (erule record_once_InrD) (use assms(1) in \<open>auto simp: tenant_rows_def\<close>)
qed

section \<open>An unbound transaction\<close>

lemma malformed_setting: "\<not> uuid_shape s \<Longrightarrow> app_organization_id d = Some s \<Longrightarrow> current_org d = None"
  by (simp add: current_org_def netops_current_organization_id_def)

lemma unbound_visible: "current_org d = None \<Longrightarrow> visible d f rows = []"
  by (simp add: visible_def)

lemma unbound_create: "current_org d = None \<Longrightarrow> create_case oid aid org c d = Inl (RowSecurityError ''cases'')"
  by (simp add: create_case_def insert_case_row_def int4_ok with_check_def new_case_row_def)

lemma unbound_snapshot: "current_org d = None \<Longrightarrow> get_snapshot org i d = Inl (CaseNotFoundError i)"
  by (simp add: get_snapshot_def unbound_visible)

lemma unbound_list:
  "current_org d = None \<Longrightarrow> list_cases org as limit cur q st sv d = Inr p \<Longrightarrow>
     page_items p = [] \<and> page_next_cursor p = None"
  by (auto simp: list_cases_def select_list_cases_def unbound_visible next_cursor_def split: if_splits)

end
