(* ===== verification/Case_Properties.thy ===== *)
theory Case_Properties
  imports Tenant_Isolation
begin

text \<open>
  The properties of the case store, its outbox and its publisher that hold of the program as a whole,
  each with a witness that runs it on a small concrete store: one organization, one human approver,
  one case.
\<close>

section \<open>A concrete store\<close>

definition demo_actor :: actor where
  "demo_actor = \<lparr>actor_id = 2, kind = HUMAN, roles = {APPROVER}\<rparr>"

definition demo_create :: create_case_command where
  "demo_create = \<lparr>cc_case_id = 10, cc_event_id = 11, cc_idempotency_key = ''k1'', cc_title = ''VPN down'',
     cc_category = None, cc_severity = ''high'', cc_asset_id = None, cc_actor = demo_actor,
     cc_correlation_id = 12, cc_occurred_at = utc_at 1000, cc_case_input = None\<rparr>"

definition demo_store :: db where
  "demo_store = \<lparr>app_organization_id = None, db_organizations = [1], db_assets = [], db_cases = [],
     db_case_inputs = [], db_transitions = [], db_events = [], db_outbox = [], db_inbox = [],
     db_audit = [], db_intents = [], db_artifacts = [], db_processing = [], deferred_checks = []\<rparr>"

definition demo_opened :: db where
  "demo_opened = snd (tenant_connection 1 (create_case 20 21 1 demo_create) demo_store)"

definition demo_start :: transition_command where
  "demo_start = \<lparr>tc_transition_id = 30, tc_event_id = 31, tc_case_id = 10, tc_expected_version = 0,
     tc_to_state = INVESTIGATING, tc_actor = demo_actor, tc_correlation_id = 32,
     tc_occurred_at = utc_at 2000, tc_approval_id = None, tc_verification_note = None,
     tc_knowledge_item_id = None, tc_note = None\<rparr>"

lemma demo_create_valid: "mk_create_case_command demo_create = Inr demo_create"
  by (simp add: mk_create_case_command_Inr demo_create_def blank_def py_space_def)

lemma demo_store_empty: "empty_store demo_store"
  by (simp add: empty_store_def demo_store_def at_rest_def current_org_def netops_current_organization_id_def)

lemma demo_store_invariant: "full_invariant demo_store"
  using empty_store_invariant [OF demo_store_empty] by (simp add: system_invariant_def)

lemma demo_ready: "create_ready 20 21 1 demo_create (bound 1 demo_store)"
  by (simp add: create_ready_def demo_create_def demo_store_def bound_def)

lemma demo_opened_shape:
  "\<exists>ins au. create_case 20 21 1 demo_create (bound 1 demo_store) =
      Inr (\<lparr>res_case = created_record demo_create, res_created = True\<rparr>, created 20 1 demo_create ins au (bound 1 demo_store))
    \<and> demo_opened = settled None (created 20 1 demo_create ins au (bound 1 demo_store))"
proof -
  have ob: "outbox_ok (bound 1 demo_store)" by (simp add: outbox_ok_def demo_store_def)
  from create_case_ok [OF demo_create_valid bound_simps(1) demo_ready ob] obtain ins au where
    c: "create_case 20 21 1 demo_create (bound 1 demo_store) =
      Inr (\<lparr>res_case = created_record demo_create, res_created = True\<rparr>, created 20 1 demo_create ins au (bound 1 demo_store))"
    by blast
  have "at_rest demo_store" using demo_store_empty by (simp add: empty_store_def)
  from create_commits [OF this c] have
    "demo_opened = settled None (created 20 1 demo_create ins au (bound 1 demo_store))"
    by (simp add: demo_opened_def demo_store_def)
  with c show ?thesis by blast
qed

lemma demo_store_tables [simp]:
  "db_organizations demo_store = [1]" "db_cases demo_store = []" "db_transitions demo_store = []"
  "db_events demo_store = []" "db_outbox demo_store = []" "db_inbox demo_store = []" "db_audit demo_store = []"
  "app_organization_id demo_store = None"
  by (simp_all add: demo_store_def)

lemma created_other_tables [simp]:
  "db_inbox (created oid org c ins au d) = db_inbox d"
  "db_organizations (created oid org c ins au d) = db_organizations d"
  "db_audit (created oid org c ins au d) = db_audit d @ [au]"
  by (simp_all add: created_def)

lemma demo_opened_tables:
  "db_cases demo_opened = [new_case_row 1 demo_create]" "db_transitions demo_opened = []"
  "db_events demo_opened = [created_event 1 demo_create]"
  "db_outbox demo_opened = [created_outbox 1 20 demo_create]" "db_organizations demo_opened = [1]"
  "db_inbox demo_opened = []" "app_organization_id demo_opened = None"
proof -
  from demo_opened_shape obtain ins au where
    d: "demo_opened = settled None (created 20 1 demo_create ins au (bound 1 demo_store))" by blast
  show "db_cases demo_opened = [new_case_row 1 demo_create]" "db_transitions demo_opened = []"
    "db_events demo_opened = [created_event 1 demo_create]"
    "db_outbox demo_opened = [created_outbox 1 20 demo_create]" "db_organizations demo_opened = [1]"
    "db_inbox demo_opened = []" "app_organization_id demo_opened = None"
    unfolding d settled_simps created_tables created_other_tables bound_simps demo_store_tables by simp_all
qed

lemma demo_opened_invariant: "full_invariant demo_opened"
  unfolding demo_opened_def by (rule create_full_invariant [OF demo_store_invariant])

lemma demo_opened_rest: "at_rest demo_opened"
  using demo_opened_invariant by (simp add: full_invariant_def store_invariant_def case_invariant_def)

section \<open>The schema and the state machine\<close>

text \<open>
  The edge constraint of \<open>case_transitions\<close> and the transition table of the domain are the same
  relation on states: the migration repeats the Python table without adding or losing an edge.
\<close>

theorem schema_edges_match_domain:
  "allowed_edge (case_state_value a) (case_state_value b) = (b \<in> allowed_transitions a)"
  by (rule allowed_edge_iff)

text \<open>
  Whatever transition \<open>apply_transition\<close> accepts from a validated command satisfies every
  \<open>CHECK\<close> constraint of \<open>case_transitions\<close>: edge, actor kind, approval, verification note, knowledge
  item and operator note.
\<close>

theorem accepted_transitions_satisfy_schema:
  assumes "mk_transition_command c = Inr c" and "apply_transition s c = Inr r" and "0 \<le> snap_version s"
  shows "constraints (transition_checks (transition_row_of org (out_transition r) (tc_actor c))) = Inr ()"
  using accepted_transition_checks [OF assms] by simp

definition demo_snapshot :: case_snapshot where
  "demo_snapshot = \<lparr>snap_case_id = 10, snap_state = NEW, snap_version = 0\<rparr>"

lemma demo_start_valid: "mk_transition_command demo_start = Inr demo_start"
  by (simp add: mk_transition_command_Inr demo_start_def)

lemma demo_start_accepted: "\<exists>r. apply_transition demo_snapshot demo_start = Inr r"
  by (simp add: apply_transition_def demo_snapshot_def demo_start_def validate_actor_def
      validate_transition_constraints_def demo_actor_def case_write_roles_def Let_def)

theorem accepted_transitions_satisfy_schema_witness:
  "\<exists>r. apply_transition demo_snapshot demo_start = Inr r \<and>
     constraints (transition_checks (transition_row_of 1 (out_transition r) demo_actor)) = Inr ()"
proof -
  from demo_start_accepted obtain r where r: "apply_transition demo_snapshot demo_start = Inr r" ..
  have "tc_actor demo_start = demo_actor" by (simp add: demo_start_def)
  with accepted_transitions_satisfy_schema [OF demo_start_valid r, of 1] r show ?thesis
    by (auto simp: demo_snapshot_def)
qed

section \<open>Writing cases\<close>

text \<open>
  C3. A validated creation command with fresh identifiers and existing references, on a store in its
  invariant, always commits: the result is the new projection, the store afterwards is in its
  invariant again, and the case reads back as new at version 0.
\<close>

theorem create_case_commits:
  assumes "mk_create_case_command c = Inr c" and "full_invariant d"
    and "create_ready oid aid org c (bound org d)"
  shows "\<exists>d'. tenant_connection org (create_case oid aid org c) d =
      (Inr \<lparr>res_case = created_record c, res_created = True\<rparr>, d') \<and> full_invariant d' \<and>
    get_snapshot org (cc_case_id c) (bound org d') =
      Inr \<lparr>snap_case_id = cc_case_id c, snap_state = NEW, snap_version = 0\<rparr>"
proof -
  have ob: "outbox_ok (bound org d)" "at_rest d"
    using assms(2) by (simp_all add: full_invariant_def store_invariant_def case_invariant_def)
  from create_case_ok [OF assms(1) bound_simps(1) assms(3) ob(1)] obtain ins au where
    c: "create_case oid aid org c (bound org d) =
      Inr (\<lparr>res_case = created_record c, res_created = True\<rparr>, created oid org c ins au (bound org d))" by blast
  let ?d = "settled (app_organization_id d) (created oid org c ins au (bound org d))"
  have t: "tenant_connection org (create_case oid aid org c) d =
      (Inr \<lparr>res_case = created_record c, res_created = True\<rparr>, ?d)" by (rule create_commits [OF ob(2) c])
  with create_full_invariant [OF assms(2), of org oid aid c] have inv: "full_invariant ?d" by simp
  have "get_snapshot org (c_id (new_case_row org c)) (bound org ?d) = bindE (CaseState (c_state (new_case_row org c)))
      (\<lambda>s. mk_case_snapshot (c_id (new_case_row org c)) s (c_version (new_case_row org c)))"
    using inv by (intro get_snapshot_row)
      (simp_all add: full_invariant_def store_invariant_def case_invariant_def cases_ok_def)
  with t inv show ?thesis by auto
qed

theorem create_case_commits_witness:
  "\<exists>d'. tenant_connection 1 (create_case 20 21 1 demo_create) demo_store =
      (Inr \<lparr>res_case = created_record demo_create, res_created = True\<rparr>, d') \<and> full_invariant d' \<and>
    get_snapshot 1 (cc_case_id demo_create) (bound 1 d') =
      Inr \<lparr>snap_case_id = cc_case_id demo_create, snap_state = NEW, snap_version = 0\<rparr>"
  by (rule create_case_commits [OF demo_create_valid demo_store_invariant demo_ready])

text \<open>
  C4. Idempotency: once a case exists under a key of its organization, any validated creation with
  that key writes nothing, whatever happened to the case since. With the same request fingerprint it
  returns the stored projection with \<open>created = False\<close>; with another it raises the conflict that
  names both cases.
\<close>

theorem create_case_replay_is_pure:
  assumes "full_invariant d" and "row \<in> set (db_cases d)"
    and "mk_create_case_command c = Inr c" and "c_idempotency_key row = cc_idempotency_key c"
  shows "\<exists>k. case_record_of row = Inr k \<and>
    tenant_connection (c_org row) (create_case oid aid (c_org row) c) d =
      (if c_request_sha256 row = request_sha256 c
       then (Inr \<lparr>res_case = k, res_created = False\<rparr>, d)
       else (Inl (IdempotencyConflictError (cc_idempotency_key c) (c_id row) (cc_case_id c)), d))"
proof -
  let ?org = "c_org row"
  from assms(1) have inv: "at_rest d" "idempotency_ok (bound ?org d)" "cases_ok d"
    by (simp_all add: full_invariant_def store_invariant_def case_invariant_def)
  from inv(3) assms(2) have "state_check (c_state row)" by (simp add: cases_ok_def)
  then obtain k where k: "case_record_of row = Inr k" by (auto simp: state_check_iff case_record_of_def)
  have cc: "create_case oid aid ?org c (bound ?org d) =
    (if c_request_sha256 row = request_sha256 c then Inr (\<lparr>res_case = k, res_created = False\<rparr>, bound ?org d)
     else Inl (IdempotencyConflictError (cc_idempotency_key c) (c_id row) (cc_case_id c)))"
    by (rule create_case_replay [OF _ inv(2) _ refl assms(4) k new_case_row_ok [OF assms(3)]])
      (use assms(2) in simp_all)
  have same: "settled (app_organization_id d) (bound ?org d) = d"
    using inv(1) by (simp add: settled_def bound_def at_rest_def)
  show ?thesis
  proof (cases "c_request_sha256 row = request_sha256 c")
    case True
    with cc have "create_case oid aid ?org c (bound ?org d) = Inr (\<lparr>res_case = k, res_created = False\<rparr>, bound ?org d)"
      by simp
    from create_commits [OF inv(1) this] same k True show ?thesis by simp
  next
    case False
    with cc have "create_case oid aid ?org c (bound ?org d) =
        Inl (IdempotencyConflictError (cc_idempotency_key c) (c_id row) (cc_case_id c))" by simp
    from tenant_connection_failed [where body = "create_case oid aid ?org c", OF this] k False show ?thesis by simp
  qed
qed

theorem create_case_replay_is_pure_witness:
  "\<exists>k. case_record_of (new_case_row 1 demo_create) = Inr k \<and>
    tenant_connection 1 (create_case 22 23 1 demo_create) demo_opened =
      (Inr \<lparr>res_case = k, res_created = False\<rparr>, demo_opened)"
  using create_case_replay_is_pure [OF demo_opened_invariant, of "new_case_row 1 demo_create" demo_create 22 23]
    demo_create_valid by (simp add: demo_opened_tables)

text \<open>A transaction is determined by what its block does on the bound database.\<close>

lemma tenant_connection_cong:
  "body (bound org d) = body' (bound org d) \<Longrightarrow> tenant_connection org body d = tenant_connection org body' d"
  by (simp add: tenant_connection_def tenant_transaction_def bound_def)

lemma service_is_persist:
  assumes "get_snapshot org (tc_case_id c) (bound org d) = Inr cur" and "apply_transition cur c = Inr r"
  shows "tenant_connection org (service_transition (get_snapshot org) (persist_transition oid aid org) c) d =
    tenant_connection org (persist_transition oid aid org r (tc_actor c)) d"
  by (rule tenant_connection_cong) (simp add: service_transition_def assms)

lemma full_invariant_parts:
  assumes "full_invariant d"
  shows "at_rest d" "cases_ok (bound org d)" "history_ok (bound org d)" "outbox_ok (bound org d)"
    "projections_ok (bound org d)" "cases_ok d" "outbox_keys_ok d" "outbox_ok d" "transitions_ok d" "history_ok d"
  using assms by (simp_all add: full_invariant_def store_invariant_def case_invariant_def)

text \<open>
  C5. A validated command that the domain accepts on the stored snapshot, with fresh identifiers and
  a version that still fits PostgreSQL's integer, always commits: no constraint, key or deferred
  trigger of the schema rejects what the domain allows, and the case reads back as the decided
  snapshot.
\<close>

theorem accepted_transition_commits:
  assumes "full_invariant d" and "mk_transition_command c = Inr c"
    and "get_snapshot org (tc_case_id c) (bound org d) = Inr cur" and "apply_transition cur c = Inr r"
    and "transition_ready oid aid org c (bound org d)" and "snap_version cur < 2147483647"
  shows "\<exists>k d'. tenant_connection org
      (service_transition (get_snapshot org) (persist_transition oid aid org) c) d = (Inr k, d') \<and>
    full_invariant d' \<and> get_snapshot org (tc_case_id c) (bound org d') = Inr (out_snapshot r)"
proof -
  note inv = full_invariant_parts [OF assms(1)]
  let ?body = "service_transition (get_snapshot org) (persist_transition oid aid org) c"
  from persist_transition_ok [OF assms(2) bound_simps(1) inv(2-5) assms(5,3,4,6)] obtain k d2 where
    p: "persist_transition oid aid org r (tc_actor c) (bound org d) = Inr (k, d2)" by (auto simp: is_ok_iff)
  then have b: "?body (bound org d) = Inr (k, d2)" by (simp add: service_transition_def assms(3,4))
  let ?d = "settled (app_organization_id d) d2"
  have t: "tenant_connection org ?body d = (Inr k, ?d)"
    by (rule transition_commits [OF inv(1) inv(6) b])
  with persist_full_invariant [OF assms(1), of org oid aid r "tc_actor c"]
    service_is_persist [OF assms(3,4)] have fi: "full_invariant ?d" by simp
  from apply_transition_InrD(1,6) [OF assms(4)] have i: "snap_case_id (out_snapshot r) = tc_case_id c" by simp
  have "current_org d2 = Some org" using persist_transition_InrD [OF p] by (metis persisted_simps(1) bound_simps(1))
  then have "get_snapshot org (tc_case_id c) (bound org ?d) = get_snapshot org (tc_case_id c) d2"
    by (intro get_snapshot_cong) simp_all
  with persist_transition_stores [OF inv(2) p] i t fi show ?thesis by simp
qed

lemma demo_opened_snapshot: "get_snapshot 1 10 (bound 1 demo_opened) = Inr demo_snapshot"
proof -
  have "get_snapshot 1 (c_id (new_case_row 1 demo_create)) (bound 1 demo_opened) =
      bindE (CaseState (c_state (new_case_row 1 demo_create)))
        (\<lambda>s. mk_case_snapshot (c_id (new_case_row 1 demo_create)) s (c_version (new_case_row 1 demo_create)))"
    by (rule get_snapshot_row) (simp_all add: demo_opened_tables)
  then show ?thesis by (simp add: demo_snapshot_def demo_create_def)
qed

lemma demo_opened_audit: "\<exists>au. db_audit demo_opened = [au] \<and> a_id au = 21"
proof -
  from demo_opened_shape obtain ins au where
    c: "create_case 20 21 1 demo_create (bound 1 demo_store) =
      Inr (\<lparr>res_case = created_record demo_create, res_created = True\<rparr>, created 20 1 demo_create ins au (bound 1 demo_store))"
    and d: "demo_opened = settled None (created 20 1 demo_create ins au (bound 1 demo_store))" by blast
  have "a_id au = 21"
  proof (cases rule: create_case_InrD [OF c])
    case (2 ins' au')
    from arg_cong [OF 2(2), of db_audit] have "au = au'"
      unfolding created_other_tables bound_simps demo_store_tables by simp
    with 2 show ?thesis by blast
  qed simp
  then show ?thesis unfolding d settled_simps created_other_tables bound_simps demo_store_tables by simp
qed

lemma demo_start_ready: "transition_ready 40 41 1 demo_start (bound 1 demo_opened)"
proof -
  have ids: "e_id (created_event 1 demo_create) = 11" "e_transition_id (created_event 1 demo_create) = None"
    "o_id (created_outbox 1 20 demo_create) = 20"
    by (simp_all add: demo_create_def created_outbox_def)
  from demo_opened_audit show ?thesis
    by (auto simp: transition_ready_def demo_opened_tables ids demo_start_def simp del: created_event_simps)
qed

theorem accepted_transition_commits_witness:
  "\<exists>k d'. tenant_connection 1
      (service_transition (get_snapshot 1) (persist_transition 40 41 1) demo_start) demo_opened = (Inr k, d') \<and>
    full_invariant d' \<and>
    get_snapshot 1 10 (bound 1 d') = Inr \<lparr>snap_case_id = 10, snap_state = INVESTIGATING, snap_version = 1\<rparr>"
proof -
  from demo_start_accepted obtain r where r: "apply_transition demo_snapshot demo_start = Inr r" ..
  have i: "tc_case_id demo_start = 10" by (simp add: demo_start_def)
  from accepted_transition_commits [OF demo_opened_invariant demo_start_valid
      demo_opened_snapshot [folded i] r demo_start_ready] apply_transition_InrD(6) [OF r]
  show ?thesis by (simp add: demo_snapshot_def i) (simp add: demo_start_def)
qed

text \<open>
  C6. Optimistic concurrency: of two commands decided on the same snapshot by different requests,
  once the first has committed the second fails with the version conflict that names the expected
  and the stored version, and leaves the store as it is.
\<close>

theorem second_writer_loses:
  assumes "full_invariant d" and "get_snapshot org i (bound org d) = Inr cur"
    and "apply_transition cur c1 = Inr r1" and "apply_transition cur c2 = Inr r2"
    and "tenant_connection org (persist_transition o1 a1 org r1 (tc_actor c1)) d = (Inr k, d')"
  shows "tenant_connection org (persist_transition o2 a2 org r2 (tc_actor c2)) d' =
    (Inl (VersionConflictError i (snap_version cur) (snap_version cur + 1)), d')"
proof -
  from tenant_committed [OF assms(5)] obtain d2 where
    p: "persist_transition o1 a1 org r1 (tc_actor c1) (bound org d) = Inr (k, d2)"
    and d': "d' = settled (app_organization_id d) d2" by blast
  note ok = full_invariant_parts(2) [OF assms(1), of org]
  from get_snapshot_InrD [OF assms(2)] have cur: "snap_case_id cur = i" "0 \<le> snap_version cur" by metis+
  from apply_transition_InrD(6) [OF assms(3)] apply_transition_InrD(6) [OF assms(4)] cur(1) have
    o: "snap_case_id (out_snapshot r1) = i" "snap_version (out_snapshot r1) = snap_version cur + 1"
      "snap_case_id (out_snapshot r2) = i" "snap_version (out_snapshot r2) = snap_version cur + 1" by simp_all
  have "current_org d2 = Some org" using persist_transition_InrD [OF p] by (metis persisted_simps(1) bound_simps(1))
  then have "get_snapshot org i (bound org d') = get_snapshot org i d2"
    unfolding d' by (intro get_snapshot_cong) simp_all
  also have "\<dots> = Inr (out_snapshot r1)" using persist_transition_stores [OF ok p] o(1) by simp
  finally have s: "repo_snapshot org (snap_case_id (out_snapshot r2)) (bound org d') = Inr (out_snapshot r1)"
    by (simp add: repo_snapshot_def o(3))
  have "cases_ok (bound org d')" using persist_transition_cases_ok [OF ok p] by (simp add: d')
  from repo.persist_conflict [OF this s, of "(o2, a2)" "tc_actor c2"] o cur(2)
  have "persist_transition o2 a2 org r2 (tc_actor c2) (bound org d') =
      Inl (VersionConflictError i (snap_version cur) (snap_version cur + 1))"
    by (simp add: repo_persist_def)
  then show ?thesis by (rule tenant_connection_failed [where body = "persist_transition o2 a2 org r2 (tc_actor c2)"])
qed

lemma demo_actor_tc: "tc_actor demo_start = demo_actor" "tc_case_id demo_start = 10"
  by (simp_all add: demo_start_def)

theorem second_writer_loses_witness:
  "\<exists>r k d'. apply_transition demo_snapshot demo_start = Inr r \<and>
    tenant_connection 1 (persist_transition 40 41 1 r demo_actor) demo_opened = (Inr k, d') \<and>
    tenant_connection 1 (persist_transition 50 51 1 r demo_actor) d' = (Inl (VersionConflictError 10 0 1), d')"
proof -
  from demo_start_accepted obtain r where r: "apply_transition demo_snapshot demo_start = Inr r" ..
  note inv = full_invariant_parts [OF demo_opened_invariant]
  have snap: "get_snapshot 1 (tc_case_id demo_start) (bound 1 demo_opened) = Inr demo_snapshot"
    using demo_opened_snapshot by (simp add: demo_actor_tc)
  from persist_transition_ok [OF demo_start_valid bound_simps(1) inv(2-5) demo_start_ready snap r]
  obtain k d2 where p: "persist_transition 40 41 1 r demo_actor (bound 1 demo_opened) = Inr (k, d2)"
    by (auto simp: is_ok_iff demo_snapshot_def demo_actor_tc)
  have b: "service_transition (get_snapshot 1) (persist_transition 40 41 1) demo_start (bound 1 demo_opened) = Inr (k, d2)"
    by (simp add: service_transition_def demo_opened_snapshot r p demo_actor_tc)
  from transition_commits [OF inv(1) inv(6) b] service_is_persist [OF snap r, of 40 41]
  have t: "tenant_connection 1 (persist_transition 40 41 1 r (tc_actor demo_start)) demo_opened =
      (Inr k, settled (app_organization_id demo_opened) d2)" by simp
  from second_writer_loses [OF demo_opened_invariant demo_opened_snapshot r r t, of 50 51] t r
  show ?thesis by (auto simp: demo_snapshot_def demo_actor_tc)
qed

text \<open>
  C7. The service refines the pure state machine: in any run of \<open>CaseService.transition\<close> over the
  repository, on any mix of cases, what happens to one case is exactly the pure run of that case's own
  commands from its stored snapshot.
\<close>

theorem service_refines_state_machine:
  assumes "cases_ok d" and "service_run (repo_snapshot org) (repo_persist org) steps d = Inr d'"
    and "repo_snapshot org i d = Inr cur"
  shows "\<exists>final. run_commands cur (filter (\<lambda>c. tc_case_id c = i) (map snd steps)) = Inr final \<and>
    repo_snapshot org i d' = Inr final"
  by (rule repo.run_refines [OF assms])

theorem service_refines_state_machine_witness:
  "\<exists>d' final. service_run (repo_snapshot 1) (repo_persist 1) [((40, 41), demo_start)] (bound 1 demo_opened) = Inr d' \<and>
    run_commands demo_snapshot [demo_start] = Inr final \<and> repo_snapshot 1 10 d' = Inr final"
proof -
  from demo_start_accepted obtain r where r: "apply_transition demo_snapshot demo_start = Inr r" ..
  note inv = full_invariant_parts [OF demo_opened_invariant]
  have snap: "get_snapshot 1 (tc_case_id demo_start) (bound 1 demo_opened) = Inr demo_snapshot"
    using demo_opened_snapshot by (simp add: demo_actor_tc)
  from persist_transition_ok [OF demo_start_valid bound_simps(1) inv(2-5) demo_start_ready snap r]
  obtain k d2 where p: "persist_transition 40 41 1 r demo_actor (bound 1 demo_opened) = Inr (k, d2)"
    by (auto simp: is_ok_iff demo_snapshot_def demo_actor_tc)
  have run: "service_run (repo_snapshot 1) (repo_persist 1) [((40, 41), demo_start)] (bound 1 demo_opened) = Inr d2"
    using demo_opened_snapshot r p by (simp add: service_transition_def repo_snapshot_def repo_persist_def demo_actor_tc)
  have s: "repo_snapshot 1 10 (bound 1 demo_opened) = Inr demo_snapshot"
    using demo_opened_snapshot by (simp add: repo_snapshot_def)
  from service_refines_state_machine [OF inv(2) run s] run show ?thesis by (auto simp: demo_actor_tc)
qed

section \<open>Reachable stores\<close>

text \<open>
  C8. In every store that the API and the publishers can reach, whatever the interleaving and
  wherever a publisher crashed, the immutable transition rows of a case replay from new, one version
  at a time along allowed edges, to exactly the state and version its projection shows.
\<close>

theorem reachable_history_replays:
  assumes "reachable org consumer (d, ph)" and "c \<in> set (db_cases d)"
  shows "history_from ''new'' 0 (case_transitions d (c_id c)) (c_state c) (c_version c) \<and>
    c_version c = int (length (case_transitions d (c_id c)))"
proof -
  from reachable_invariant [OF assms(1)] have "history_ok d"
    by (simp add: system_invariant_def full_invariant_parts)
  with assms(2) have "history_from ''new'' 0 (case_transitions d (c_id c)) (c_state c) (c_version c)"
    by (simp add: history_ok_def)
  with history_from_versions [OF this] show ?thesis by simp
qed

lemma demo_opened_reachable: "reachable 1 ''r'' (demo_opened, \<lambda>n. Idle)"
proof -
  obtain r where t: "tenant_connection 1 (create_case 20 21 1 demo_create) demo_store = (r, demo_opened)"
    unfolding demo_opened_def by (metis prod.collapse)
  show ?thesis
    by (rule reachable.step [OF reachable.start [OF demo_store_empty] system_step.create [OF demo_create_valid t]])
qed

theorem reachable_history_replays_witness:
  "history_from ''new'' 0 (case_transitions demo_opened 10) ''new'' 0 \<and>
    0 = int (length (case_transitions demo_opened 10))"
  using reachable_history_replays [OF demo_opened_reachable, of "new_case_row 1 demo_create"]
  by (simp add: demo_opened_tables) (simp add: demo_create_def)

text \<open>
  C9. Every event a reachable store holds has exactly one outbox row, and that row copies the
  event's organization, case, type, version, correlation and payload: no event is lost or delivered
  twice by construction.
\<close>

theorem every_event_has_one_outbox_row:
  assumes "reachable org consumer (d, ph)" and "e \<in> set (db_events d)"
  shows "\<exists>q. filter (\<lambda>q. o_case_event_id q = e_id e) (db_outbox d) = [q] \<and> copies_event q e"
proof -
  from reachable_invariant [OF assms(1)] have ob: "distinct (map e_id (db_events d))"
    "list_all2 copies_event (db_outbox d) (db_events d)"
    using full_invariant_parts(8) by (auto simp: system_invariant_def outbox_ok_def)
  have ids: "map o_case_event_id qs = map e_id es" if "list_all2 copies_event qs es" for qs es
    using that by (induction rule: list_all2_induct) (simp_all add: copies_event_def)
  from list_all2_mem2 [OF ob(2) assms(2)] obtain q where q: "q \<in> set (db_outbox d)" "copies_event q e" by blast
  have "filter (\<lambda>q. o_case_event_id q = e_id e) (db_outbox d) = [q]"
    by (rule filter_unique_key [where key = o_case_event_id])
      (use q ob(1) ids [OF ob(2)] in \<open>simp_all add: copies_event_def\<close>)
  with q(2) show ?thesis by blast
qed

theorem every_event_has_one_outbox_row_witness:
  "\<exists>q. filter (\<lambda>q. o_case_event_id q = e_id (created_event 1 demo_create)) (db_outbox demo_opened) = [q] \<and>
    copies_event q (created_event 1 demo_create)"
  by (rule every_event_has_one_outbox_row [OF demo_opened_reachable]) (simp add: demo_opened_tables)

end
