(* ===== verification/Delivery_Properties.thy ===== *)
theory Delivery_Properties
  imports Case_Properties
begin

text \<open>
  Properties of the case listing, of unbound sessions, of leasing and settling outbox rows and of the
  publisher, with witnesses on the concrete store of \<open>Case_Properties\<close>.
\<close>

section \<open>The listing\<close>

text \<open>
  C10. Paging is exact: a page holds the first \<open>limit\<close> rows of its selection in strictly descending
  (updated_at, id) order; if it carries a next cursor, the selection that cursor makes is exactly the
  rows the page left out, and if it carries none the page left nothing out. Walking the cursors
  therefore lists every selected case once.
\<close>

theorem listing_pages_are_exact:
  assumes "cases_ok d" and "list_cases org assets limit cursor query state severity d = Inr p"
  defines "rows k \<equiv> all_selected org assets k (effective_query query) (map_option case_state_value state) severity d"
  shows "sorted_wrt strictly_newer (rows cursor)
    \<and> traverseE case_record_of (take (nat limit) (rows cursor)) = Inr (page_items p)
    \<and> (case page_next_cursor p of
         None \<Rightarrow> length (rows cursor) \<le> nat limit
       | Some k \<Rightarrow> rows (Some k) = drop (nat limit) (rows cursor))"
proof -
  from assms(1) have ids: "distinct (map c_id (db_cases d))" by (simp add: cases_ok_def)
  note page = list_cases_page [OF ids assms(2)]
  show ?thesis unfolding rows_def
    using all_selected_strict [OF ids] page by (simp split: option.splits)
qed

theorem listing_pages_are_exact_witness:
  "\<exists>p. list_cases 1 [] 50 None None None None (bound 1 demo_opened) = Inr p \<and>
     length (all_selected 1 [] None None None None (bound 1 demo_opened)) = 1 \<and>
     traverseE case_record_of (take 50 (all_selected 1 [] None None None None (bound 1 demo_opened))) = Inr (page_items p)"
proof -
  have c: "cases_ok (bound 1 demo_opened)" by (rule full_invariant_parts(2) [OF demo_opened_invariant])
  have all: "all_selected 1 [] None None None None (bound 1 demo_opened) = [new_case_row 1 demo_create]"
    by (simp add: all_selected_def visible_def demo_opened_tables list_selects_def sort_by_def)
      (simp add: demo_create_def)
  obtain p where p: "list_cases 1 [] 50 None None None None (bound 1 demo_opened) = Inr p"
    using all by (auto simp: list_cases_def select_list_cases_def all_selected_def)
  from listing_pages_are_exact [OF c p] all p show ?thesis by (auto simp: effective_query_def)
qed

section \<open>A session bound to no organization\<close>

text \<open>
  Without a well-formed \<open>app.organization_id\<close> the repository fails closed: a creation is
  rejected by row-level security, no case can be read, moved or listed, and no outbox row can be
  leased.
\<close>

theorem unbound_connection_fails_closed:
  assumes "app_organization_id d = None \<or> (\<exists>s. app_organization_id d = Some s \<and> \<not> uuid_shape s)"
  shows "create_case oid aid org c d = Inl (RowSecurityError ''cases'')
    \<and> get_snapshot org i d = Inl (CaseNotFoundError i)
    \<and> get_detail org i d = Inl (CaseNotFoundError i)
    \<and> (\<forall>p. list_cases org assets limit cursor query state severity d = Inr p \<longrightarrow> page_items p = [])
    \<and> (\<forall>k d'. persist_transition oid aid org out who d \<noteq> Inr (k, d'))
    \<and> (\<forall>es d'. lease_available u skip org w now n k d = Inr (es, d') \<longrightarrow> es = [] \<and> db_outbox d' = db_outbox d)"
proof -
  from assms have none: "current_org d = None"
    by (auto simp: malformed_setting current_org_def netops_current_organization_id_def)
  have vis: "visible d f rows = []" for f :: "'r \<Rightarrow> uuid" and rows by (simp add: visible_def none)
  have "persist_transition oid aid org out who d \<noteq> Inr (k, d')" for k d'
  proof
    assume "persist_transition oid aid org out who d = Inr (k, d')"
    then have "current_org d = Some org" by (rule persist_transition_InrD)
    with none show False by simp
  qed
  moreover have "es = [] \<and> db_outbox d' = db_outbox d" if "lease_available u skip org w now n k d = Inr (es, d')" for es d'
    by (rule lease_available_InrD [OF that]) (simp add: none visible_def)
  moreover have "get_detail org i d = Inl (CaseNotFoundError i)"
    using none by (simp add: get_detail_def visible_def)
  ultimately show ?thesis
    using unbound_create [OF none] unbound_snapshot [OF none] unbound_list [OF none] by blast
qed

theorem unbound_connection_fails_closed_witness:
  "create_case 20 21 1 demo_create demo_store = Inl (RowSecurityError ''cases'')"
  using unbound_connection_fails_closed [of demo_store] by simp

section \<open>Leases\<close>

text \<open>
  The lease token decides settlement: an acknowledgement succeeds exactly when some unpublished
  row still carries this token, and then publishes that row, clears its lock and changes no other
  row; a stale or foreign token is refused with \<open>OutboxLeaseLostError\<close>.
\<close>

theorem acknowledgement_decided_by_token:
  assumes "outbox_keys_ok d" and "\<forall>r \<in> set (db_outbox d). o_attempt_count r \<le> 2147483647"
    and "current_org d = Some org" and "is_utc t"
  shows "mark_published org l t d =
    (if \<exists>r \<in> set (db_outbox d). holds_lease org l r
     then Inr ((), d\<lparr>db_outbox := set_row (lease_outbox_id l) (publish_row (instant t)) (db_outbox d)\<rparr>)
     else Inl (OutboxLeaseLostError (lease_outbox_id l)))"
  by (rule mark_published_cases [OF assms])

lemma demo_outbox_row:
  "o_id (created_outbox 1 20 demo_create) = 20" "o_locked_by (created_outbox 1 20 demo_create) = None"
  "o_locked_at (created_outbox 1 20 demo_create) = None" "o_attempt_count (created_outbox 1 20 demo_create) = 0"
  "o_published_at (created_outbox 1 20 demo_create) = None" "o_available_at (created_outbox 1 20 demo_create) = 1000"
  by (simp_all add: created_outbox_def) (simp add: outbox_row_of_def creation_event_def demo_create_def)

theorem acknowledgement_decided_by_token_witness:
  "mark_published 1 \<lparr>lease_outbox_id = 20, lease_token = ''w:old''\<rparr> (utc_at 5000) (bound 1 demo_opened) =
     Inl (OutboxLeaseLostError 20)"
proof -
  have k: "outbox_keys_ok (bound 1 demo_opened)"
    using full_invariant_parts(7) [OF demo_opened_invariant] by simp
  have a: "\<forall>r \<in> set (db_outbox (bound 1 demo_opened)). o_attempt_count r \<le> 2147483647"
    by (simp add: demo_opened_tables demo_outbox_row)
  show ?thesis
    by (subst acknowledgement_decided_by_token [OF k a bound_simps(1)])
      (simp_all add: demo_opened_tables holds_lease_def demo_outbox_row)
qed

text \<open>
  C12. Leases are exclusive until they expire: right after a lease, no later sweep whose expiry
  horizon lies before that lease's start can select any of the leased rows, whoever runs it.
\<close>

theorem leases_are_exclusive:
  assumes "lease_available u skip org w now limit lease_for d = Inr (es, d')" and "e \<in> set es"
    and "distinct (map o_id (db_outbox d))" and "instant later - horizon < instant now"
  shows "le_outbox_id e \<notin> set (lease_ids skip' org (instant later) (instant later - horizon) limit' d')"
proof
  assume "le_outbox_id e \<in> set (lease_ids skip' org (instant later) (instant later - horizon) limit' d')"
  then obtain q where q: "q \<in> set (lease_candidates skip' org (instant later) (instant later - horizon) limit' d')"
    and qi: "o_id q = le_outbox_id e" by (auto simp: lease_ids_def)
  note c = candidate_mem [OF q]
  from leased_events_hold [OF assms(1,2)] obtain r where r: "o_id r = le_outbox_id e"
    "lease_row (instant now) (lease_token_of w u) r \<in> set (db_outbox d')" by metis
  have "list_all2 same_business (db_outbox d) (db_outbox d')" by (rule lease_available_InrD [OF assms(1)])
  from same_business_ids [OF this] assms(3) have "distinct (map o_id (db_outbox d'))" by simp
  from distinct_map_eqD [OF this c(1) r(2)] qi r(1) have "q = lease_row (instant now) (lease_token_of w u) r" by simp
  with c(2) assms(4) show False by (simp add: leasable_def)
qed

lemma leased_event_of_lease_row:
  "\<exists>kvs. o_payload q = JObj kvs \<Longrightarrow> \<exists>e. leased_event_of (lease_row t k q) = Inr e"
  by (auto simp: leased_event_of_def)

lemma leased_event_of_lease_row_InrD:
  "leased_event_of (lease_row t k q) = Inr e \<Longrightarrow> le_outbox_id e = o_id q \<and> le_locked_by e = k"
  by (auto simp: leased_event_of_def split: json.splits)

lemma due_row_leased:
  assumes "outbox_keys_ok d" and "current_org d = Some org" and "r \<in> set (db_outbox d)"
    and "leasable org (instant now) (instant now - lease_for) r" and "\<not> skip (o_id r)"
    and "length (ahead_of org (instant now) (instant now - lease_for) r d) < nat limit"
    and "validate_worker_id w = Inr ()" and "is_utc now" and "1 \<le> limit" "limit \<le> 100" and "0 < lease_for"
    and "\<forall>q \<in> set (db_outbox d). o_attempt_count q < 2147483647"
  shows "\<exists>es d' e. lease_available u skip org w now limit lease_for d = Inr (es, d') \<and> e \<in> set es \<and>
    le_outbox_id e = o_id r \<and> le_locked_by e = lease_token_of w u \<and>
    lease_of e = Inr \<lparr>lease_outbox_id = o_id r, lease_token = lease_token_of w u\<rparr>"
proof -
  let ?ids = "lease_ids skip org (instant now) (instant now - lease_for) (nat limit) d"
  let ?p = "\<lambda>r. o_id r \<in> set ?ids \<and> o_org r = org" and ?f = "lease_row (instant now) (lease_token_of w u)"
  let ?rows = "map ?f (filter ?p (visible d o_org (db_outbox d)))"
  have org: "o_org r = org" using assms(4) by (simp add: leasable_def)
  have mem: "o_id r \<in> set ?ids"
    using lease_candidate_due [where skip = skip, OF assms(3,2,4,5,6)] by (simp add: lease_ids_def)
  have checks: "same_business q (?f q) \<and> (\<forall>x \<in> set (outbox_checks (?f q)). fst x) \<and> o_attempt_count (?f q) \<le> 2147483647"
    if "q \<in> set (db_outbox d)" for q
  proof (intro conjI)
    show "same_business q (?f q)" by simp
    have "\<forall>x \<in> set (outbox_checks q). fst x" using assms(1) that by (simp add: outbox_keys_ok_def)
    then show "\<forall>x \<in> set (outbox_checks (?f q)). fst x" by (rule outbox_checks_same [rotated]) simp
    show "o_attempt_count (?f q) \<le> 2147483647" using assms(12) that by auto
  qed
  from update_outbox_ok [of d ?p ?f] checks obtain d' where
    up: "update_outbox ?p ?f d = Inr (?rows, d')" by blast
  have obj: "\<exists>kvs. o_payload q = JObj kvs" if "q \<in> set (db_outbox d)" for q
    using assms(1) that by (simp add: outbox_keys_ok_def)
  have ev: "is_ok (leased_event_of x)" if "x \<in> set ?rows" for x
    using that obj leased_event_of_lease_row by (auto simp: is_ok_iff)
  from traverseE_total [of ?rows leased_event_of] ev obtain es where es: "traverseE leased_event_of ?rows = Inr es"
    by (auto simp: is_ok_iff)
  have la: "lease_available u skip org w now limit lease_for d = Inr (es, d')"
    using assms(7-11) up es
    by (simp add: lease_available_def validate_utc_def Let_def lease_ids_def lease_token_of_def)
  have "?f r \<in> set ?rows" using mem org assms(2,3) by auto
  from traverseE_source [OF es this] obtain e where e: "leased_event_of (?f r) = Inr e" and m: "e \<in> set es" by blast
  from leased_event_of_lease_row_InrD [OF e] have
    f: "le_outbox_id e = o_id r" "le_locked_by e = lease_token_of w u" by simp_all
  have "lease_of e = Inr \<lparr>lease_outbox_id = o_id r, lease_token = lease_token_of w u\<rparr>"
    using lease_token_ok [OF assms(7), of "o_id r" u] f by (simp add: lease_of_def)
  with la m f show ?thesis by blast
qed

text \<open>
  C13. Every due row is served: a row that is unpublished, due, unlocked or past its lease's expiry,
  and not held by a concurrent transaction, is leased by a sweep as soon as fewer than \<open>limit\<close> due rows
  precede it in (available_at, created_at, id) order; in particular a row whose worker crashed comes
  back after its lease expires.
\<close>

theorem due_rows_are_leased:
  assumes "outbox_keys_ok d" and "current_org d = Some org" and "r \<in> set (db_outbox d)"
    and "leasable org (instant now) (instant now - lease_for) r" and "\<not> skip (o_id r)"
    and "length (ahead_of org (instant now) (instant now - lease_for) r d) < nat limit"
    and "validate_worker_id w = Inr ()" and "is_utc now" and "1 \<le> limit" "limit \<le> 100" and "0 < lease_for"
    and "\<forall>q \<in> set (db_outbox d). o_attempt_count q < 2147483647"
  shows "\<exists>es d' e. lease_available u skip org w now limit lease_for d = Inr (es, d') \<and> e \<in> set es \<and>
    le_outbox_id e = o_id r \<and> le_locked_by e = lease_token_of w u \<and>
    lease_of e = Inr \<lparr>lease_outbox_id = o_id r, lease_token = lease_token_of w u\<rparr>"
  by (rule due_row_leased [where skip = skip, OF assms])

text \<open>A sweep of the concrete store.\<close>

lemma demo_keys: "outbox_keys_ok (bound 1 demo_opened)"
  using full_invariant_parts(7) [OF demo_opened_invariant] by simp

lemma demo_worker: "validate_worker_id ''w'' = Inr ()"
  by (simp add: validate_worker_id_def blank_def py_space_def)

theorem due_rows_are_leased_witness:
  "\<exists>es d' e. lease_available 60 (\<lambda>_. False) 1 ''w'' (utc_at 5000) 10 100 (bound 1 demo_opened) = Inr (es, d') \<and>
     e \<in> set es \<and> le_outbox_id e = 20 \<and> le_locked_by e = lease_token_of ''w'' 60 \<and>
     lease_of e = Inr \<lparr>lease_outbox_id = 20, lease_token = lease_token_of ''w'' 60\<rparr>"
proof -
  let ?r = "created_outbox 1 20 demo_create"
  have r: "?r \<in> set (db_outbox (bound 1 demo_opened))" by (simp add: demo_opened_tables)
  have l: "leasable 1 (instant (utc_at 5000)) (instant (utc_at 5000) - 100) ?r"
    by (simp add: leasable_def demo_outbox_row)
  have a: "length (ahead_of 1 (instant (utc_at 5000)) (instant (utc_at 5000) - 100) ?r (bound 1 demo_opened)) < nat 10"
    by (simp add: ahead_of_def demo_opened_tables)
  have c: "\<forall>q \<in> set (db_outbox (bound 1 demo_opened)). o_attempt_count q < 2147483647"
    by (simp add: demo_opened_tables demo_outbox_row)
  show ?thesis
    using due_rows_are_leased [OF demo_keys bound_simps(1) r l, of "\<lambda>_. False" 10 "''w''" 60] a c demo_worker
    by (simp add: demo_outbox_row)
qed

lemma demo_leased:
  "\<exists>es d' e. lease_available 60 (\<lambda>_. False) 1 ''w'' (utc_at 5000) 10 100 (bound 1 demo_opened) = Inr (es, d') \<and>
     e \<in> set es \<and> le_outbox_id e = 20 \<and> le_locked_by e = lease_token_of ''w'' 60 \<and>
     lease_of e = Inr \<lparr>lease_outbox_id = 20, lease_token = lease_token_of ''w'' 60\<rparr>"
proof -
  let ?r = "created_outbox 1 20 demo_create"
  have r: "?r \<in> set (db_outbox (bound 1 demo_opened))" by (simp add: demo_opened_tables)
  have l: "leasable 1 (instant (utc_at 5000)) (instant (utc_at 5000) - 100) ?r"
    by (simp add: leasable_def demo_outbox_row)
  have a: "length (ahead_of 1 (instant (utc_at 5000)) (instant (utc_at 5000) - 100) ?r (bound 1 demo_opened)) < nat 10"
    by (simp add: ahead_of_def demo_opened_tables)
  have c: "\<forall>q \<in> set (db_outbox (bound 1 demo_opened)). o_attempt_count q < 2147483647"
    by (simp add: demo_opened_tables demo_outbox_row)
  show ?thesis
    using due_row_leased [OF demo_keys bound_simps(1) r l, of "\<lambda>_. False" 10 "''w''" 60] a c demo_worker
    by (simp add: demo_outbox_row)
qed

theorem leases_are_exclusive_witness:
  "\<exists>es d'. lease_available 60 (\<lambda>_. False) 1 ''w'' (utc_at 5000) 10 100 (bound 1 demo_opened) = Inr (es, d') \<and>
     20 \<notin> set (lease_ids (\<lambda>_. False) 1 5050 4950 10 d')"
proof -
  from demo_leased obtain es d' e where
    l: "lease_available 60 (\<lambda>_. False) 1 ''w'' (utc_at 5000) 10 100 (bound 1 demo_opened) = Inr (es, d')"
    and e: "e \<in> set es" "le_outbox_id e = 20" by blast
  have "distinct (map o_id (db_outbox (bound 1 demo_opened)))" by (simp add: demo_opened_tables)
  from leases_are_exclusive [OF l e(1) this, of "utc_at 5050" 100 "\<lambda>_. False" 10] l e(2) show ?thesis by auto
qed

section \<open>Publishing\<close>

text \<open>
  C14. One sweep of the publisher, on any database, clock, drawn identifiers and locked rows, whatever
  fails in it, never acknowledges an event without a durable receipt: if every published row had its
  receipt before, every published row has it after, and the store stays well formed.
\<close>

theorem publisher_never_acknowledges_unreceived:
  assumes "world_inv w" and "\<forall>i. event_published org i (w_db w) \<longrightarrow> has_receipt org consumer i (w_db w)"
  shows "let after = snd (publish_once world_clock (world_lease org) (world_mark org) (world_retry org)
      (world_publish org consumer) settings w)
    in world_inv after \<and> (\<forall>i. event_published org i (w_db after) \<longrightarrow> has_receipt org consumer i (w_db after))"
  using receipt_delivery.publish_once_safe [of org consumer settings] assms(1,2)
  unfolding keeps_def receipt_delivery.safe_def Let_def by blast

definition demo_world :: world where
  "demo_world = \<lparr>w_db = demo_opened, w_tick = 0, w_clock = (\<lambda>n. utc_at 5000), w_uuid = (\<lambda>n. 60), w_locked = (\<lambda>n i. False)\<rparr>"

definition demo_settings :: publisher_settings where
  "demo_settings = \<lparr>ps_worker_id = ''w'', ps_batch_size = 10, ps_lease_for = 100, ps_retry_after = 50, ps_poll_interval = 10\<rparr>"

theorem publisher_never_acknowledges_unreceived_witness:
  "world_inv demo_world \<and>
   (let after = snd (publish_once world_clock (world_lease 1) (world_mark 1) (world_retry 1)
      (world_publish 1 ''r'') demo_settings demo_world)
    in world_inv after \<and> {i. event_published 1 i (w_db after)} \<subseteq> {i. has_receipt 1 ''r'' i (w_db after)})"
proof -
  have "world_inv demo_world"
    using demo_keys by (simp add: world_inv_def demo_world_def receipts_ok_def demo_opened_tables)
  moreover have "\<forall>i. event_published 1 i (w_db demo_world) \<longrightarrow> has_receipt 1 ''r'' i (w_db demo_world)"
    by (simp add: demo_world_def event_published_def demo_opened_tables demo_outbox_row)
  ultimately show ?thesis
    using publisher_never_acknowledges_unreceived [of demo_world 1 "''r''" demo_settings] unfolding Let_def by blast
qed

text \<open>
  C15. The same holds of the running system: in every reachable state, with any number of publishers
  interleaved with API commands and crashing between any two transactions, a published row has a
  durable receipt, and there is at most one receipt per organization, consumer and event.
\<close>

theorem reachable_published_has_one_receipt:
  assumes "reachable org consumer (d, ph)" and "event_published org i d"
  shows "\<exists>r. filter (\<lambda>r. i_org r = org \<and> i_consumer_name r = strip consumer \<and> i_event_id r = i) (db_inbox d) = [r]"
proof -
  from reachable_invariant [OF assms(1)] have inv: "receipts_ok d" "acknowledged_accepted org consumer d"
    by (simp_all add: system_invariant_def)
  from inv(2) assms(2) obtain r where r: "r \<in> set (db_inbox d)"
    "i_org r = org" "i_consumer_name r = strip consumer" "i_event_id r = i"
    by (auto simp: acknowledged_accepted_def has_receipt_def)
  have "filter (\<lambda>r. i_org r = org \<and> i_consumer_name r = strip consumer \<and> i_event_id r = i) (db_inbox d) = [r]"
    by (rule filter_unique_key [OF inv(1) [unfolded receipts_ok_def] r(1)]) (use r in simp_all)
  then show ?thesis ..
qed

text \<open>The concrete store after one delivery: leased, received, acknowledged.\<close>

lemma record_once_first:
  assumes "current_org d = Some org" "\<not> blank consumer" "length consumer \<le> 255" "is_utc t"
    "db_inbox d = []" "org \<in> set (db_organizations d)"
  shows "\<exists>d'. record_once u org consumer e payload t d = Inr (True, d')"
proof -
  have "btrim (strip consumer) \<noteq> []"
    using assms(2) by (intro not_blank_btrim not_blank_strip)
  moreover have "is_sha256 (payload_sha256 payload)" by (simp add: payload_sha256_def)
  ultimately show ?thesis
    using assms by (simp add: record_once_def validate_utc_def Let_def insert_inbox_row_def ok_rules)
qed

text \<open>A block that queues no deferred check commits what it returns.\<close>

lemma tenant_connection_plain:
  assumes "body (bound org d) = Inr (x, d2)" and "deferred_checks d2 = []"
  shows "tenant_connection org body d = (Inr x, settled (app_organization_id d) d2)"
  by (rule tenant_connection_committed [where body = body, OF assms(1)]) (simp add: assms(2))

lemma demo_after_lease:
  "\<exists>e d. tenant_connection 1 (lease_available 60 (\<lambda>_. False) 1 ''w'' (utc_at 5000) 10 100) demo_opened = (Inr (fst e # snd e), d)
    \<and> at_rest d \<and> db_inbox d = [] \<and> db_organizations d = [1] \<and> app_organization_id d = None
    \<and> db_outbox d = [lease_row 5000 (lease_token_of ''w'' 60) (created_outbox 1 20 demo_create)]
    \<and> le_case_event_id (fst e) = 11
    \<and> lease_of (fst e) = Inr \<lparr>lease_outbox_id = 20, lease_token = lease_token_of ''w'' 60\<rparr>"
proof -
  let ?k = "lease_token_of ''w'' 60" and ?q = "created_outbox 1 20 demo_create"
  from demo_leased obtain es d2 e where
    l: "lease_available 60 (\<lambda>_. False) 1 ''w'' (utc_at 5000) 10 100 (bound 1 demo_opened) = Inr (es, d2)"
    and e: "e \<in> set es" by blast
  then obtain x xs where es: "es = x # xs" by (cases es) auto
  have up: "d2 = (bound 1 demo_opened)\<lparr>db_outbox := db_outbox d2\<rparr>" by (rule lease_available_InrD [OF l]) simp
  from leased_events_hold [OF l, of x] es obtain r where
    r: "r \<in> set (db_outbox (bound 1 demo_opened))" "le_case_event_id x = o_case_event_id r"
      "lease_row (instant (utc_at 5000)) ?k r \<in> set (db_outbox d2)"
      "lease_of x = Inr \<lparr>lease_outbox_id = o_id r, lease_token = ?k\<rparr>"
    by (metis list.set_intros(1))
  from r(1) have req: "r = ?q" by (simp add: demo_opened_tables)
  have "list_all2 same_business (db_outbox (bound 1 demo_opened)) (db_outbox d2)" by (rule lease_available_InrD [OF l])
  then have "length (db_outbox d2) = 1" by (auto simp: demo_opened_tables dest!: list_all2_lengthD)
  with r(3) req have rows: "db_outbox d2 = [lease_row 5000 ?k ?q]" by (cases "db_outbox d2") auto
  have def_: "deferred_checks d2 = []"
    using demo_opened_rest by (subst up) (simp add: at_rest_def)
  let ?d = "settled None d2"
  have t: "tenant_connection 1 (lease_available 60 (\<lambda>_. False) 1 ''w'' (utc_at 5000) 10 100) demo_opened = (Inr (x # xs), ?d)"
    using tenant_connection_plain [where body = "lease_available 60 (\<lambda>_. False) 1 ''w'' (utc_at 5000) 10 100", OF l def_] es by (simp add: demo_opened_tables)
  have tabs: "db_inbox d2 = []" "db_organizations d2 = [1]" by (subst up, simp add: demo_opened_tables)+
  have ids: "o_case_event_id ?q = 11" "o_id ?q = 20"
    by (simp_all add: created_outbox_def outbox_row_of_def) (simp_all add: creation_event_def demo_create_def)
  have "at_rest ?d" by (simp add: at_rest_def current_org_def netops_current_organization_id_def)
  with t tabs rows r(2,4) req ids show ?thesis
    by (intro exI [of _ "(x, xs)"] exI [of _ ?d]) simp
qed

lemma demo_delivered: "\<exists>d ph. reachable 1 ''r'' (d, ph) \<and> event_published 1 11 d"
proof -
  let ?k = "lease_token_of ''w'' 60" and ?q = "created_outbox 1 20 demo_create"
  let ?row = "lease_row 5000 ?k ?q" and ?l = "\<lparr>lease_outbox_id = 20, lease_token = ?k\<rparr>"
  from demo_after_lease obtain e es d where
    t: "tenant_connection 1 (lease_available 60 (\<lambda>_. False) 1 ''w'' (utc_at 5000) 10 100) demo_opened = (Inr (e # es), d)"
    and d: "at_rest d" "db_inbox d = []" "db_organizations d = [1]" "app_organization_id d = None" "db_outbox d = [?row]"
    and e: "le_case_event_id e = 11" "lease_of e = Inr ?l" by fastforce
  let ?ph = "(\<lambda>n. Idle) (0 := Batch (e # es))"
  have s1: "reachable 1 ''r'' (d, ?ph)"
    by (rule reachable.step [OF demo_opened_reachable system_step.lease [OF refl t]])
  have b: "\<not> blank ''r''" "length ''r'' \<le> 255" by (simp_all add: blank_def py_space_def)
  have "\<exists>d2. record_once 70 1 ''r'' (le_case_event_id e) (le_payload e) (utc_at 6000) (bound 1 d) = Inr (True, d2)"
    by (rule record_once_first) (use b d(2,3) is_utc_utc_at in simp_all)
  then obtain d2 where r: "record_once 70 1 ''r'' (le_case_event_id e) (le_payload e) (utc_at 6000) (bound 1 d) = Inr (True, d2)" ..
  from record_once_tables [OF r] obtain rows where d2: "d2 = (bound 1 d)\<lparr>db_inbox := db_inbox (bound 1 d) @ rows\<rparr>" ..
  have def2: "deferred_checks d2 = []" using d(1) by (simp add: d2 at_rest_def)
  let ?d3 = "settled None d2"
  have t2: "receipt_transaction 1 ''r'' e 70 (utc_at 6000) d = (Inr True, ?d3)"
    unfolding receipt_transaction_def using tenant_connection_plain
      [where body = "record_once 70 1 ''r'' (le_case_event_id e) (le_payload e) (utc_at 6000)", OF r def2] d(4) by simp
  have h: "?ph 0 = Batch (e # es)" by simp
  have s2: "reachable 1 ''r'' (?d3, ?ph(0 := Handed e es))"
    by (rule reachable.step [OF s1 system_step.hand_over [where ph = ?ph, OF h t2]])
  have out3: "db_outbox ?d3 = [?row]" using d(5) by (simp add: d2)
  from reachable_invariant [OF s2] have "full_invariant ?d3" by (simp only: system_invariant_def prod.sel)
  from full_invariant_parts(7) [OF this] have k3: "outbox_keys_ok (bound 1 ?d3)" by simp
  have small: "\<forall>r \<in> set (db_outbox (bound 1 ?d3)). o_attempt_count r \<le> 2147483647"
    using out3 by (simp add: demo_outbox_row)
  have hl: "holds_lease 1 ?l ?row" by (simp add: holds_lease_def demo_outbox_row)
  have "mark_published 1 ?l (utc_at 7000) (bound 1 ?d3) =
      Inr ((), (bound 1 ?d3)\<lparr>db_outbox := set_row 20 (publish_row 7000) [?row]\<rparr>)"
    using mark_published_cases [OF k3 small bound_simps(1) is_utc_utc_at, of ?l 7000] hl out3 by simp
  from tenant_connection_plain [where body = "mark_published 1 ?l (utc_at 7000)", OF this] have
    t3: "tenant_connection 1 (mark_published 1 ?l (utc_at 7000)) ?d3 =
      (Inr (), settled None ((bound 1 ?d3)\<lparr>db_outbox := set_row 20 (publish_row 7000) [?row]\<rparr>))" by simp
  have h2: "(?ph(0 := Handed e es)) 0 = Handed e es" by simp
  have "event_published 1 11 (settled None ((bound 1 ?d3)\<lparr>db_outbox := set_row 20 (publish_row 7000) [?row]\<rparr>))"
    by (simp add: event_published_def set_row_def demo_outbox_row)
      (simp add: creation_event_def demo_create_def)
  with reachable.step [OF s2 system_step.acknowledge [where ph = "?ph(0 := Handed e es)", OF h2 e(2) t3]] show ?thesis by blast
qed

theorem reachable_published_has_one_receipt_witness:
  "\<exists>d ph r. reachable 1 ''r'' (d, ph) \<and> event_published 1 11 d \<and>
     filter (\<lambda>r. i_org r = 1 \<and> i_consumer_name r = strip ''r'' \<and> i_event_id r = 11) (db_inbox d) = [r]"
  using demo_delivered reachable_published_has_one_receipt by blast

end
