(* ===== verification/Artifact_Properties.thy ===== *)
theory Artifact_Properties
  imports Worker_Artifacts Event_Feed Delivery_Properties
begin

text \<open>
  Properties of the event feed and of artifact intake: replay, the processing ledger, completion of an
  upload, and the message that carries a completed upload to the worker.
\<close>

section \<open>The feed\<close>

text \<open>
  C16. Replay is complete: a client of the event feed that follows the last event id of each page, with
  any page size, reads every event its organization and asset grant let it see, once and in
  (occurred_at, id) order, and a client that reconnects at any event it has read continues right behind it.
\<close>

theorem feed_replay_is_complete:
  assumes "feed_ok limit d" and "\<forall>e \<in> set (db_events d). e_actor_id e \<noteq> None" and "length (db_events d) < n"
  shows "\<exists>xs. walk (\<lambda>c. read_after org c as limit d) fe_event_id n None = Inr xs
    \<and> map fe_event_id xs = map e_id (ordered_feed org as d)
    \<and> (\<forall>i < length xs. walk (\<lambda>c. read_after org c as limit d) fe_event_id n (Some (fe_event_id (xs ! i))) =
         Inr (drop (Suc i) xs))"
proof -
  let ?rows = "ordered_feed org as d"
  have sub: "set ?rows \<subseteq> set (db_events d)" using set_feed_rows by (simp add: ordered_feed_def)
  have "is_ok (traverseE feed_event ?rows)"
    by (rule traverseE_total) (use sub assms(2) feed_event_total in blast)
  then obtain xs where xs: "traverseE feed_event ?rows = Inr xs" by (auto simp: is_ok_iff)
  have len: "length ?rows < n"
    using assms(3) by (simp add: ordered_feed_def feed_rows_def visible_def)
      (meson length_filter_le le_less_trans)
  have ids: "list_all2 (\<lambda>r x. fe_event_id x = e_id r) ?rows xs"
    by (rule list_all2_mono [OF traverseE_list_all2 [OF xs]]) (rule feed.key_render)
  then have nth: "fe_event_id (xs ! i) = e_id (?rows ! i)" if "i < length xs" for i
    using that by (simp add: list_all2_conv_all_nth)
  have "length xs = length ?rows" using traverseE_length [OF xs] by simp
  then have "map fe_event_id xs = map e_id ?rows" by (intro nth_equalityI) (simp_all add: nth)
  with feed.walk_all [OF assms(1) xs len] feed.walk_resume [OF assms(1) xs _ len] nth
    \<open>length xs = length ?rows\<close> show ?thesis by auto
qed

theorem feed_replay_is_complete_witness:
  "\<exists>xs. walk (\<lambda>c. read_after 1 c [] 1 (bound 1 demo_opened)) fe_event_id 5 None = Inr xs
    \<and> map fe_event_id xs = map e_id (ordered_feed 1 [] (bound 1 demo_opened))"
proof -
  have "feed_ok 1 (bound 1 demo_opened)" by (simp add: feed_ok_def demo_opened_tables)
  moreover have "\<forall>e \<in> set (db_events (bound 1 demo_opened)). e_actor_id e \<noteq> None"
    by (simp add: demo_opened_tables created_event_def event_row_of_def)
  moreover have "length (db_events (bound 1 demo_opened)) < 5" by (simp add: demo_opened_tables)
  ultimately show ?thesis using feed_replay_is_complete [of 1 "bound 1 demo_opened" 5 1 "[]"] by blast
qed

section \<open>The ledger\<close>

text \<open>
  C17. No insert that the ledger accepts, whatever worker sends it and whatever timestamps it carries,
  leaves a gap in the attempts of an artifact, an attempt without its quarantine, a repeated state in an
  attempt, or a row for evidence of another organization.
\<close>

theorem ledger_insert_keeps_invariant:
  assumes "ledger_ok d" and "insert_processing_row r d = Inr d'"
  shows "ledger_ok d'"
  by (rule insert_processing_ledger_ok [OF assms])

text \<open>
  While rows arrive in the order of their timestamps, every attempt of every artifact walks
  quarantined, verified, redacted, or ends in failed after one of the first two.
\<close>

theorem ordered_ledger_follows_lifecycle:
  assumes "ledger_ok d" and "ledger_in_order d" and "insert_processing_row r d = Inr d'" and "not_backdated d r"
  shows "lifecycle (attempt_states d' a k)"
  using insert_processing_lifecycle [OF assms] by (simp add: ledger_in_order_def)

text \<open>A store with one piece of evidence, opened for processing at time 100.\<close>

definition demo_evidence :: artifact_row where
  "demo_evidence = \<lparr>r_id = 30, r_org = 1, r_case_id = 10, r_artifact_kind = ''network-configuration'',
     r_classification = ''raw'', r_storage_key = ''k'', r_sha256 = replicate 64 CHR ''a'', r_byte_size = 5,
     r_content_type = ''text/plain'', r_original_filename = None, r_encryption_key_reference = ''s3:AES256'',
     r_created_by = Some 2, r_retention_until = 200, r_created_at = 100\<rparr>"

definition demo_row :: "uuid \<Rightarrow> string \<Rightarrow> int \<Rightarrow> processing_row" where
  "demo_row i state t = \<lparr>p_id = i, p_org = 1, p_artifact_id = 30, p_attempt = 1, p_state = state,
     p_processor = ''p'', p_processor_version = ''v1'',
     p_failure_code = (if state = ''failed'' then Some ''scan.failed'' else None),
     p_result_summary = JObj [(''scanner_checks_completed'', JInt 1)], p_correlation_id = 12, p_created_by = None,
     p_occurred_at = t\<rparr>"

definition demo_ledger :: "processing_row list \<Rightarrow> db" where
  "demo_ledger rows = (bound 1 demo_opened)\<lparr>db_artifacts := [demo_evidence], db_processing := rows\<rparr>"

lemma demo_row_simps [simp]:
  "p_id (demo_row i st t) = i" "p_org (demo_row i st t) = 1" "p_artifact_id (demo_row i st t) = 30"
  "p_attempt (demo_row i st t) = 1" "p_state (demo_row i st t) = st" "p_occurred_at (demo_row i st t) = t"
  by (simp_all add: demo_row_def)

lemma demo_ledger_simps [simp]:
  "db_processing (demo_ledger rows) = rows" "db_artifacts (demo_ledger rows) = [demo_evidence]"
  "current_org (demo_ledger rows) = Some 1" "db_organizations (demo_ledger rows) = [1]"
  "(demo_ledger rows)\<lparr>db_processing := rows'\<rparr> = demo_ledger rows'"
  "r_id demo_evidence = 30" "r_org demo_evidence = 1"
  by (simp_all add: demo_ledger_def demo_evidence_def demo_opened_tables current_org_def bound_def
      netops_current_organization_id_def)

lemma demo_row_checks: "st \<in> {''quarantined'', ''verified'', ''redacted'', ''failed''} \<Longrightarrow>
    \<forall>c \<in> set (processing_checks (demo_row i st t)). fst c"
  by (auto simp: processing_checks_def demo_row_def btrim_def strip_of_def rstrip_of_def is_object_def ledger_code_def
      ledger_code_char_def ascii_lower_def ascii_digit_def utf8_length_def jsonb_escape_def json_escape_def
      dec_int_def dec_nat.simps [of "Suc 0"])

lemma demo_insert:
  assumes "validate_artifact_processing_event (demo_ledger rows) (demo_row i st t) = Inr ()"
    and "st \<in> {''quarantined'', ''verified'', ''redacted'', ''failed''}" and "i \<notin> set (map p_id rows)"
    and "\<forall>q \<in> set rows. \<not> (p_artifact_id q = 30 \<and> p_attempt q = 1 \<and> p_state q = st)"
  shows "insert_processing_row (demo_row i st t) (demo_ledger rows) = Inr (demo_ledger (rows @ [demo_row i st t]))"
proof -
  have keys: "\<forall>c \<in> set (processing_keys (demo_ledger rows) (demo_row i st t)). fst c"
    using assms(3,4) by (auto simp: processing_keys_def)
  have cast: "jsonb_cast (p_result_summary (demo_row i st t)) = Inr (p_result_summary (demo_row i st t))"
    by (simp add: jsonb_cast_def demo_row_def)
  show ?thesis unfolding insert_processing_row_def
    by (simp add: cast assms(1) constraints_ok [OF keys] constraints_ok [OF demo_row_checks [OF assms(2)]] int4_ok with_check_ok)
qed

lemma demo_validate:
  "validate_artifact_processing_event (demo_ledger rows) (demo_row i st t) = Inr () \<longleftrightarrow>
    (if st = ''quarantined'' then highest_attempt (filter (\<lambda>q. p_org q = 1 \<and> p_artifact_id q = 30) rows) \<in> {None, Some 0}
     else highest_attempt (filter (\<lambda>q. p_org q = 1 \<and> p_artifact_id q = 30) rows) = Some 1
       \<and> processing_edge (prior_state (filter (\<lambda>q. p_org q = 1 \<and> p_artifact_id q = 30) rows) 1) st)"
  by (auto simp: validate_artifact_processing_event_def Let_def ledger_rows_def visible_def highest_attempt_Nil
      split: option.splits)

lemma demo_first: "insert_processing_row (demo_row 40 ''quarantined'' 100) (demo_ledger []) =
    Inr (demo_ledger [demo_row 40 ''quarantined'' 100])"
  by (subst demo_insert) (simp_all add: demo_validate)

lemma demo_ledger_ok_Nil: "ledger_ok (demo_ledger [])" "ledger_in_order (demo_ledger [])"
  by (simp_all add: ledger_ok_def attempt_states_def attempt_rows_def ledger_in_order_def lifecycle_def)

theorem ledger_insert_keeps_invariant_witness: "ledger_ok (demo_ledger [demo_row 40 ''quarantined'' 100])"
  by (rule ledger_insert_keeps_invariant [OF demo_ledger_ok_Nil(1) demo_first])

theorem ordered_ledger_follows_lifecycle_witness:
  "lifecycle (attempt_states (demo_ledger [demo_row 40 ''quarantined'' 100]) 30 1)"
  by (rule ordered_ledger_follows_lifecycle [OF demo_ledger_ok_Nil demo_first])
    (simp add: not_backdated_def attempt_rows_def)

text \<open>
  The trigger reads the newest state by the writer's own timestamp, so a failure recorded with an
  older time than the quarantine does not end the attempt: the ledger then accepts a verification and a
  redaction of the artifact that failed, and the verdicts of one attempt contradict each other.
\<close>

theorem backdated_failure_is_not_terminal:
  "\<exists>d1 d2 d3. insert_processing_row (demo_row 41 ''failed'' 99) (demo_ledger [demo_row 40 ''quarantined'' 100]) = Inr d1
    \<and> insert_processing_row (demo_row 42 ''verified'' 101) d1 = Inr d2
    \<and> insert_processing_row (demo_row 43 ''redacted'' 102) d2 = Inr d3
    \<and> attempt_states d3 30 1 = [''quarantined'', ''failed'', ''verified'', ''redacted'']"
proof -
  let ?q = "demo_row 40 ''quarantined'' 100" and ?f = "demo_row 41 ''failed'' 99"
  let ?v = "demo_row 42 ''verified'' 101" and ?r = "demo_row 43 ''redacted'' 102"
  have 1: "insert_processing_row ?f (demo_ledger [?q]) = Inr (demo_ledger [?q, ?f])"
    by (subst demo_insert) (simp_all add: demo_validate highest_attempt_def prior_state_def processing_edge_def sort_by_def)
  have 2: "insert_processing_row ?v (demo_ledger [?q, ?f]) = Inr (demo_ledger [?q, ?f, ?v])"
    by (subst demo_insert)
      (simp_all add: demo_validate highest_attempt_def prior_state_def processing_edge_def sort_by_def latest_first_def)
  have 3: "insert_processing_row ?r (demo_ledger [?q, ?f, ?v]) = Inr (demo_ledger [?q, ?f, ?v, ?r])"
    by (subst demo_insert)
      (simp_all add: demo_validate highest_attempt_def prior_state_def processing_edge_def sort_by_def latest_first_def)
  have "attempt_states (demo_ledger [?q, ?f, ?v, ?r]) 30 1 = [''quarantined'', ''failed'', ''verified'', ''redacted'']"
    by (simp add: attempt_states_def attempt_rows_def)
  with 1 2 3 show ?thesis by blast
qed

text \<open>
  A verdict is recorded once: after a worker's verdict that is younger than the artifact's ledger, a
  replay of it, or any other verdict of any worker on that attempt, raises the state conflict and writes nothing.
\<close>

theorem verdict_is_recorded_once:
  assumes "ledger_ok d" and "record_scan_outcome u org c d = Inr (res, d')"
    and "\<forall>q \<in> set (db_processing d). p_artifact_id q = so_artifact_id c \<longrightarrow> p_occurred_at q < instant (so_occurred_at c)"
    and "so_artifact_id c' = so_artifact_id c"
  shows "record_scan_outcome u' org c' d' = Inl (ArtifactProcessingStateConflictError (so_artifact_id c))"
  using verdict_becomes_active [OF assms(1-3)] assms(4)
  by (auto simp: record_scan_outcome_def split: if_splits)

definition demo_verdict :: record_artifact_scan_outcome where
  "demo_verdict = \<lparr>so_artifact_id = 30, so_disposition = CLEAN, so_reason_code = ''scan.clean'', so_processor = ''p'',
     so_processor_version = ''v1'', so_occurred_at = utc_at 150\<rparr>"

lemma demo_recorded:
  "\<exists>res d'. record_scan_outcome 41 1 demo_verdict (demo_ledger [demo_row 40 ''quarantined'' 100]) = Inr (res, d')"
proof -
  let ?q = "demo_row 40 ''quarantined'' 100"
  have act: "select_active_attempt 1 30 (demo_ledger [?q]) = Some ?q"
    by (simp add: select_active_attempt_def visible_def sort_by_def)
  have row: "verdict_row 41 1 demo_verdict ?q = demo_row 41 ''verified'' 150"
    by (simp add: verdict_row_def demo_verdict_def demo_row_def instant_def utc_at_def utcoffset_def)
  have "insert_processing_row (demo_row 41 ''verified'' 150) (demo_ledger [?q]) = Inr (demo_ledger [?q, demo_row 41 ''verified'' 150])"
    by (subst demo_insert)
      (simp_all add: demo_validate highest_attempt_def prior_state_def processing_edge_def sort_by_def latest_first_def)
  then show ?thesis
    by (simp add: record_scan_outcome_def act row) (simp add: demo_verdict_def act row [unfolded demo_verdict_def])
qed

theorem verdict_is_recorded_once_witness:
  "\<exists>res d'. record_scan_outcome 41 1 demo_verdict (demo_ledger [demo_row 40 ''quarantined'' 100]) = Inr (res, d')
    \<and> record_scan_outcome 42 1 demo_verdict d' = Inl (ArtifactProcessingStateConflictError 30)"
proof -
  from demo_recorded obtain res d' where
    r: "record_scan_outcome 41 1 demo_verdict (demo_ledger [demo_row 40 ''quarantined'' 100]) = Inr (res, d')" by blast
  have ok: "ledger_ok (demo_ledger [demo_row 40 ''quarantined'' 100])"
    by (rule insert_processing_ledger_ok [OF demo_ledger_ok_Nil(1) demo_first])
  have "so_artifact_id demo_verdict = 30" "instant (so_occurred_at demo_verdict) = 150"
    by (simp_all add: demo_verdict_def instant_def utc_at_def utcoffset_def)
  then have "record_scan_outcome 42 1 demo_verdict d' = Inl (ArtifactProcessingStateConflictError 30)"
    using verdict_is_recorded_once [OF ok r _ refl, of 42] by simp
  with r show ?thesis by blast
qed

text \<open>
  The two codebases disagree on what a reason code is: the command accepts a colon, the ledger's
  CHECK does not. A validated verdict other than clean whose code holds a colon can never be recorded;
  it always ends in an error that leaves the attempt quarantined.
\<close>

theorem colon_reason_is_never_recorded:
  assumes "mk_record_artifact_scan_outcome c = Inr c" and "so_disposition c \<noteq> CLEAN" and "CHR '':'' \<in> set (so_reason_code c)"
  shows "\<exists>x. record_scan_outcome u org c d = Inl x"
proof (rule ccontr)
  assume "\<not> ?thesis"
  then obtain res d' where "record_scan_outcome u org c d = Inr (res, d')"
    by (metis surj_pair sum.exhaust)
  then obtain q where "insert_processing_row (verdict_row u org c q) d = Inr d'" by (rule record_scan_InrD)
  from insert_processing_InrD(4) [OF this] assms(2) have "ledger_code (so_reason_code c)"
    by (simp add: processing_checks_def)
  with assms(3) show False
    by (auto simp: ledger_code_def list_all_iff ledger_code_char_def ascii_lower_def ascii_digit_def split: list.splits)
qed

definition demo_colon :: record_artifact_scan_outcome where
  "demo_colon = \<lparr>so_artifact_id = 30, so_disposition = REJECTED, so_reason_code = ''clamav:eicar'', so_processor = ''p'',
     so_processor_version = ''v1'', so_occurred_at = utc_at 150\<rparr>"

theorem colon_reason_is_never_recorded_witness:
  "mk_record_artifact_scan_outcome demo_colon = Inr demo_colon
    \<and> (\<exists>x. record_scan_outcome 41 1 demo_colon (demo_ledger [demo_row 40 ''quarantined'' 100]) = Inl x)"
proof -
  have v: "mk_record_artifact_scan_outcome demo_colon = Inr demo_colon"
    by (simp add: mk_record_artifact_scan_outcome_def demo_colon_def delivery_error_code_def code_head_def ascii_digit_def
        ascii_lower_def is_aware_def utc_at_def utcoffset_def)
  have "so_disposition demo_colon \<noteq> CLEAN" "CHR '':'' \<in> set (so_reason_code demo_colon)" by (simp_all add: demo_colon_def)
  with v colon_reason_is_never_recorded [OF v] show ?thesis by blast
qed

section \<open>Completing an upload\<close>

text \<open>Every way a statement fails is a SQLAlchemy error.\<close>

definition sql_only :: "exn + 'a \<Rightarrow> bool" where
  "sql_only m \<longleftrightarrow> (\<forall>e. m = Inl e \<longrightarrow> is_sqlalchemy_error e)"

lemma sql_only_bindE [intro]: "sql_only m \<Longrightarrow> (\<And>x. sql_only (f x)) \<Longrightarrow> sql_only (bindE m f)"
  by (auto simp: sql_only_def bindE_eq_Inl)

lemma sql_only_Inr [simp, intro]: "sql_only (Inr x)"
  by (simp add: sql_only_def)

lemma sql_only_constraints [intro]: "sql_only (constraints cs)"
  unfolding sql_only_def by (induction cs) (simp_all add: constraints.simps)

lemma sql_only_values [intro]:
  "sql_only (int4 v)" "sql_only (int8 v)" "sql_only (with_check d org t)" "sql_only (jsonb_cast j)"
  by (auto simp: sql_only_def int4_def int8_def with_check_def jsonb_cast_def)

lemma sql_only_trigger [intro]: "sql_only (validate_artifact_processing_event d r)"
  by (auto simp: sql_only_def validate_artifact_processing_event_def Let_def split: option.splits)

lemma sql_only_inserts [intro]:
  "sql_only (insert_artifact_row a d)" "sql_only (insert_processing_row p d)" "sql_only (insert_event_row e d)"
  "sql_only (insert_outbox_row o' d)"
  unfolding insert_artifact_row_def insert_processing_row_def insert_event_row_def insert_outbox_row_def
  by (intro sql_only_bindE sql_only_values sql_only_constraints sql_only_trigger sql_only_Inr)+

lemma insert_event_without_actor: "e_actor_id e = None \<Longrightarrow> \<exists>x. insert_event_row e d = Inl x"
  by (cases "insert_event_row e d") (auto simp: insert_event_row_def bindE_eq_Inr)

lemma completion_outbox_fails:
  "\<exists>x. insert_completion_outbox e o' org i t d = Inl x \<and> is_sqlalchemy_error x"
proof -
  have "sql_only (insert_completion_outbox e o' org i t d)"
    unfolding insert_completion_outbox_def
    by (intro sql_only_bindE sql_only_inserts) (auto simp: sql_only_def split: option.splits)
  moreover have "\<exists>x. insert_completion_outbox e o' org i t d = Inl x"
  proof (cases "find_row (\<lambda>r. c_org r = org \<and> c_id r = up_case_id i) (visible d c_org (db_cases d))")
    case (Some r)
    obtain x where "insert_event_row (completion_event_row e org i (c_version r) t) d = Inl x"
      using insert_event_without_actor by (metis completion_event_row_def event_row.select_convs(7))
    with Some show ?thesis by (simp add: insert_completion_outbox_def)
  next
    case None
    then show ?thesis by (simp add: insert_completion_outbox_def del: find_row_None)
  qed
  ultimately show ?thesis unfolding sql_only_def by blast
qed

text \<open>Whatever is done after it, writing the evidence, its first processing row and the completion event fails.\<close>

lemma completion_rows_fail:
  "\<exists>x. bindE (insert_artifact_row a d) (\<lambda>d1. bindE (insert_processing_row p d1) (\<lambda>d2.
      bindE (insert_completion_outbox event outbox org i t d2) k)) = Inl x \<and> is_sqlalchemy_error x"
proof -
  have "sql_only (insert_artifact_row a d)" "\<And>d1. sql_only (insert_processing_row p d1)" by blast+
  moreover have "\<exists>x. bindE (insert_completion_outbox event outbox org i t d2) k = Inl x \<and> is_sqlalchemy_error x" for d2
    using completion_outbox_fails [of event outbox org i t d2] by auto
  ultimately show ?thesis
    by (cases "insert_artifact_row a d"; cases "insert_processing_row p (projr (insert_artifact_row a d))")
      (simp_all add: sql_only_def)
qed

lemma matching_completion_fails:
  assumes "load_for_completion org case_id intent_id d = Inr i" "up_status i = ''pending''" "is_aware now"
    and "instant now < instant (up_expires_at i)" "mk_artifact_upload_request (completion_request org i) = Inr q"
    and "head q = Inr m" "om_content_type m = up_content_type i" "om_content_length m = up_byte_size i"
    and "om_sha256_hex m = up_sha256_hex i"
  shows "\<exists>x. complete_upload ids org case_id intent_id head now d = Inl x \<and> is_sqlalchemy_error x"
  using assms completion_rows_fail
  by (simp add: complete_upload_def verify_metadata_def Let_def)

text \<open>
  C18. A pending upload can never be completed. Expiry, the store's answer and a metadata mismatch are
  reported as declared; but when the object matches its declaration exactly, the completion event is
  written without an actor into a NOT NULL column, so the transaction always fails in the database.
\<close>

theorem pending_upload_never_completes:
  assumes "select_intent org case_id intent_id d = Some r" and "u_status r = ''pending''"
  shows "\<exists>x. complete_upload ids org case_id intent_id head now d = Inl x
    \<and> (if \<not> is_aware now then x = ValueError ''now must be timezone-aware.''
       else if u_expires_at r \<le> instant now then x = ArtifactUploadIntentExpiredError ''Upload intent has expired.''
       else case bindE (mk_artifact_upload_request (completion_request org (upload_intent_of r))) head of
         Inl e \<Rightarrow> x = e
       | Inr m \<Rightarrow>
           if om_content_type m = u_content_type r \<and> om_content_length m = u_byte_size r \<and> om_sha256_hex m = u_sha256 r
           then is_sqlalchemy_error x
           else x = ArtifactUploadVerificationError ''Uploaded object metadata does not match its signed declaration.'')"
proof -
  let ?i = "upload_intent_of r"
  have load: "load_for_completion org case_id intent_id d = Inr ?i" using assms(1) by (simp add: load_for_completion_def)
  have f: "up_status ?i = ''pending''" "instant (up_expires_at ?i) = u_expires_at r"
    "up_content_type ?i = u_content_type r" "up_byte_size ?i = u_byte_size r" "up_sha256_hex ?i = u_sha256 r"
    using assms(2) by (simp_all add: upload_intent_of_def)
  show ?thesis
  proof (cases "bindE (mk_artifact_upload_request (completion_request org ?i)) head")
    case (Inl e)
    then show ?thesis by (auto simp: complete_upload_def load f bindE_eq_Inl)
  next
    case (Inr m)
    then obtain q where q: "mk_artifact_upload_request (completion_request org ?i) = Inr q" "head q = Inr m"
      by (auto simp: bindE_eq_Inr)
    show ?thesis
    proof (cases "is_aware now \<and> instant now < u_expires_at r \<and> om_content_type m = u_content_type r \<and>
        om_content_length m = u_byte_size r \<and> om_sha256_hex m = u_sha256 r")
      case True
      then show ?thesis
        using matching_completion_fails [where ids = ids and head = head and org = org and case_id = case_id and intent_id = intent_id
          and d = d and i = ?i and now = now and q = q and m = m] load q by (simp add: f Inr)
    next
      case False
      then show ?thesis using Inr by (auto simp: complete_upload_def load f q verify_metadata_def Let_def)
    qed
  qed
qed

definition demo_intent :: intent_row where
  "demo_intent = \<lparr>u_id = 50, u_artifact_id = 30, u_org = 1, u_case_id = 10, u_artifact_kind = ''network-configuration'',
     u_classification = ''raw'', u_storage_key = ''k'', u_sha256 = replicate 64 CHR ''a'', u_byte_size = 5,
     u_content_type = ''text/plain'', u_original_filename = None, u_created_by = Some 2, u_correlation_id = 12,
     u_expires_at = 200, u_status = ''pending'', u_completed_at = None, u_created_at = 100\<rparr>"

definition demo_object :: artifact_object_metadata where
  "demo_object = \<lparr>om_content_type = ''text/plain'', om_content_length = 5, om_sha256_hex = replicate 64 CHR ''a'',
     om_encryption_key_reference = ''s3:AES256''\<rparr>"

theorem pending_upload_never_completes_witness:
  "\<exists>x. complete_upload \<lparr>processing_event_id = 60, completion_event_id = 61, completion_outbox_id = 62, completion_audit_id = 63\<rparr>
      1 10 50 (\<lambda>q. Inr demo_object) (utc_at 150) ((bound 1 demo_opened)\<lparr>db_intents := [demo_intent]\<rparr>) = Inl x
    \<and> is_sqlalchemy_error x"
proof -
  have sel: "select_intent 1 10 50 ((bound 1 demo_opened)\<lparr>db_intents := [demo_intent]\<rparr>) = Some demo_intent"
    by (simp add: select_intent_def visible_def demo_intent_def current_org_def bound_def netops_current_organization_id_def)
  have st: "u_status demo_intent = ''pending''" by (simp add: demo_intent_def)
  have req: "mk_artifact_upload_request (completion_request 1 (upload_intent_of demo_intent)) =
      Inr (completion_request 1 (upload_intent_of demo_intent))"
    by (simp add: mk_artifact_upload_request_def completion_request_def upload_intent_of_def demo_intent_def blank_def
        py_space_def is_sha256_def is_lower_hex_def ascii_digit_def list_all_iff)
  show ?thesis
    using pending_upload_never_completes [OF sel st, of _ "\<lambda>q. Inr demo_object" "utc_at 150"] req
    by (simp add: demo_intent_def demo_object_def instant_def utc_at_def is_aware_def utcoffset_def)
qed

text \<open>
  What an operator sees follows the ledger: right after a verdict that is younger than the artifact's
  ledger is recorded, the case's artifact list shows exactly that verdict for the artifact.
\<close>

lemma verdict_becomes_latest:
  assumes ok: "ledger_ok d" and rec: "record_scan_outcome u org c d = Inr (res, d')"
    and later: "\<forall>q \<in> set (db_processing d). p_artifact_id q = so_artifact_id c \<longrightarrow> p_occurred_at q < instant (so_occurred_at c)"
    and a: "r_org a = org" "r_id a = so_artifact_id c"
  shows "\<exists>q. latest_event d' a = Some q \<and> p_state q = rs_state res \<and> p_occurred_at q = instant (so_occurred_at c)"
proof -
  from rec obtain active where ins: "insert_processing_row (verdict_row u org c active) d = Inr d'"
    and res: "rs_state res = p_state (verdict_row u org c active)" by (rule record_scan_InrD) simp
  let ?r = "verdict_row u org c active"
  note i = insert_processing_InrD [OF ins]
  let ?xs = "filter (\<lambda>q. p_org q = r_org a \<and> p_artifact_id q = r_id a) (visible d' p_org (db_processing d'))"
  have co: "current_org d' = Some org" using i(2) by (simp add: i(1) current_org_def)
  have mem: "?r \<in> set ?xs" using co a by (simp add: i(1))
  have newest: "y = ?r \<or> p_occurred_at y < instant (so_occurred_at c)" if "y \<in> set ?xs" for y
    using that later a by (auto simp: i(1))
  have "\<exists>ys. sort_by latest_first ?xs = ?r # ys"
  proof (rule head_of_sort_by)
    show "latest_first b e \<or> latest_first e b" for b e by (rule latest_first_order(1))
    show "latest_first b f" if "latest_first b e" "latest_first e f" for b e f using that by (rule latest_first_order(2))
    show "?r \<in> set ?xs" by (rule mem)
    show "latest_first ?r y" if "y \<in> set ?xs" for y using newest [OF that] by (auto simp: latest_first_def)
    show "y = ?r" if "y \<in> set ?xs" "latest_first y ?r" for y
      using newest [OF that(1)] that(2) by (auto simp: latest_first_def)
  qed
  then obtain ys where "sort_by latest_first ?xs = ?r # ys" ..
  then have "latest_event d' a = Some ?r" by (simp add: latest_event_def)
  with res show ?thesis by simp
qed

theorem status_follows_verdict:
  assumes "ledger_ok d" and "record_scan_outcome u org c d = Inr (res, d')"
    and "\<forall>q \<in> set (db_processing d). p_artifact_id q = so_artifact_id c \<longrightarrow> p_occurred_at q < instant (so_occurred_at c)"
    and "a \<in> set (db_artifacts d)" and "r_org a = org" and "r_id a = so_artifact_id c"
  shows "\<lparr>stat_artifact_id = r_id a, stat_artifact_kind = r_artifact_kind a, stat_status = ''processing_'' @ rs_state res,
      stat_status_updated_at = instant (so_occurred_at c)\<rparr> \<in> set (list_for_case org (r_case_id a) d')"
proof -
  from assms(2) obtain active where ins: "insert_processing_row (verdict_row u org c active) d = Inr d'"
    by (rule record_scan_InrD)
  note i = insert_processing_InrD [OF ins]
  have "db_artifacts d' = db_artifacts d" "current_org d' = Some org" using i(2) by (simp_all add: i(1) current_org_def)
  moreover obtain q where "latest_event d' a = Some q" "p_state q = rs_state res" "p_occurred_at q = instant (so_occurred_at c)"
    using verdict_becomes_latest [OF assms(1-3,5,6)] by blast
  ultimately show ?thesis using assms(4,5)
    by (simp add: list_for_case_def) (rule disjI2, rule image_eqI [of _ _ a], simp_all add: evidence_status_def)
qed

theorem status_follows_verdict_witness:
  "\<exists>res d'. record_scan_outcome 41 1 demo_verdict (demo_ledger [demo_row 40 ''quarantined'' 100]) = Inr (res, d')
    \<and> \<lparr>stat_artifact_id = 30, stat_artifact_kind = ''network-configuration'', stat_status = ''processing_'' @ rs_state res,
        stat_status_updated_at = 150\<rparr> \<in> set (list_for_case 1 10 d')"
proof -
  from demo_recorded obtain res d' where
    r: "record_scan_outcome 41 1 demo_verdict (demo_ledger [demo_row 40 ''quarantined'' 100]) = Inr (res, d')" by blast
  have ok: "ledger_ok (demo_ledger [demo_row 40 ''quarantined'' 100])"
    by (rule insert_processing_ledger_ok [OF demo_ledger_ok_Nil(1) demo_first])
  have "so_artifact_id demo_verdict = 30" "instant (so_occurred_at demo_verdict) = 150"
    by (simp_all add: demo_verdict_def instant_def utc_at_def utcoffset_def)
  moreover have "r_artifact_kind demo_evidence = ''network-configuration''" "r_case_id demo_evidence = 10"
    by (simp_all add: demo_evidence_def)
  ultimately show ?thesis using status_follows_verdict [OF ok r, of demo_evidence] r by auto
qed

section \<open>The worker\<close>

text \<open>
  C19. The message survives the trip: whatever the API writes as the completion payload of an intent that
  satisfies the schema, a leased copy of that outbox row decodes in the worker to exactly one job for the
  same organization, case, artifact, kind, classification and digest.
\<close>

theorem completion_message_roundtrip:
  assumes "\<forall>c \<in> set (intent_checks r). fst c"
    and "leased_event_of (lease_row t k (completion_outbox_row oid eid org (upload_intent_of r) v t')) = Inr e"
  shows "\<exists>j. artifact_job_from_outbox_event e = Inr (Some j) \<and> job_organization_id j = org \<and> job_case_id j = u_case_id r
    \<and> job_artifact_id j = u_artifact_id r \<and> artifact_kind_value (job_artifact_kind j) = u_artifact_kind r
    \<and> artifact_classification_value (job_classification j) = u_classification r \<and> job_sha256_hex j = u_sha256 r"
proof -
  let ?i = "upload_intent_of r"
  have row: "o_payload (completion_outbox_row oid eid org ?i v t') = completion_payload ?i"
    by (simp add: completion_outbox_row_def)
  from assms(2) have e: "le_event_type e = ''artifact.completed.v1''" "le_organization_id e = org" "le_case_id e = u_case_id r"
    "le_payload e = completion_payload ?i"
    by (auto simp: leased_event_of_def completion_outbox_row_def lease_row_def completion_payload_def upload_intent_of_def)
  have c: "u_classification r = ''raw''" "is_sha256 (u_sha256 r)"
    "u_artifact_kind r = ''network-configuration'' \<or> u_artifact_kind r = ''incident-audio''"
    using assms(1) by (auto simp: intent_checks_def)
  then obtain kind where k: "ArtifactKind (u_artifact_kind r) = Inr kind" "artifact_kind_value kind = u_artifact_kind r"
    by (auto simp: ArtifactKind_def)
  have cl: "ArtifactClassification (u_classification r) = Inr RAW" using c(1) by (simp add: ArtifactClassification_def)
  have "artifact_job_from_outbox_event e = Inr (Some \<lparr>job_organization_id = org, job_case_id = u_case_id r,
      job_artifact_id = u_artifact_id r, job_artifact_kind = kind, job_classification = RAW, job_sha256_hex = u_sha256 r\<rparr>)"
    using k(1) cl c(2)
    by (simp add: artifact_job_from_outbox_event_def e completion_payload_def completion_of_payload_def string_payload_def
        UUID_def upload_intent_of_def mk_artifact_completion_event_def validate_job_sha256_def from_completion_event_def
        insert_commute)
  with k(2) c(1) show ?thesis by simp
qed

theorem completion_message_roundtrip_witness:
  "\<exists>e j. leased_event_of (lease_row 5 ''w'' (completion_outbox_row 62 61 1 (upload_intent_of demo_intent) 0 150)) = Inr e
    \<and> artifact_job_from_outbox_event e = Inr (Some j) \<and> job_artifact_id j = 30 \<and> job_case_id j = 10"
proof -
  have "\<forall>c \<in> set (intent_checks demo_intent). fst c"
    by (simp add: intent_checks_def demo_intent_def is_sha256_def is_lower_hex_def ascii_digit_def list_all_iff)
  moreover obtain e where "leased_event_of (lease_row 5 ''w'' (completion_outbox_row 62 61 1 (upload_intent_of demo_intent) 0 150)) = Inr e"
    using leased_event_of_lease_row by (metis completion_outbox_row_def completion_payload_def outbox_row.select_convs(8))
  moreover have "u_artifact_id demo_intent = 30" "u_case_id demo_intent = 10" by (simp_all add: demo_intent_def)
  ultimately show ?thesis using completion_message_roundtrip [of demo_intent 5 "''w''" 62 61 1 0 150] by metis
qed

text \<open>
  Only clean evidence reaches the redactor: when the scanner's verdict is anything else, or it fails,
  processing ends in the same way and the same world whatever the redactor would do.
\<close>

theorem only_clean_artifacts_are_redacted:
  assumes "\<forall>verdict s'. scan job s = (Inr verdict, s') \<longrightarrow> sr_disposition verdict \<noteq> ScanClean"
  shows "process scan redact job s = process scan redact' job s
    \<and> (\<forall>r s'. process scan redact job s = (Inr r, s') \<longrightarrow> apr_redaction r = None)"
  using assms by (auto simp: process_def bindS_def returnS_def split: prod.splits sum.splits)

definition demo_processor :: fake_processor where
  "demo_processor = \<lparr>fp_scan_result = \<lparr>sr_disposition = ScanRejected, sr_reason_code = ''scan.rejected''\<rparr>, fp_scan_jobs = [],
     fp_redaction_result = \<lparr>rr_derivative_sha256_hex = replicate 64 CHR ''b'', rr_redaction_version = ''v1''\<rparr>,
     fp_redaction_jobs = []\<rparr>"

definition demo_job :: artifact_processing_job where
  "demo_job = \<lparr>job_organization_id = 1, job_case_id = 10, job_artifact_id = 30,
     job_artifact_kind = NETWORK_CONFIGURATION, job_classification = RAW, job_sha256_hex = replicate 64 CHR ''a''\<rparr>"

theorem only_clean_artifacts_are_redacted_witness:
  "process fake_scan fake_redact demo_job demo_processor =
    process fake_scan (\<lambda>j. raiseS (RuntimeError ''x'')) demo_job demo_processor"
  by (rule only_clean_artifacts_are_redacted [THEN conjunct1]) (simp add: fake_scan_def demo_processor_def)

end
