(* ===== verification/Isolation_Properties.thy ===== *)
theory Isolation_Properties
  imports Artifact_Properties
begin

text \<open>
  Tenant isolation of every repository: what a transaction of one organization writes is invisible in the rows of
  every other, and what its reads return is determined by its own rows, whatever organization the session is bound to
  (the \<open>WHERE\<close> clauses) and whatever the other organizations have stored.
\<close>

section \<open>Artifact writes\<close>




lemma current_org_tables [simp]:
  "current_org (d\<lparr>db_artifacts := v\<rparr>) = current_org d" "current_org (d\<lparr>db_processing := w\<rparr>) = current_org d"
  "current_org (d\<lparr>db_events := x\<rparr>) = current_org d" "current_org (d\<lparr>db_outbox := y\<rparr>) = current_org d"
  by (simp_all add: current_org_def)


section \<open>Reads\<close>
















section \<open>Isolation\<close>





end
