(* ===== verification/Regex_Match.thy ===== *)
theory Regex_Match
  imports Py_Text
begin

text \<open>
  The part of Python's \<open>re\<close> the program's patterns use: classes, sequence, ordered alternation,
  greedy and lazy repetition, named groups, negative lookahead, word boundaries and anchors. A
  pattern denotes the list of its matches at a position, in the order in which the backtracking
  engine tries them, so the first element is the match \<open>re\<close> reports. A literal matches regardless of
  case, since every pattern of the program is compiled with \<open>IGNORECASE\<close>.
\<close>

section \<open>Patterns and positions\<close>

datatype re =
    Eps
  | Chars "char \<Rightarrow> bool"
  | Seq re re
  | Alt re re
  | Star re
  | Lazy re
  | Group string re
  | NotAhead re
  | WordB
  | Bol
  | Eol

text \<open>A position: what is behind it (nearest character first), what is ahead, the groups so far.\<close>

record re_pos =
  behind :: string
  ahead :: string
  captures :: "(string \<times> string) list"

definition start_of :: "string \<Rightarrow> re_pos" where
  "start_of s = \<lparr>behind = [], ahead = s, captures = []\<rparr>"

definition advance :: "re_pos \<Rightarrow> re_pos" where
  "advance p = p\<lparr>behind := hd (ahead p) # behind p, ahead := tl (ahead p)\<rparr>"

definition at_word_boundary :: "re_pos \<Rightarrow> bool" where
  "at_word_boundary p =
     ((behind p \<noteq> [] \<and> py_word (hd (behind p))) \<noteq> (ahead p \<noteq> [] \<and> py_word (hd (ahead p))))"

text \<open>The text a group matched between two positions.\<close>

definition between :: "re_pos \<Rightarrow> re_pos \<Rightarrow> string" where
  "between p q = take (length (ahead p) - length (ahead q)) (ahead p)"

text \<open>
  Repetition: at most \<open>n\<close> further rounds, each of which must consume. As many rounds as there are
  characters ahead are enough (\<open>repeat_fuel\<close> below).
\<close>

primrec repeat :: "nat \<Rightarrow> bool \<Rightarrow> (re_pos \<Rightarrow> re_pos list) \<Rightarrow> re_pos \<Rightarrow> re_pos list" where
  "repeat 0 greedy f p = [p]"
| "repeat (Suc n) greedy f p =
     (let more = concat (map (repeat n greedy f)
                   (filter (\<lambda>q. length (ahead q) < length (ahead p)) (f p)))
      in if greedy then more @ [p] else p # more)"

primrec matches :: "re \<Rightarrow> re_pos \<Rightarrow> re_pos list" where
  "matches Eps p = [p]"
| "matches (Chars a) p = (if ahead p \<noteq> [] \<and> a (hd (ahead p)) then [advance p] else [])"
| "matches (Seq r1 r2) p = concat (map (matches r2) (matches r1 p))"
| "matches (Alt r1 r2) p = matches r1 p @ matches r2 p"
| "matches (Star r) p = repeat (length (ahead p)) True (matches r) p"
| "matches (Lazy r) p = repeat (length (ahead p)) False (matches r) p"
| "matches (Group g r) p = map (\<lambda>q. q\<lparr>captures := (g, between p q) # captures q\<rparr>) (matches r p)"
| "matches (NotAhead r) p = (if matches r p = [] then [p] else [])"
| "matches WordB p = (if at_word_boundary p then [p] else [])"
| "matches Bol p = (if behind p = [] then [p] else [])"
| "matches Eol p = (if ahead p = [] \<or> ahead p = [CHR 0x0A] then [p] else [])"

section \<open>Abbreviations of the pattern syntax\<close>

definition re_plus :: "re \<Rightarrow> re" where
  "re_plus r = Seq r (Star r)"

definition re_opt :: "re \<Rightarrow> re" where
  "re_opt r = Alt r Eps"

definition same_letter :: "char \<Rightarrow> char \<Rightarrow> bool" where
  "same_letter c x = (lower_char c = lower_char x)"

definition lit :: "string \<Rightarrow> re" where
  "lit s = foldr (\<lambda>c r. Seq (Chars (same_letter c)) r) s Eps"

definition seqs :: "re list \<Rightarrow> re" where
  "seqs rs = foldr Seq rs Eps"

definition re_spaces1 :: re where
  "re_spaces1 = re_plus (Chars py_space)"

definition re_spaces :: re where
  "re_spaces = Star (Chars py_space)"

definition re_nonspaces1 :: re where
  "re_nonspaces1 = re_plus (Chars (\<lambda>c. \<not> py_space c))"

definition re_digits1 :: re where
  "re_digits1 = re_plus (Chars ascii_digit)"

section \<open>The functions of a compiled pattern\<close>

definition first_of :: "'a list \<Rightarrow> 'a option" where
  "first_of xs = (case xs of [] \<Rightarrow> None | x # _ \<Rightarrow> Some x)"

text \<open>\<open>pattern.match(s)\<close> and \<open>pattern.fullmatch(s)\<close>\<close>

definition re_match :: "re \<Rightarrow> string \<Rightarrow> re_pos option" where
  "re_match r s = first_of (matches r (start_of s))"

definition re_fullmatch :: "re \<Rightarrow> string \<Rightarrow> re_pos option" where
  "re_fullmatch r s = first_of (filter (\<lambda>q. ahead q = []) (matches r (start_of s)))"

text \<open>\<open>match.group(name)\<close> of a group that took part in the match\<close>

definition group :: "string \<Rightarrow> re_pos \<Rightarrow> string" where
  "group g p = (case map_of (captures p) g of None \<Rightarrow> [] | Some t \<Rightarrow> t)"

text \<open>
  \<open>pattern.subn(f, s)\<close>: replace the matches found from left to right, each search starting where the
  previous match ended. An empty match replaces nothing here; no pattern given to \<open>subn\<close> has one.
\<close>

definition match_here :: "re \<Rightarrow> re_pos \<Rightarrow> re_pos option" where
  "match_here r p =
     first_of (filter (\<lambda>q. length (ahead q) < length (ahead p)) (matches r (p\<lparr>captures := []\<rparr>)))"

function subn_from :: "re \<Rightarrow> (re_pos \<Rightarrow> string) \<Rightarrow> re_pos \<Rightarrow> string \<times> nat" where
  "subn_from r f p =
     (case match_here r p of
        Some q \<Rightarrow> (let (t, n) = subn_from r f q in (f q @ t, Suc n))
      | None \<Rightarrow> (case ahead p of
          [] \<Rightarrow> ([], 0)
        | c # _ \<Rightarrow> (let (t, n) = subn_from r f (advance p) in (c # t, n))))"
  by pat_completeness auto
termination
  by (relation "measure (\<lambda>(r, f, p). length (ahead p))")
    (auto simp: advance_def match_here_def first_of_def split: list.splits dest: filter_eq_ConsD)

declare subn_from.simps [simp del]

definition subn :: "re \<Rightarrow> (re_pos \<Rightarrow> string) \<Rightarrow> string \<Rightarrow> string \<times> nat" where
  "subn r f s = subn_from r f (start_of s)"

section \<open>Facts\<close>

lemma first_of_Some: "first_of xs = Some x \<Longrightarrow> x \<in> set xs"
  by (auto simp: first_of_def split: list.splits)

lemma first_of_None [simp]: "first_of xs = None \<longleftrightarrow> xs = []"
  by (auto simp: first_of_def split: list.splits)

text \<open>\<open>reaches p q\<close>: \<open>q\<close> lies ahead of \<open>p\<close> in the same text.\<close>

definition reaches :: "re_pos \<Rightarrow> re_pos \<Rightarrow> bool" where
  "reaches p q \<longleftrightarrow> (\<exists>w. ahead p = w @ ahead q \<and> behind q = rev w @ behind p)"

lemma reaches_refl [simp, intro]: "reaches p p"
  by (simp add: reaches_def)

lemma reaches_trans: "reaches p q \<Longrightarrow> reaches q r \<Longrightarrow> reaches p r"
  by (auto simp: reaches_def)

lemma reaches_advance: "ahead p \<noteq> [] \<Longrightarrow> reaches p (advance p)"
  by (cases "ahead p") (auto simp: reaches_def advance_def)

lemma reaches_captures [simp]: "reaches p (q\<lparr>captures := c\<rparr>) = reaches p q"
  by (simp add: reaches_def)

lemma reaches_between: "reaches p q \<Longrightarrow> ahead p = between p q @ ahead q"
  by (auto simp: reaches_def between_def)

lemma reaches_length: "reaches p q \<Longrightarrow> length (ahead q) \<le> length (ahead p)"
  by (auto simp: reaches_def)

lemma repeat_reaches:
  assumes "\<And>p q. q \<in> set (f p) \<Longrightarrow> reaches p q"
  shows "q \<in> set (repeat n g f p) \<Longrightarrow> reaches p q"
proof (induction n arbitrary: p)
  case (Suc n)
  show ?case
  proof (cases "q = p")
    case False
    with Suc.prems obtain m where "m \<in> set (f p)" "q \<in> set (repeat n g f m)"
      by (auto simp: Let_def split: if_splits)
    then show ?thesis using assms Suc.IH reaches_trans by blast
  qed simp
qed simp

lemma matches_reaches: "q \<in> set (matches r p) \<Longrightarrow> reaches p q"
proof (induction r arbitrary: p q)
  case (Chars a)
  then show ?case by (auto intro: reaches_advance split: if_splits)
next
  case (Seq r1 r2)
  from Seq.prems obtain m where "m \<in> set (matches r1 p)" "q \<in> set (matches r2 m)" by auto
  then show ?case using Seq.IH reaches_trans by blast
next
  case (Star r)
  then show ?case using repeat_reaches [of "matches r"] by (metis matches.simps(5))
next
  case (Lazy r)
  then show ?case using repeat_reaches [of "matches r"] by (metis matches.simps(6))
qed (auto split: if_splits)

text \<open>The rounds of a repetition: any fuel that covers the characters ahead gives the same matches.\<close>

lemma repeat_fuel:
  "length (ahead p) \<le> m \<Longrightarrow> length (ahead p) \<le> n \<Longrightarrow> repeat m g f p = repeat n g f p"
proof (induction m arbitrary: n p)
  case 0
  then show ?case by (cases n) simp_all
next
  case (Suc m)
  show ?case
  proof (cases n)
    case 0
    with Suc.prems show ?thesis by simp
  next
    case (Suc k)
    have "map (repeat m g f) (filter (\<lambda>q. length (ahead q) < length (ahead p)) (f p)) =
          map (repeat k g f) (filter (\<lambda>q. length (ahead q) < length (ahead p)) (f p))"
      using Suc.IH [of _ k] Suc.prems \<open>n = Suc k\<close> by auto
    then show ?thesis by (simp only: repeat.simps \<open>n = Suc k\<close>)
  qed
qed

text \<open>What a repetition of a class matches.\<close>

lemma repeat_class:
  assumes f: "\<And>p. f p = (if ahead p \<noteq> [] \<and> a (hd (ahead p)) then [advance p] else [])"
  shows "q \<in> set (repeat n g f p) \<Longrightarrow>
    \<exists>w. ahead p = w @ ahead q \<and> list_all a w \<and> captures q = captures p"
proof (induction n arbitrary: p)
  case (Suc n)
  show ?case
  proof (cases "q = p")
    case False
    with Suc.prems obtain m where "m \<in> set (f p)" and m: "q \<in> set (repeat n g f m)"
      by (auto simp: Let_def split: if_splits)
    then have c: "ahead p \<noteq> []" "a (hd (ahead p))" "q \<in> set (repeat n g f (advance p))"
      by (simp_all add: f split: if_splits)
    from Suc.IH [OF c(3)] obtain w where w: "ahead (advance p) = w @ ahead q" "list_all a w"
      "captures q = captures (advance p)" by blast
    with c(1,2) have "ahead p = (hd (ahead p) # w) @ ahead q" "list_all a (hd (ahead p) # w)"
      "captures q = captures p"
      by (cases "ahead p"; simp add: advance_def)+
    then show ?thesis by blast
  qed (auto intro: exI [of _ "[]"])
qed (auto intro: exI [of _ "[]"])

lemma matches_class_star:
  "q \<in> set (matches (Star (Chars a)) p) \<Longrightarrow>
   \<exists>w. ahead p = w @ ahead q \<and> list_all a w \<and> captures q = captures p"
  by (rule repeat_class [of "matches (Chars a)"]) simp_all

lemma matches_class_plus:
  assumes "q \<in> set (matches (re_plus (Chars a)) p)"
  shows "\<exists>w. ahead p = w @ ahead q \<and> w \<noteq> [] \<and> list_all a w \<and> captures q = captures p"
proof -
  from assms have c: "ahead p \<noteq> []" "a (hd (ahead p))" "q \<in> set (matches (Star (Chars a)) (advance p))"
    by (auto simp: re_plus_def split: if_splits)
  from matches_class_star [OF c(3)] obtain w where "ahead (advance p) = w @ ahead q" "list_all a w"
    "captures q = captures (advance p)" by blast
  with c(1,2) have "ahead p = (hd (ahead p) # w) @ ahead q \<and> hd (ahead p) # w \<noteq> [] \<and>
      list_all a (hd (ahead p) # w) \<and> captures q = captures p"
    by (cases "ahead p"; simp add: advance_def)
  then show ?thesis by blast
qed

text \<open>Which groups a pattern sets; a group's text comes from the text ahead.\<close>

primrec group_names :: "re \<Rightarrow> string set" where
  "group_names Eps = {}"
| "group_names (Chars a) = {}"
| "group_names (Seq r1 r2) = group_names r1 \<union> group_names r2"
| "group_names (Alt r1 r2) = group_names r1 \<union> group_names r2"
| "group_names (Star r) = group_names r"
| "group_names (Lazy r) = group_names r"
| "group_names (Group g r) = insert g (group_names r)"
| "group_names (NotAhead r) = {}"
| "group_names WordB = {}"
| "group_names Bol = {}"
| "group_names Eol = {}"

definition new_captures :: "string set \<Rightarrow> re_pos \<Rightarrow> re_pos \<Rightarrow> bool" where
  "new_captures G p q \<longleftrightarrow>
     (\<exists>cs. captures q = cs @ captures p \<and> (\<forall>(g, t) \<in> set cs. g \<in> G \<and> set t \<subseteq> set (ahead p)))"

lemma new_captures_refl [simp, intro]: "new_captures G p p"
  by (auto simp: new_captures_def)

lemma new_captures_trans:
  assumes "new_captures G p q" "new_captures H q r" "reaches p q"
  shows "new_captures (G \<union> H) p r"
proof -
  from assms(1,2) obtain cs ds where
    cs: "captures q = cs @ captures p" "\<forall>(g, t) \<in> set cs. g \<in> G \<and> set t \<subseteq> set (ahead p)" and
    ds: "captures r = ds @ captures q" "\<forall>(g, t) \<in> set ds. g \<in> H \<and> set t \<subseteq> set (ahead q)"
    unfolding new_captures_def by blast
  from assms(3) have sub: "set (ahead q) \<subseteq> set (ahead p)" by (auto simp: reaches_def)
  have "captures r = (ds @ cs) @ captures p" using cs(1) ds(1) by simp
  moreover have "\<forall>(g, t) \<in> set (ds @ cs). g \<in> G \<union> H \<and> set t \<subseteq> set (ahead p)"
    using cs(2) ds(2) sub by fastforce
  ultimately show ?thesis unfolding new_captures_def by blast
qed

lemma new_captures_mono: "new_captures G p q \<Longrightarrow> G \<subseteq> H \<Longrightarrow> new_captures H p q"
  unfolding new_captures_def by blast

lemma repeat_new_captures:
  assumes "\<And>p q. q \<in> set (f p) \<Longrightarrow> reaches p q \<and> new_captures G p q"
  shows "q \<in> set (repeat n g f p) \<Longrightarrow> new_captures G p q"
proof (induction n arbitrary: p)
  case (Suc n)
  show ?case
  proof (cases "q = p")
    case False
    with Suc.prems obtain m where m: "m \<in> set (f p)" "q \<in> set (repeat n g f m)"
      by (auto simp: Let_def split: if_splits)
    from assms [OF m(1)] Suc.IH [OF m(2)] new_captures_trans [of G p m G q]
    show ?thesis by simp
  qed simp
qed simp

lemma matches_new_captures: "q \<in> set (matches r p) \<Longrightarrow> new_captures (group_names r) p q"
proof (induction r arbitrary: p q)
  case (Chars a)
  then show ?case by (auto simp: new_captures_def advance_def split: if_splits)
next
  case (Seq r1 r2)
  from Seq.prems obtain m where m: "m \<in> set (matches r1 p)" "q \<in> set (matches r2 m)" by auto
  from new_captures_trans [OF Seq.IH(1) [OF m(1)] Seq.IH(2) [OF m(2)] matches_reaches [OF m(1)]]
  show ?case by simp
next
  case (Alt r1 r2)
  then have "new_captures (group_names r1) p q \<or> new_captures (group_names r2) p q" by auto
  then show ?case by (auto intro: new_captures_mono)
next
  case (Star r)
  have "q \<in> set (repeat (length (ahead p)) True (matches r) p)" using Star.prems by simp
  from repeat_new_captures [OF _ this, of "group_names r"] Star.IH matches_reaches
  show ?case by simp
next
  case (Lazy r)
  have "q \<in> set (repeat (length (ahead p)) False (matches r) p)" using Lazy.prems by simp
  from repeat_new_captures [OF _ this, of "group_names r"] Lazy.IH matches_reaches
  show ?case by simp
next
  case (Group g r)
  then obtain m where m: "m \<in> set (matches r p)" "q = m\<lparr>captures := (g, between p m) # captures m\<rparr>"
    by auto
  from Group.IH [OF m(1)] obtain cs where
    cs: "captures m = cs @ captures p" "\<forall>(g, t) \<in> set cs. g \<in> group_names r \<and> set t \<subseteq> set (ahead p)"
    unfolding new_captures_def by blast
  have "set (between p m) \<subseteq> set (ahead p)" by (simp add: between_def set_take_subset)
  with cs m(2) show ?case
    unfolding new_captures_def by (intro exI [of _ "(g, between p m) # cs"]) auto
qed (auto split: if_splits)

lemma group_subset:
  assumes "q \<in> set (matches r p)" "captures p = []"
  shows "set (group g q) \<subseteq> set (ahead p)"
proof -
  from matches_new_captures [OF assms(1)] assms(2)
  have sub: "\<forall>(g, t) \<in> set (captures q). set t \<subseteq> set (ahead p)"
    unfolding new_captures_def by auto
  show ?thesis
  proof (cases "map_of (captures q) g")
    case (Some t)
    with sub show ?thesis using map_of_SomeD [OF Some] by (auto simp: group_def)
  qed (simp add: group_def)
qed

lemma match_here_Some:
  "match_here r p = Some q \<Longrightarrow> q \<in> set (matches r (p\<lparr>captures := []\<rparr>)) \<and> length (ahead q) < length (ahead p)"
  unfolding match_here_def by (auto dest!: first_of_Some)

lemma subn_from_found:
  "match_here r p = Some q \<Longrightarrow>
   subn_from r f p = (f q @ fst (subn_from r f q), Suc (snd (subn_from r f q)))"
  by (simp add: subn_from.simps [of r f p] case_prod_beta Let_def)

lemma subn_from_skip:
  "match_here r p = None \<Longrightarrow> ahead p = c # cs \<Longrightarrow>
   subn_from r f p = (c # fst (subn_from r f (advance p)), snd (subn_from r f (advance p)))"
  by (simp add: subn_from.simps [of r f p] case_prod_beta Let_def)

lemma subn_from_end: "match_here r p = None \<Longrightarrow> ahead p = [] \<Longrightarrow> subn_from r f p = ([], 0)"
  by (simp add: subn_from.simps [of r f p])

text \<open>A substitution seen as an induction over the text that is left.\<close>

lemma subn_from_induct [case_names Found Skip End]:
  assumes "\<And>p q. match_here r p = Some q \<Longrightarrow> P q \<Longrightarrow> P p"
    and "\<And>p c cs. match_here r p = None \<Longrightarrow> ahead p = c # cs \<Longrightarrow> P (advance p) \<Longrightarrow> P p"
    and "\<And>p. match_here r p = None \<Longrightarrow> ahead p = [] \<Longrightarrow> P p"
  shows "P p"
proof (induction "length (ahead p)" arbitrary: p rule: less_induct)
  case less
  show ?case
  proof (cases "match_here r p")
    case (Some q)
    with match_here_Some [OF Some] less assms(1) show ?thesis by blast
  next
    case None
    show ?thesis
    proof (cases "ahead p")
      case (Cons c cs)
      then have "length (ahead (advance p)) < length (ahead p)" by (simp add: advance_def)
      with less None Cons assms(2) show ?thesis by blast
    qed (use None assms(3) in blast)
  qed
qed

text \<open>The text a substitution leaves: characters of the text and of the replacements.\<close>

lemma subn_from_set:
  assumes "\<And>p q. set (ahead p) \<subseteq> A \<Longrightarrow> captures p = [] \<Longrightarrow> q \<in> set (matches r p) \<Longrightarrow> set (f q) \<subseteq> A"
  shows "set (ahead p) \<subseteq> A \<Longrightarrow> set (fst (subn_from r f p)) \<subseteq> A"
proof (induction p rule: subn_from_induct [where r = r])
  case (Found p q)
  from match_here_Some [OF Found(1)] have q: "q \<in> set (matches r (p\<lparr>captures := []\<rparr>))" by blast
  have "set (ahead q) \<subseteq> A" using matches_reaches [OF q] Found(3) by (auto simp: reaches_def)
  moreover have "set (f q) \<subseteq> A" using assms [OF _ _ q] Found(3) by simp
  ultimately show ?case using Found by (simp add: subn_from_found)
next
  case (Skip p c cs)
  then show ?case by (simp add: subn_from_skip) (simp add: advance_def)
next
  case (End p)
  then show ?case by (simp add: subn_from_end)
qed

lemma subn_set:
  assumes "\<And>p q. set (ahead p) \<subseteq> A \<Longrightarrow> captures p = [] \<Longrightarrow> q \<in> set (matches r p) \<Longrightarrow> set (f q) \<subseteq> A"
    and "set s \<subseteq> A"
  shows "set (fst (subn r f s)) \<subseteq> A"
  using subn_from_set [OF assms(1), where p = "start_of s"] assms(2)
  by (simp add: subn_def start_of_def)

text \<open>Without a replacement the text is unchanged.\<close>

lemma subn_from_none: "snd (subn_from r f p) = 0 \<Longrightarrow> fst (subn_from r f p) = ahead p"
proof (induction p rule: subn_from_induct [where r = r])
  case (Skip p c cs)
  then show ?case by (simp add: subn_from_skip) (simp add: advance_def)
qed (simp_all add: subn_from_found subn_from_end)

lemma subn_none: "snd (subn r f s) = 0 \<Longrightarrow> fst (subn r f s) = s"
  using subn_from_none [of r f "start_of s"] by (simp add: subn_def start_of_def)

text \<open>Sequences, literals and the text of one group of a sequence.\<close>

lemma seqs_Nil [simp]: "seqs [] = Eps"
  by (simp add: seqs_def)

lemma seqs_Cons [simp]: "seqs (r # rs) = Seq r (seqs rs)"
  by (simp add: seqs_def)

lemma matches_seqs_append:
  "set (matches (seqs (xs @ ys)) p) = (\<Union>m \<in> set (matches (seqs xs) p). set (matches (seqs ys) m))"
  by (induction xs arbitrary: p) auto

lemma group_names_lit [simp]: "group_names (lit s) = {}"
  by (induction s) (simp_all add: lit_def)

lemma group_names_spaces [simp]:
  "group_names re_spaces1 = {}" "group_names re_spaces = {}" "group_names re_nonspaces1 = {}"
  "group_names re_digits1 = {}" "group_names (re_opt r) = group_names r"
  "group_names (re_plus r) = group_names r"
  by (simp_all add: re_spaces1_def re_spaces_def re_nonspaces1_def re_digits1_def re_plus_def re_opt_def)

lemma matches_lit:
  "q \<in> set (matches (lit s) p) \<Longrightarrow>
   \<exists>w. ahead p = w @ ahead q \<and> str_lower w = str_lower s \<and> captures q = captures p"
proof (induction s arbitrary: p)
  case Nil
  then show ?case by (simp add: lit_def str_lower_def)
next
  case (Cons c cs)
  then have c: "ahead p \<noteq> []" "same_letter c (hd (ahead p))" "q \<in> set (matches (lit cs) (advance p))"
    by (auto simp: lit_def split: if_splits)
  from Cons.IH [OF c(3)] obtain w where "ahead (advance p) = w @ ahead q" "str_lower w = str_lower cs"
    "captures q = captures (advance p)" by blast
  with c(1,2) have "ahead p = (hd (ahead p) # w) @ ahead q \<and>
      str_lower (hd (ahead p) # w) = str_lower (c # cs) \<and> captures q = captures p"
    by (cases "ahead p"; simp add: advance_def same_letter_def str_lower_def)
  then show ?case by blast
qed

lemma new_captures_other: "new_captures G p q \<Longrightarrow> g \<notin> G \<Longrightarrow> group g q = group g p"
proof -
  assume "new_captures G p q" "g \<notin> G"
  then obtain cs where cs: "captures q = cs @ captures p" "\<forall>(g, t) \<in> set cs. g \<in> G \<and> set t \<subseteq> set (ahead p)"
    unfolding new_captures_def by blast
  have "map_of cs g = None"
    using cs(2) \<open>g \<notin> G\<close> by (auto simp: map_of_eq_None_iff)
  then show "group g q = group g p" by (simp add: group_def cs(1) map_add_def)
qed

lemma group_of_seqs:
  assumes "q \<in> set (matches (seqs (xs @ Group g r # ys)) p)" "g \<notin> group_names (seqs ys)"
  shows "\<exists>m m'. reaches p m \<and> m' \<in> set (matches r m) \<and> group g q = between m m'"
proof -
  from assms(1) obtain m m' where m: "m \<in> set (matches (seqs xs) p)" "m' \<in> set (matches r m)"
    "q \<in> set (matches (seqs ys) (m'\<lparr>captures := (g, between m m') # captures m'\<rparr>))"
    unfolding matches_seqs_append by auto
  from new_captures_other [OF matches_new_captures [OF m(3)] assms(2)] m(2) matches_reaches [OF m(1)]
  show ?thesis by (auto simp: group_def)
qed

lemma group_length:
  assumes "q \<in> set (matches (seqs (xs @ Group g r # ys)) p)" "g \<notin> group_names (seqs ys)"
  shows "length (group g q) \<le> length (ahead p)"
proof -
  from group_of_seqs [OF assms] obtain m m' where "reaches p m" "group g q = between m m'" by blast
  then show ?thesis using reaches_length [of p m] by (simp add: between_def)
qed

lemma group_class_plus:
  assumes "q \<in> set (matches (seqs (xs @ Group g (re_plus (Chars a)) # ys)) p)" "g \<notin> group_names (seqs ys)"
  shows "group g q \<noteq> [] \<and> list_all a (group g q)"
proof -
  from group_of_seqs [OF assms] obtain m m' where
    m: "m' \<in> set (matches (re_plus (Chars a)) m)" "group g q = between m m'" by blast
  from matches_class_plus [OF m(1)] m(2) show ?thesis by (auto simp: between_def)
qed

end
