(* ===== verification/Cisco_Parser.thy ===== *)
theory Cisco_Parser
  imports Exceptions Regex_Match
begin

text \<open>
  The line-preserving parser of the Cisco IOS IPsec subset: \<open>parsers/cisco_ios/models.py\<close> (the
  intermediate representation) and \<open>parsers/cisco_ios/parser.py\<close> (its patterns, the treatment of one
  line and the loop), then what a line contributes, for the proofs.
\<close>

section \<open>The intermediate representation\<close>

datatype lifetime_unit = SECONDS | KILOBYTES

fun lifetime_unit_value :: "lifetime_unit \<Rightarrow> string" where
  "lifetime_unit_value SECONDS = ''seconds''"
| "lifetime_unit_value KILOBYTES = ''kilobytes''"

text \<open>\<open>LifetimeUnit(value)\<close>\<close>

definition LifetimeUnit :: "string \<Rightarrow> exn + lifetime_unit" where
  "LifetimeUnit v =
     (if v = ''seconds'' then Inr SECONDS
      else if v = ''kilobytes'' then Inr KILOBYTES
      else Inl (ValueError (v @ '' is not a valid LifetimeUnit'')))"

datatype association_kind = CRYPTO_MAP | IPSEC_PROFILE

fun association_kind_value :: "association_kind \<Rightarrow> string" where
  "association_kind_value CRYPTO_MAP = ''crypto_map''"
| "association_kind_value IPSEC_PROFILE = ''ipsec_profile''"

record source_line =
  sl_number :: nat
  sl_text :: string
  sl_indentation :: nat
  sl_tokens :: "string list"

record parse_warning =
  pw_code :: string
  pw_message :: string
  pw_line_number :: nat

record phase2_lifetime_setting =
  ls_unit :: lifetime_unit
  ls_value :: int
  ls_line_number :: nat

record peer_address =
  pa_value :: string
  pa_line_number :: nat

record ipsec_association =
  ia_kind :: association_kind
  ia_name :: string
  ia_declaration_line :: nat
  ia_sequence :: "int option"
  ia_peer_addresses :: "peer_address list"
  ia_lifetime_settings :: "phase2_lifetime_setting list"

definition association_identifier :: "ipsec_association \<Rightarrow> string" where
  "association_identifier a = (case ia_sequence a of
     None \<Rightarrow> association_kind_value (ia_kind a) @ '':'' @ ia_name a
   | Some n \<Rightarrow> association_kind_value (ia_kind a) @ '':'' @ ia_name a @ '':'' @ dec_int n)"

text \<open>The loop over the reversed settings that \<open>effective_override\<close> and \<open>global_lifetime\<close> share.\<close>

definition effective_override :: "ipsec_association \<Rightarrow> lifetime_unit \<Rightarrow> phase2_lifetime_setting option" where
  "effective_override a u = find_row (\<lambda>s. ls_unit s = u) (rev (ia_lifetime_settings a))"

record cisco_ios_config =
  cc_source_lines :: "source_line list"
  cc_global_phase2_lifetimes :: "phase2_lifetime_setting list"
  cc_ipsec_associations :: "ipsec_association list"
  cc_warnings :: "parse_warning list"

definition global_lifetime :: "cisco_ios_config \<Rightarrow> lifetime_unit \<Rightarrow> phase2_lifetime_setting option" where
  "global_lifetime c u = find_row (\<lambda>s. ls_unit s = u) (rev (cc_global_phase2_lifetimes c))"

section \<open>The patterns\<close>

definition profile_declaration :: re where
  "profile_declaration =
     seqs [Bol, lit ''crypto'', re_spaces1, lit ''ipsec'', re_spaces1, lit ''profile'', re_spaces1,
       Group ''name'' re_nonspaces1, re_spaces, Eol]"

definition crypto_map_declaration :: re where
  "crypto_map_declaration =
     seqs [Bol, lit ''crypto'', re_spaces1, re_opt (Group ''dynamic'' (lit ''dynamic-'')), lit ''map'',
       re_spaces1, Group ''name'' re_nonspaces1, re_spaces1, Group ''sequence'' re_digits1, WordB]"

definition lifetime_unit_re :: re where
  "lifetime_unit_re = Group ''unit'' (Alt (lit ''seconds'') (lit ''kilobytes''))"

definition global_lifetime_re :: re where
  "global_lifetime_re =
     seqs [Bol, lit ''crypto'', re_spaces1, lit ''ipsec'', re_spaces1, lit ''security-association'',
       re_spaces1, lit ''lifetime'', re_spaces1, lifetime_unit_re, re_spaces1,
       Group ''value'' re_nonspaces1, re_spaces, Eol]"

definition set_lifetime_re :: re where
  "set_lifetime_re =
     seqs [Bol, lit ''set'', re_spaces1, lit ''security-association'', re_spaces1, lit ''lifetime'',
       re_spaces1, lifetime_unit_re, re_spaces1, Group ''value'' re_nonspaces1, re_spaces, Eol]"

definition set_peer_re :: re where
  "set_peer_re =
     seqs [Bol, lit ''set'', re_spaces1, lit ''peer'', re_spaces1, Group ''peer'' re_nonspaces1]"

definition lifetime_prefix_re :: re where
  "lifetime_prefix_re =
     seqs [Bol, re_opt (seqs [lit ''crypto'', re_spaces1, lit ''ipsec'', re_spaces1]),
       re_opt (Seq (lit ''set'') re_spaces1), lit ''security-association'', re_spaces1,
       lit ''lifetime'', WordB]"

section \<open>Parsing\<close>

record association_builder =
  ab_kind :: association_kind
  ab_name :: string
  ab_declaration_line :: nat
  ab_sequence :: "int option"
  ab_peer_addresses :: "peer_address list"
  ab_lifetime_settings :: "phase2_lifetime_setting list"

definition freeze :: "association_builder \<Rightarrow> ipsec_association" where
  "freeze b = \<lparr>ia_kind = ab_kind b, ia_name = ab_name b, ia_declaration_line = ab_declaration_line b,
     ia_sequence = ab_sequence b, ia_peer_addresses = ab_peer_addresses b,
     ia_lifetime_settings = ab_lifetime_settings b\<rparr>"

definition to_source_line :: "nat \<Rightarrow> string \<Rightarrow> source_line" where
  "to_source_line number raw_line =
     (let line = rstrip_of (\<lambda>c. c = CHR 0x0D \<or> c = CHR 0x0A) raw_line;
          without_indent = dropWhile (\<lambda>c. c = CHR '' '' \<or> c = CHR 0x09) line
      in \<lparr>sl_number = number, sl_text = line, sl_indentation = length line - length without_indent,
          sl_tokens = split_ws without_indent\<rparr>)"

text \<open>\<open>repr\<close> of a string, which the invalid-lifetime message shows.\<close>

definition repr_char :: "char \<Rightarrow> char \<Rightarrow> string" where
  "repr_char quote c = (let n = (of_char c :: nat) in
     if c = quote \<or> c = CHR 0x5C then [CHR 0x5C, c]
     else if n = 9 then [CHR 0x5C, CHR ''t'']
     else if n = 10 then [CHR 0x5C, CHR ''n'']
     else if n = 13 then [CHR 0x5C, CHR ''r'']
     else if n < 32 \<or> (127 \<le> n \<and> n \<le> 160) \<or> n = 173 then [CHR 0x5C, CHR ''x''] @ hex_pad 2 n
     else [c])"

definition py_repr :: "string \<Rightarrow> string" where
  "py_repr s =
     (let quote = (if CHR 0x27 \<in> set s \<and> CHR 0x22 \<notin> set s then CHR 0x22 else CHR 0x27)
      in [quote] @ concat (map (repr_char quote) s) @ [quote])"

definition malformed_warning :: "source_line \<Rightarrow> parse_warning" where
  "malformed_warning line =
     \<lparr>pw_code = ''cisco_ios.ipsec.malformed_phase2_lifetime'',
      pw_message = ''IPsec Phase 2 lifetime command is malformed and was not applied.'',
      pw_line_number = sl_number line\<rparr>"

definition invalid_warning :: "source_line \<Rightarrow> string \<Rightarrow> re_pos \<Rightarrow> parse_warning" where
  "invalid_warning line command m =
     \<lparr>pw_code = ''cisco_ios.ipsec.invalid_phase2_lifetime'',
      pw_message = ''IPsec Phase 2 '' @ str_lower (group ''unit'' m) @ '' lifetime '' @
        py_repr (group ''value'' m) @ '' in '' @ command @ '' must be a positive integer.'',
      pw_line_number = sl_number line\<rparr>"

text \<open>\<open>int(text)\<close> with its \<open>ValueError\<close> handled as 0.\<close>

definition lifetime_value :: "re_pos \<Rightarrow> int" where
  "lifetime_value m = (case py_int (group ''value'' m) of None \<Rightarrow> 0 | Some v \<Rightarrow> v)"

definition parse_lifetime ::
  "source_line \<Rightarrow> string \<Rightarrow> re_pos option \<Rightarrow> parse_warning list \<Rightarrow>
   exn + (phase2_lifetime_setting option \<times> parse_warning list)" where
  "parse_lifetime line command matched warnings = (case matched of
     None \<Rightarrow> Inr (None, warnings @ [malformed_warning line])
   | Some m \<Rightarrow>
       if lifetime_value m \<le> 0 then Inr (None, warnings @ [invalid_warning line command m])
       else bindE (LifetimeUnit (str_lower (group ''unit'' m))) (\<lambda>u.
         Inr (Some \<lparr>ls_unit = u, ls_value = lifetime_value m, ls_line_number = sl_number line\<rparr>,
              warnings)))"

definition top_level_declaration :: "string \<Rightarrow> nat \<Rightarrow> exn + association_builder option" where
  "top_level_declaration command line_number = (case re_fullmatch profile_declaration command of
     Some m \<Rightarrow> Inr (Some \<lparr>ab_kind = IPSEC_PROFILE, ab_name = group ''name'' m,
       ab_declaration_line = line_number, ab_sequence = None, ab_peer_addresses = [],
       ab_lifetime_settings = []\<rparr>)
   | None \<Rightarrow> (case re_match crypto_map_declaration command of
       Some m \<Rightarrow> (case py_int (group ''sequence'' m) of
           None \<Rightarrow> Inl (ValueError ''Exceeds the limit for integer string conversion'')
         | Some n \<Rightarrow> Inr (Some \<lparr>ab_kind = CRYPTO_MAP, ab_name = group ''name'' m,
             ab_declaration_line = line_number, ab_sequence = Some n, ab_peer_addresses = [],
             ab_lifetime_settings = []\<rparr>))
     | None \<Rightarrow> Inr None))"

text \<open>The variables of the parser's loop.\<close>

record parser_state =
  ps_warnings :: "parse_warning list"
  ps_globals :: "phase2_lifetime_setting list"
  ps_associations :: "ipsec_association list"
  ps_current :: "association_builder option"

definition ignored :: "string \<Rightarrow> bool" where
  "ignored command = (command = [] \<or> startswith command ''!'')"

definition close_current :: "parser_state \<Rightarrow> parser_state" where
  "close_current st = (case ps_current st of
     None \<Rightarrow> st
   | Some b \<Rightarrow> st\<lparr>ps_associations := ps_associations st @ [freeze b], ps_current := None\<rparr>)"

definition parse_top_level :: "source_line \<Rightarrow> string \<Rightarrow> parser_state \<Rightarrow> exn + parser_state" where
  "parse_top_level line command st =
     (let st = close_current st; global_match = re_fullmatch global_lifetime_re command in
      if global_match \<noteq> None \<or> re_match lifetime_prefix_re command \<noteq> None
      then bindE (parse_lifetime line ''global configuration'' global_match (ps_warnings st))
             (\<lambda>(setting, warnings). Inr (case setting of
                None \<Rightarrow> st\<lparr>ps_warnings := warnings\<rparr>
              | Some s \<Rightarrow> st\<lparr>ps_warnings := warnings, ps_globals := ps_globals st @ [s]\<rparr>))
      else bindE (top_level_declaration command (sl_number line))
             (\<lambda>b. Inr (st\<lparr>ps_current := b\<rparr>)))"

definition parse_nested ::
  "source_line \<Rightarrow> string \<Rightarrow> association_builder \<Rightarrow> parser_state \<Rightarrow> exn + parser_state" where
  "parse_nested line command b st =
     (let lifetime_match = re_fullmatch set_lifetime_re command in
      if lifetime_match \<noteq> None \<or> re_match lifetime_prefix_re command \<noteq> None
      then bindE (parse_lifetime line (ab_name b) lifetime_match (ps_warnings st))
             (\<lambda>(setting, warnings). Inr (case setting of
                None \<Rightarrow> st\<lparr>ps_warnings := warnings\<rparr>
              | Some s \<Rightarrow> st\<lparr>ps_warnings := warnings,
                  ps_current := Some (b\<lparr>ab_lifetime_settings := ab_lifetime_settings b @ [s]\<rparr>)\<rparr>))
      else Inr (case re_match set_peer_re command of
             None \<Rightarrow> st
           | Some m \<Rightarrow> st\<lparr>ps_current := Some (b\<lparr>ab_peer_addresses := ab_peer_addresses b @
               [\<lparr>pa_value = group ''peer'' m, pa_line_number = sl_number line\<rparr>]\<rparr>)\<rparr>))"

definition parse_line :: "source_line \<Rightarrow> parser_state \<Rightarrow> exn + parser_state" where
  "parse_line line st =
     (let command = strip (sl_text line) in
      if ignored command then Inr st
      else if sl_indentation line = 0 then parse_top_level line command st
      else case ps_current st of
          None \<Rightarrow> Inr st
        | Some b \<Rightarrow> parse_nested line command b st)"

fun parse_lines :: "source_line list \<Rightarrow> parser_state \<Rightarrow> exn + parser_state" where
  "parse_lines [] st = Inr st"
| "parse_lines (l # ls) st = bindE (parse_line l st) (parse_lines ls)"

text \<open>\<open>enumerate(configuration.splitlines(), start=1)\<close>\<close>

definition number_lines :: "string list \<Rightarrow> source_line list" where
  "number_lines ls = map (\<lambda>(n, l). to_source_line n l) (zip [1..<Suc (length ls)] ls)"

definition initial_parser :: parser_state where
  "initial_parser = \<lparr>ps_warnings = [], ps_globals = [], ps_associations = [], ps_current = None\<rparr>"

definition parse_cisco_ios_config :: "string \<Rightarrow> exn + cisco_ios_config" where
  "parse_cisco_ios_config configuration =
     (let source_lines = number_lines (splitlines configuration) in
      bindE (parse_lines source_lines initial_parser) (\<lambda>st.
        let st = close_current st in
        Inr \<lparr>cc_source_lines = source_lines, cc_global_phase2_lifetimes = ps_globals st,
             cc_ipsec_associations = ps_associations st, cc_warnings = ps_warnings st\<rparr>))"

end
