(* ===== verification/Cisco_Blocks.thy ===== *)
theory Cisco_Blocks
  imports Cisco_Parser
begin

text \<open>
  The parser against a reading of the configuration by blocks: each unindented command opens a block
  of the indented commands that follow it. \<open>block_config\<close> states what the parser's loop returns
  without its state; the lemmas show that the loop returns exactly that, whenever no line is longer
  than the interpreter's limit on decimal literals, and what the settings and evidence lines are.
\<close>

section \<open>What one line contributes\<close>

abbreviation command_of :: "source_line \<Rightarrow> string" where
  "command_of l \<equiv> strip (sl_text l)"

definition significant :: "source_line \<Rightarrow> bool" where
  "significant l = (\<not> ignored (command_of l))"

definition top_level :: "source_line \<Rightarrow> bool" where
  "top_level l = (sl_indentation l = 0)"

definition lifetime_command :: "re \<Rightarrow> source_line \<Rightarrow> bool" where
  "lifetime_command pat l =
     (re_fullmatch pat (command_of l) \<noteq> None \<or> re_match lifetime_prefix_re (command_of l) \<noteq> None)"

definition unit_of :: "re_pos \<Rightarrow> lifetime_unit" where
  "unit_of m = (if str_lower (group ''unit'' m) = ''seconds'' then SECONDS else KILOBYTES)"

definition setting_of :: "re \<Rightarrow> source_line \<Rightarrow> phase2_lifetime_setting option" where
  "setting_of pat l = (case re_fullmatch pat (command_of l) of
     None \<Rightarrow> None
   | Some m \<Rightarrow> if lifetime_value m \<le> 0 then None
       else Some \<lparr>ls_unit = unit_of m, ls_value = lifetime_value m, ls_line_number = sl_number l\<rparr>)"

definition warning_of :: "re \<Rightarrow> string \<Rightarrow> source_line \<Rightarrow> parse_warning list" where
  "warning_of pat context l =
     (if \<not> lifetime_command pat l then []
      else case re_fullmatch pat (command_of l) of
          None \<Rightarrow> [malformed_warning l]
        | Some m \<Rightarrow> if lifetime_value m \<le> 0 then [invalid_warning l context m] else [])"

definition peer_of :: "source_line \<Rightarrow> peer_address option" where
  "peer_of l = (if lifetime_command set_lifetime_re l then None
     else map_option (\<lambda>m. \<lparr>pa_value = group ''peer'' m, pa_line_number = sl_number l\<rparr>)
            (re_match set_peer_re (command_of l)))"

definition declaration_of :: "source_line \<Rightarrow> association_builder option" where
  "declaration_of l = (if lifetime_command global_lifetime_re l then None
     else case top_level_declaration (command_of l) (sl_number l) of Inl _ \<Rightarrow> None | Inr b \<Rightarrow> b)"

section \<open>The reading by blocks\<close>

fun blocks :: "source_line list \<Rightarrow> (source_line \<times> source_line list) list" where
  "blocks [] = []"
| "blocks (l # ls) =
     (if top_level l then [(l, takeWhile (\<lambda>l. \<not> top_level l) ls)] else []) @ blocks ls"

definition extend :: "association_builder \<Rightarrow> source_line list \<Rightarrow> association_builder" where
  "extend b body = b\<lparr>ab_peer_addresses := ab_peer_addresses b @ List.map_filter peer_of body,
     ab_lifetime_settings := ab_lifetime_settings b @ List.map_filter (setting_of set_lifetime_re) body\<rparr>"

definition block_association :: "source_line \<times> source_line list \<Rightarrow> ipsec_association option" where
  "block_association = (\<lambda>(h, body). map_option (\<lambda>b. freeze (extend b body)) (declaration_of h))"

definition body_warnings :: "association_builder option \<Rightarrow> source_line list \<Rightarrow> parse_warning list" where
  "body_warnings b body = (case b of
     None \<Rightarrow> []
   | Some b \<Rightarrow> concat (map (warning_of set_lifetime_re (ab_name b)) body))"

definition block_warnings :: "source_line \<times> source_line list \<Rightarrow> parse_warning list" where
  "block_warnings = (\<lambda>(h, body).
     warning_of global_lifetime_re ''global configuration'' h @ body_warnings (declaration_of h) body)"

definition block_config :: "string \<Rightarrow> cisco_ios_config" where
  "block_config configuration =
     (let ls = number_lines (splitlines configuration); cs = filter significant ls in
      \<lparr>cc_source_lines = ls,
       cc_global_phase2_lifetimes =
         List.map_filter (setting_of global_lifetime_re) (filter top_level cs),
       cc_ipsec_associations = List.map_filter block_association (blocks cs),
       cc_warnings = concat (map block_warnings (blocks cs))\<rparr>)"

section \<open>The groups of the patterns\<close>

lemma lower_lit:
  assumes "m' \<in> set (matches (lit s) m)" shows "str_lower (between m m') = str_lower s"
  using matches_lit [OF assms] by (auto simp: between_def)

lemma unit_group:
  assumes "m' \<in> set (matches (Alt (lit ''seconds'') (lit ''kilobytes'')) m)"
  shows "str_lower (between m m') = ''seconds'' \<or> str_lower (between m m') = ''kilobytes''"
proof -
  have l: "str_lower ''seconds'' = ''seconds''" "str_lower ''kilobytes'' = ''kilobytes''"
    by (simp_all add: str_lower_def lower_char_def)
  from assms have "m' \<in> set (matches (lit ''seconds'') m) \<or> m' \<in> set (matches (lit ''kilobytes'') m)"
    by simp
  then show ?thesis using lower_lit [of m' _ m] l by metis
qed

lemma re_fullmatch_Some: "re_fullmatch r s = Some m \<Longrightarrow> m \<in> set (matches r (start_of s)) \<and> ahead m = []"
  by (auto simp: re_fullmatch_def dest!: first_of_Some)

lemma re_match_Some: "re_match r s = Some m \<Longrightarrow> m \<in> set (matches r (start_of s))"
  by (auto simp: re_match_def dest!: first_of_Some)

text \<open>The two patterns of a lifetime command end alike.\<close>

definition lifetime_tail :: "re list" where
  "lifetime_tail = [re_spaces1, Group ''value'' re_nonspaces1, re_spaces, Eol]"

lemma global_lifetime_re_split:
  "global_lifetime_re = seqs ([Bol, lit ''crypto'', re_spaces1, lit ''ipsec'', re_spaces1,
     lit ''security-association'', re_spaces1, lit ''lifetime'', re_spaces1] @
     Group ''unit'' (Alt (lit ''seconds'') (lit ''kilobytes'')) # lifetime_tail)"
  by (simp add: global_lifetime_re_def lifetime_tail_def lifetime_unit_re_def)

lemma set_lifetime_re_split:
  "set_lifetime_re = seqs ([Bol, lit ''set'', re_spaces1, lit ''security-association'', re_spaces1,
     lit ''lifetime'', re_spaces1] @
     Group ''unit'' (Alt (lit ''seconds'') (lit ''kilobytes'')) # lifetime_tail)"
  by (simp add: set_lifetime_re_def lifetime_tail_def lifetime_unit_re_def)

lemma lifetime_unit_group:
  assumes "pat \<in> {global_lifetime_re, set_lifetime_re}" "m \<in> set (matches pat p)"
  shows "LifetimeUnit (str_lower (group ''unit'' m)) = Inr (unit_of m)"
proof -
  have tail: "''unit'' \<notin> group_names (seqs lifetime_tail)" by (simp add: lifetime_tail_def)
  obtain a b where "b \<in> set (matches (Alt (lit ''seconds'') (lit ''kilobytes'')) a)"
    "group ''unit'' m = between a b"
    using assms group_of_seqs [OF _ tail] unfolding global_lifetime_re_split set_lifetime_re_split
    by blast
  then show ?thesis using unit_group [of b a] by (auto simp: LifetimeUnit_def unit_of_def)
qed

lemma sequence_group:
  assumes "m \<in> set (matches crypto_map_declaration p)"
  shows "group ''sequence'' m \<noteq> [] \<and> list_all ascii_digit (group ''sequence'' m) \<and>
    length (group ''sequence'' m) \<le> length (ahead p)"
proof -
  have m: "m \<in> set (matches (seqs ([Bol, lit ''crypto'', re_spaces1,
      re_opt (Group ''dynamic'' (lit ''dynamic-'')), lit ''map'', re_spaces1,
      Group ''name'' re_nonspaces1, re_spaces1] @
      Group ''sequence'' (re_plus (Chars ascii_digit)) # [WordB])) p)"
    using assms by (simp add: crypto_map_declaration_def re_digits1_def)
  from group_class_plus [OF m] group_length [OF m] show ?thesis by simp
qed

section \<open>Decimal literals\<close>

lemma digit_not_space: "ascii_digit c \<Longrightarrow> \<not> py_space c"
  by (auto simp: ascii_digit_def py_space_def Let_def)

lemma digit_not_sign: "ascii_digit c \<Longrightarrow> c \<noteq> CHR ''-'' \<and> c \<noteq> CHR ''+'' \<and> c \<noteq> CHR ''_''"
  by (auto simp: ascii_digit_def Let_def)

lemma digit_value_digit: "ascii_digit c \<Longrightarrow> \<exists>v. digit_value 10 c = Some v"
  by (auto simp: ascii_digit_def digit_value_def hex_value_def Let_def)

lemma int_digits_digits:
  "list_all ascii_digit s \<Longrightarrow> s \<noteq> [] \<or> a \<Longrightarrow> \<exists>n. int_digits 10 a acc s = Some n"
proof (induction s arbitrary: a acc)
  case (Cons c s)
  then have "ascii_digit c" by simp
  from digit_value_digit [OF this] obtain v where "digit_value 10 c = Some v" by blast
  moreover have "c \<noteq> CHR ''_''" using digit_not_sign [OF \<open>ascii_digit c\<close>] by blast
  ultimately show ?case using Cons by simp
qed simp

lemma strip_no_space: "list_all (\<lambda>c. \<not> py_space c) s \<Longrightarrow> strip s = s"
proof -
  assume a: "list_all (\<lambda>c. \<not> py_space c) s"
  have id: "list_all (\<lambda>c. \<not> py_space c) t \<Longrightarrow> dropWhile py_space t = t" for t by (cases t) auto
  from a have "list_all (\<lambda>c. \<not> py_space c) (rev s)" by (simp add: list_all_iff)
  with a id show "strip s = s" by (simp add: strip_def strip_of_def rstrip_of_def)
qed

lemma py_int_digits:
  assumes "list_all ascii_digit s" "s \<noteq> []" "length s \<le> max_str_digits"
  shows "\<exists>n. py_int s = Some n"
proof -
  obtain c cs where s: "s = c # cs" using assms(2) by (cases s) auto
  have "list_all (\<lambda>c. \<not> py_space c) s" using assms(1) digit_not_space by (auto simp: list_all_iff)
  then have "strip s = s" by (rule strip_no_space)
  moreover have "split_sign s = (False, s)"
    using assms(1) digit_not_sign [of c] by (simp add: s split_sign_def)
  moreover have "\<not> max_str_digits < length (filter (\<lambda>c. c \<noteq> CHR ''_'') s)"
    using length_filter_le [of "\<lambda>c. c \<noteq> CHR ''_''" s] assms(3) by linarith
  moreover obtain n where "int_digits 10 False 0 s = Some n"
    using int_digits_digits [OF assms(1), of False 0] assms(2) by blast
  ultimately show ?thesis by (simp add: py_int_def)
qed

section \<open>One line\<close>

lemma parse_lifetime_ok:
  assumes "pat \<in> {global_lifetime_re, set_lifetime_re}" "lifetime_command pat l"
  shows "parse_lifetime l context (re_fullmatch pat (command_of l)) ws =
    Inr (setting_of pat l, ws @ warning_of pat context l)"
proof (cases "re_fullmatch pat (command_of l)")
  case None
  with assms(2) show ?thesis by (simp add: parse_lifetime_def setting_of_def warning_of_def)
next
  case (Some m)
  have "LifetimeUnit (str_lower (group ''unit'' m)) = Inr (unit_of m)"
    using lifetime_unit_group [OF assms(1)] re_fullmatch_Some [OF Some] by blast
  with assms(2) Some show ?thesis by (simp add: parse_lifetime_def setting_of_def warning_of_def)
qed

definition short_line :: "source_line \<Rightarrow> bool" where
  "short_line l = (length (sl_text l) \<le> max_str_digits)"

lemma top_level_declaration_raises:
  assumes "top_level_declaration c n = Inl e"
  shows "e = ValueError ''Exceeds the limit for integer string conversion'' \<and> max_str_digits < length c"
proof -
  from assms obtain m where m: "re_match crypto_map_declaration c = Some m"
    "py_int (group ''sequence'' m) = None"
    "e = ValueError ''Exceeds the limit for integer string conversion''"
    by (auto simp: top_level_declaration_def split: option.splits)
  have "\<not> length (group ''sequence'' m) \<le> max_str_digits"
    using sequence_group [OF re_match_Some [OF m(1)]] m(2) py_int_digits [of "group ''sequence'' m"] by auto
  with sequence_group [OF re_match_Some [OF m(1)]]
  have "max_str_digits < length (group ''sequence'' m)" "length (group ''sequence'' m) \<le> length c"
    by (auto simp: start_of_def intro: ccontr)
  with m(3) show ?thesis by simp
qed

text \<open>A line the loop gets past: its declaration, if it is one, has a readable sequence number.\<close>

definition accepted :: "source_line \<Rightarrow> bool" where
  "accepted l = (top_level l \<and> \<not> lifetime_command global_lifetime_re l \<longrightarrow>
     is_ok (top_level_declaration (command_of l) (sl_number l)))"

lemma short_accepted: "short_line l \<Longrightarrow> accepted l"
proof (cases "top_level_declaration (command_of l) (sl_number l)")
  case (Inl e)
  assume "short_line l"
  with top_level_declaration_raises [OF Inl] length_strip [of "sl_text l"]
  show ?thesis by (simp add: short_line_def)
qed (simp add: accepted_def)

lemma declaration_ok:
  assumes "accepted l" "top_level l" "\<not> lifetime_command global_lifetime_re l"
  shows "top_level_declaration (command_of l) (sl_number l) = Inr (declaration_of l)"
  using assms by (auto simp: accepted_def declaration_of_def is_ok_iff)

section \<open>The loop\<close>

lemma parse_lines_filter: "parse_lines ls st = parse_lines (filter significant ls) st"
proof (induction ls arbitrary: st)
  case (Cons l ls)
  show ?case
  proof (cases "significant l")
    case True
    then show ?thesis using Cons by (cases "parse_line l st") simp_all
  next
    case False
    then have "parse_line l st = Inr st" by (simp add: significant_def parse_line_def)
    with False Cons show ?thesis by simp
  qed
qed simp

lemma parse_line_top_level:
  assumes "significant l" "top_level l" "accepted l"
  shows "parse_line l st = Inr (let st = close_current st in
    st\<lparr>ps_warnings := ps_warnings st @ warning_of global_lifetime_re ''global configuration'' l,
       ps_globals := ps_globals st @ (case setting_of global_lifetime_re l of None \<Rightarrow> [] | Some s \<Rightarrow> [s]),
       ps_current := declaration_of l\<rparr>)"
proof (cases "lifetime_command global_lifetime_re l")
  case True
  have "ps_current (close_current st) = None" by (simp add: close_current_def split: option.splits)
  moreover have "declaration_of l = None" using True by (simp add: declaration_of_def)
  moreover from True parse_lifetime_ok [of global_lifetime_re l "''global configuration''"]
  have "parse_lifetime l ''global configuration'' (re_fullmatch global_lifetime_re (command_of l)) ws =
    Inr (setting_of global_lifetime_re l, ws @ warning_of global_lifetime_re ''global configuration'' l)"
    for ws by simp
  ultimately show ?thesis using assms True
    by (simp add: parse_line_def significant_def top_level_def parse_top_level_def Let_def
        lifetime_command_def split: option.splits)
next
  case False
  then have "setting_of global_lifetime_re l = None" "warning_of global_lifetime_re c l = []" for c
    by (simp_all add: lifetime_command_def setting_of_def warning_of_def)
  with assms False declaration_ok [OF assms(3,2) False] show ?thesis
    by (simp add: parse_line_def significant_def top_level_def parse_top_level_def Let_def
        lifetime_command_def)
qed

lemma parse_line_outside:
  "significant l \<Longrightarrow> \<not> top_level l \<Longrightarrow> ps_current st = None \<Longrightarrow> parse_line l st = Inr st"
  by (simp add: parse_line_def significant_def top_level_def)

lemma parse_line_nested:
  assumes "significant l" "\<not> top_level l" "ps_current st = Some b"
  shows "parse_line l st = Inr (st\<lparr>ps_warnings := ps_warnings st @ warning_of set_lifetime_re (ab_name b) l,
    ps_current := Some (extend b [l])\<rparr>)"
proof (cases "lifetime_command set_lifetime_re l")
  case True
  with parse_lifetime_ok [of set_lifetime_re l "ab_name b" "ps_warnings st"]
  have "parse_lifetime l (ab_name b) (re_fullmatch set_lifetime_re (command_of l)) (ps_warnings st) =
    Inr (setting_of set_lifetime_re l, ps_warnings st @ warning_of set_lifetime_re (ab_name b) l)"
    by simp
  with assms True show ?thesis
    by (simp add: parse_line_def significant_def top_level_def parse_nested_def Let_def extend_def
        lifetime_command_def peer_of_def List.map_filter_simps split: option.splits)
next
  case False
  then have "setting_of set_lifetime_re l = None" "warning_of set_lifetime_re c l = []" for c
    by (simp_all add: lifetime_command_def setting_of_def warning_of_def)
  with assms False show ?thesis
    by (simp add: parse_line_def significant_def top_level_def parse_nested_def Let_def extend_def
        lifetime_command_def peer_of_def List.map_filter_simps split: option.splits)
qed

text \<open>What is left of the open block when the loop reaches a list of lines.\<close>

definition open_block :: "parser_state \<Rightarrow> source_line list \<Rightarrow> ipsec_association list" where
  "open_block st ls = (case ps_current st of
     None \<Rightarrow> []
   | Some b \<Rightarrow> [freeze (extend b (takeWhile (\<lambda>l. \<not> top_level l) ls))])"

lemma extend_Nil [simp]: "extend b [] = b"
  by (simp add: extend_def List.map_filter_simps)

lemma extend_extend: "extend (extend b [l]) ls = extend b (l # ls)"
  by (simp add: extend_def List.map_filter_simps split: option.splits)

lemma ab_name_extend [simp]: "ab_name (extend b ls) = ab_name b"
  by (simp add: extend_def)

lemma parse_lines_blocks:
  assumes "\<And>l. l \<in> set ls \<Longrightarrow> significant l \<and> accepted l"
  shows "\<exists>st'. parse_lines ls st = Inr st' \<and>
    ps_globals st' = ps_globals st @ List.map_filter (setting_of global_lifetime_re) (filter top_level ls) \<and>
    ps_associations (close_current st') =
      ps_associations st @ open_block st ls @ List.map_filter block_association (blocks ls) \<and>
    ps_warnings st' = ps_warnings st @ body_warnings (ps_current st) (takeWhile (\<lambda>l. \<not> top_level l) ls) @
      concat (map block_warnings (blocks ls))"
  using assms
proof (induction ls arbitrary: st)
  case Nil
  then show ?case
    by (auto simp: close_current_def open_block_def body_warnings_def List.map_filter_simps
        split: option.splits)
next
  case (Cons l ls)
  from Cons.prems have l: "significant l" "accepted l" by simp_all
  have ls: "\<And>l. l \<in> set ls \<Longrightarrow> significant l \<and> accepted l" using Cons.prems by simp
  consider (top) "top_level l" | (outside) "\<not> top_level l" "ps_current st = None"
    | (nested) b where "\<not> top_level l" "ps_current st = Some b"
    by (cases "ps_current st") auto
  then show ?case
  proof cases
    case top
    define st1 where "st1 = (let st = close_current st in
      st\<lparr>ps_warnings := ps_warnings st @ warning_of global_lifetime_re ''global configuration'' l,
         ps_globals := ps_globals st @ (case setting_of global_lifetime_re l of None \<Rightarrow> [] | Some s \<Rightarrow> [s]),
         ps_current := declaration_of l\<rparr>)"
    have line: "parse_line l st = Inr st1"
      unfolding st1_def by (rule parse_line_top_level [OF l(1) top l(2)])
    from Cons.IH [OF ls, of st1] top line show ?thesis
      by (auto simp: st1_def Let_def close_current_def open_block_def body_warnings_def
          block_association_def block_warnings_def List.map_filter_simps split: option.splits)
  next
    case outside
    from Cons.IH [OF ls, of st] outside parse_line_outside [OF l(1) outside] show ?thesis
      by (auto simp: open_block_def body_warnings_def)
  next
    case nested
    from Cons.IH [OF ls, of "st\<lparr>ps_warnings := ps_warnings st @ warning_of set_lifetime_re (ab_name b) l,
        ps_current := Some (extend b [l])\<rparr>"] nested parse_line_nested [OF l(1) nested]
    show ?thesis
      by (auto simp: open_block_def body_warnings_def extend_extend)
  qed
qed

lemma parse_line_raises:
  assumes "parse_line l st = Inl e"
  shows "e = ValueError ''Exceeds the limit for integer string conversion'' \<and> \<not> accepted l"
proof (cases "significant l \<and> top_level l")
  case False
  have "is_ok (parse_line l st)"
  proof (cases "significant l")
    case True
    with False show ?thesis
      using parse_line_outside [of l st] parse_line_nested [of l st] by (cases "ps_current st") auto
  qed (simp add: parse_line_def significant_def)
  with assms show ?thesis by simp
next
  case True
  have "\<not> accepted l" using assms parse_line_top_level [of l st] True by auto
  then have n: "top_level l" "\<not> lifetime_command global_lifetime_re l" by (auto simp: accepted_def)
  with assms True have "top_level_declaration (command_of l) (sl_number l) = Inl e"
    by (auto simp: parse_line_def significant_def top_level_def parse_top_level_def Let_def
        lifetime_command_def bindE_eq_Inl)
  from top_level_declaration_raises [OF this] \<open>\<not> accepted l\<close> show ?thesis by simp
qed

lemma parse_lines_raises:
  "parse_lines ls st = Inl e \<Longrightarrow>
   e = ValueError ''Exceeds the limit for integer string conversion'' \<and>
   (\<exists>l \<in> set ls. \<not> accepted l)"
proof (induction ls arbitrary: st)
  case (Cons l ls)
  then show ?case using parse_line_raises [of l st] by (auto simp: bindE_eq_Inl)
qed simp

lemma parse_lines_accepted:
  "parse_lines ls st = Inr st' \<Longrightarrow> l \<in> set ls \<Longrightarrow> significant l \<Longrightarrow> accepted l"
proof (induction ls arbitrary: st)
  case (Cons a ls)
  show ?case
  proof (cases "l = a")
    case True
    show ?thesis
    proof (rule ccontr)
      assume "\<not> accepted l"
      then have n: "top_level l" "\<not> lifetime_command global_lifetime_re l"
        "\<not> is_ok (top_level_declaration (command_of l) (sl_number l))" by (auto simp: accepted_def)
      then obtain e where "top_level_declaration (command_of l) (sl_number l) = Inl e"
        by (cases "top_level_declaration (command_of l) (sl_number l)") auto
      with n Cons.prems(3) have "parse_line l st = Inl e"
        by (simp add: parse_line_def significant_def top_level_def parse_top_level_def Let_def
            lifetime_command_def)
      with Cons.prems True show False by simp
    qed
  next
    case False
    with Cons show ?thesis by (auto simp: bindE_eq_Inr)
  qed
qed simp

lemma parse_config_blocks:
  assumes "\<And>l. l \<in> set (number_lines (splitlines s)) \<Longrightarrow> significant l \<Longrightarrow> accepted l"
  shows "parse_cisco_ios_config s = Inr (block_config s)"
proof -
  let ?ls = "number_lines (splitlines s)"
  from parse_lines_blocks [of "filter significant ?ls" initial_parser] assms obtain st where
    "parse_lines (filter significant ?ls) initial_parser = Inr st"
    "ps_globals st = List.map_filter (setting_of global_lifetime_re) (filter top_level (filter significant ?ls))"
    "ps_associations (close_current st) = List.map_filter block_association (blocks (filter significant ?ls))"
    "ps_warnings st = concat (map block_warnings (blocks (filter significant ?ls)))"
    by (auto simp: initial_parser_def open_block_def body_warnings_def)
  moreover have "ps_globals (close_current st) = ps_globals st" "ps_warnings (close_current st) = ps_warnings st"
    by (simp_all add: close_current_def split: option.splits)
  ultimately show ?thesis
    by (simp add: parse_cisco_ios_config_def block_config_def Let_def parse_lines_filter [of ?ls])
qed

lemma parse_config_ok: "parse_cisco_ios_config s = Inr c \<Longrightarrow> c = block_config s"
proof -
  assume ok: "parse_cisco_ios_config s = Inr c"
  then obtain st where "parse_lines (number_lines (splitlines s)) initial_parser = Inr st"
    by (auto simp: parse_cisco_ios_config_def Let_def bindE_eq_Inr)
  with parse_config_blocks [of s] parse_lines_accepted ok show ?thesis by auto
qed

lemma parse_config_raises:
  "parse_cisco_ios_config s = Inl e \<Longrightarrow>
   e = ValueError ''Exceeds the limit for integer string conversion'' \<and>
   (\<exists>l \<in> set (number_lines (splitlines s)). \<not> accepted l)"
  using parse_lines_raises by (auto simp: parse_cisco_ios_config_def Let_def bindE_eq_Inl)

section \<open>Line numbers\<close>

lemma sl_number_to_source_line [simp]: "sl_number (to_source_line n r) = n"
  by (simp add: to_source_line_def Let_def)

lemma number_lines_nth:
  "i < length ls \<Longrightarrow> number_lines ls ! i = to_source_line (Suc i) (ls ! i)"
  by (simp add: number_lines_def del: upt_Suc)

lemma length_number_lines [simp]: "length (number_lines ls) = length ls"
  by (simp add: number_lines_def del: upt_Suc)

lemma numbers_number_lines: "map sl_number (number_lines ls) = [1..<Suc (length ls)]"
  by (rule nth_equalityI) (simp_all add: number_lines_nth del: upt_Suc)

lemma number_in_range: "l \<in> set (number_lines ls) \<Longrightarrow> sl_number l \<in> {1..length ls}"
  by (auto simp: in_set_conv_nth number_lines_nth)

lemma number_determines_line:
  "l \<in> set (number_lines ls) \<Longrightarrow> number_lines ls ! (sl_number l - 1) = l"
  by (auto simp: in_set_conv_nth number_lines_nth)

lemma sorted_numbers: "sorted_wrt (\<lambda>a b. sl_number a < sl_number b) (number_lines ls)"
proof -
  have "sorted_wrt (<) (map sl_number (number_lines ls))"
    unfolding numbers_number_lines by (simp add: strict_sorted_iff del: upt_Suc)
  then show ?thesis by (simp add: sorted_wrt_map)
qed

text \<open>A setting cites the line that declares it.\<close>

lemma setting_of_Some:
  "setting_of pat l = Some s \<Longrightarrow>
   \<exists>m. re_fullmatch pat (command_of l) = Some m \<and> 0 < ls_value s \<and> ls_value s = lifetime_value m \<and>
       ls_unit s = unit_of m \<and> ls_line_number s = sl_number l"
  by (auto simp: setting_of_def split: option.splits if_splits)

lemma blocks_sub: "(h, body) \<in> set (blocks ls) \<Longrightarrow> h \<in> set ls \<and> set body \<subseteq> set ls"
  by (induction ls) (auto split: if_splits dest: set_takeWhileD)

lemma blocks_after:
  "sorted_wrt r ls \<Longrightarrow> (h, body) \<in> set (blocks ls) \<Longrightarrow> l \<in> set body \<Longrightarrow> r h l"
  by (induction ls) (auto split: if_splits dest: set_takeWhileD)

lemma declaration_line:
  "declaration_of h = Some b \<Longrightarrow>
   ab_declaration_line b = sl_number h \<and> ab_peer_addresses b = [] \<and> ab_lifetime_settings b = []"
  by (auto simp: declaration_of_def top_level_declaration_def split: if_splits sum.splits option.splits)

lemma block_association_Some:
  "block_association (h, body) = Some a \<Longrightarrow>
   ia_declaration_line a = sl_number h \<and>
   ia_lifetime_settings a = List.map_filter (setting_of set_lifetime_re) body \<and>
   ia_peer_addresses a = List.map_filter peer_of body"
  by (auto simp: block_association_def freeze_def extend_def dest!: declaration_line)

end
