(* ===== verification/Cisco_Validator.thy ===== *)
theory Cisco_Validator
  imports Cisco_Blocks
begin

text \<open>
  The offline Phase 2 lifetime rule: \<open>validators/models.py\<close> (status, severity, evidence, result) and
  \<open>validators/cisco_ios_ipsec.py\<close> (effective lifetimes, pairing through a verified map, the rule). A
  \<open>Mapping[str, str]\<close> is a partial map.
\<close>

section \<open>Results\<close>

datatype validator_status = PASS | FAIL | WARN | INSUFFICIENT_CONTEXT | NOT_APPLICABLE

datatype finding_severity = INFO | WARNING | ERROR

record evidence_location =
  el_document :: string
  el_line_number :: nat
  el_role :: string

record validator_result =
  vr_rule_id :: string
  vr_rule_version :: string
  vr_status :: validator_status
  vr_severity :: finding_severity
  vr_association_id :: "string option"
  vr_unit :: lifetime_unit
  vr_observed_value :: "int option"
  vr_expected_value :: "int option"
  vr_evidence :: "evidence_location list"
  vr_explanation :: string

section \<open>The rule\<close>

definition PHASE2_LIFETIME_SECONDS_RULE_ID :: string where
  "PHASE2_LIFETIME_SECONDS_RULE_ID = ''cisco_ios.ipsec.phase2_lifetime_seconds''"

definition PHASE2_LIFETIME_SECONDS_RULE_VERSION :: string where
  "PHASE2_LIFETIME_SECONDS_RULE_VERSION = ''1.0.0''"

record effective_lifetime =
  ef_value :: "int option"
  ef_source :: "phase2_lifetime_setting option"

definition no_lifetime :: effective_lifetime where
  "no_lifetime = \<lparr>ef_value = None, ef_source = None\<rparr>"

definition effective_lifetime_of ::
  "cisco_ios_config \<Rightarrow> ipsec_association \<Rightarrow> lifetime_unit \<Rightarrow> effective_lifetime" where
  "effective_lifetime_of configuration association u = (case effective_override association u of
     Some s \<Rightarrow> \<lparr>ef_value = Some (ls_value s), ef_source = Some s\<rparr>
   | None \<Rightarrow> (case global_lifetime configuration u of
       Some s \<Rightarrow> \<lparr>ef_value = Some (ls_value s), ef_source = Some s\<rparr>
     | None \<Rightarrow> no_lifetime))"

definition evidence_of :: "effective_lifetime \<Rightarrow> effective_lifetime option \<Rightarrow> evidence_location list" where
  "evidence_of local_lifetime peer =
     (case ef_source local_lifetime of None \<Rightarrow> [] | Some s \<Rightarrow>
        [\<lparr>el_document = ''local'', el_line_number = ls_line_number s,
          el_role = ''observed_phase2_lifetime''\<rparr>]) @
     (case peer of None \<Rightarrow> [] | Some p \<Rightarrow> (case ef_source p of None \<Rightarrow> [] | Some s \<Rightarrow>
        [\<lparr>el_document = ''peer'', el_line_number = ls_line_number s,
          el_role = ''expected_phase2_lifetime''\<rparr>]))"

definition result_of ::
  "validator_status \<Rightarrow> finding_severity \<Rightarrow> ipsec_association option \<Rightarrow> effective_lifetime \<Rightarrow>
   effective_lifetime option \<Rightarrow> string \<Rightarrow> validator_result" where
  "result_of status severity association local_lifetime peer explanation =
     \<lparr>vr_rule_id = PHASE2_LIFETIME_SECONDS_RULE_ID,
      vr_rule_version = PHASE2_LIFETIME_SECONDS_RULE_VERSION,
      vr_status = status, vr_severity = severity,
      vr_association_id = map_option association_identifier association,
      vr_unit = SECONDS,
      vr_observed_value = ef_value local_lifetime,
      vr_expected_value = (case peer of None \<Rightarrow> None | Some p \<Rightarrow> ef_value p),
      vr_evidence = evidence_of local_lifetime peer,
      vr_explanation = explanation\<rparr>"

definition peer_association ::
  "ipsec_association \<Rightarrow> cisco_ios_config \<Rightarrow> (string \<Rightarrow> string option) option \<Rightarrow> ipsec_association option" where
  "peer_association local_association peer_config association_map = (case association_map of
     None \<Rightarrow> None
   | Some m \<Rightarrow> (case m (association_identifier local_association) of
       None \<Rightarrow> None
     | Some peer_identifier \<Rightarrow>
         (case filter (\<lambda>a. association_identifier a = peer_identifier)
                 (cc_ipsec_associations peer_config) of
            [a] \<Rightarrow> Some a
          | _ \<Rightarrow> None)))"

text \<open>The body of the loop over the local associations.\<close>

definition validate_association ::
  "cisco_ios_config \<Rightarrow> cisco_ios_config option \<Rightarrow> (string \<Rightarrow> string option) option \<Rightarrow>
   ipsec_association \<Rightarrow> validator_result" where
  "validate_association local_config peer_config peer_association_map a =
     (let local_lifetime = effective_lifetime_of local_config a SECONDS in
      case peer_config of
        None \<Rightarrow> result_of INSUFFICIENT_CONTEXT WARNING (Some a) local_lifetime None
          ''Peer configuration was not supplied; the local Phase 2 lifetime cannot be compared.''
      | Some pc \<Rightarrow> (case peer_association a pc peer_association_map of
          None \<Rightarrow> result_of INSUFFICIENT_CONTEXT WARNING (Some a) local_lifetime None
            ''Peer configuration was supplied, but this IPsec association could not be paired through an explicit verified association.''
        | Some pa \<Rightarrow>
            (let peer_lifetime = effective_lifetime_of pc pa SECONDS in
             if ef_value local_lifetime = None \<or> ef_value peer_lifetime = None
             then result_of INSUFFICIENT_CONTEXT WARNING (Some a) local_lifetime (Some peer_lifetime)
               ''An explicit Phase 2 seconds lifetime is missing on one side; IOS platform defaults are not inferred by this validator.''
             else if ef_value local_lifetime = ef_value peer_lifetime
             then result_of PASS INFO (Some a) local_lifetime (Some peer_lifetime)
               ''Local and peer Phase 2 seconds lifetimes match.''
             else result_of FAIL ERROR (Some a) local_lifetime (Some peer_lifetime)
               ''Local and peer Phase 2 seconds lifetimes do not match.'')))"

definition validate_phase2_lifetime ::
  "cisco_ios_config \<Rightarrow> cisco_ios_config option \<Rightarrow> (string \<Rightarrow> string option) option \<Rightarrow>
   validator_result list" where
  "validate_phase2_lifetime local_config peer_config peer_association_map =
     (if cc_ipsec_associations local_config = []
      then [result_of NOT_APPLICABLE INFO None no_lifetime None
             ''No Cisco IOS IPsec crypto map or IPsec profile was found.'']
      else map (validate_association local_config peer_config peer_association_map)
             (cc_ipsec_associations local_config))"

section \<open>Facts\<close>

lemma find_row_rev_last:
  assumes "find_row p (rev xs) = Some x"
  shows "\<exists>us vs. xs = us @ x # vs \<and> p x \<and> (\<forall>v \<in> set vs. \<not> p v)"
  using assms
proof (induction xs rule: rev_induct)
  case (snoc y ys)
  show ?case
  proof (cases "p y")
    case True
    with snoc.prems have "ys @ [y] = ys @ x # [] \<and> p x \<and> (\<forall>v \<in> set []. \<not> p v)" by simp
    then show ?thesis by blast
  next
    case False
    with snoc obtain us vs where "ys = us @ x # vs" "p x" "\<forall>v \<in> set vs. \<not> p v" by auto
    with False have "ys @ [y] = us @ x # (vs @ [y]) \<and> p x \<and> (\<forall>v \<in> set (vs @ [y]). \<not> p v)" by simp
    then show ?thesis by blast
  qed
qed simp

lemma effective_lifetime_source:
  "ef_source (effective_lifetime_of c a u) = Some s \<Longrightarrow>
   ef_value (effective_lifetime_of c a u) = Some (ls_value s) \<and> ls_unit s = u \<and>
   (s \<in> set (ia_lifetime_settings a) \<or> s \<in> set (cc_global_phase2_lifetimes c))"
  by (auto simp: effective_lifetime_of_def no_lifetime_def effective_override_def global_lifetime_def
      dest!: find_row_Some split: option.splits)

lemma effective_lifetime_value:
  "ef_value (effective_lifetime_of c a u) = map_option ls_value (ef_source (effective_lifetime_of c a u))"
  by (auto simp: effective_lifetime_of_def no_lifetime_def split: option.splits)

lemma peer_association_Some:
  assumes "peer_association a pc am = Some pa"
  shows "\<exists>m. am = Some m \<and> m (association_identifier a) = Some (association_identifier pa) \<and>
    filter (\<lambda>x. association_identifier x = association_identifier pa) (cc_ipsec_associations pc) = [pa]"
proof -
  from assms obtain m i where m: "am = Some m" "m (association_identifier a) = Some i"
    "filter (\<lambda>x. association_identifier x = i) (cc_ipsec_associations pc) = [pa]"
    by (auto simp: peer_association_def split: option.splits list.splits)
  have "pa \<in> set (filter (\<lambda>x. association_identifier x = i) (cc_ipsec_associations pc))" by (subst m(3)) simp
  then have "association_identifier pa = i" by simp
  with m show ?thesis by auto
qed

lemma result_of_simps [simp]:
  "vr_status (result_of st sev a l p e) = st"
  "vr_association_id (result_of st sev a l p e) = map_option association_identifier a"
  "vr_observed_value (result_of st sev a l p e) = ef_value l"
  "vr_expected_value (result_of st sev a l p e) = (case p of None \<Rightarrow> None | Some p \<Rightarrow> ef_value p)"
  "vr_evidence (result_of st sev a l p e) = evidence_of l p"
  by (simp_all add: result_of_def)

text \<open>The settings of a parsed configuration cite lifetime commands of its own text.\<close>

lemma parsed_setting_cites:
  assumes "parse_cisco_ios_config s = Inr c"
    and "x \<in> set (cc_global_phase2_lifetimes c) \<or>
         (\<exists>a \<in> set (cc_ipsec_associations c). x \<in> set (ia_lifetime_settings a))"
  shows "\<exists>pat l. pat \<in> {global_lifetime_re, set_lifetime_re} \<and> l \<in> set (cc_source_lines c) \<and>
    setting_of pat l = Some x"
proof -
  let ?ls = "number_lines (splitlines s)"
  have c: "c = block_config s" by (rule parse_config_ok [OF assms(1)])
  from assms(2) show ?thesis
  proof
    assume "x \<in> set (cc_global_phase2_lifetimes c)"
    then show ?thesis by (auto simp: c block_config_def Let_def in_map_filter)
  next
    assume "\<exists>a \<in> set (cc_ipsec_associations c). x \<in> set (ia_lifetime_settings a)"
    then obtain a h body where "(h, body) \<in> set (blocks (filter significant ?ls))"
      "block_association (h, body) = Some a" "x \<in> set (ia_lifetime_settings a)"
      by (auto simp: c block_config_def Let_def in_map_filter)
    with blocks_sub [of h body "filter significant ?ls"] block_association_Some [of h body a]
    show ?thesis by (fastforce simp: c block_config_def Let_def in_map_filter)
  qed
qed

end
