(* ===== verification/Redaction.thy ===== *)
theory Redaction
  imports Hashing Exceptions Regex_Match
begin

text \<open>
  \<open>ingestion/redaction.py\<close>: the rules with their patterns, the loop over the source lines with its
  private-key state and counters, the report; \<open>application/config_preview.py\<close>: the bounded preview.
\<close>

section \<open>Rules\<close>

datatype redaction_rule =
    CISCO_IKEV1_PRE_SHARED_KEY | CISCO_IKEV2_PRE_SHARED_KEY | CISCO_USERNAME_SECRET | CISCO_PASSWORD
  | CISCO_SNMP_COMMUNITY | PRIVATE_KEY_BLOCK | BEARER_TOKEN | API_KEY

fun rule_value :: "redaction_rule \<Rightarrow> string" where
  "rule_value CISCO_IKEV1_PRE_SHARED_KEY = ''cisco.ikev1_pre_shared_key''"
| "rule_value CISCO_IKEV2_PRE_SHARED_KEY = ''cisco.ikev2_pre_shared_key''"
| "rule_value CISCO_USERNAME_SECRET = ''cisco.username_secret''"
| "rule_value CISCO_PASSWORD = ''cisco.password''"
| "rule_value CISCO_SNMP_COMMUNITY = ''cisco.snmp_community''"
| "rule_value PRIVATE_KEY_BLOCK = ''credential.private_key_block''"
| "rule_value BEARER_TOKEN = ''credential.bearer_token''"
| "rule_value API_KEY = ''credential.api_key''"

record redaction_rule_summary =
  rs_rule_id :: string
  rs_line_count :: nat
  rs_occurrence_count :: nat

record redaction_report =
  rp_source_line_count :: nat
  rp_redacted_line_count :: nat
  rp_rules :: "redaction_rule_summary list"

definition summary_for :: "redaction_report \<Rightarrow> redaction_rule \<Rightarrow> redaction_rule_summary option" where
  "summary_for report rule = find_row (\<lambda>s. rs_rule_id s = rule_value rule) (rp_rules report)"

record config_redaction =
  cr_content :: string
  cr_report :: redaction_report

record rule_counter =
  rc_line_numbers :: "nat set"
  rc_occurrence_count :: nat

definition line_count :: "rule_counter \<Rightarrow> nat" where
  "line_count c = card (rc_line_numbers c)"

record inline_rule =
  ir_rule :: redaction_rule
  ir_pattern :: re

definition not_line_end :: "char \<Rightarrow> bool" where
  "not_line_end c = (c \<noteq> CHR 0x0D \<and> c \<noteq> CHR 0x0A)"

definition quoted :: "char \<Rightarrow> re" where
  "quoted q = seqs [Chars (\<lambda>c. c = q), Star (Chars (\<lambda>c. c \<noteq> q \<and> not_line_end c)), Chars (\<lambda>c. c = q)]"

definition secret_re :: re where
  "secret_re = Seq (NotAhead (lit ''<redacted:'')) (Alt (quoted (CHR 0x22)) (Alt (quoted (CHR 0x27)) re_nonspaces1))"

definition type_digit :: re where
  "type_digit = re_opt (Seq re_digits1 re_spaces1)"

definition equals_or_colon :: re where
  "equals_or_colon = Chars (\<lambda>c. c = CHR ''='' \<or> c = CHR '':'')"

definition password_or_secret :: re where
  "password_or_secret = Alt (lit ''password'') (lit ''secret'')"

definition dash_or_underscore :: re where
  "dash_or_underscore = Chars (\<lambda>c. c = CHR ''-'' \<or> c = CHR ''_'')"

text \<open>A pattern of a rule is a group \<open>prefix\<close> followed by a group \<open>secret\<close>.\<close>

definition prefix_secret :: "re list \<Rightarrow> re \<Rightarrow> re" where
  "prefix_secret prefix secret = seqs [Group ''prefix'' (seqs prefix), Group ''secret'' secret]"

definition inline_rules :: "inline_rule list" where
  "inline_rules =
    [\<lparr>ir_rule = CISCO_IKEV1_PRE_SHARED_KEY, ir_pattern = prefix_secret
       [Bol, re_spaces, lit ''crypto'', re_spaces1, lit ''isakmp'', re_spaces1, lit ''key'', re_spaces1,
        type_digit] secret_re\<rparr>,
     \<lparr>ir_rule = CISCO_IKEV2_PRE_SHARED_KEY, ir_pattern = prefix_secret
       [Bol, re_spaces, lit ''pre-shared-key'',
        re_opt (Seq re_spaces1 (Alt (lit ''local'') (lit ''remote''))), re_spaces1, type_digit] secret_re\<rparr>,
     \<lparr>ir_rule = CISCO_USERNAME_SECRET, ir_pattern = prefix_secret
       [WordB, lit ''username'', re_spaces1, re_nonspaces1, Lazy (Chars (\<lambda>c. c \<noteq> CHR 0x0A)), WordB,
        password_or_secret, re_spaces1, type_digit] secret_re\<rparr>,
     \<lparr>ir_rule = CISCO_SNMP_COMMUNITY, ir_pattern = prefix_secret
       [Bol, re_spaces, lit ''snmp-server'', re_spaces1, lit ''community'', re_spaces1] secret_re\<rparr>,
     \<lparr>ir_rule = CISCO_PASSWORD, ir_pattern = prefix_secret
       [Bol, re_spaces,
        re_opt (seqs [lit ''enable'',
          re_opt (seqs [re_spaces1, lit ''algorithm-type'', re_spaces1, re_nonspaces1]), re_spaces1]),
        password_or_secret, re_spaces1, type_digit]
       (Seq (NotAhead (Seq (Alt (lit ''encryption'') (lit ''policy'')) WordB)) secret_re)\<rparr>,
     \<lparr>ir_rule = CISCO_PASSWORD, ir_pattern = prefix_secret
       [Bol, re_spaces, lit ''neighbor'', re_spaces1, re_nonspaces1, re_spaces1, lit ''password'',
        re_spaces1, type_digit] secret_re\<rparr>,
     \<lparr>ir_rule = CISCO_PASSWORD, ir_pattern = prefix_secret
       [WordB, lit ''password'', re_spaces, equals_or_colon, re_spaces] secret_re\<rparr>,
     \<lparr>ir_rule = BEARER_TOKEN, ir_pattern = prefix_secret
       [WordB, re_opt (lit ''proxy-''), lit ''authorization'', re_spaces, lit '':'', re_spaces,
        lit ''bearer'', re_spaces1] secret_re\<rparr>,
     \<lparr>ir_rule = BEARER_TOKEN, ir_pattern = prefix_secret
       [Bol, re_spaces, lit ''bearer'', re_spaces1] secret_re\<rparr>,
     \<lparr>ir_rule = API_KEY, ir_pattern = prefix_secret
       [WordB,
        Alt (seqs [lit ''x'', dash_or_underscore, lit ''api'', dash_or_underscore, lit ''key''])
          (seqs [lit ''api'', dash_or_underscore, lit ''key'']),
        re_spaces, equals_or_colon, re_spaces] secret_re\<rparr>]"

text \<open>The markers of a private-key block.\<close>

definition key_marker :: "string \<Rightarrow> re" where
  "key_marker word = seqs [Bol, re_spaces, lit (''-----'' @ word),
     re_opt (Seq (lit '' '') (re_plus (Chars (\<lambda>c. ascii_lower c \<or> ascii_upper c \<or> ascii_digit c)))),
     lit '' PRIVATE KEY-----'', re_spaces, Eol]"

definition private_key_begin :: re where
  "private_key_begin = key_marker ''BEGIN''"

definition private_key_end :: re where
  "private_key_end = key_marker ''END''"

section \<open>Redacting\<close>

definition marker_of :: "redaction_rule \<Rightarrow> string" where
  "marker_of rule = ''<redacted:'' @ rule_value rule @ ''>''"

definition replacement_for :: "redaction_rule \<Rightarrow> re_pos \<Rightarrow> string" where
  "replacement_for rule m = group ''prefix'' m @ marker_of rule"

definition redact_entire_line :: "string \<Rightarrow> redaction_rule \<Rightarrow> string" where
  "redact_entire_line line rule = take (length line - length (lstrip line)) line @ marker_of rule"

definition split_line_ending :: "string \<Rightarrow> string \<times> string" where
  "split_line_ending line =
     (if endswith line [CHR 0x0D, CHR 0x0A] then (take (length line - 2) line, [CHR 0x0D, CHR 0x0A])
      else if endswith line [CHR 0x0A] \<or> endswith line [CHR 0x0D] then (butlast line, [last line])
      else (line, []))"

text \<open>The variables of the loop; \<open>counters\<close> is a dict in insertion order.\<close>

record redactor =
  rd_counters :: "(redaction_rule \<times> rule_counter) list"
  rd_line_numbers :: "nat set"
  rd_private_key_open :: bool
  rd_output :: "string list"

definition add_to_counter :: "nat \<Rightarrow> nat \<Rightarrow> rule_counter \<Rightarrow> rule_counter" where
  "add_to_counter line_number occurrences c =
     \<lparr>rc_line_numbers = insert line_number (rc_line_numbers c),
      rc_occurrence_count = rc_occurrence_count c + occurrences\<rparr>"

definition new_counter :: rule_counter where
  "new_counter = \<lparr>rc_line_numbers = {}, rc_occurrence_count = 0\<rparr>"

fun update_counter ::
  "redaction_rule \<Rightarrow> nat \<Rightarrow> nat \<Rightarrow> (redaction_rule \<times> rule_counter) list \<Rightarrow>
   (redaction_rule \<times> rule_counter) list" where
  "update_counter rule line_number occurrences [] =
     [(rule, add_to_counter line_number occurrences new_counter)]"
| "update_counter rule line_number occurrences ((r, c) # cs) =
     (if r = rule then (r, add_to_counter line_number occurrences c) # cs
      else (r, c) # update_counter rule line_number occurrences cs)"

definition record_match :: "redaction_rule \<Rightarrow> nat \<Rightarrow> nat \<Rightarrow> redactor \<Rightarrow> redactor" where
  "record_match rule line_number occurrences st =
     st\<lparr>rd_counters := update_counter rule line_number occurrences (rd_counters st),
        rd_line_numbers := insert line_number (rd_line_numbers st)\<rparr>"

fun apply_inline_rules :: "nat \<Rightarrow> inline_rule list \<Rightarrow> string \<Rightarrow> redactor \<Rightarrow> string \<times> redactor" where
  "apply_inline_rules line_number [] body st = (body, st)"
| "apply_inline_rules line_number (r # rs) body st =
     (let (body', replacements) = subn (ir_pattern r) (replacement_for (ir_rule r)) body in
      apply_inline_rules line_number rs body'
        (if replacements \<noteq> 0 then record_match (ir_rule r) line_number replacements st else st))"

definition redact_line :: "nat \<Rightarrow> string \<Rightarrow> redactor \<Rightarrow> redactor" where
  "redact_line line_number source_line st =
     (let (body, ending) = split_line_ending source_line;
          begins = re_match private_key_begin body \<noteq> None;
          ends = re_match private_key_end body \<noteq> None
      in if rd_private_key_open st \<or> begins
         then let st = record_match PRIVATE_KEY_BLOCK line_number (if begins then 1 else 0) st
              in st\<lparr>rd_output := rd_output st @ [redact_entire_line body PRIVATE_KEY_BLOCK @ ending],
                    rd_private_key_open := \<not> ends\<rparr>
         else let (redacted_body, st) = apply_inline_rules line_number inline_rules body st
              in st\<lparr>rd_output := rd_output st @ [redacted_body @ ending]\<rparr>)"

fun redact_lines :: "nat \<Rightarrow> string list \<Rightarrow> redactor \<Rightarrow> redactor" where
  "redact_lines n [] st = st"
| "redact_lines n (l # ls) st = redact_lines (Suc n) ls (redact_line n l st)"

definition rule_le :: "redaction_rule \<times> rule_counter \<Rightarrow> redaction_rule \<times> rule_counter \<Rightarrow> bool" where
  "rule_le a b = str_le (rule_value (fst a)) (rule_value (fst b))"

definition summary_of :: "redaction_rule \<times> rule_counter \<Rightarrow> redaction_rule_summary" where
  "summary_of rc = \<lparr>rs_rule_id = rule_value (fst rc), rs_line_count = line_count (snd rc),
     rs_occurrence_count = rc_occurrence_count (snd rc)\<rparr>"

definition initial_redactor :: redactor where
  "initial_redactor =
     \<lparr>rd_counters = [], rd_line_numbers = {}, rd_private_key_open = False, rd_output = []\<rparr>"

definition redact_cisco_config :: "string \<Rightarrow> config_redaction" where
  "redact_cisco_config source =
     (let source_lines = splitlines_keep source;
          st = redact_lines 1 source_lines initial_redactor
      in \<lparr>cr_content = concat (rd_output st),
          cr_report = \<lparr>rp_source_line_count = length source_lines,
            rp_redacted_line_count = card (rd_line_numbers st),
            rp_rules = map summary_of (sort_by rule_le (rd_counters st))\<rparr>\<rparr>)"

section \<open>The preview\<close>

definition CONFIG_PREVIEW_MAX_BYTES :: nat where "CONFIG_PREVIEW_MAX_BYTES = 256 * 1024"
definition CONFIG_PREVIEW_MAX_LINES :: nat where "CONFIG_PREVIEW_MAX_LINES = 10000"
definition CONFIG_REDACTION_VERSION :: string where "CONFIG_REDACTION_VERSION = ''cisco-redaction-v1''"

record config_preview =
  cp_redacted_content :: string
  cp_redacted_content_sha256 :: string
  cp_redaction_version :: string
  cp_report :: redaction_report

definition preview_cisco_config :: "string \<Rightarrow> exn + config_preview" where
  "preview_cisco_config source =
     (if CONFIG_PREVIEW_MAX_BYTES < length (utf8 source)
      then Inl (ConfigPreviewLimitError ''config input exceeds the byte limit'')
      else if CONFIG_PREVIEW_MAX_LINES < length (splitlines source)
      then Inl (ConfigPreviewLimitError ''config input exceeds the line limit'')
      else let redaction = redact_cisco_config source in
        Inr \<lparr>cp_redacted_content = cr_content redaction,
             cp_redacted_content_sha256 = sha256 (utf8 (cr_content redaction)),
             cp_redaction_version = CONFIG_REDACTION_VERSION,
             cp_report = cr_report redaction\<rparr>)"

end
