(* ===== verification/Redaction_Facts.thy ===== *)
theory Redaction_Facts
  imports Redaction
begin

text \<open>
  What \<open>redact_cisco_config\<close> returns, line by line: the redacted text of a line depends on the line
  and on whether a private-key block is open, and not on the counters; substitution introduces no
  line break, so a conventional source keeps its lines; the counters stay within the lines seen.
\<close>

section \<open>The text of one line\<close>

fun inline_text :: "inline_rule list \<Rightarrow> string \<Rightarrow> string" where
  "inline_text [] body = body"
| "inline_text (r # rs) body =
     inline_text rs (fst (subn (ir_pattern r) (replacement_for (ir_rule r)) body))"

definition in_key_block :: "bool \<Rightarrow> string \<Rightarrow> bool" where
  "in_key_block key_open body = (key_open \<or> re_match private_key_begin body \<noteq> None)"

definition next_open :: "bool \<Rightarrow> string \<Rightarrow> bool" where
  "next_open key_open line = (let body = fst (split_line_ending line) in
     in_key_block key_open body \<and> re_match private_key_end body = None)"

definition redacted_body :: "bool \<Rightarrow> string \<Rightarrow> string" where
  "redacted_body key_open body =
     (if in_key_block key_open body then redact_entire_line body PRIVATE_KEY_BLOCK
      else inline_text inline_rules body)"

definition redacted_line :: "bool \<Rightarrow> string \<Rightarrow> string" where
  "redacted_line key_open line =
     (let (body, ending) = split_line_ending line in redacted_body key_open body @ ending)"

fun redacted_lines :: "bool \<Rightarrow> string list \<Rightarrow> string list" where
  "redacted_lines key_open [] = []"
| "redacted_lines key_open (l # ls) = redacted_line key_open l # redacted_lines (next_open key_open l) ls"

text \<open>Whether a private-key block is open after some lines.\<close>

definition key_open_after :: "string list \<Rightarrow> bool" where
  "key_open_after ls = foldl next_open False ls"

lemma apply_inline_text: "fst (apply_inline_rules n rs body st) = inline_text rs body"
  by (induction rs arbitrary: body st) (simp_all add: case_prod_beta Let_def)

lemma apply_inline_frame:
  "rd_output (snd (apply_inline_rules n rs body st)) = rd_output st \<and>
   rd_private_key_open (snd (apply_inline_rules n rs body st)) = rd_private_key_open st"
  by (induction rs arbitrary: body st) (simp_all add: case_prod_beta Let_def record_match_def)

lemma redact_line_output:
  "rd_output (redact_line n l st) = rd_output st @ [redacted_line (rd_private_key_open st) l] \<and>
   rd_private_key_open (redact_line n l st) = next_open (rd_private_key_open st) l"
  using apply_inline_text [of n inline_rules] apply_inline_frame [of n inline_rules]
  by (simp add: redact_line_def redacted_line_def redacted_body_def next_open_def in_key_block_def
      record_match_def Let_def case_prod_beta)

lemma redact_lines_output:
  "rd_output (redact_lines n ls st) = rd_output st @ redacted_lines (rd_private_key_open st) ls"
  by (induction ls arbitrary: n st) (simp_all add: redact_line_output)

lemma redact_content:
  "cr_content (redact_cisco_config s) = concat (redacted_lines False (splitlines_keep s))"
  by (simp add: redact_cisco_config_def Let_def redact_lines_output initial_redactor_def)

lemma length_redacted_lines [simp]: "length (redacted_lines k ls) = length ls"
  by (induction ls arbitrary: k) simp_all

lemma redacted_lines_nth:
  "i < length ls \<Longrightarrow> redacted_lines k ls ! i = redacted_line (foldl next_open k (take i ls)) (ls ! i)"
  by (induction ls arbitrary: k i) (auto simp: nth_Cons split: nat.splits)

section \<open>Line breaks\<close>

definition no_break :: "string \<Rightarrow> bool" where
  "no_break b = list_all (\<lambda>c. \<not> line_break c) b"

lemma no_break_Nil [simp]: "no_break []"
  by (simp add: no_break_def)

lemma no_break_append [simp]: "no_break (a @ b) = (no_break a \<and> no_break b)"
  by (simp add: no_break_def)

lemma no_break_set: "no_break b \<longleftrightarrow> set b \<subseteq> {c. \<not> line_break c}"
  by (auto simp: no_break_def list_all_iff)

lemma no_break_marker [simp]: "no_break (marker_of r)"
  by (cases r) (simp_all add: no_break_def marker_of_def line_break_def)

lemma no_break_subn: "no_break b \<Longrightarrow> no_break (fst (subn r (replacement_for rule) b))"
  unfolding no_break_set
proof (rule subn_set)
  fix p q
  assume "set (ahead p) \<subseteq> {c. \<not> line_break c}" "captures p = []" "q \<in> set (matches r p)"
  then have "set (group ''prefix'' q) \<subseteq> {c. \<not> line_break c}" using group_subset by blast
  then show "set (replacement_for rule q) \<subseteq> {c. \<not> line_break c}"
    using no_break_marker [of rule] by (simp add: replacement_for_def no_break_set)
qed

lemma no_break_inline: "no_break b \<Longrightarrow> no_break (inline_text rs b)"
  by (induction rs arbitrary: b) (simp_all add: no_break_subn)

lemma no_break_redacted: "no_break b \<Longrightarrow> no_break (redacted_body k b)"
proof -
  assume b: "no_break b"
  then have "no_break (take n b)" for n by (auto simp: no_break_def list_all_iff dest: in_set_takeD)
  with b show ?thesis by (simp add: redacted_body_def no_break_inline redact_entire_line_def)
qed

lemma subn_from_nonempty:
  "ahead p \<noteq> [] \<Longrightarrow> fst (subn_from r (replacement_for rule) p) \<noteq> []"
proof (induction p rule: subn_from_induct [where r = r])
  case (Found p q)
  then show ?case by (simp add: subn_from_found replacement_for_def marker_of_def)
next
  case (Skip p c cs)
  then show ?case by (simp add: subn_from_skip)
qed simp

lemma inline_nonempty: "b \<noteq> [] \<Longrightarrow> inline_text rs b \<noteq> []"
proof (induction rs arbitrary: b)
  case (Cons r rs)
  then show ?case using subn_from_nonempty [of "start_of b"] by (simp add: subn_def start_of_def)
qed simp

lemma redacted_nonempty: "b \<noteq> [] \<Longrightarrow> redacted_body k b \<noteq> []"
  using inline_nonempty by (simp add: redacted_body_def redact_entire_line_def marker_of_def)

section \<open>Lines and their endings\<close>

abbreviation CR :: char where "CR \<equiv> CHR 0x0D"
abbreviation LF :: char where "LF \<equiv> CHR 0x0A"

fun lines_ok :: "(string \<times> string) list \<Rightarrow> bool" where
  "lines_ok [] = True"
| "lines_ok ((b, e) # r) =
     (no_break b \<and> (if e = [] then b \<noteq> [] \<and> r = [] else e \<in> {[LF], [CR], [CR, LF]}) \<and>
      (e = [CR] \<and> r \<noteq> [] \<longrightarrow> hd r \<noteq> ([], [LF])) \<and> lines_ok r)"

lemma line_break_CR [simp]: "line_break CR" and line_break_LF [simp]: "line_break LF"
  by (simp_all add: line_break_def)

lemma splitlines_keep_break_free:
  "no_break b \<Longrightarrow> b \<noteq> [] \<Longrightarrow> splitlines_keep b = [b]"
proof (induction b)
  case (Cons c b)
  have "c \<noteq> CR" "\<not> line_break c" using Cons.prems by (auto simp: no_break_def)
  moreover have "b = [] \<or> splitlines_keep b = [b]" using Cons by (auto simp: no_break_def)
  ultimately show ?case by auto
qed simp

lemma splitlines_keep_body:
  "no_break b \<Longrightarrow> splitlines_keep t = l # ls \<Longrightarrow> splitlines_keep (b @ t) = (b @ l) # ls"
proof (induction b)
  case (Cons c b)
  have "c \<noteq> CR" "\<not> line_break c" using Cons.prems by (auto simp: no_break_def)
  moreover have "splitlines_keep (b @ t) = (b @ l) # ls" using Cons by (simp add: no_break_def)
  ultimately show ?case by auto
qed simp

lemma splitlines_keep_lines:
  "lines_ok ps \<Longrightarrow> splitlines_keep (concat (map (\<lambda>(b, e). b @ e) ps)) = map (\<lambda>(b, e). b @ e) ps"
proof (induction ps rule: lines_ok.induct)
  case (2 b e r)
  let ?rest = "concat (map (\<lambda>(b, e). b @ e) r)"
  have b: "no_break b" and r: "lines_ok r" and IH: "splitlines_keep ?rest = map (\<lambda>(b, e). b @ e) r"
    using 2 by simp_all
  show ?case
  proof (cases "e = []")
    case True
    with 2 splitlines_keep_break_free [OF b] show ?thesis by simp
  next
    case False
    have "splitlines_keep (e @ ?rest) = e # map (\<lambda>(b, e). b @ e) r"
    proof -
      from 2(2) False consider "e = [LF]" | "e = [CR, LF]" | "e = [CR]" by auto
      then show ?thesis
      proof cases
        case 3
        have "?rest = [] \<or> hd ?rest \<noteq> LF"
        proof (cases r)
          case (Cons p r')
          obtain b' e' where p: "p = (b', e')" by (cases p)
          show ?thesis
          proof (cases b')
            case Nil
            then have "e' = [CR] \<or> e' = [CR, LF]" using 2(2) 3 Cons p by (auto split: if_splits)
            then show ?thesis using Cons p Nil by auto
          next
            case (Cons c cs)
            then have "\<not> line_break c" using r \<open>r = p # r'\<close> p by (simp add: no_break_def)
            then have "c \<noteq> LF" by auto
            then show ?thesis using Cons p \<open>r = p # r'\<close> by simp
          qed
        qed simp
        with 3 IH show ?thesis by auto
      qed (use IH in simp_all)
    qed
    from splitlines_keep_body [OF b this] show ?thesis by simp
  qed
qed simp

text \<open>A source whose only line breaks are \<open>\r\<close> and \<open>\n\<close>.\<close>

definition conventional :: "string \<Rightarrow> bool" where
  "conventional s = list_all (\<lambda>c. line_break c \<longrightarrow> c = CR \<or> c = LF) s"

lemma split_line_ending_join: "split_line_ending l = (b, e) \<Longrightarrow> b @ e = l"
proof -
  assume a: "split_line_ending l = (b, e)"
  have "take (length l - 2) l @ [CR, LF] = l" if "endswith l [CR, LF]"
  proof -
    from that have "drop (length l - 2) l = [CR, LF]" by (simp add: endswith_def numeral_2_eq_2)
    then show ?thesis using append_take_drop_id [of "length l - 2" l] by simp
  qed
  moreover have "l \<noteq> []" if "endswith l [c]" for c using that by (auto simp: endswith_def)
  ultimately show "b @ e = l" using a by (auto simp: split_line_ending_def split: if_splits)
qed

lemma endswith_Cons:
  "length p \<le> length l \<Longrightarrow> endswith (c # l) p = endswith l p"
  by (simp add: endswith_def Suc_diff_le)

lemma split_line_ending_Cons:
  assumes "l \<noteq> []" "c \<noteq> CR"
  shows "split_line_ending (c # l) = (let (b, e) = split_line_ending l in (c # b, e))"
proof -
  have crlf: "endswith (c # l) [CR, LF] = endswith l [CR, LF]"
  proof (cases "length l = 1")
    case True
    then obtain d where "l = [d]" by (cases l) auto
    with assms(2) show ?thesis by (simp add: endswith_def)
  next
    case False
    with assms(1) have "length [CR, LF] \<le> length l" by (cases l; cases "tl l") auto
    then show ?thesis by (rule endswith_Cons)
  qed
  have one: "endswith (c # l) [d] = endswith l [d]" for d
    using assms(1) by (intro endswith_Cons) (cases l; simp)
  have "take (length (c # l) - 2) (c # l) = c # take (length l - 2) l" if "endswith l [CR, LF]"
  proof -
    from that have "2 \<le> length l" by (simp add: endswith_def)
    then have "length (c # l) - 2 = Suc (length l - 2)" by simp
    then show ?thesis by simp
  qed
  with assms(1) show ?thesis unfolding split_line_ending_def crlf one by simp
qed

lemma split_line_ending_single:
  "split_line_ending [c] = (if c = LF \<or> c = CR then ([], [c]) else ([c], []))"
  by (auto simp: split_line_ending_def endswith_def)

lemma lines_ok_source:
  "conventional s \<Longrightarrow> lines_ok (map split_line_ending (splitlines_keep s))"
proof (induction s rule: splitlines_keep.induct)
  case (2 c cs)
  have cs: "conventional cs" using 2(4) by (simp add: conventional_def)
  consider (crlf) "c = CR" "cs \<noteq> []" "hd cs = LF" | (brk) "\<not> (c = CR \<and> cs \<noteq> [] \<and> hd cs = LF)" "line_break c"
    | (plain) "\<not> line_break c" by blast
  then show ?case
  proof cases
    case crlf
    have "conventional (tl cs)" using cs by (cases cs) (simp_all add: conventional_def)
    with crlf 2(1) have "lines_ok (map split_line_ending (splitlines_keep (tl cs)))" by simp
    moreover have "split_line_ending [CR, LF] = ([], [CR, LF])"
      by (simp add: split_line_ending_def endswith_def)
    ultimately show ?thesis using crlf by simp
  next
    case brk
    then have c: "c = CR \<or> c = LF" using 2(4) by (simp add: conventional_def)
    have ih: "lines_ok (map split_line_ending (splitlines_keep cs))" using 2(2) brk cs by blast
    have "hd (map split_line_ending (splitlines_keep cs)) \<noteq> ([], [LF])" if "c = CR" "cs \<noteq> []"
    proof
      assume a: "hd (map split_line_ending (splitlines_keep cs)) = ([], [LF])"
      from that obtain l ls where l: "splitlines_keep cs = l # ls" by (cases "splitlines_keep cs") auto
      with a have "l = [LF]" using split_line_ending_join [of l "[]" "[LF]"] by simp
      with l concat_splitlines_keep [of cs] have "cs = LF # concat ls" by simp
      with brk(1) that show False by simp
    qed
    with ih c brk show ?thesis by (auto simp: split_line_ending_single)
  next
    case plain
    have nCR: "c \<noteq> CR" "c \<noteq> LF" using plain by auto
    have ih: "lines_ok (map split_line_ending (splitlines_keep cs))" using 2(3) plain nCR cs by blast
    show ?thesis
    proof (cases "splitlines_keep cs")
      case Nil
      with plain nCR show ?thesis by (simp add: split_line_ending_single no_break_def)
    next
      case (Cons l ls)
      have "l \<noteq> []" using splitlines_keep_nonempty [of cs] Cons by auto
      obtain b e where be: "split_line_ending l = (b, e)" by (cases "split_line_ending l")
      have "split_line_ending (c # l) = (c # b, e)"
        using split_line_ending_Cons [OF \<open>l \<noteq> []\<close> nCR(1)] be by simp
      with ih plain nCR be Cons show ?thesis by (auto simp: no_break_def)
    qed
  qed
qed simp

text \<open>Replacing bodies keeps the lines of a conventional source.\<close>

lemma lines_ok_redacted:
  "lines_ok (map split_line_ending ls) \<Longrightarrow>
   \<exists>ps. redacted_lines k ls = map (\<lambda>(b, e). b @ e) ps \<and> lines_ok ps \<and>
        map snd ps = map (\<lambda>l. snd (split_line_ending l)) ls \<and>
        (ls \<noteq> [] \<and> hd ps = ([], [LF]) \<longrightarrow> split_line_ending (hd ls) = ([], [LF]))"
proof (induction ls arbitrary: k)
  case (Cons l ls)
  obtain b e where be: "split_line_ending l = (b, e)" by (cases "split_line_ending l")
  from Cons.prems be have ok: "no_break b" "if e = [] then b \<noteq> [] \<and> ls = [] else e \<in> {[LF], [CR], [CR, LF]}"
    "e = [CR] \<and> ls \<noteq> [] \<longrightarrow> split_line_ending (hd ls) \<noteq> ([], [LF])" "lines_ok (map split_line_ending ls)"
    by (auto simp: hd_map split: if_splits)
  from Cons.IH [OF ok(4), of "next_open k l"] obtain ps where
    ps: "redacted_lines (next_open k l) ls = map (\<lambda>(b, e). b @ e) ps" "lines_ok ps"
    "map snd ps = map (\<lambda>l. snd (split_line_ending l)) ls"
    "ls \<noteq> [] \<and> hd ps = ([], [LF]) \<longrightarrow> split_line_ending (hd ls) = ([], [LF])" by blast
  have len: "length ps = length ls" using arg_cong [OF ps(3), of length] by simp
  let ?b = "redacted_body k b"
  have empty: "?b = [] \<longrightarrow> b = []" using redacted_nonempty by blast
  have "lines_ok ((?b, e) # ps)"
    using ok ps(2,4) len empty no_break_redacted [OF ok(1)] by (auto split: if_splits)
  moreover have "redacted_lines k (l # ls) = map (\<lambda>(b, e). b @ e) ((?b, e) # ps)"
    by (simp add: redacted_line_def be ps(1))
  moreover have "map snd ((?b, e) # ps) = map (\<lambda>l. snd (split_line_ending l)) (l # ls)"
    by (simp add: be ps(3))
  moreover have "hd ((?b, e) # ps) = ([], [LF]) \<longrightarrow> split_line_ending (hd (l # ls)) = ([], [LF])"
    using empty by (simp add: be)
  ultimately show ?case by blast
qed (auto intro: exI [of _ "[]"])

lemma split_join_line:
  assumes "no_break b" "e \<in> {[], [LF], [CR], [CR, LF]}"
  shows "split_line_ending (b @ e) = (b, e)"
proof -
  have last: "last b \<noteq> LF" "last b \<noteq> CR" if "b \<noteq> []"
    using assms(1) last_in_set [OF that] by (auto simp: no_break_def list_all_iff)
  from assms(2) consider "e = []" | "e = [LF]" | "e = [CR]" | "e = [CR, LF]" by blast
  then show ?thesis
  proof cases
    case 1
    have "\<not> endswith b [c]" if "c = LF \<or> c = CR" for c
    proof (cases b rule: rev_cases)
      case (snoc ys y)
      with last that show ?thesis by (auto simp: endswith_def)
    qed (simp add: endswith_def)
    moreover have "\<not> endswith b [CR, LF]"
    proof (cases b rule: rev_cases)
      case (snoc ys y)
      with last show ?thesis by (cases ys rule: rev_cases) (auto simp: endswith_def)
    qed (simp add: endswith_def)
    ultimately show ?thesis using 1 by (simp add: split_line_ending_def)
  next
    case 2
    have "\<not> endswith (b @ [LF]) [CR, LF]"
    proof (cases b rule: rev_cases)
      case (snoc ys y)
      with last show ?thesis by (simp add: endswith_def)
    qed (simp add: endswith_def)
    with 2 show ?thesis by (simp add: split_line_ending_def endswith_def)
  next
    case 3
    have "\<not> endswith (b @ [CR]) [CR, LF]"
      by (cases b rule: rev_cases) (simp_all add: endswith_def)
    with 3 show ?thesis by (simp add: split_line_ending_def endswith_def)
  qed (simp add: split_line_ending_def endswith_def)
qed

lemma lines_ok_endings:
  "lines_ok ps \<Longrightarrow> map (\<lambda>l. snd (split_line_ending l)) (map (\<lambda>(b, e). b @ e) ps) = map snd ps"
  by (induction ps rule: lines_ok.induct)
    (auto simp: split_join_line split_join_line [where e = "[]", simplified] split: if_splits)

lemma redacted_source_lines:
  assumes "conventional s"
  shows "splitlines_keep (cr_content (redact_cisco_config s)) = redacted_lines False (splitlines_keep s) \<and>
    map (\<lambda>l. snd (split_line_ending l)) (redacted_lines False (splitlines_keep s)) =
    map (\<lambda>l. snd (split_line_ending l)) (splitlines_keep s)"
proof -
  from lines_ok_redacted [OF lines_ok_source [OF assms], of False] obtain ps where
    ps: "redacted_lines False (splitlines_keep s) = map (\<lambda>(b, e). b @ e) ps" "lines_ok ps"
    "map snd ps = map (\<lambda>l. snd (split_line_ending l)) (splitlines_keep s)" by blast
  from splitlines_keep_lines [OF ps(2)] lines_ok_endings [OF ps(2)] show ?thesis
    by (simp add: redact_content ps(1,3))
qed

section \<open>The report\<close>

text \<open>
  What holds of the counters when the next line is number \<open>n\<close>: every rule once, its lines among the
  redacted lines, which have been read; an occurrence for every counted line, except that a
  private-key block counts one for its first line.
\<close>

definition counter_ok :: "nat set \<Rightarrow> redaction_rule \<times> rule_counter \<Rightarrow> bool" where
  "counter_ok lines rc = (rc_line_numbers (snd rc) \<noteq> {} \<and> rc_line_numbers (snd rc) \<subseteq> lines \<and>
     1 \<le> rc_occurrence_count (snd rc) \<and>
     (fst rc \<noteq> PRIVATE_KEY_BLOCK \<longrightarrow> line_count (snd rc) \<le> rc_occurrence_count (snd rc)))"

definition redactor_ok :: "nat \<Rightarrow> redactor \<Rightarrow> bool" where
  "redactor_ok n st = (distinct (map fst (rd_counters st)) \<and> rd_line_numbers st \<subseteq> {1..<n} \<and>
     list_all (counter_ok (rd_line_numbers st)) (rd_counters st) \<and>
     (rd_private_key_open st \<longrightarrow> PRIVATE_KEY_BLOCK \<in> set (map fst (rd_counters st))))"

lemma counter_ok_mono: "counter_ok L rc \<Longrightarrow> L \<subseteq> M \<Longrightarrow> counter_ok M rc"
  by (auto simp: counter_ok_def)

lemma keys_update_counter:
  "set (map fst (update_counter r n k cs)) = insert r (set (map fst cs)) \<and>
   (distinct (map fst cs) \<longrightarrow> distinct (map fst (update_counter r n k cs)))"
proof (induction cs)
  case (Cons c cs)
  then show ?case by (cases c) auto
qed simp

lemma counter_ok_add:
  assumes "counter_ok L (r, c)" "finite L" "r \<noteq> PRIVATE_KEY_BLOCK \<longrightarrow> 1 \<le> k"
  shows "counter_ok (insert n L) (r, add_to_counter n k c)"
proof -
  have "finite (rc_line_numbers c)" using assms(1,2) by (auto simp: counter_ok_def dest: finite_subset)
  then have "card (insert n (rc_line_numbers c)) \<le> Suc (card (rc_line_numbers c))"
    by (simp add: card_insert_if)
  with assms show ?thesis by (auto simp: counter_ok_def add_to_counter_def line_count_def)
qed

lemma counter_ok_new: "1 \<le> k \<Longrightarrow> counter_ok (insert n L) (r, add_to_counter n k new_counter)"
  by (simp add: counter_ok_def add_to_counter_def new_counter_def line_count_def)

lemma update_counter_ok:
  assumes "finite L" "list_all (counter_ok L) cs"
    and "1 \<le> k \<or> (r = PRIVATE_KEY_BLOCK \<and> r \<in> set (map fst cs))"
  shows "list_all (counter_ok (insert n L)) (update_counter r n k cs)"
  using assms(2,3)
proof (induction cs)
  case Nil
  then show ?case using counter_ok_new by simp
next
  case (Cons a cs)
  obtain q c where a: "a = (q, c)" by (cases a)
  have rest: "list_all (counter_ok (insert n L)) cs"
    using Cons.prems by (auto simp: list_all_iff intro: counter_ok_mono)
  show ?case
  proof (cases "q = r")
    case True
    with Cons.prems a assms(1) rest counter_ok_add [of L r c k n] show ?thesis by auto
  next
    case False
    with Cons a counter_ok_mono [of L a "insert n L"] show ?thesis by auto
  qed
qed

lemma record_match_ok:
  assumes "redactor_ok (Suc n) st" "1 \<le> n"
    and "1 \<le> k \<or> (r = PRIVATE_KEY_BLOCK \<and> r \<in> set (map fst (rd_counters st)))"
  shows "redactor_ok (Suc n) (record_match r n k st)"
proof -
  have fin: "finite (rd_line_numbers st)" using assms(1) by (auto simp: redactor_ok_def dest: finite_subset)
  have "list_all (counter_ok (insert n (rd_line_numbers st))) (update_counter r n k (rd_counters st))"
    using assms(1,3) fin by (intro update_counter_ok) (auto simp: redactor_ok_def)
  then show ?thesis
    using assms(1,2) keys_update_counter [of r n k "rd_counters st"]
    by (auto simp: redactor_ok_def record_match_def)
qed

lemma apply_inline_ok:
  "redactor_ok (Suc n) st \<Longrightarrow> 1 \<le> n \<Longrightarrow> redactor_ok (Suc n) (snd (apply_inline_rules n rs body st))"
proof (induction rs arbitrary: body st)
  case (Cons r rs)
  then show ?case
    using record_match_ok [of n st "snd (subn (ir_pattern r) (replacement_for (ir_rule r)) body)" "ir_rule r"]
    by (simp add: case_prod_beta Let_def)
qed simp

lemma redactor_ok_mono: "redactor_ok n st \<Longrightarrow> n \<le> m \<Longrightarrow> redactor_ok m st"
  by (force simp: redactor_ok_def)

lemma redactor_ok_frame:
  "redactor_ok n st \<Longrightarrow> redactor_ok n (st\<lparr>rd_output := x\<rparr>)"
  "redactor_ok n st \<Longrightarrow> PRIVATE_KEY_BLOCK \<in> set (map fst (rd_counters st)) \<Longrightarrow>
   redactor_ok n (st\<lparr>rd_private_key_open := b\<rparr>)"
  by (simp_all add: redactor_ok_def)

lemma redact_line_ok:
  assumes "redactor_ok n st" "1 \<le> n"
  shows "redactor_ok (Suc n) (redact_line n l st)"
proof -
  have ok: "redactor_ok (Suc n) st" using assms(1) by (rule redactor_ok_mono) simp
  let ?begins = "re_match private_key_begin (fst (split_line_ending l)) \<noteq> None"
  show ?thesis
  proof (cases "rd_private_key_open st \<or> ?begins")
    case True
    let ?st = "record_match PRIVATE_KEY_BLOCK n (if ?begins then 1 else 0) st"
    have "1 \<le> (if ?begins then 1 else (0 :: nat)) \<or>
        (PRIVATE_KEY_BLOCK = PRIVATE_KEY_BLOCK \<and> PRIVATE_KEY_BLOCK \<in> set (map fst (rd_counters st)))"
      using True ok by (auto simp: redactor_ok_def)
    then have "redactor_ok (Suc n) ?st" by (rule record_match_ok [OF ok assms(2)])
    moreover have "PRIVATE_KEY_BLOCK \<in> set (map fst (rd_counters ?st))"
      using keys_update_counter [of PRIVATE_KEY_BLOCK n "if ?begins then 1 else 0" "rd_counters st"]
      by (simp add: record_match_def)
    ultimately have "redactor_ok (Suc n) (?st\<lparr>rd_output := x, rd_private_key_open := b\<rparr>)" for x b
      by (intro redactor_ok_frame) simp_all
    with True show ?thesis by (simp only: redact_line_def Let_def case_prod_beta if_True)
  next
    case False
    with apply_inline_ok [OF ok assms(2), of inline_rules "fst (split_line_ending l)"] show ?thesis
      by (simp add: redact_line_def Let_def case_prod_beta redactor_ok_frame)
  qed
qed

lemma redact_lines_ok:
  "redactor_ok n st \<Longrightarrow> 1 \<le> n \<Longrightarrow> redactor_ok (n + length ls) (redact_lines n ls st)"
proof (induction ls arbitrary: n st)
  case (Cons l ls)
  from Cons.IH [OF redact_line_ok [OF Cons.prems, of l]] show ?case by simp
qed simp

lemma redactor_after:
  "redactor_ok (Suc (length ls)) (redact_lines 1 ls initial_redactor)"
  using redact_lines_ok [of 1 initial_redactor ls] by (simp add: redactor_ok_def initial_redactor_def)

end
