(* ===== verification/Config_Redaction.thy ===== *)
theory Config_Redaction
  imports Redaction_Facts Worker_Artifacts
begin

text \<open>
  \<open>services/worker/netops_worker/config_redaction.py\<close>: the redactor the worker runs after a clean
  scan. The private reader and writer are ports: \<open>reader job n\<close> is opening the source and
  \<open>read(n)\<close>, \<open>writer\<close> stores the derivative and returns its metadata.
\<close>

section \<open>UTF-8\<close>

text \<open>
  \<open>bytes.decode("utf-8")\<close>. A string of the model has code points below 256, so the two-byte
  sequences end at \<open>0xC3\<close>; a sequence for a larger code point is outside the model and is answered
  like an invalid one.
\<close>

fun utf8_decode :: "byte list \<Rightarrow> exn + string" where
  "utf8_decode [] = Inr []"
| "utf8_decode (b # bs) =
     (if unat b < 128 then bindE (utf8_decode bs) (\<lambda>s. Inr (char_of (unat b) # s))
      else case bs of
        [] \<Rightarrow> Inl (UnicodeError ''unexpected end of data'')
      | b' # bs' \<Rightarrow>
          if (unat b = 194 \<or> unat b = 195) \<and> 128 \<le> unat b' \<and> unat b' < 192
          then bindE (utf8_decode bs') (\<lambda>s. Inr (char_of ((unat b - 192) * 64 + (unat b' - 128)) # s))
          else Inl (UnicodeError ''invalid start byte''))"

lemma unat_byte_of: "n < 256 \<Longrightarrow> unat (byte_of n) = n"
  by (simp add: byte_of_def unat_of_nat)

lemma utf8_decode_char: "utf8_decode (utf8_char c @ bs) = bindE (utf8_decode bs) (\<lambda>s. Inr (c # s))"
proof (cases "(of_char c :: nat) < 128")
  case True
  then show ?thesis by (simp add: utf8_char_def unat_byte_of)
next
  case False
  define n where "n = (of_char c :: nat)"
  have n: "128 \<le> n" "n < 256" using False by (simp_all add: n_def)
  have "utf8_char c = [byte_of (192 + n div 64), byte_of (128 + n mod 64)]"
    using False by (simp add: utf8_char_def n_def Let_def)
  moreover have "n div 64 = 2 \<or> n div 64 = 3" using n by linarith
  moreover have "unat (byte_of (192 + n div 64)) = 192 + n div 64" "unat (byte_of (128 + n mod 64)) = 128 + n mod 64"
    using n by (auto intro!: unat_byte_of)
  moreover have "(192 + n div 64 - 192) * 64 + (128 + n mod 64 - 128) = n" by simp
  moreover have "char_of n = c" by (simp add: n_def)
  ultimately show ?thesis by auto
qed

lemma utf8_decode_utf8: "utf8_decode (utf8 s) = Inr s"
  by (induction s) (simp_all add: utf8_def utf8_decode_char)

section \<open>The redactor\<close>

definition default_max_config_bytes :: nat where
  "default_max_config_bytes = 256 * 1024"

record redacted_derivative_metadata =
  dm_derivative_artifact_id :: uuid
  dm_derivative_sha256_hex :: string
  dm_byte_size :: int
  dm_redaction_version :: string
  dm_report :: redaction_report

definition mk_redacted_derivative_metadata ::
  "redacted_derivative_metadata \<Rightarrow> exn + redacted_derivative_metadata" where
  "mk_redacted_derivative_metadata m =
     (if \<not> is_sha256 (dm_derivative_sha256_hex m)
      then Inl (ValueError ''derivative_sha256_hex must be a lowercase SHA-256 digest.'')
      else if dm_byte_size m < 1 then Inl (ValueError ''byte_size must be positive.'')
      else if dm_redaction_version m \<noteq> CONFIG_REDACTION_VERSION
      then Inl (ValueError ''redaction_version is not supported.'')
      else Inr m)"

text \<open>What the writer is handed: the derivative and the facts about it.\<close>

record derivative_write =
  dw_derivative :: "byte list"
  dw_derivative_sha256_hex :: string
  dw_byte_size :: int
  dw_redaction_version :: string
  dw_report :: redaction_report

type_synonym 's config_reader = "artifact_processing_job \<Rightarrow> nat \<Rightarrow> ('s, exn, byte list) action"
type_synonym 's derivative_writer =
  "artifact_processing_job \<Rightarrow> derivative_write \<Rightarrow> ('s, exn, redacted_derivative_metadata) action"

text \<open>The constructor's check.\<close>

definition config_derivative_redactor :: "int \<Rightarrow> exn + nat" where
  "config_derivative_redactor max_source_bytes =
     (if max_source_bytes < 1 then Inl (ValueError ''max_source_bytes must be positive.'')
      else Inr (nat max_source_bytes))"

definition validate_eligible_config :: "artifact_processing_job \<Rightarrow> exn + unit" where
  "validate_eligible_config job =
     raise_unless (job_artifact_kind job = NETWORK_CONFIGURATION \<and> job_classification job = RAW)
       (ValueError ''only raw network-configuration artifacts may be redacted.'')"

text \<open>\<open>except OSError\<close>: the failures of opening and reading the source.\<close>

definition unavailable_source :: "exn \<Rightarrow> exn" where
  "unavailable_source e = (case e of
     OSError _ \<Rightarrow> RuntimeError ''private source artifact is unavailable.'' | _ \<Rightarrow> e)"

definition read_bounded_source ::
  "'s config_reader \<Rightarrow> nat \<Rightarrow> artifact_processing_job \<Rightarrow> ('s, exn, byte list) action" where
  "read_bounded_source reader max_source_bytes job s =
     (let (r, s') = reader job (max_source_bytes + 1) s in
      (bindE (mapE unavailable_source r) (\<lambda>value.
         if max_source_bytes < length value
         then Inl (ValueError ''configuration exceeds the redaction size limit.'')
         else if value = [] then Inl (ValueError ''configuration must not be empty.'')
         else Inr value), s'))"

definition decode_source :: "byte list \<Rightarrow> exn + string" where
  "decode_source source =
     mapE (\<lambda>_. ValueError ''configuration encoding is not valid UTF-8.'') (utf8_decode source)"

definition derivative_of :: "string \<Rightarrow> derivative_write" where
  "derivative_of decoded =
     (let redaction = redact_cisco_config decoded; derivative_bytes = utf8 (cr_content redaction) in
      \<lparr>dw_derivative = derivative_bytes, dw_derivative_sha256_hex = sha256 derivative_bytes,
       dw_byte_size = int (length derivative_bytes), dw_redaction_version = CONFIG_REDACTION_VERSION,
       dw_report = cr_report redaction\<rparr>)"

definition redact_config ::
  "'s config_reader \<Rightarrow> 's derivative_writer \<Rightarrow> nat \<Rightarrow> artifact_processing_job \<Rightarrow>
   ('s, exn, redaction_result) action" where
  "redact_config reader writer max_source_bytes job =
     bindS (liftS (validate_eligible_config job)) (\<lambda>_.
     bindS (read_bounded_source reader max_source_bytes job) (\<lambda>source.
     bindS (liftS (decode_source source)) (\<lambda>decoded.
     let d = derivative_of decoded in
     if dw_derivative d = [] then raiseS (ValueError ''redacted configuration must not be empty.'')
     else bindS (writer job d) (\<lambda>stored.
       if dm_derivative_sha256_hex stored \<noteq> dw_derivative_sha256_hex d \<or>
          dm_byte_size stored \<noteq> dw_byte_size d \<or> dm_redaction_version stored \<noteq> CONFIG_REDACTION_VERSION
       then raiseS (RuntimeError ''private derivative writer returned inconsistent metadata.'')
       else liftS (mk_redaction_result
         \<lparr>rr_derivative_sha256_hex = dm_derivative_sha256_hex stored,
          rr_redaction_version = dm_redaction_version stored\<rparr>)))))"

section \<open>Facts\<close>

text \<open>A call that succeeded read an eligible source and wrote its redaction.\<close>

lemma redact_config_InrD:
  assumes "redact_config reader writer n job s = (Inr r, s')"
  shows "\<exists>source decoded s1 stored.
    job_artifact_kind job = NETWORK_CONFIGURATION \<and> job_classification job = RAW \<and>
    reader job (n + 1) s = (Inr source, s1) \<and> source \<noteq> [] \<and> length source \<le> n \<and>
    utf8_decode source = Inr decoded \<and>
    writer job (derivative_of decoded) s1 = (Inr stored, s') \<and>
    rr_derivative_sha256_hex r = sha256 (utf8 (cr_content (redact_cisco_config decoded))) \<and>
    rr_redaction_version r = CONFIG_REDACTION_VERSION"
proof -
  from assms obtain source s1 decoded stored where
    e: "validate_eligible_config job = Inr ()" and
    r: "read_bounded_source reader n job s = (Inr source, s1)" and
    d: "decode_source source = Inr decoded" and
    w: "writer job (derivative_of decoded) s1 = (Inr stored, s')" and
    m: "dm_derivative_sha256_hex stored = dw_derivative_sha256_hex (derivative_of decoded)"
      "dm_redaction_version stored = CONFIG_REDACTION_VERSION" and
    res: "mk_redaction_result \<lparr>rr_derivative_sha256_hex = dm_derivative_sha256_hex stored,
          rr_redaction_version = dm_redaction_version stored\<rparr> = Inr r"
    by (auto simp: redact_config_def bindS_Inr liftS_def raiseS_def Let_def split: if_splits)
  have "reader job (n + 1) s = (Inr source, s1) \<and> source \<noteq> [] \<and> length source \<le> n"
    using r by (cases "reader job (n + 1) s")
      (auto simp: read_bounded_source_def bindE_eq_Inr split: if_splits)
  moreover have "job_artifact_kind job = NETWORK_CONFIGURATION \<and> job_classification job = RAW"
    using e by (simp add: validate_eligible_config_def)
  moreover have "utf8_decode source = Inr decoded" using d by (simp add: decode_source_def)
  moreover have "rr_derivative_sha256_hex r = sha256 (utf8 (cr_content (redact_cisco_config decoded))) \<and>
    rr_redaction_version r = CONFIG_REDACTION_VERSION"
    using res m by (auto simp: mk_redaction_result_def derivative_of_def Let_def bindE_eq_Inr)
  ultimately show ?thesis using w by blast
qed

text \<open>A job that is no raw configuration touches neither port.\<close>

lemma redact_config_ineligible:
  "job_artifact_kind job \<noteq> NETWORK_CONFIGURATION \<or> job_classification job \<noteq> RAW \<Longrightarrow>
   redact_config reader writer n job s =
     (Inl (ValueError ''only raw network-configuration artifacts may be redacted.''), s)"
  by (auto simp: redact_config_def validate_eligible_config_def raise_unless_def bindS_def liftS_def)

end
