(* ===== verification/Access_Control.thy ===== *)
theory Access_Control
  imports Case_Domain
begin

text \<open>
  \<open>core/auth.py\<close>: the principal and its gates, the signing-key cache, token verification and the
  reading of the signed claims; \<open>AuthSettings\<close> of \<open>core/config.py\<close>. The JWT library, the key download
  and the clock are not under \<open>src\<close>: they are arguments, actions on the environment \<open>'s\<close>.
\<close>

section \<open>The principal\<close>

record authenticated_principal =
  pr_subject :: string
  pr_organization_id :: uuid
  pr_roles :: "case_role set"
  pr_asset_ids :: "uuid set"
  pr_issuer :: string
  pr_client_id :: "string option"

definition require_any_role :: "authenticated_principal \<Rightarrow> case_role set \<Rightarrow> exn + unit" where
  "require_any_role p required = (let allowed_roles = insert PLATFORM_ADMIN required in
     raise_unless (pr_roles p \<inter> allowed_roles \<noteq> {}) (AuthorizationError ''insufficient_role''))"

definition require_organization :: "authenticated_principal \<Rightarrow> uuid \<Rightarrow> exn + unit" where
  "require_organization p organization_id =
     raise_unless (pr_organization_id p = organization_id) (AuthorizationError ''organization_scope_denied'')"

definition require_asset :: "authenticated_principal \<Rightarrow> uuid \<Rightarrow> exn + unit" where
  "require_asset p asset_id =
     raise_unless (asset_id \<in> pr_asset_ids p) (AuthorizationError ''asset_scope_denied'')"

section \<open>Settings\<close>

record auth_settings =
  as_issuer :: string
  as_audience :: string
  as_jwks_url :: string
  as_allowed_algorithms :: "string list"
  as_clock_skew_seconds :: int
  as_organization_claim :: string
  as_asset_ids_claim :: string

definition require_supported_asymmetric_algorithms :: "string list \<Rightarrow> exn + string list" where
  "require_supported_asymmetric_algorithms value =
     (if value = [] \<or> \<not> set value \<subseteq> {''RS256'', ''RS384'', ''RS512'', ''ES256'', ''ES384'', ''ES512''}
      then Inl (ValueError ''must contain one or more supported asymmetric JWT algorithms'')
      else Inr value)"

definition require_claim_name :: "string \<Rightarrow> exn + string" where
  "require_claim_name value =
     (if blank value then Inl (ValueError ''must be a non-empty claim name'') else Inr value)"

section \<open>The signing-key cache\<close>

type_synonym jwk = "(string \<times> json) list"

record jwks_resolver =
  jr_cache_ttl :: int
  jr_keys :: "(string \<times> jwk) list"
  jr_expires_at :: int

text \<open>
  What the cache calls outside the program: \<open>urlopen\<close> with \<open>json.load\<close>, and \<open>time.monotonic\<close> (in
  microseconds, like every duration of the model).
\<close>

record 's key_service =
  ks_fetch :: "('s, exn, json) action"
  ks_monotonic :: "'s \<Rightarrow> int \<times> 's"

text \<open>\<open>OSError\<close> covers \<open>URLError\<close> and \<open>TimeoutError\<close>; a \<open>JSONDecodeError\<close> is a \<open>ValueError\<close>.\<close>

definition endpoint_failure :: "exn \<Rightarrow> exn" where
  "endpoint_failure e = (case e of
     OSError _ \<Rightarrow> AuthenticationServiceError ''The signing-key endpoint is unavailable.''
   | ValueError _ \<Rightarrow> AuthenticationServiceError ''The signing-key endpoint is unavailable.''
   | _ \<Rightarrow> e)"

definition malformed_keys :: exn where
  "malformed_keys = AuthenticationServiceError ''The signing-key response is malformed.''"

definition download_jwks :: "'s key_service \<Rightarrow> ('s, exn, (string \<times> json) list) action" where
  "download_jwks ks s = (let (r, s') = ks_fetch ks s in
     (bindE (mapE endpoint_failure r) (\<lambda>payload. case payload of
        JObj members \<Rightarrow> Inr members | _ \<Rightarrow> Inl malformed_keys), s'))"

fun read_keys :: "json list \<Rightarrow> (string \<times> jwk) list \<Rightarrow> exn + (string \<times> jwk) list" where
  "read_keys [] keys = Inr keys"
| "read_keys (raw # rest) keys = (case raw of
     JObj members \<Rightarrow> (case map_of members ''kid'' of
         Some (JStr key_id) \<Rightarrow>
           if key_id = [] \<or> map_of keys key_id \<noteq> None then Inl malformed_keys
           else read_keys rest (keys @ [(key_id, members)])
       | _ \<Rightarrow> Inl malformed_keys)
   | _ \<Rightarrow> Inl malformed_keys)"

definition refresh :: "'s key_service \<Rightarrow> (jwks_resolver \<times> 's, exn, unit) action" where
  "refresh ks = (\<lambda>(jr, s). case download_jwks ks s of
     (Inl e, s') \<Rightarrow> (Inl e, jr, s')
   | (Inr payload, s') \<Rightarrow> (case map_of payload ''keys'' of
       Some (JArr raw_keys) \<Rightarrow> (case read_keys raw_keys [] of
           Inl e \<Rightarrow> (Inl e, jr, s')
         | Inr keys \<Rightarrow> (let (now, s'') = ks_monotonic ks s' in
             (Inr (), jr\<lparr>jr_keys := keys, jr_expires_at := now + jr_cache_ttl jr\<rparr>, s'')))
     | _ \<Rightarrow> (Inl malformed_keys, jr, s')))"

definition refresh_if_expired :: "'s key_service \<Rightarrow> (jwks_resolver \<times> 's, exn, unit) action" where
  "refresh_if_expired ks = (\<lambda>(jr, s). let (now, s') = ks_monotonic ks s in
     if jr_expires_at jr \<le> now then refresh ks (jr, s') else (Inr (), jr, s'))"

definition lookup_key :: "string \<Rightarrow> (jwks_resolver \<times> 's, exn, jwk option) action" where
  "lookup_key key_id js = (Inr (map_of (jr_keys (fst js)) key_id), js)"

text \<open>\<open>load\<close> is \<open>PyJWK.from_dict(...).key\<close>; any failure of it is a service error.\<close>

definition load_key :: "(jwk \<Rightarrow> exn + 'key) \<Rightarrow> jwk \<Rightarrow> exn + 'key" where
  "load_key load k = mapE (\<lambda>_. AuthenticationServiceError ''The signing key could not be loaded.'') (load k)"

definition get_signing_key ::
  "'s key_service \<Rightarrow> (jwk \<Rightarrow> exn + 'key) \<Rightarrow> string \<Rightarrow> (jwks_resolver \<times> 's, exn, 'key) action" where
  "get_signing_key ks load key_id =
     bindS (refresh_if_expired ks) (\<lambda>_.
     bindS (lookup_key key_id) (\<lambda>found. case found of
       Some k \<Rightarrow> liftS (load_key load k)
     | None \<Rightarrow> bindS (refresh ks) (\<lambda>_.
         bindS (lookup_key key_id) (\<lambda>found. case found of
           None \<Rightarrow> raiseS (AuthenticationError ''invalid_token'')
         | Some k \<Rightarrow> liftS (load_key load k)))))"

section \<open>Claims\<close>

definition invalid_token :: exn where
  "invalid_token = AuthenticationError ''invalid_token''"

definition required_string :: "(string \<times> json) list \<Rightarrow> string \<Rightarrow> exn + string" where
  "required_string claims claim_name = (case map_of claims claim_name of
     Some (JStr value) \<Rightarrow> if blank value then Inl invalid_token else Inr value
   | _ \<Rightarrow> Inl invalid_token)"

definition optional_string :: "(string \<times> json) list \<Rightarrow> string \<Rightarrow> exn + string option" where
  "optional_string claims claim_name = (case map_of claims claim_name of
     None \<Rightarrow> Inr None
   | Some JNull \<Rightarrow> Inr None
   | Some (JStr value) \<Rightarrow> if blank value then Inl invalid_token else Inr (Some value)
   | _ \<Rightarrow> Inl invalid_token)"

definition uuid_text :: "string \<Rightarrow> exn + uuid" where
  "uuid_text value = (case uuid_parse value of None \<Rightarrow> Inl invalid_token | Some u \<Rightarrow> Inr u)"

definition uuid_claim :: "(string \<times> json) list \<Rightarrow> string \<Rightarrow> bool \<Rightarrow> exn + uuid option" where
  "uuid_claim claims claim_name required = (case map_of claims claim_name of
     Some (JStr value) \<Rightarrow> bindE (uuid_text value) (\<lambda>u. Inr (Some u))
   | Some JNull \<Rightarrow> if required then Inl invalid_token else Inr None
   | None \<Rightarrow> if required then Inl invalid_token else Inr None
   | _ \<Rightarrow> Inl invalid_token)"

definition string_item :: "json \<Rightarrow> exn + string" where
  "string_item item = (case item of JStr s \<Rightarrow> Inr s | _ \<Rightarrow> Inl invalid_token)"

definition uuid_list_claim :: "(string \<times> json) list \<Rightarrow> string \<Rightarrow> exn + uuid set" where
  "uuid_list_claim claims claim_name = (case map_of claims claim_name of
     None \<Rightarrow> Inr {}
   | Some JNull \<Rightarrow> Inr {}
   | Some (JArr items) \<Rightarrow>
       bindE (traverseE (\<lambda>item. bindE (string_item item) uuid_text) items) (\<lambda>us. Inr (set us))
   | _ \<Rightarrow> Inl invalid_token)"

definition all_case_roles :: "case_role list" where
  "all_case_roles = [ORG_ADMIN, OPERATOR, APPROVER, AUDITOR, INTEGRATION_ADMIN, PLATFORM_ADMIN]"

text \<open>\<open>CaseRole(raw_role)\<close>; \<open>None\<close> is the \<open>ValueError\<close> that \<open>_realm_roles\<close> ignores.\<close>

definition case_role_of :: "string \<Rightarrow> case_role option" where
  "case_role_of s = find_row (\<lambda>r. case_role_value r = s) all_case_roles"

definition realm_roles :: "(string \<times> json) list \<Rightarrow> exn + case_role set" where
  "realm_roles claims = (case map_of claims ''realm_access'' of
     Some (JObj realm_access) \<Rightarrow> (case map_of realm_access ''roles'' of
         Some (JArr raw_roles) \<Rightarrow>
           bindE (traverseE string_item raw_roles)
             (\<lambda>names. Inr (set (List.map_filter case_role_of names)))
       | _ \<Rightarrow> Inl invalid_token)
   | _ \<Rightarrow> Inl invalid_token)"

definition principal_from_claims ::
  "(string \<times> json) list \<Rightarrow> auth_settings \<Rightarrow> exn + authenticated_principal" where
  "principal_from_claims claims settings =
     bindE (required_string claims ''sub'') (\<lambda>subject.
     bindE (required_string claims ''iss'') (\<lambda>issuer.
     bindE (uuid_claim claims (as_organization_claim settings) True) (\<lambda>organization_id.
     bindE (case organization_id of None \<Rightarrow> Inl (AssertionError ''organization_id'') | Some o' \<Rightarrow> Inr o') (\<lambda>organization_id.
     bindE (uuid_list_claim claims (as_asset_ids_claim settings)) (\<lambda>asset_ids.
     bindE (realm_roles claims) (\<lambda>roles.
     bindE (optional_string claims ''azp'') (\<lambda>client_id. Inr
       \<lparr>pr_subject = subject, pr_organization_id = organization_id, pr_roles = roles,
        pr_asset_ids = asset_ids, pr_issuer = issuer, pr_client_id = client_id\<rparr>)))))))"

section \<open>Verification\<close>

text \<open>The checks \<open>jwt.decode\<close> is asked for.\<close>

record decode_options =
  do_algorithms :: "string list"
  do_audience :: string
  do_issuer :: string
  do_require :: "string list"
  do_leeway :: int

record ('s, 'key) jwt_module =
  jwt_header :: "string \<Rightarrow> exn + (string \<times> json) list"
  jwt_key :: "string \<Rightarrow> ('s, exn, 'key) action"
  jwt_decode :: "string \<Rightarrow> 'key \<Rightarrow> decode_options \<Rightarrow> exn + json"

definition decode_options_of :: "auth_settings \<Rightarrow> decode_options" where
  "decode_options_of settings =
     \<lparr>do_algorithms = as_allowed_algorithms settings, do_audience = as_audience settings,
      do_issuer = as_issuer settings, do_require = [''exp'', ''iat'', ''sub'', ''iss'', ''aud''],
      do_leeway = as_clock_skew_seconds settings\<rparr>"

text \<open>The \<open>except\<close> clauses: the two authentication errors pass, anything else is an invalid token.\<close>

definition token_failure :: "exn \<Rightarrow> exn" where
  "token_failure e = (case e of
     AuthenticationError _ \<Rightarrow> e | AuthenticationServiceError _ \<Rightarrow> e | _ \<Rightarrow> invalid_token)"

definition header_key_id :: "auth_settings \<Rightarrow> (string \<times> json) list \<Rightarrow> exn + string" where
  "header_key_id settings header = (case map_of header ''alg'' of
     Some (JStr algorithm) \<Rightarrow>
       if algorithm \<notin> set (as_allowed_algorithms settings) then Inl invalid_token
       else (case map_of header ''kid'' of
           Some (JStr key_id) \<Rightarrow> if key_id = [] then Inl invalid_token else Inr key_id
         | _ \<Rightarrow> Inl invalid_token)
   | _ \<Rightarrow> Inl invalid_token)"

definition token_claims ::
  "('s, 'key) jwt_module \<Rightarrow> auth_settings \<Rightarrow> string \<Rightarrow> ('s, exn, json) action" where
  "token_claims m settings access_token =
     bindS (liftS (bindE (jwt_header m access_token) (header_key_id settings))) (\<lambda>key_id.
     bindS (jwt_key m key_id) (\<lambda>signing_key.
     liftS (jwt_decode m access_token signing_key (decode_options_of settings))))"

definition verify ::
  "('s, 'key) jwt_module \<Rightarrow> auth_settings \<Rightarrow> string \<Rightarrow> ('s, exn, authenticated_principal) action" where
  "verify m settings access_token s = (let (r, s') = token_claims m settings access_token s in
     (bindE (mapE token_failure r) (\<lambda>claims. case claims of
        JObj members \<Rightarrow> principal_from_claims members settings
      | _ \<Rightarrow> Inl invalid_token), s'))"

section \<open>Facts\<close>

lemma require_any_role_Inr [simp]:
  "require_any_role p required = Inr u \<longleftrightarrow> PLATFORM_ADMIN \<in> pr_roles p \<or> pr_roles p \<inter> required \<noteq> {}"
  by (auto simp: require_any_role_def Let_def)

lemma require_asset_Inr [simp]: "require_asset p a = Inr u \<longleftrightarrow> a \<in> pr_asset_ids p"
  by (simp add: require_asset_def)

lemma case_role_of_Some: "case_role_of s = Some r \<longleftrightarrow> s = case_role_value r"
proof
  assume "case_role_of s = Some r"
  then show "s = case_role_value r" by (auto simp: case_role_of_def dest: find_row_Some)
next
  assume "s = case_role_value r"
  then show "case_role_of s = Some r" by (cases r) (simp_all add: case_role_of_def all_case_roles_def)
qed

lemma realm_roles_Inr:
  assumes "realm_roles claims = Inr rs"
  shows "\<exists>realm items. map_of claims ''realm_access'' = Some (JObj realm) \<and>
    map_of realm ''roles'' = Some (JArr items) \<and> rs = {r. JStr (case_role_value r) \<in> set items}"
proof -
  from assms obtain realm items names where
    r: "map_of claims ''realm_access'' = Some (JObj realm)" "map_of realm ''roles'' = Some (JArr items)"
    and n: "traverseE string_item items = Inr names" "rs = set (List.map_filter case_role_of names)"
    by (auto simp: realm_roles_def bindE_eq_Inr split: option.splits json.splits)
  have "list_all2 (\<lambda>x y. x = JStr y) items names"
    using traverseE_list_all2 [OF n(1)]
    by (rule list_all2_mono) (auto simp: string_item_def split: json.splits)
  then have items: "items = map JStr names"
    by (induction items names rule: list_all2_induct) auto
  have "rs = {r. JStr (case_role_value r) \<in> set items}"
    by (auto simp: n(2) items in_map_filter case_role_of_Some)
  with r show ?thesis by blast
qed

lemma uuid_item_Inr: "bindE (string_item item) uuid_text = Inr u \<longleftrightarrow> (\<exists>t. item = JStr t \<and> uuid_parse t = Some u)"
  by (auto simp: bindE_eq_Inr string_item_def uuid_text_def split: json.splits option.splits)

text \<open>An accepted claim gives all the identifiers it lists and no other; without the claim there are none.\<close>

lemma uuid_list_claim_Inr:
  assumes "uuid_list_claim claims name = Inr us"
  shows "us = {u. \<exists>items t. map_of claims name = Some (JArr items) \<and> JStr t \<in> set items \<and> uuid_parse t = Some u}"
proof -
  consider "us = {}" "map_of claims name \<in> {None, Some JNull}"
    | items vs where "map_of claims name = Some (JArr items)"
      "traverseE (\<lambda>item. bindE (string_item item) uuid_text) items = Inr vs" "us = set vs"
    using assms by (auto simp: uuid_list_claim_def bindE_eq_Inr split: option.splits json.splits)
  then show ?thesis
  proof cases
    case (2 items vs)
    have "list_all2 (\<lambda>item u. \<exists>t. item = JStr t \<and> uuid_parse t = Some u) items vs"
      using traverseE_list_all2 [OF 2(2)] by (simp add: uuid_item_Inr)
    then have "set vs = {u. \<exists>t. JStr t \<in> set items \<and> uuid_parse t = Some u}"
      by (induction rule: list_all2_induct) auto
    with 2 show ?thesis by simp
  qed auto
qed

lemma principal_from_claims_Inr:
  assumes "principal_from_claims claims settings = Inr p"
  shows "(\<exists>t. map_of claims (as_organization_claim settings) = Some (JStr t) \<and>
      uuid_parse t = Some (pr_organization_id p)) \<and>
    map_of claims ''sub'' = Some (JStr (pr_subject p)) \<and> map_of claims ''iss'' = Some (JStr (pr_issuer p)) \<and>
    uuid_list_claim claims (as_asset_ids_claim settings) = Inr (pr_asset_ids p) \<and>
    realm_roles claims = Inr (pr_roles p)"
  using assms
  by (auto simp: principal_from_claims_def bindE_eq_Inr required_string_def uuid_claim_def uuid_text_def
      split: option.splits json.splits if_splits)

lemma verify_Inr:
  assumes "verify m settings tok s = (Inr p, s')"
  shows "\<exists>header alg key_id key claims s1.
    jwt_header m tok = Inr header \<and>
    map_of header ''alg'' = Some (JStr alg) \<and> alg \<in> set (as_allowed_algorithms settings) \<and>
    map_of header ''kid'' = Some (JStr key_id) \<and>
    jwt_key m key_id s = (Inr key, s') \<and>
    jwt_decode m tok key (decode_options_of settings) = Inr (JObj claims) \<and>
    principal_from_claims claims settings = Inr p"
proof -
  obtain r where r: "token_claims m settings tok s = (r, s')"
    using assms by (auto simp: verify_def Let_def split: prod.splits)
  with assms obtain v where v: "r = Inr v"
    "(case v of JObj members \<Rightarrow> principal_from_claims members settings | _ \<Rightarrow> Inl invalid_token) = Inr p"
    by (auto simp: verify_def bindE_eq_Inr)
  obtain claims where c: "r = Inr (JObj claims)" "principal_from_claims claims settings = Inr p"
    using v by (cases v) simp_all
  from r c(1) obtain key_id key header where
    "jwt_header m tok = Inr header" "header_key_id settings header = Inr key_id"
    "jwt_key m key_id s = (Inr key, s')"
    "jwt_decode m tok key (decode_options_of settings) = Inr (JObj claims)"
    by (auto simp: token_claims_def bindS_Inr liftS_def bindE_eq_Inr)
  moreover from this(2) obtain alg where "map_of header ''alg'' = Some (JStr alg)"
    "alg \<in> set (as_allowed_algorithms settings)" "map_of header ''kid'' = Some (JStr key_id)"
    by (auto simp: header_key_id_def split: option.splits json.splits if_splits)
  ultimately show ?thesis using c(2) by blast
qed

text \<open>The cache: an entry used is current, and a failed refresh keeps the entries and their expiry.\<close>

lemma refresh_failed: "refresh ks (jr, s) = (Inl e, jr', s') \<Longrightarrow> jr' = jr"
  by (auto simp: refresh_def Let_def split: prod.splits sum.splits option.splits json.splits)

lemma get_signing_key_Inr:
  "get_signing_key ks load key_id js = (Inr key, js') \<Longrightarrow>
   \<exists>k. map_of (jr_keys (fst js')) key_id = Some k \<and> load k = Inr key"
  by (auto simp: get_signing_key_def bindS_Inr lookup_key_def liftS_def raiseS_def load_key_def
      split: option.splits)

lemma read_keys_distinct:
  "read_keys raw keys = Inr ks \<Longrightarrow> distinct (map fst keys) \<Longrightarrow> distinct (map fst ks)"
proof (induction raw keys rule: read_keys.induct)
  case (2 x rest keys)
  then show ?case
    by (auto split: json.splits option.splits if_splits simp: map_of_eq_None_iff)
qed simp

end
