(* ===== verification/Request_Guards.thy ===== *)
theory Request_Guards
  imports Exceptions
begin

text \<open>
  \<open>core/rate_limit.py\<close> (the fixed-window limiter and its pruned map), \<open>core/request_context.py\<close> (the
  W3C trace context) and the decisions of \<open>core/middleware.py\<close> (rate limiting, correlation ids).
  Times are microseconds of the monotonic clock; what \<open>uuid4\<close> and \<open>token_hex\<close> draw are arguments. A
  check runs under the limiter's lock, so it is one atomic step.
\<close>

section \<open>The limiter\<close>

record window =
  w_started_at :: int
  w_requests :: nat

record rate_limiter =
  rl_max_requests :: nat
  rl_window :: int
  rl_windows :: "(string \<times> window) list"

definition expired :: "rate_limiter \<Rightarrow> int \<Rightarrow> window \<Rightarrow> bool" where
  "expired rl now w = (rl_window rl \<le> now - w_started_at w)"

definition prune :: "int \<Rightarrow> rate_limiter \<Rightarrow> rate_limiter" where
  "prune now rl = rl\<lparr>rl_windows := filter (\<lambda>kw. \<not> expired rl now (snd kw)) (rl_windows rl)\<rparr>"

text \<open>Assignment to a dict entry.\<close>

definition set_window :: "string \<Rightarrow> window \<Rightarrow> rate_limiter \<Rightarrow> rate_limiter" where
  "set_window key w rl = rl\<lparr>rl_windows := (key, w) # filter (\<lambda>kw. fst kw \<noteq> key) (rl_windows rl)\<rparr>"

text \<open>\<open>int(remaining)\<close> truncates; \<open>remaining\<close> is positive here.\<close>

definition retry_after :: "rate_limiter \<Rightarrow> int \<Rightarrow> window \<Rightarrow> int" where
  "retry_after rl now w = max 1 ((rl_window rl - (now - w_started_at w)) div 1000000 + 1)"

definition check :: "int \<Rightarrow> string \<Rightarrow> rate_limiter \<Rightarrow> (bool \<times> int) \<times> rate_limiter" where
  "check now key rl0 =
     (let rl = prune now rl0 in
      case map_of (rl_windows rl) key of
        None \<Rightarrow> ((True, 0), set_window key \<lparr>w_started_at = now, w_requests = 1\<rparr> rl)
      | Some w \<Rightarrow>
          if expired rl now w then ((True, 0), set_window key \<lparr>w_started_at = now, w_requests = 1\<rparr> rl)
          else if rl_max_requests rl \<le> w_requests w then ((False, retry_after rl now w), rl)
          else ((True, 0), set_window key (w\<lparr>w_requests := w_requests w + 1\<rparr>) rl))"

section \<open>Trace context\<close>

record trace_context =
  tx_trace_id :: string
  tx_span_id :: string
  tx_trace_flags :: string

definition traceparent :: "trace_context \<Rightarrow> string" where
  "traceparent t = ''00-'' @ tx_trace_id t @ ''-'' @ tx_span_id t @ ''-'' @ tx_trace_flags t"

text \<open>
  \<open>_TRACEPARENT_PATTERN.fullmatch\<close>: four groups of lower-case hexadecimal digits of fixed lengths,
  joined by dashes. A fixed-length pattern either has the length or it does not.
\<close>

definition traceparent_match :: "string \<Rightarrow> (string \<times> string \<times> string \<times> string) option" where
  "traceparent_match s =
     (let version = take 2 s; trace_id = take 32 (drop 3 s); parent_id = take 16 (drop 36 s);
          flags = drop 53 s
      in if length s = 55 \<and> s = version @ ''-'' @ trace_id @ ''-'' @ parent_id @ ''-'' @ flags
            \<and> list_all is_lower_hex (version @ trace_id @ parent_id @ flags)
         then Some (version, trace_id, parent_id, flags) else None)"

definition new_trace_context :: "string \<Rightarrow> string \<Rightarrow> string option \<Rightarrow> trace_context" where
  "new_trace_context hex32 hex16 header =
     (let root = \<lparr>tx_trace_id = hex32, tx_span_id = hex16, tx_trace_flags = ''01''\<rparr> in
      case traceparent_match (case header of None \<Rightarrow> [] | Some h \<Rightarrow> h) of
        None \<Rightarrow> root
      | Some (version, trace_id, parent_id, flags) \<Rightarrow>
          if version \<noteq> ''ff'' \<and> trace_id \<noteq> replicate 32 (CHR ''0'') \<and> parent_id \<noteq> replicate 16 (CHR ''0'')
          then \<lparr>tx_trace_id = trace_id, tx_span_id = hex16, tx_trace_flags = flags\<rparr>
          else root)"

section \<open>Middleware\<close>

definition valid_or_new_correlation_id :: "uuid \<Rightarrow> string option \<Rightarrow> string" where
  "valid_or_new_correlation_id fresh value = (case value of
     None \<Rightarrow> uuid_str fresh
   | Some v \<Rightarrow> if v = [] then uuid_str fresh
       else (case uuid_parse v of None \<Rightarrow> uuid_str fresh | Some u \<Rightarrow> uuid_str u))"

definition HEALTH_PATHS :: "string set" where
  "HEALTH_PATHS = {''/healthz'', ''/readyz''}"

text \<open>What the rate-limit middleware does with a request: pass it on, or answer 429 itself.\<close>

datatype limiter_verdict = PassOn | TooManyRequests int

definition rate_limit_dispatch ::
  "bool \<Rightarrow> string \<Rightarrow> string option \<Rightarrow> int \<Rightarrow> rate_limiter \<Rightarrow> limiter_verdict \<times> rate_limiter" where
  "rate_limit_dispatch enabled path client_host now rl =
     (if \<not> enabled \<or> path \<in> HEALTH_PATHS then (PassOn, rl)
      else let ((allowed, retry), rl') = check now (case client_host of None \<Rightarrow> ''unknown'' | Some h \<Rightarrow> h) rl
           in (if allowed then PassOn else TooManyRequests retry, rl'))"

section \<open>The limiter's invariant\<close>

text \<open>
  Every client once, no window over its budget or started in the future, and no window older than the
  length of a window at the last check, so the map holds only clients seen within one window.
\<close>

definition limiter_ok :: "int \<Rightarrow> rate_limiter \<Rightarrow> bool" where
  "limiter_ok now rl =
     (distinct (map fst (rl_windows rl)) \<and> 0 < rl_window rl \<and> 1 \<le> rl_max_requests rl \<and>
      list_all (\<lambda>kw. w_started_at (snd kw) \<le> now \<and> 1 \<le> w_requests (snd kw) \<and>
        w_requests (snd kw) \<le> rl_max_requests rl \<and> now - w_started_at (snd kw) < rl_window rl) (rl_windows rl))"

lemma set_window_simps [simp]:
  "rl_max_requests (set_window k w rl) = rl_max_requests rl" "rl_window (set_window k w rl) = rl_window rl"
  "rl_windows (set_window k w rl) = (k, w) # filter (\<lambda>kw. fst kw \<noteq> k) (rl_windows rl)"
  by (simp_all add: set_window_def)

lemma prune_simps [simp]:
  "rl_max_requests (prune now rl) = rl_max_requests rl" "rl_window (prune now rl) = rl_window rl"
  "rl_windows (prune now rl) = filter (\<lambda>kw. \<not> expired rl now (snd kw)) (rl_windows rl)"
  "expired (prune now rl) = expired rl"
  by (simp_all add: prune_def expired_def fun_eq_iff)

lemma distinct_fst_filter: "distinct (map fst xs) \<Longrightarrow> distinct (map fst (filter p xs))"
  by (simp add: distinct_map_filter)

lemma prune_ok: "limiter_ok t rl \<Longrightarrow> t \<le> now \<Longrightarrow> limiter_ok now (prune now rl)"
  by (auto simp: limiter_ok_def distinct_fst_filter list_all_iff expired_def)

lemma check_ok:
  assumes "limiter_ok t rl" "t \<le> now"
  shows "limiter_ok now (snd (check now key rl))"
proof -
  have ok: "limiter_ok now (prune now rl)" by (rule prune_ok [OF assms])
  have upd: "limiter_ok now (set_window key w (prune now rl))"
    if "w_started_at w \<le> now" "1 \<le> w_requests w" "w_requests w \<le> rl_max_requests rl"
      "now - w_started_at w < rl_window rl" for w
    using ok that distinct_fst_filter [of "rl_windows (prune now rl)" "\<lambda>kw. fst kw \<noteq> key"]
    by (auto simp: limiter_ok_def list_all_iff image_iff)
  have fresh: "limiter_ok now (set_window key \<lparr>w_started_at = now, w_requests = 1\<rparr> (prune now rl))"
    using assms(1) by (intro upd) (simp_all add: limiter_ok_def)
  show ?thesis
  proof (cases "map_of (rl_windows (prune now rl)) key")
    case None
    with fresh show ?thesis by (simp add: check_def Let_def)
  next
    case (Some w)
    then have w: "(key, w) \<in> set (rl_windows (prune now rl))" by (rule map_of_SomeD)
    with ok have "w_started_at w \<le> now" "now - w_started_at w < rl_window rl"
      by (auto simp: limiter_ok_def list_all_iff)
    moreover have "limiter_ok now (set_window key (w\<lparr>w_requests := w_requests w + 1\<rparr>) (prune now rl))"
      if "\<not> rl_max_requests rl \<le> w_requests w"
      using that calculation by (intro upd) simp_all
    ultimately show ?thesis using Some ok fresh by (simp add: check_def Let_def expired_def)
  qed
qed

section \<open>Runs\<close>

text \<open>A sequence of checks, each at its time for its client; the clients and whether they were admitted.\<close>

fun run_checks :: "(int \<times> string) list \<Rightarrow> rate_limiter \<Rightarrow> (string \<times> bool) list" where
  "run_checks [] rl = []"
| "run_checks ((now, key) # cs) rl =
     (let ((allowed, retry), rl') = check now key rl in (key, allowed) # run_checks cs rl')"

definition admitted :: "string \<Rightarrow> (string \<times> bool) list \<Rightarrow> nat" where
  "admitted key vs = length (filter (\<lambda>v. fst v = key \<and> snd v) vs)"

definition requests_of :: "string \<Rightarrow> (int \<times> string) list \<Rightarrow> nat" where
  "requests_of key cs = length (filter (\<lambda>c. snd c = key) cs)"

lemma map_of_filter_fst: "p key \<Longrightarrow> map_of (filter (\<lambda>kw. p (fst kw)) xs) key = map_of xs key"
  by (induction xs) auto

lemma map_of_prune:
  "distinct (map fst xs) \<Longrightarrow> map_of xs key = Some w \<Longrightarrow> q w \<Longrightarrow>
   map_of (filter (\<lambda>kw. q (snd kw)) xs) key = Some w"
  by (induction xs) (auto split: if_splits)

lemma map_of_pruned_away:
  "distinct (map fst xs) \<Longrightarrow> (\<And>w. map_of xs key = Some w \<Longrightarrow> \<not> q w) \<Longrightarrow>
   map_of (filter (\<lambda>kw. q (snd kw)) xs) key = None"
proof (induction xs)
  case (Cons x xs)
  show ?case
  proof (cases "fst x = key")
    case True
    with Cons.prems have "\<not> q (snd x)" by (cases x) auto
    moreover from True Cons.prems(1) have "map_of xs key = None" by (auto simp: map_of_eq_None_iff)
    ultimately show ?thesis using Cons by simp
  next
    case False
    with Cons show ?thesis by (cases x) auto
  qed
qed simp

text \<open>A window that is still open: what a check of its client, or of another one, does to it.\<close>

lemma check_open_window:
  assumes "limiter_ok t rl" "map_of (rl_windows rl) key = Some w" "\<not> expired rl now w"
  shows "fst (fst (check now key rl)) = (w_requests w < rl_max_requests rl)"
    and "map_of (rl_windows (snd (check now key rl))) key =
      Some (if w_requests w < rl_max_requests rl then w\<lparr>w_requests := w_requests w + 1\<rparr> else w)"
proof -
  have "map_of (rl_windows (prune now rl)) key = Some w"
    using assms map_of_prune [of "rl_windows rl" key w "\<lambda>w. \<not> expired rl now w"]
    by (simp add: limiter_ok_def)
  then show "fst (fst (check now key rl)) = (w_requests w < rl_max_requests rl)"
    "map_of (rl_windows (snd (check now key rl))) key =
      Some (if w_requests w < rl_max_requests rl then w\<lparr>w_requests := w_requests w + 1\<rparr> else w)"
    using assms(3) by (auto simp: check_def Let_def not_le)
qed

lemma check_other_client:
  assumes "limiter_ok t rl" "map_of (rl_windows rl) key = Some w" "\<not> expired rl now w" "other \<noteq> key"
  shows "map_of (rl_windows (snd (check now other rl))) key = Some w"
proof -
  have p: "map_of (rl_windows (prune now rl)) key = Some w"
    using assms map_of_prune [of "rl_windows rl" key w "\<lambda>w. \<not> expired rl now w"]
    by (simp add: limiter_ok_def)
  have "map_of (rl_windows (set_window other v (prune now rl))) key = Some w" for v
    using p assms(4) map_of_filter_fst [of "\<lambda>k. k \<noteq> other" key "rl_windows (prune now rl)"]
    by (simp del: filter_filter)
  with p show ?thesis by (auto simp: check_def Let_def split: option.splits)
qed

lemma check_config [simp]:
  "rl_max_requests (snd (check now key rl)) = rl_max_requests rl"
  "rl_window (snd (check now key rl)) = rl_window rl"
  by (simp_all add: check_def Let_def split: option.splits)

lemma admitted_in_window:
  assumes "limiter_ok t rl" "map_of (rl_windows rl) key = Some w" "w_started_at w = t0"
    and "sorted (t # map fst cs)" "list_all (\<lambda>c. fst c < t0 + rl_window rl) cs"
  shows "admitted key (run_checks cs rl) = min (rl_max_requests rl - w_requests w) (requests_of key cs)"
  using assms
proof (induction cs arbitrary: rl t w)
  case Nil
  then show ?case by (simp add: admitted_def requests_of_def)
next
  case (Cons c cs)
  obtain now k where c: "c = (now, k)" by (cases c)
  let ?rl = "snd (check now k rl)"
  have now: "t \<le> now" "now < t0 + rl_window rl" using Cons.prems c by auto
  have open_w: "\<not> expired rl now w" using now(2) Cons.prems(3) by (simp add: expired_def)
  have ok: "limiter_ok now ?rl" by (rule check_ok [OF Cons.prems(1) now(1)])
  have run: "run_checks (c # cs) rl = (k, fst (fst (check now k rl))) # run_checks cs ?rl"
    by (simp add: c case_prod_beta Let_def)
  have rest: "sorted (now # map fst cs)" "list_all (\<lambda>c. fst c < t0 + rl_window ?rl) cs"
    using Cons.prems(4,5) c by simp_all
  have le: "w_requests w \<le> rl_max_requests rl"
    using Cons.prems(1) map_of_SomeD [OF Cons.prems(2)] by (auto simp: limiter_ok_def list_all_iff)
  show ?case
  proof (cases "k = key")
    case True
    note s = check_open_window [OF Cons.prems(1,2) open_w]
    let ?w = "if w_requests w < rl_max_requests rl then w\<lparr>w_requests := w_requests w + 1\<rparr> else w"
    have "admitted key (run_checks cs ?rl) = min (rl_max_requests ?rl - w_requests ?w) (requests_of key cs)"
      using True s(2) Cons.prems(3) by (intro Cons.IH [OF ok _ _ rest]) simp_all
    with run s(1) True le show ?thesis by (auto simp: admitted_def requests_of_def c)
  next
    case False
    note s = check_other_client [OF Cons.prems(1,2) open_w False]
    have "admitted key (run_checks cs ?rl) = min (rl_max_requests ?rl - w_requests w) (requests_of key cs)"
      by (rule Cons.IH [OF ok s Cons.prems(3) rest])
    with run False show ?thesis by (simp add: admitted_def requests_of_def c)
  qed
qed

text \<open>A client without an open window starts one.\<close>

lemma check_fresh_window:
  assumes "limiter_ok t rl" "\<And>w. map_of (rl_windows rl) key = Some w \<Longrightarrow> expired rl now w"
  shows "check now key rl =
    ((True, 0), set_window key \<lparr>w_started_at = now, w_requests = 1\<rparr> (prune now rl))"
proof -
  have "map_of (rl_windows (prune now rl)) key = None"
    using assms map_of_pruned_away [of "rl_windows rl" key "\<lambda>w. \<not> expired rl now w"]
    by (simp add: limiter_ok_def)
  then show ?thesis by (simp add: check_def Let_def)
qed

lemma check_refused:
  assumes "limiter_ok t rl" "check now key rl = ((False, r), rl')"
  shows "\<exists>w. map_of (rl_windows rl') key = Some w \<and> \<not> expired rl now w \<and>
    r = retry_after rl now w \<and> rl' = prune now rl"
  using assms(2) by (auto simp: check_def Let_def retry_after_def split: option.splits if_splits)

end
