(* ===== verification/Name_Uuid.thy ===== *)
theory Name_Uuid
  imports Hashing Py_Data
begin

text \<open>
  \<open>uuid.uuid5\<close> of the standard library: SHA-1 (FIPS 180-4) of the namespace and the name, cut to 128
  bits with the version and variant bits set. The API derives the actor id of a principal with it.
\<close>

type_synonym sha1_state = "32 word \<times> 32 word \<times> 32 word \<times> 32 word \<times> 32 word"

definition sha1_init :: sha1_state where
  "sha1_init = (1732584193, 4023233417, 2562383102, 271733878, 3285377520)"

text \<open>The message schedule, newest word first.\<close>

fun sha1_schedule :: "nat \<Rightarrow> 32 word list \<Rightarrow> 32 word list" where
  "sha1_schedule 0 ws = ws"
| "sha1_schedule (Suc n) ws =
     sha1_schedule n (word_rotl 1 (xor (xor (ws ! 2) (ws ! 7)) (xor (ws ! 13) (ws ! 15))) # ws)"

definition sha1_round :: "nat \<times> 32 word \<Rightarrow> sha1_state \<Rightarrow> sha1_state" where
  "sha1_round tw = (\<lambda>(a, b, c, d, e).
     let (f, k) =
       (if fst tw < 20 then (or (and b c) (and (not b) d), 1518500249)
        else if fst tw < 40 then (xor (xor b c) d, 1859775393)
        else if fst tw < 60 then (or (or (and b c) (and b d)) (and c d), 2400959708)
        else (xor (xor b c) d, 3395469782))
     in (word_rotl 5 a + f + e + k + snd tw, a, word_rotl 30 b, c, d))"

definition sha1_block :: "byte list \<Rightarrow> sha1_state \<Rightarrow> sha1_state" where
  "sha1_block bs = (\<lambda>(a, b, c, d, e).
     let ws = rev (sha1_schedule 64 (rev (be_words 16 bs)));
         (a', b', c', d', e') = fold sha1_round (zip [0..<80] ws) (a, b, c, d, e)
     in (a + a', b + b', c + c', d + d', e + e'))"

fun sha1_blocks :: "nat \<Rightarrow> byte list \<Rightarrow> sha1_state \<Rightarrow> sha1_state" where
  "sha1_blocks 0 bs st = st"
| "sha1_blocks (Suc n) bs st = sha1_blocks n (drop 64 bs) (sha1_block (take 64 bs) st)"

text \<open>The first 128 bits of the digest.\<close>

definition sha1_128 :: "byte list \<Rightarrow> 128 word" where
  "sha1_128 m = (let p = sha_pad m; (a, b, c, d, e) = sha1_blocks (length p div 64) p sha1_init in
     or (or (push_bit 96 (ucast a)) (push_bit 64 (ucast b))) (or (push_bit 32 (ucast c)) (ucast d)))"

definition uuid_bytes :: "uuid \<Rightarrow> byte list" where
  "uuid_bytes u = map (\<lambda>i. ucast (drop_bit (8 * i) u)) (rev [0..<16])"

definition NAMESPACE_URL :: uuid where
  "NAMESPACE_URL = 143098242483405524118141958906375844040"

definition uuid5 :: "uuid \<Rightarrow> string \<Rightarrow> uuid" where
  "uuid5 namespace name =
     (let h = sha1_128 (uuid_bytes namespace @ utf8 name);
          variant = or (and h (not (push_bit 62 3))) (push_bit 63 1)
      in or (and variant (not (push_bit 76 15))) (push_bit 76 5))"

end
