(* ===== verification/Case_Api.thy ===== *)
theory Case_Api
  imports Case_Listing Access_Control Request_Guards Name_Uuid
begin

text \<open>
  \<open>api/cases.py\<close>: the request models, the access gates, the error mapping and every endpoint, as
  functions of the database inside the request's transaction; \<open>core/dependencies.py\<close>: how a request
  gets its principal and its transaction; the status an exception is answered with (\<open>api/errors.py\<close>).
  The principal is what \<open>Access_Control.verify\<close> returned. Identifiers drawn by \<open>uuid4\<close>, the time and
  the correlation id of the request context are the record \<open>request_context\<close>.
\<close>

section \<open>Errors\<close>

text \<open>The status of the response to an exception that escapes the endpoint.\<close>

definition response_status :: "exn \<Rightarrow> int" where
  "response_status e = (case e of ApiError s _ \<Rightarrow> s | HTTPException s _ \<Rightarrow> s | _ \<Rightarrow> 500)"

definition case_not_found :: exn where
  "case_not_found = ApiError 404 ''case_not_found''"

definition map_case_error :: "exn \<Rightarrow> exn" where
  "map_case_error e = (case e of
     CaseNotFoundError _ \<Rightarrow> case_not_found
   | IdempotencyConflictError _ _ _ \<Rightarrow> ApiError 409 ''idempotency_conflict''
   | VersionConflictError _ _ _ \<Rightarrow> ApiError 409 ''case_version_conflict''
   | TransitionAuthorizationError _ \<Rightarrow> ApiError 403 ''case_transition_forbidden''
   | InvalidTransitionError _ _ \<Rightarrow> ApiError 422 ''invalid_case_transition''
   | TransitionConstraintError _ \<Rightarrow> ApiError 422 ''invalid_case_transition''
   | _ \<Rightarrow> if is_value_error e then ApiError 422 ''invalid_case_transition'' else e)"

text \<open>\<open>except ApiError: raise\<close>, then \<open>except Exception\<close>.\<close>

definition case_failure :: "exn \<Rightarrow> exn" where
  "case_failure e = (case e of ApiError _ _ \<Rightarrow> e | _ \<Rightarrow> map_case_error e)"

section \<open>Dependencies\<close>

text \<open>\<open>get_current_principal\<close> over a verifier; no credentials is an empty token.\<close>

definition principal_failure :: "exn \<Rightarrow> exn" where
  "principal_failure e = (case e of
     AuthenticationError code \<Rightarrow> ApiError 401 code
   | AuthenticationServiceError _ \<Rightarrow> ApiError 503 ''authentication_unavailable''
   | _ \<Rightarrow> e)"

definition get_current_principal ::
  "(string \<Rightarrow> ('s, exn, authenticated_principal) action) \<Rightarrow> string option \<Rightarrow>
   ('s, exn, authenticated_principal) action" where
  "get_current_principal verifier credentials s = (case credentials of
     None \<Rightarrow> (Inl (ApiError 401 ''authentication_required''), s)
   | Some token \<Rightarrow>
       if token = [] then (Inl (ApiError 401 ''authentication_required''), s)
       else (let (r, s') = verifier token s in (mapE principal_failure r, s')))"

definition connection_failure :: "exn \<Rightarrow> exn" where
  "connection_failure e =
     (if is_sqlalchemy_error e \<or> (case e of TenantContextError _ \<Rightarrow> True | _ \<Rightarrow> False)
      then ApiError 503 ''tenant_context_unavailable'' else e)"

text \<open>\<open>get_tenant_connection\<close>: the endpoint runs in the transaction of the principal's organization.\<close>

definition tenant_request ::
  "bool \<Rightarrow> authenticated_principal \<Rightarrow> (db \<Rightarrow> exn + 'a \<times> db) \<Rightarrow> db \<Rightarrow> (exn + 'a) \<times> db" where
  "tenant_request configured p body d =
     (if \<not> configured then (Inl (ApiError 503 ''persistence_unavailable''), d)
      else let (r, d') = tenant_connection (pr_organization_id p) body d
           in (mapE connection_failure r, d'))"

definition require_roles :: "case_role set \<Rightarrow> authenticated_principal \<Rightarrow> exn + authenticated_principal" where
  "require_roles required p =
     bindE (mapE (\<lambda>e. case e of AuthorizationError code \<Rightarrow> ApiError 403 code | _ \<Rightarrow> e)
       (require_any_role p required)) (\<lambda>_. Inr p)"

section \<open>Gates\<close>

definition case_create_roles :: "case_role set" where
  "case_create_roles = {ORG_ADMIN, OPERATOR, APPROVER, PLATFORM_ADMIN}"

definition case_read_roles :: "case_role set" where
  "case_read_roles = set all_case_roles"

text \<open>\<open>except AuthorizationError\<close>: a refused gate as the given response.\<close>

definition forbidden :: "string \<Rightarrow> exn \<Rightarrow> exn" where
  "forbidden code e = (case e of AuthorizationError _ \<Rightarrow> ApiError 403 code | _ \<Rightarrow> e)"

definition require_case_read_access :: "authenticated_principal \<Rightarrow> exn + unit" where
  "require_case_read_access p = mapE (forbidden ''case_read_forbidden'') (require_any_role p case_read_roles)"

definition require_case_create_access :: "authenticated_principal \<Rightarrow> exn + unit" where
  "require_case_create_access p = mapE (forbidden ''case_write_forbidden'') (require_any_role p case_create_roles)"

definition require_create_asset_scope :: "authenticated_principal \<Rightarrow> uuid option \<Rightarrow> exn + unit" where
  "require_create_asset_scope p asset_id = (case asset_id of
     None \<Rightarrow> Inr ()
   | Some a \<Rightarrow> mapE (forbidden ''asset_scope_denied'') (require_asset p a))"

definition is_visible_to_principal :: "case_record \<Rightarrow> authenticated_principal \<Rightarrow> bool" where
  "is_visible_to_principal k p = (case rec_asset_id k of None \<Rightarrow> True | Some a \<Rightarrow> a \<in> pr_asset_ids p)"

definition visible_case_or_not_found :: "case_record \<Rightarrow> authenticated_principal \<Rightarrow> exn + case_record" where
  "visible_case_or_not_found k p = (if is_visible_to_principal k p then Inr k else Inl case_not_found)"

definition actor_name :: "authenticated_principal \<Rightarrow> string" where
  "actor_name p = pr_issuer p @ [CHR 0x1F] @ pr_subject p"

definition actor_from_principal :: "authenticated_principal \<Rightarrow> exn + actor" where
  "actor_from_principal p =
     mapE (\<lambda>e. if is_value_error e then ApiError 403 ''case_write_forbidden'' else e)
       (mk_actor (uuid5 NAMESPACE_URL (actor_name p)) HUMAN (pr_roles p))"

section \<open>Requests\<close>

text \<open>What a request draws while it runs; \<open>rq_correlation_id\<close> is the context variable.\<close>

record request_context =
  rq_case_id :: uuid
  rq_event_id :: uuid
  rq_input_id :: uuid
  rq_transition_id :: uuid
  rq_outbox_id :: uuid
  rq_audit_id :: uuid
  rq_correlation_id :: string
  rq_now :: datetime

record case_input_request =
  ir_input_kind :: string
  ir_content :: "(string \<times> json) list"

record create_case_request =
  cq_title :: string
  cq_category :: "string option"
  cq_severity :: string
  cq_asset_id :: "uuid option"
  cq_input :: "case_input_request option"

definition bounded :: "nat \<Rightarrow> string \<Rightarrow> bool" where
  "bounded n s = (1 \<le> length s \<and> length s \<le> n)"

definition bounded_opt :: "nat \<Rightarrow> string option \<Rightarrow> bool" where
  "bounded_opt n s = (case s of None \<Rightarrow> True | Some t \<Rightarrow> bounded n t)"

text \<open>A body the model refuses is answered 422 before the endpoint runs.\<close>

definition validation_error :: exn where
  "validation_error = ApiError 422 ''validation_error''"

definition validate_create_request :: "create_case_request \<Rightarrow> string \<Rightarrow> exn + unit" where
  "validate_create_request q idempotency_key = raise_unless
     (bounded 500 (cq_title q) \<and> bounded_opt 100 (cq_category q) \<and>
      cq_severity q \<in> {''low'', ''medium'', ''high'', ''critical''} \<and>
      (case cq_input q of None \<Rightarrow> True | Some i \<Rightarrow> bounded 100 (ir_input_kind i)) \<and>
      bounded 255 idempotency_key) validation_error"

record transition_case_request =
  tq_expected_version :: int
  tq_to_state :: case_state
  tq_approval_id :: "uuid option"
  tq_verification_note :: "string option"
  tq_knowledge_item_id :: "uuid option"
  tq_note :: "string option"

definition validate_transition_request :: "transition_case_request \<Rightarrow> exn + unit" where
  "validate_transition_request q = raise_unless
     (0 \<le> tq_expected_version q \<and> bounded_opt 10000 (tq_verification_note q) \<and> bounded_opt 10000 (tq_note q))
     validation_error"

record resolve_case_request =
  sq_expected_version :: int
  sq_verification_note :: string

definition validate_resolve_request :: "resolve_case_request \<Rightarrow> exn + unit" where
  "validate_resolve_request q = raise_unless
     (0 \<le> sq_expected_version q \<and> bounded 10000 (sq_verification_note q)) validation_error"

record case_feedback_request =
  fq_expected_version :: int
  fq_note :: string

definition validate_feedback_request :: "case_feedback_request \<Rightarrow> exn + unit" where
  "validate_feedback_request q = raise_unless
     (0 \<le> fq_expected_version q \<and> bounded 10000 (fq_note q)) validation_error"

section \<open>Responses\<close>

text \<open>\<open>CaseResponse\<close> and \<open>CaseTimelineEntryResponse\<close> have the fields of the read models.\<close>

record case_response =
  cr_id :: uuid
  cr_state :: case_state
  cr_version :: int
  cr_title :: string
  cr_category :: "string option"
  cr_severity :: string
  cr_asset_id :: "uuid option"
  cr_created_by_actor_id :: "uuid option"
  cr_created_at :: datetime
  cr_updated_at :: datetime

definition case_response_of :: "case_record \<Rightarrow> case_response" where
  "case_response_of k =
     \<lparr>cr_id = rec_case_id k, cr_state = rec_state k, cr_version = rec_version k, cr_title = rec_title k,
      cr_category = rec_category k, cr_severity = rec_severity k, cr_asset_id = rec_asset_id k,
      cr_created_by_actor_id = rec_created_by k, cr_created_at = rec_created_at k,
      cr_updated_at = rec_updated_at k\<rparr>"

record case_timeline_entry_response =
  ct_event_id :: uuid
  ct_event_type :: string
  ct_aggregate_version :: int
  ct_transition_id :: "uuid option"
  ct_actor_id :: uuid
  ct_correlation_id :: uuid
  ct_occurred_at :: datetime
  ct_from_state :: "case_state option"
  ct_to_state :: "case_state option"
  ct_approval_id :: "uuid option"
  ct_verification_note :: "string option"
  ct_knowledge_item_id :: "uuid option"
  ct_note :: "string option"

definition timeline_response :: "case_timeline_entry \<Rightarrow> case_timeline_entry_response" where
  "timeline_response e =
     \<lparr>ct_event_id = tl_event_id e,
      ct_event_type = tl_event_type e,
      ct_aggregate_version = tl_aggregate_version e,
      ct_transition_id = tl_transition_id e,
      ct_actor_id = tl_actor_id e,
      ct_correlation_id = tl_correlation_id e,
      ct_occurred_at = tl_occurred_at e,
      ct_from_state = tl_from_state e,
      ct_to_state = tl_to_state e,
      ct_approval_id = tl_approval_id e,
      ct_verification_note = tl_verification_note e,
      ct_knowledge_item_id = tl_knowledge_item_id e,
      ct_note = tl_note e\<rparr>"

record case_detail_response =
  cd_case :: case_response
  cd_timeline :: "case_timeline_entry_response list"

record case_list_response =
  cl_items :: "case_response list"
  cl_next_cursor :: "case_list_cursor option"

record create_response =
  cp_status :: int
  cp_replay :: bool
  cp_case :: case_response

section \<open>Endpoints\<close>

definition request_correlation_id :: "request_context \<Rightarrow> exn + uuid" where
  "request_correlation_id x = (case uuid_parse (rq_correlation_id x) of
     None \<Rightarrow> Inl (ValueError ''badly formed hexadecimal UUID string'') | Some u \<Rightarrow> Inr u)"

definition case_input_of :: "request_context \<Rightarrow> create_case_request \<Rightarrow> exn + case_input_command option" where
  "case_input_of x q = (case cq_input q of
     None \<Rightarrow> Inr None
   | Some i \<Rightarrow> bindE (mk_case_input_command
       \<lparr>in_input_id = rq_input_id x, in_input_kind = ir_input_kind i,
        in_content_sha256 = sha256 (utf8 (json_canonical (JObj (ir_content i)))),
        in_content = JObj (ir_content i)\<rparr>) (\<lambda>c. Inr (Some c)))"

definition create_command_of ::
  "request_context \<Rightarrow> create_case_request \<Rightarrow> string \<Rightarrow> actor \<Rightarrow> exn + create_case_command" where
  "create_command_of x q idempotency_key a =
     bindE (case_input_of x q) (\<lambda>case_input.
     bindE (request_correlation_id x) (\<lambda>correlation_id.
     mk_create_case_command
       \<lparr>cc_case_id = rq_case_id x, cc_event_id = rq_event_id x, cc_idempotency_key = idempotency_key,
        cc_title = cq_title q, cc_category = cq_category q, cc_severity = cq_severity q,
        cc_asset_id = cq_asset_id q, cc_actor = a, cc_correlation_id = correlation_id,
        cc_occurred_at = rq_now x, cc_case_input = case_input\<rparr>))"

definition create_case_endpoint ::
  "request_context \<Rightarrow> authenticated_principal \<Rightarrow> create_case_request \<Rightarrow> string \<Rightarrow> db \<Rightarrow>
   exn + create_response \<times> db" where
  "create_case_endpoint x p q idempotency_key d =
     bindE (validate_create_request q idempotency_key) (\<lambda>_.
     if blank idempotency_key then Inl (map_case_error (ValueError ''idempotency key cannot be blank''))
     else
       bindE (require_case_create_access p) (\<lambda>_.
       bindE (require_create_asset_scope p (cq_asset_id q)) (\<lambda>_.
       bindE (actor_from_principal p) (\<lambda>a.
       bindE (create_command_of x q idempotency_key a) (\<lambda>c.
       bindE (mapE map_case_error (create_case (rq_outbox_id x) (rq_audit_id x) (pr_organization_id p) c d))
         (\<lambda>(result, d'). Inr
           (\<lparr>cp_status = (if res_created result then 201 else 200), cp_replay = \<not> res_created result,
             cp_case = case_response_of (res_case result)\<rparr>, d')))))))"

text \<open>The list endpoint, with the cursor already parsed and the next one not yet rendered.\<close>

definition list_cases_endpoint ::
  "authenticated_principal \<Rightarrow> uuid list \<Rightarrow> int \<Rightarrow> case_list_cursor option \<Rightarrow> string option \<Rightarrow>
   case_state option \<Rightarrow> string option \<Rightarrow> db \<Rightarrow> exn + case_list_response \<times> db" where
  "list_cases_endpoint p asset_ids limit cursor q state severity d =
     bindE (require_case_read_access p) (\<lambda>_.
     bindE (mapE map_case_error (list_cases (pr_organization_id p) asset_ids limit cursor q state severity d))
       (\<lambda>page. Inr (\<lparr>cl_items = map case_response_of (page_items page),
          cl_next_cursor = page_next_cursor page\<rparr>, d)))"

text \<open>The read both detail endpoints start with.\<close>

definition visible_detail :: "authenticated_principal \<Rightarrow> uuid \<Rightarrow> db \<Rightarrow> exn + case_detail" where
  "visible_detail p case_id d =
     mapE case_failure
       (bindE (get_detail (pr_organization_id p) case_id d) (\<lambda>detail.
        bindE (visible_case_or_not_found (det_case detail) p) (\<lambda>_. Inr detail)))"

definition get_case_endpoint ::
  "authenticated_principal \<Rightarrow> uuid \<Rightarrow> db \<Rightarrow> exn + case_detail_response \<times> db" where
  "get_case_endpoint p case_id d =
     bindE (require_case_read_access p) (\<lambda>_.
     bindE (visible_detail p case_id d) (\<lambda>detail.
     Inr (\<lparr>cd_case = case_response_of (det_case detail), cd_timeline = map timeline_response (det_timeline detail)\<rparr>, d)))"

definition get_case_timeline_endpoint ::
  "authenticated_principal \<Rightarrow> uuid \<Rightarrow> db \<Rightarrow> exn + case_timeline_entry_response list \<times> db" where
  "get_case_timeline_endpoint p case_id d =
     bindE (require_case_read_access p) (\<lambda>_.
     bindE (visible_detail p case_id d) (\<lambda>detail. Inr (map timeline_response (det_timeline detail), d)))"

definition transition_command_of ::
  "request_context \<Rightarrow> uuid \<Rightarrow> transition_case_request \<Rightarrow> actor \<Rightarrow> exn + transition_command" where
  "transition_command_of x case_id q a =
     bindE (request_correlation_id x) (\<lambda>correlation_id.
     mk_transition_command
       \<lparr>tc_transition_id = rq_transition_id x, tc_event_id = rq_event_id x, tc_case_id = case_id,
        tc_expected_version = tq_expected_version q, tc_to_state = tq_to_state q, tc_actor = a,
        tc_correlation_id = correlation_id, tc_occurred_at = rq_now x, tc_approval_id = tq_approval_id q,
        tc_verification_note = tq_verification_note q, tc_knowledge_item_id = tq_knowledge_item_id q,
        tc_note = tq_note q\<rparr>)"

text \<open>\<open>_apply_transition\<close>, which the three transition endpoints share.\<close>

definition apply_transition_request ::
  "request_context \<Rightarrow> authenticated_principal \<Rightarrow> uuid \<Rightarrow> transition_case_request \<Rightarrow> db \<Rightarrow>
   exn + case_response \<times> db" where
  "apply_transition_request x p case_id q d =
     bindE (require_case_read_access p) (\<lambda>_.
     bindE (require_case_create_access p) (\<lambda>_.
     bindE (mapE case_failure
       (bindE (get_detail (pr_organization_id p) case_id d) (\<lambda>detail.
        bindE (visible_case_or_not_found (det_case detail) p) (\<lambda>_.
        bindE (actor_from_principal p) (\<lambda>a.
        bindE (transition_command_of x case_id q a) (\<lambda>c.
        service_transition (get_snapshot (pr_organization_id p))
          (persist_transition (rq_outbox_id x) (rq_audit_id x) (pr_organization_id p)) c d)))))) (\<lambda>(updated, d').
     Inr (case_response_of updated, d'))))"

definition transition_case_endpoint ::
  "request_context \<Rightarrow> authenticated_principal \<Rightarrow> uuid \<Rightarrow> transition_case_request \<Rightarrow> db \<Rightarrow>
   exn + case_response \<times> db" where
  "transition_case_endpoint x p case_id q d =
     bindE (validate_transition_request q) (\<lambda>_. apply_transition_request x p case_id q d)"

definition resolve_case_endpoint ::
  "request_context \<Rightarrow> authenticated_principal \<Rightarrow> uuid \<Rightarrow> resolve_case_request \<Rightarrow> db \<Rightarrow>
   exn + case_response \<times> db" where
  "resolve_case_endpoint x p case_id q d =
     bindE (validate_resolve_request q) (\<lambda>_. apply_transition_request x p case_id
       \<lparr>tq_expected_version = sq_expected_version q, tq_to_state = RESOLVED, tq_approval_id = None,
        tq_verification_note = Some (sq_verification_note q), tq_knowledge_item_id = None,
        tq_note = None\<rparr> d)"

definition request_case_feedback_endpoint ::
  "request_context \<Rightarrow> authenticated_principal \<Rightarrow> uuid \<Rightarrow> case_feedback_request \<Rightarrow> db \<Rightarrow>
   exn + case_response \<times> db" where
  "request_case_feedback_endpoint x p case_id q d =
     bindE (validate_feedback_request q) (\<lambda>_. apply_transition_request x p case_id
       \<lparr>tq_expected_version = fq_expected_version q, tq_to_state = NEEDS_INFORMATION, tq_approval_id = None,
        tq_verification_note = None, tq_knowledge_item_id = None, tq_note = Some (fq_note q)\<rparr> d)"

end
