(* ===== verification/Feature_Api.thy ===== *)
theory Feature_Api
  imports Case_Api Config_Redaction Event_Feed
begin

text \<open>
  The endpoints beside the case API, as functions of the database inside the request's transaction:
  \<open>api/config_preview.py\<close>, \<open>api/artifact_uploads.py\<close>, \<open>api/artifact_upload_completion.py\<close>,
  \<open>api/artifact_status.py\<close>, \<open>api/events.py\<close> (the page it reads; \<open>Event_Stream\<close> has the rendering),
  \<open>api/identity.py\<close> and the readiness probe of \<open>api/health.py\<close>.
\<close>

section \<open>Configuration preview\<close>

definition preview_write_roles :: "case_role set" where
  "preview_write_roles = {ORG_ADMIN, OPERATOR, APPROVER, PLATFORM_ADMIN}"

definition preview_read_roles :: "case_role set" where
  "preview_read_roles = set all_case_roles"

definition require_preview_access :: "authenticated_principal \<Rightarrow> exn + unit" where
  "require_preview_access p = mapE (forbidden ''case_write_forbidden'')
     (bindE (require_any_role p preview_read_roles) (\<lambda>_. require_any_role p preview_write_roles))"

definition lookup_failure :: "exn \<Rightarrow> exn" where
  "lookup_failure e = (case e of CaseNotFoundError _ \<Rightarrow> case_not_found | _ \<Rightarrow> e)"

definition require_visible_case :: "uuid \<Rightarrow> authenticated_principal \<Rightarrow> db \<Rightarrow> exn + unit" where
  "require_visible_case case_id p d =
     bindE (mapE lookup_failure (get_detail (pr_organization_id p) case_id d)) (\<lambda>detail.
     raise_unless (case rec_asset_id (det_case detail) of None \<Rightarrow> True | Some a \<Rightarrow> a \<in> pr_asset_ids p)
       case_not_found)"

record config_preview_response =
  pv_redacted_content :: string
  pv_redacted_content_sha256 :: string
  pv_redaction_version :: string
  pv_report :: redaction_report

text \<open>\<open>RedactionReportResponse\<close> has the fields of the report.\<close>

definition preview_failure :: "exn \<Rightarrow> exn" where
  "preview_failure e = (case e of
     ConfigPreviewLimitError _ \<Rightarrow> ApiError 413 ''config_preview_limit_exceeded'' | _ \<Rightarrow> e)"

definition preview_case_config ::
  "authenticated_principal \<Rightarrow> uuid \<Rightarrow> string \<Rightarrow> db \<Rightarrow> exn + config_preview_response \<times> db" where
  "preview_case_config p case_id config d =
     bindE (raise_unless (config \<noteq> []) validation_error) (\<lambda>_.
     bindE (require_preview_access p) (\<lambda>_.
     bindE (require_visible_case case_id p d) (\<lambda>_.
     bindE (mapE preview_failure (preview_cisco_config config)) (\<lambda>preview. Inr
       (\<lparr>pv_redacted_content = cp_redacted_content preview,
         pv_redacted_content_sha256 = cp_redacted_content_sha256 preview,
         pv_redaction_version = cp_redaction_version preview, pv_report = cp_report preview\<rparr>, d)))))"

section \<open>Upload intents\<close>

record artifact_upload_intent_request =
  uq_artifact_kind :: string
  uq_content_type :: string
  uq_content_length :: int
  uq_sha256 :: string
  uq_original_filename :: "string option"

definition supported_content_types :: "string set" where
  "supported_content_types =
     {''text/plain'', ''application/json'', ''audio/mpeg'', ''audio/wav'', ''audio/x-wav'', ''audio/mp4'',
      ''audio/webm''}"

text \<open>\<open>require_supported_content_type\<close>: already lower-case and stripped, and on the list.\<close>

definition content_type_ok :: "string \<Rightarrow> bool" where
  "content_type_ok value = (strip (str_lower value) = value \<and> value \<in> supported_content_types)"

text \<open>\<open>_FILENAME_RE.fullmatch\<close>: no slash, backslash or control character.\<close>

definition filename_ok :: "string \<Rightarrow> bool" where
  "filename_ok value =
     (bounded 255 value \<and>
      list_all (\<lambda>c. c \<noteq> CHR ''/'' \<and> c \<noteq> CHR 0x5C \<and> 32 \<le> (of_char c :: nat)) value)"

definition validate_upload_request :: "artifact_upload_intent_request \<Rightarrow> exn + unit" where
  "validate_upload_request q = raise_unless
     (uq_artifact_kind q \<in> {''network-configuration'', ''incident-audio''} \<and>
      bounded 255 (uq_content_type q) \<and> content_type_ok (uq_content_type q) \<and>
      1 \<le> uq_content_length q \<and> uq_content_length q \<le> 100 * 1024 * 1024 \<and>
      is_sha256 (uq_sha256 q) \<and>
      (case uq_original_filename q of None \<Rightarrow> True | Some n \<Rightarrow> length n \<le> 255 \<and> filename_ok n))
     validation_error"

text \<open>The content type the artifact kind allows.\<close>

definition require_kind_content_type :: "artifact_upload_intent_request \<Rightarrow> exn + unit" where
  "require_kind_content_type q =
     (if uq_artifact_kind q = ''network-configuration'' \<and>
         uq_content_type q \<notin> {''text/plain'', ''application/json''}
      then Inl (ApiError 422 ''invalid_artifact_metadata'')
      else if uq_artifact_kind q = ''incident-audio'' \<and> \<not> startswith (uq_content_type q) ''audio/''
      then Inl (ApiError 422 ''invalid_artifact_metadata'')
      else Inr ())"

text \<open>\<open>get_artifact_store\<close> and \<open>except RuntimeError\<close>.\<close>

definition storage_unavailable :: exn where
  "storage_unavailable = ApiError 503 ''artifact_storage_unavailable''"

definition require_store :: "'a option \<Rightarrow> exn + 'a" where
  "require_store store = (case store of None \<Rightarrow> Inl storage_unavailable | Some s \<Rightarrow> Inr s)"

definition storage_failure :: "exn \<Rightarrow> exn" where
  "storage_failure e = (if is_runtime_error e then storage_unavailable else e)"

record artifact_upload_capability_response =
  uc_artifact_id :: uuid
  uc_intent_id :: uuid
  uc_upload_url :: string
  uc_required_headers :: "(string \<times> string) list"
  uc_expires_at :: datetime

definition require_write_role :: "authenticated_principal \<Rightarrow> exn + unit" where
  "require_write_role p = mapE (forbidden ''case_write_forbidden'') (require_any_role p preview_write_roles)"

text \<open>The identifiers one declaration draws.\<close>

record upload_ids =
  ui_artifact_id :: uuid
  ui_intent_id :: uuid
  ui_audit_id :: uuid

definition upload_request_of :: "uuid \<Rightarrow> uuid \<Rightarrow> uuid \<Rightarrow> artifact_upload_intent_request \<Rightarrow> artifact_upload_request" where
  "upload_request_of org artifact_id case_id q =
     \<lparr>ur_organization_id = org, ur_artifact_id = artifact_id, ur_content_type = uq_content_type q,
      ur_content_length = uq_content_length q, ur_sha256_hex = uq_sha256 q, ur_case_id = Some case_id\<rparr>"

definition upload_intent_command ::
  "upload_ids \<Rightarrow> authenticated_principal \<Rightarrow> uuid \<Rightarrow> artifact_upload_intent_request \<Rightarrow> uuid \<Rightarrow> datetime \<Rightarrow>
   presigned_artifact_upload \<Rightarrow> create_artifact_upload_intent" where
  "upload_intent_command ids p case_id q correlation_id now capability =
     \<lparr>ai_intent_id = ui_intent_id ids, ai_artifact_id = ui_artifact_id ids, ai_case_id = case_id,
      ai_artifact_kind = uq_artifact_kind q, ai_classification = ''raw'', ai_content_type = uq_content_type q,
      ai_byte_size = uq_content_length q, ai_sha256_hex = uq_sha256 q,
      ai_original_filename = uq_original_filename q, ai_actor_id = uuid5 NAMESPACE_URL (actor_name p),
      ai_correlation_id = correlation_id, ai_created_at = now, ai_expires_at = pu_expires_at capability\<rparr>"

definition create_upload_intent ::
  "request_context \<Rightarrow> upload_ids \<Rightarrow> (artifact_upload_request \<Rightarrow> datetime \<Rightarrow> exn + presigned_artifact_upload) option \<Rightarrow>
   authenticated_principal \<Rightarrow> uuid \<Rightarrow> artifact_upload_intent_request \<Rightarrow> db \<Rightarrow>
   exn + artifact_upload_capability_response \<times> db" where
  "create_upload_intent x ids store p case_id q d =
     bindE (require_store store) (\<lambda>presign.
     bindE (validate_upload_request q) (\<lambda>_.
     bindE (require_write_role p) (\<lambda>_.
     bindE (require_visible_case case_id p d) (\<lambda>_.
     bindE (require_kind_content_type q) (\<lambda>_.
     bindE (mk_artifact_upload_request (upload_request_of (pr_organization_id p) (ui_artifact_id ids) case_id q)) (\<lambda>request.
     bindE (mapE storage_failure (presign request (rq_now x))) (\<lambda>capability.
     bindE (request_correlation_id x) (\<lambda>correlation_id.
     bindE (create_intent (ui_audit_id ids) (pr_organization_id p)
       (upload_intent_command ids p case_id q correlation_id (rq_now x) capability) d) (\<lambda>(_, d'). Inr
       (\<lparr>uc_artifact_id = ui_artifact_id ids, uc_intent_id = ui_intent_id ids,
         uc_upload_url = pu_upload_url capability, uc_required_headers = pu_required_headers capability,
         uc_expires_at = pu_expires_at capability\<rparr>, d'))))))))))"

section \<open>Completion\<close>

text \<open>The response has the fields of \<open>completed_artifact_upload\<close>.\<close>

definition completion_failure :: "exn \<Rightarrow> exn" where
  "completion_failure e = (case e of
     ArtifactUploadIntentNotFoundError _ \<Rightarrow> case_not_found
   | ArtifactUploadIntentExpiredError _ \<Rightarrow> ApiError 409 ''artifact_upload_intent_expired''
   | ArtifactObjectMissingError _ \<Rightarrow> ApiError 409 ''artifact_upload_not_found''
   | ArtifactUploadVerificationError _ \<Rightarrow> ApiError 409 ''artifact_upload_verification_failed''
   | _ \<Rightarrow> storage_failure e)"

definition complete_upload_intent ::
  "datetime \<Rightarrow> completion_ids \<Rightarrow> (artifact_upload_request \<Rightarrow> exn + artifact_object_metadata) option \<Rightarrow>
   authenticated_principal \<Rightarrow> uuid \<Rightarrow> uuid \<Rightarrow> db \<Rightarrow> exn + completed_artifact_upload \<times> db" where
  "complete_upload_intent now ids store p case_id intent_id d =
     bindE (require_store store) (\<lambda>head.
     bindE (require_write_role p) (\<lambda>_.
     bindE (require_visible_case case_id p d) (\<lambda>_.
     mapE completion_failure (complete_upload ids (pr_organization_id p) case_id intent_id head now d))))"

section \<open>Artifact status\<close>

text \<open>\<open>ArtifactStatusResponse\<close> has the fields of \<open>artifact_status\<close>.\<close>

definition list_case_artifact_statuses ::
  "authenticated_principal \<Rightarrow> uuid \<Rightarrow> db \<Rightarrow> exn + artifact_status list \<times> db" where
  "list_case_artifact_statuses p case_id d =
     bindE (require_case_read_access p) (\<lambda>_.
     bindE (require_visible_case case_id p d) (\<lambda>_.
     Inr (list_for_case (pr_organization_id p) case_id d, d)))"

section \<open>Event replay\<close>

definition invalid_event_cursor :: exn where
  "invalid_event_cursor = ApiError 422 ''invalid_event_cursor''"

definition parse_last_event_id :: "string option \<Rightarrow> exn + uuid option" where
  "parse_last_event_id value = (case value of
     None \<Rightarrow> Inr None
   | Some v \<Rightarrow> (case uuid_parse v of None \<Rightarrow> Inl invalid_event_cursor | Some u \<Rightarrow> Inr (Some u)))"

definition feed_failure :: "exn \<Rightarrow> exn" where
  "feed_failure e = (case e of
     EventCursorNotFoundError _ \<Rightarrow> ApiError 409 ''event_cursor_unavailable''
   | _ \<Rightarrow> if is_value_error e then invalid_event_cursor else e)"

text \<open>
  The principal's assets sorted by their text; texts of fixed width over the same digits are ordered
  like the numbers. The header is at most 64 characters long, the limit between 1 and 500.
\<close>

definition replay_case_events ::
  "authenticated_principal \<Rightarrow> string option \<Rightarrow> int \<Rightarrow> db \<Rightarrow> exn + case_feed_event list \<times> db" where
  "replay_case_events p last_event_id limit d =
     bindE (raise_unless ((case last_event_id of None \<Rightarrow> True | Some v \<Rightarrow> length v \<le> 64) \<and>
       1 \<le> limit \<and> limit \<le> 500) validation_error) (\<lambda>_.
     bindE (require_case_read_access p) (\<lambda>_.
     bindE (parse_last_event_id last_event_id) (\<lambda>cursor.
     bindE (mapE feed_failure (read_after (pr_organization_id p) cursor
       (sorted_list_of_set (pr_asset_ids p)) limit d)) (\<lambda>events. Inr (events, d)))))"

section \<open>Identity and readiness\<close>

record authenticated_identity_response =
  id_subject :: string
  id_organization_id :: uuid
  id_roles :: "case_role list"
  id_asset_ids :: "uuid list"

definition get_authenticated_identity ::
  "authenticated_principal \<Rightarrow> db \<Rightarrow> exn + authenticated_identity_response \<times> db" where
  "get_authenticated_identity p d = Inr
     (\<lparr>id_subject = pr_subject p, id_organization_id = pr_organization_id p,
       id_roles = sort_by (\<lambda>a b. str_le (case_role_value a) (case_role_value b))
         (filter (\<lambda>r. r \<in> pr_roles p) all_case_roles),
       id_asset_ids = sorted_list_of_set (pr_asset_ids p)\<rparr>, d)"

text \<open>The settings the health endpoints answer with are their first two arguments.\<close>

record health_response =
  hr_status :: string
  hr_service :: string
  hr_version :: string

record readiness_response = health_response +
  hr_components :: "(string \<times> string) list"

definition liveness :: "string \<Rightarrow> string \<Rightarrow> health_response" where
  "liveness service_name api_version = \<lparr>hr_status = ''ok'', hr_service = service_name, hr_version = api_version\<rparr>"

text \<open>\<open>check_readiness\<close> is the database's probe; \<open>None\<close> is an API without a database.\<close>

definition readiness_failure :: "exn \<Rightarrow> exn" where
  "readiness_failure e =
     (if is_sqlalchemy_error e \<or> (case e of TenantContextError _ \<Rightarrow> True | _ \<Rightarrow> False)
      then ApiError 503 ''persistence_unavailable'' else e)"

definition readiness ::
  "string \<Rightarrow> string \<Rightarrow> ('s, exn, unit) action option \<Rightarrow> ('s, exn, readiness_response) action" where
  "readiness service_name api_version check_readiness s =
     (let respond = (\<lambda>components. \<lparr>hr_status = ''ok'', hr_service = service_name, hr_version = api_version,
            hr_components = (''application'', ''ready'') # components\<rparr>)
      in case check_readiness of
           None \<Rightarrow> (Inr (respond []), s)
         | Some probe \<Rightarrow> (let (r, s') = probe s in
             (bindE (mapE readiness_failure r) (\<lambda>_. Inr (respond [(''database'', ''ready'')])), s')))"

text \<open>\<open>TenantDatabase.check_readiness\<close> over the execution of one statement.\<close>

definition check_readiness ::
  "(string \<Rightarrow> string option \<Rightarrow> ('s, exn, unit) action) \<Rightarrow> (string \<Rightarrow> ('s, exn, int option) action) \<Rightarrow>
   ('s, exn, unit) action" where
  "check_readiness execute scalar =
     bindS (execute ''SELECT set_config('statement_timeout', :timeout, true)'' (Some ''1000ms'')) (\<lambda>_.
     bindS (scalar ''SELECT 1'') (\<lambda>result.
     if result \<noteq> Some 1
     then raiseS (TenantContextError ''Application database returned an invalid readiness result.'')
     else returnS ()))"

end
