(* ===== verification/Request_Properties.thy ===== *)
theory Request_Properties
  imports Feature_Api Case_Properties
begin

text \<open>
  The properties of a request on its way through the API: who the caller is, how often a client may
  call, what a caller can see, and what a caller can change.
\<close>

section \<open>Authentication\<close>

text \<open>
  C24. Tenant scope comes from verified claims alone: when a token is accepted, its algorithm was one of
  the allowed ones, the key came from the downloaded key set under the token's key id, the JWT library
  decoded the token with that key and with the configured issuer, audience and required claims, and
  the subject, the issuer, the organization and exactly the assets and the roles of the principal are those
  the decoded claims name: no listed asset is lost and none is added, and there are none without the claim.
  Realm roles outside the product's six confer nothing.
\<close>

theorem principal_comes_from_verified_claims:
  assumes "verify \<lparr>jwt_header = header_of, jwt_key = get_signing_key ks load, jwt_decode = decode\<rparr>
      settings token js = (Inr p, js')"
  shows "\<exists>header alg key_id k key claims org realm items.
    header_of token = Inr header \<and>
    map_of header ''alg'' = Some (JStr alg) \<and> alg \<in> set (as_allowed_algorithms settings) \<and>
    map_of header ''kid'' = Some (JStr key_id) \<and>
    map_of (jr_keys (fst js')) key_id = Some k \<and> load k = Inr key \<and>
    decode token key \<lparr>do_algorithms = as_allowed_algorithms settings, do_audience = as_audience settings,
      do_issuer = as_issuer settings, do_require = [''exp'', ''iat'', ''sub'', ''iss'', ''aud''],
      do_leeway = as_clock_skew_seconds settings\<rparr> = Inr (JObj claims) \<and>
    map_of claims (as_organization_claim settings) = Some (JStr org) \<and>
    uuid_parse org = Some (pr_organization_id p) \<and>
    map_of claims ''realm_access'' = Some (JObj realm) \<and> map_of realm ''roles'' = Some (JArr items) \<and>
    pr_roles p = {r. JStr (case_role_value r) \<in> set items} \<and>
    pr_asset_ids p = {a. \<exists>ids t. map_of claims (as_asset_ids_claim settings) = Some (JArr ids) \<and>
      JStr t \<in> set ids \<and> uuid_parse t = Some a} \<and>
    map_of claims ''sub'' = Some (JStr (pr_subject p)) \<and> map_of claims ''iss'' = Some (JStr (pr_issuer p))"
proof -
  from verify_Inr [OF assms] obtain header alg key_id key claims where
    h: "header_of token = Inr header" "map_of header ''alg'' = Some (JStr alg)"
      "alg \<in> set (as_allowed_algorithms settings)" "map_of header ''kid'' = Some (JStr key_id)" and
    k: "get_signing_key ks load key_id js = (Inr key, js')" and
    c: "decode token key (decode_options_of settings) = Inr (JObj claims)"
      "principal_from_claims claims settings = Inr p" by auto
  from principal_from_claims_Inr [OF c(2)] obtain org where
    p: "map_of claims (as_organization_claim settings) = Some (JStr org)"
      "uuid_parse org = Some (pr_organization_id p)"
      "uuid_list_claim claims (as_asset_ids_claim settings) = Inr (pr_asset_ids p)"
      "realm_roles claims = Inr (pr_roles p)" "map_of claims ''sub'' = Some (JStr (pr_subject p))"
      "map_of claims ''iss'' = Some (JStr (pr_issuer p))" by blast
  from get_signing_key_Inr [OF k] obtain jwk where
    jwk: "map_of (jr_keys (fst js')) key_id = Some jwk" "load jwk = Inr key" by blast
  from realm_roles_Inr [OF p(4)] obtain realm items where
    r: "map_of claims ''realm_access'' = Some (JObj realm)" "map_of realm ''roles'' = Some (JArr items)"
      "pr_roles p = {r. JStr (case_role_value r) \<in> set items}" by blast
  note uuid_list_claim_Inr [OF p(3)]
  with h jwk c(1) p(1,2,5,6) r show ?thesis
    by (intro exI [of _ header] exI [of _ alg] exI [of _ key_id] exI [of _ jwk] exI [of _ key]
        exI [of _ claims] exI [of _ org] exI [of _ realm] exI [of _ items])
      (simp add: decode_options_of_def)
qed

text \<open>A key set with one key, a library that accepts one token, and the claims it carries.\<close>

definition demo_settings :: auth_settings where
  "demo_settings = \<lparr>as_issuer = ''iss'', as_audience = ''netops-api'', as_jwks_url = ''http://idp/certs'',
     as_allowed_algorithms = [''RS256''], as_clock_skew_seconds = 30, as_organization_claim = ''org'',
     as_asset_ids_claim = ''assets''\<rparr>"

definition demo_claims :: "(string \<times> json) list" where
  "demo_claims = [(''sub'', JStr ''user''), (''iss'', JStr ''iss''),
     (''org'', JStr (uuid_str 1)), (''assets'', JArr [JStr (uuid_str 9)]),
     (''realm_access'', JObj [(''roles'', JArr [JStr ''operator'', JStr ''offline_access''])])]"

definition demo_service :: "unit key_service" where
  "demo_service = \<lparr>ks_fetch = (\<lambda>s. (Inr (JObj [(''keys'', JArr [JObj [(''kid'', JStr ''k1'')]])]), s)),
     ks_monotonic = (\<lambda>s. (5, s))\<rparr>"

definition demo_decode :: "string \<Rightarrow> string \<Rightarrow> decode_options \<Rightarrow> exn + json" where
  "demo_decode token key opts =
     (if token = ''token'' \<and> key = ''key'' then Inr (JObj demo_claims) else Inl (ValueError ''signature''))"

definition demo_cache :: jwks_resolver where
  "demo_cache = \<lparr>jr_cache_ttl = 300, jr_keys = [], jr_expires_at = 0\<rparr>"

lemma demo_claims_principal:
  "principal_from_claims demo_claims demo_settings = Inr
     \<lparr>pr_subject = ''user'', pr_organization_id = 1, pr_roles = {OPERATOR}, pr_asset_ids = {9},
      pr_issuer = ''iss'', pr_client_id = None\<rparr>"
  by (simp add: principal_from_claims_def demo_claims_def demo_settings_def required_string_def
      optional_string_def uuid_claim_def uuid_text_def uuid_list_claim_def realm_roles_def string_item_def
      case_role_of_def all_case_roles_def List.map_filter_simps blank_def py_space_def)

lemma demo_verified:
  "verify \<lparr>jwt_header = \<lambda>t. Inr [(''alg'', JStr ''RS256''), (''kid'', JStr ''k1'')],
      jwt_key = get_signing_key demo_service (\<lambda>k. Inr ''key''), jwt_decode = demo_decode\<rparr>
     demo_settings ''token'' (demo_cache, ()) =
   (Inr \<lparr>pr_subject = ''user'', pr_organization_id = 1, pr_roles = {OPERATOR}, pr_asset_ids = {9},
      pr_issuer = ''iss'', pr_client_id = None\<rparr>,
    demo_cache\<lparr>jr_keys := [(''k1'', [(''kid'', JStr ''k1'')])], jr_expires_at := 305\<rparr>, ())"
  by (simp add: verify_def token_claims_def bindS_def liftS_def header_key_id_def demo_settings_def
      get_signing_key_def refresh_if_expired_def refresh_def download_jwks_def demo_service_def
      lookup_key_def load_key_def demo_cache_def demo_decode_def
      demo_claims_principal [unfolded demo_settings_def])

theorem principal_comes_from_verified_claims_witness:
  "\<exists>claims realm items. demo_decode ''token'' ''key''
       \<lparr>do_algorithms = [''RS256''], do_audience = ''netops-api'', do_issuer = ''iss'',
        do_require = [''exp'', ''iat'', ''sub'', ''iss'', ''aud''], do_leeway = 30\<rparr> = Inr (JObj claims) \<and>
     map_of claims ''realm_access'' = Some (JObj realm) \<and> map_of realm ''roles'' = Some (JArr items) \<and>
     {OPERATOR} = {r. JStr (case_role_value r) \<in> set items} \<and>
     {9} = {a. \<exists>ids t. map_of claims ''assets'' = Some (JArr ids) \<and> JStr t \<in> set ids \<and> uuid_parse t = Some a}"
proof -
  from principal_comes_from_verified_claims [OF demo_verified] obtain k claims realm items where
    "demo_decode ''token'' k \<lparr>do_algorithms = as_allowed_algorithms demo_settings,
        do_audience = as_audience demo_settings, do_issuer = as_issuer demo_settings,
        do_require = [''exp'', ''iat'', ''sub'', ''iss'', ''aud''],
        do_leeway = as_clock_skew_seconds demo_settings\<rparr> = Inr (JObj claims)"
    "map_of claims ''realm_access'' = Some (JObj realm)" "map_of realm ''roles'' = Some (JArr items)"
    "{OPERATOR} = {r. JStr (case_role_value r) \<in> set items}"
    "{9} = {a. \<exists>ids t. map_of claims (as_asset_ids_claim demo_settings) = Some (JArr ids) \<and> JStr t \<in> set ids \<and> uuid_parse t = Some a}"
    by auto
  moreover have "k = ''key''" using calculation(1) by (simp add: demo_decode_def split: if_splits)
  ultimately show ?thesis by (simp add: demo_settings_def)
qed

section \<open>Rate limiting\<close>

text \<open>
  C25. The budget of a client: from the check that opens its window, and as long as the window lasts, the
  limiter admits exactly as many of its requests as the budget allows, whatever the other clients do,
  and refuses the rest.
\<close>

theorem window_admits_the_budget:
  assumes "limiter_ok t rl" "sorted (t # now # map fst cs)"
    and "case map_of (rl_windows rl) key of None \<Rightarrow> True | Some w \<Rightarrow> expired rl now w"
    and "list_all (\<lambda>c. fst c < now + rl_window rl) cs"
  shows "admitted key (run_checks ((now, key) # cs) rl) =
    min (rl_max_requests rl) (requests_of key ((now, key) # cs))"
proof -
  let ?w = "\<lparr>w_started_at = now, w_requests = 1\<rparr>" and ?rl = "snd (check now key rl)"
  have c: "check now key rl = ((True, 0), set_window key ?w (prune now rl))"
    by (rule check_fresh_window [OF assms(1)]) (use assms(3) in simp)
  have t: "t \<le> now" using assms(2) by simp
  have "admitted key (run_checks cs ?rl) = min (rl_max_requests ?rl - w_requests ?w) (requests_of key cs)"
  proof (rule admitted_in_window [OF check_ok [OF assms(1) t]])
    show "map_of (rl_windows ?rl) key = Some ?w" by (simp add: c)
    show "w_started_at ?w = now" by simp
    show "sorted (now # map fst cs)" using assms(2) by simp
    show "list_all (\<lambda>c. fst c < now + rl_window ?rl) cs" using assms(4) by simp
  qed
  moreover have "admitted key (run_checks ((now, key) # cs) rl) = Suc (admitted key (run_checks cs ?rl))"
    by (simp add: c admitted_def Let_def)
  moreover have "requests_of key ((now, key) # cs) = Suc (requests_of key cs)" by (simp add: requests_of_def)
  moreover have "1 \<le> rl_max_requests rl" using assms(1) by (simp add: limiter_ok_def)
  ultimately show ?thesis by simp
qed

definition demo_limiter :: rate_limiter where
  "demo_limiter = \<lparr>rl_max_requests = 2, rl_window = 60000000, rl_windows = []\<rparr>"

theorem window_admits_the_budget_witness:
  "admitted ''a'' (run_checks [(1, ''a''), (2, ''b''), (3, ''a''), (4, ''a'')] demo_limiter) = 2"
proof -
  have "limiter_ok 0 demo_limiter" by (simp add: limiter_ok_def demo_limiter_def)
  from window_admits_the_budget [OF this, of 1 "[(2, ''b''), (3, ''a''), (4, ''a'')]" "''a''"]
  show ?thesis by (simp add: demo_limiter_def requests_of_def)
qed

text \<open>\<open>Retry-After\<close> is honest: a refused client that waits that long is admitted.\<close>

lemma retry_after_is_enough:
  assumes "limiter_ok t rl" "t \<le> now" "check now key rl = ((False, r), rl')" "now + r * 1000000 \<le> later"
  shows "fst (check later key rl') = (True, 0)"
proof -
  from check_refused [OF assms(1,3)] obtain w where w: "map_of (rl_windows rl') key = Some w"
    "r = retry_after rl now w" "rl' = prune now rl" by blast
  have rem: "x < max 1 (x div 1000000 + 1) * 1000000" for x :: int
  proof -
    have "x < (x div 1000000 + 1) * 1000000" by (simp add: algebra_simps)
    also have "\<dots> \<le> max 1 (x div 1000000 + 1) * 1000000" by (intro mult_right_mono) simp_all
    finally show ?thesis .
  qed
  have "rl_window rl - (now - w_started_at w) < r * 1000000"
    unfolding w(2) retry_after_def by (rule rem)
  then have exp: "expired rl' later w" using assms(4) w(3) by (simp add: expired_def)
  have "check later key rl' = ((True, 0), set_window key \<lparr>w_started_at = later, w_requests = 1\<rparr> (prune later rl'))"
    by (rule check_fresh_window [where t = now]) (use w exp prune_ok [OF assms(1,2)] in auto)
  then show ?thesis by simp
qed

section \<open>What a caller can see\<close>

lemma tenant_request_failed:
  "body (bound (pr_organization_id p) d) = Inl e \<Longrightarrow>
   tenant_request True p body d = (Inl (connection_failure e), d)"
  by (simp add: tenant_request_def tenant_connection_def tenant_transaction_def bound_def)

text \<open>An endpoint that refuses two case ids alike answers them alike and changes nothing.\<close>

lemma same_refusal:
  assumes "body (bound (pr_organization_id p) d) = Inl e" "body' (bound (pr_organization_id p) d) = Inl e"
  shows "tenant_request True p body d = tenant_request True p body' d \<and> snd (tenant_request True p body d) = d"
  using tenant_request_failed [where body = body, OF assms(1)] tenant_request_failed [where body = body', OF assms(2)]
  by simp

lemma same_refusal_gated:
  assumes "body (bound (pr_organization_id p) d) = bindE r (\<lambda>_. Inl e)"
    and "body' (bound (pr_organization_id p) d) = bindE r (\<lambda>_. Inl e)"
  shows "tenant_request True p body d = tenant_request True p body' d \<and> snd (tenant_request True p body d) = d"
  using assms by (intro same_refusal [where e = "case r of Inl e' \<Rightarrow> e' | Inr _ \<Rightarrow> e"]) (cases r; simp)+

lemma hidden_artifacts:
  assumes v: "require_visible_case i p (bound (pr_organization_id p) d) = Inl case_not_found"
    "require_visible_case j p (bound (pr_organization_id p) d) = Inl case_not_found"
  shows "tenant_request True p (preview_case_config p i config) d = tenant_request True p (preview_case_config p j config) d"
    and "tenant_request True p (create_upload_intent x ids store p i uq) d =
      tenant_request True p (create_upload_intent x ids store p j uq) d"
    and "tenant_request True p (complete_upload_intent now cids heads p i intent) d =
      tenant_request True p (complete_upload_intent now cids heads p j intent) d"
    and "tenant_request True p (list_case_artifact_statuses p i) d =
      tenant_request True p (list_case_artifact_statuses p j) d"
proof -
  let ?d = "bound (pr_organization_id p) d"
  have "preview_case_config p k config ?d = bindE (bindE (raise_unless (config \<noteq> []) validation_error)
      (\<lambda>_. require_preview_access p)) (\<lambda>_. Inl case_not_found)" if "k = i \<or> k = j" for k
    using that v by (cases "config = []") (auto simp: preview_case_config_def)
  then show "tenant_request True p (preview_case_config p i config) d = tenant_request True p (preview_case_config p j config) d"
    by (blast dest: same_refusal_gated)
  have "create_upload_intent x ids store p k uq ?d = bindE (bindE (bindE (require_store store)
      (\<lambda>_. validate_upload_request uq)) (\<lambda>_. require_write_role p)) (\<lambda>_. Inl case_not_found)" if "k = i \<or> k = j" for k
    using that v by (cases "require_store store"; cases "validate_upload_request uq") (auto simp: create_upload_intent_def)
  then show "tenant_request True p (create_upload_intent x ids store p i uq) d =
      tenant_request True p (create_upload_intent x ids store p j uq) d" by (blast dest: same_refusal_gated)
  have "complete_upload_intent now cids heads p k intent ?d = bindE (bindE (require_store heads)
      (\<lambda>_. require_write_role p)) (\<lambda>_. Inl case_not_found)" if "k = i \<or> k = j" for k
    using that v by (cases "require_store heads") (auto simp: complete_upload_intent_def)
  then show "tenant_request True p (complete_upload_intent now cids heads p i intent) d =
      tenant_request True p (complete_upload_intent now cids heads p j intent) d" by (blast dest: same_refusal_gated)
  have "list_case_artifact_statuses p k ?d = bindE (require_case_read_access p) (\<lambda>_. Inl case_not_found)"
    if "k = i \<or> k = j" for k
    using that v by (auto simp: list_case_artifact_statuses_def)
  then show "tenant_request True p (list_case_artifact_statuses p i) d =
      tenant_request True p (list_case_artifact_statuses p j) d" by (blast dest: same_refusal_gated)
qed

text \<open>What a caller gets of a case that is hidden, and of an id nobody used.\<close>

definition absent :: "authenticated_principal \<Rightarrow> uuid \<Rightarrow> db \<Rightarrow> bool" where
  "absent p k d =
     (visible_detail p k d = Inl case_not_found \<and> require_visible_case k p d = Inl case_not_found \<and>
      (\<forall>x t. apply_transition_request x p k t d =
         bindE (bindE (require_case_read_access p) (\<lambda>_. require_case_create_access p)) (\<lambda>_. Inl case_not_found)))"

lemma absent_unused:
  assumes "\<forall>r \<in> set (db_cases d). c_id r \<noteq> j"
  shows "absent p j (bound (pr_organization_id p) d)"
proof -
  let ?d = "bound (pr_organization_id p) d"
  have "find_row (\<lambda>r. c_org r = pr_organization_id p \<and> c_id r = j) (visible ?d c_org (db_cases ?d)) = None"
    using assms by simp
  then have "get_detail (pr_organization_id p) j ?d = Inl (CaseNotFoundError j)" by (simp add: get_detail_def del: find_row_None)
  then show ?thesis
    by (simp add: absent_def visible_detail_def require_visible_case_def lookup_failure_def apply_transition_request_def
        case_failure_def map_case_error_def case_not_found_def bindE_assoc)
qed

lemma absent_hidden:
  assumes "get_detail (pr_organization_id p) i (bound (pr_organization_id p) d) = Inr det"
    and "rec_asset_id (det_case det) = Some a" "a \<notin> pr_asset_ids p"
  shows "absent p i (bound (pr_organization_id p) d)"
  using assms
  by (simp add: absent_def visible_detail_def require_visible_case_def lookup_failure_def apply_transition_request_def
      visible_case_or_not_found_def is_visible_to_principal_def case_failure_def map_case_error_def case_not_found_def
      bindE_assoc)

lemma absent_same_reads:
  assumes "absent p i (bound (pr_organization_id p) d)" "absent p j (bound (pr_organization_id p) d)"
  shows "tenant_request True p (get_case_endpoint p i) d = tenant_request True p (get_case_endpoint p j) d \<and>
      snd (tenant_request True p (get_case_endpoint p i) d) = d"
    and "tenant_request True p (get_case_timeline_endpoint p i) d = tenant_request True p (get_case_timeline_endpoint p j) d \<and>
      snd (tenant_request True p (get_case_timeline_endpoint p i) d) = d"
  by (rule same_refusal_gated [where r = "require_case_read_access p"],
      use assms in \<open>simp_all add: absent_def get_case_endpoint_def get_case_timeline_endpoint_def\<close>)+

lemma absent_same_moves:
  assumes "absent p i (bound (pr_organization_id p) d)" "absent p j (bound (pr_organization_id p) d)"
  shows "tenant_request True p (\<lambda>d. bindE (v :: exn + unit) (\<lambda>_. apply_transition_request x p i t d)) d =
      tenant_request True p (\<lambda>d. bindE v (\<lambda>_. apply_transition_request x p j t d)) d \<and>
    snd (tenant_request True p (\<lambda>d. bindE v (\<lambda>_. apply_transition_request x p i t d)) d) = d"
  by (rule same_refusal_gated [where r = "bindE v (\<lambda>_. bindE (require_case_read_access p) (\<lambda>_. require_case_create_access p))"];
      use assms in \<open>simp add: absent_def bindE_assoc\<close>)

lemma moves_of_requests:
  "transition_case_endpoint x p k q =
     (\<lambda>d. bindE (validate_transition_request q) (\<lambda>_. apply_transition_request x p k q d))"
  "resolve_case_endpoint x p k rq = (\<lambda>d. bindE (validate_resolve_request rq) (\<lambda>_.
     apply_transition_request x p k \<lparr>tq_expected_version = sq_expected_version rq, tq_to_state = RESOLVED,
       tq_approval_id = None, tq_verification_note = Some (sq_verification_note rq),
       tq_knowledge_item_id = None, tq_note = None\<rparr> d))"
  "request_case_feedback_endpoint x p k fq = (\<lambda>d. bindE (validate_feedback_request fq) (\<lambda>_.
     apply_transition_request x p k \<lparr>tq_expected_version = fq_expected_version fq,
       tq_to_state = NEEDS_INFORMATION, tq_approval_id = None, tq_verification_note = None,
       tq_knowledge_item_id = None, tq_note = Some (fq_note fq)\<rparr> d))"
  by (simp_all add: fun_eq_iff transition_case_endpoint_def resolve_case_endpoint_def request_case_feedback_endpoint_def)

text \<open>
  C26. A case outside the caller's asset scope is indistinguishable from one that does not exist: for
  every caller, each endpoint that names a case (those of its timeline, transitions, preview, uploads
  and artifacts too) answers a hidden case exactly as it answers an id nobody has used, and changes
  nothing.
\<close>

theorem hidden_case_is_indistinguishable:
  assumes "get_detail (pr_organization_id p) i (bound (pr_organization_id p) d) = Inr det"
    and "rec_asset_id (det_case det) = Some a" "a \<notin> pr_asset_ids p"
    and "\<forall>r \<in> set (db_cases d). c_id r \<noteq> j"
  shows "tenant_request True p (get_case_endpoint p i) d = tenant_request True p (get_case_endpoint p j) d \<and>
    tenant_request True p (get_case_timeline_endpoint p i) d = tenant_request True p (get_case_timeline_endpoint p j) d \<and>
    tenant_request True p (transition_case_endpoint x p i q) d = tenant_request True p (transition_case_endpoint x p j q) d \<and>
    tenant_request True p (resolve_case_endpoint x p i rq) d = tenant_request True p (resolve_case_endpoint x p j rq) d \<and>
    tenant_request True p (request_case_feedback_endpoint x p i fq) d =
      tenant_request True p (request_case_feedback_endpoint x p j fq) d \<and>
    tenant_request True p (preview_case_config p i config) d = tenant_request True p (preview_case_config p j config) d \<and>
    tenant_request True p (create_upload_intent x ids store p i uq) d =
      tenant_request True p (create_upload_intent x ids store p j uq) d \<and>
    tenant_request True p (complete_upload_intent now cids heads p i intent) d =
      tenant_request True p (complete_upload_intent now cids heads p j intent) d \<and>
    tenant_request True p (list_case_artifact_statuses p i) d = tenant_request True p (list_case_artifact_statuses p j) d \<and>
    snd (tenant_request True p (get_case_endpoint p i) d) = d \<and>
    snd (tenant_request True p (transition_case_endpoint x p i q) d) = d"
proof -
  let ?d = "bound (pr_organization_id p) d"
  have ij: "absent p i ?d" "absent p j ?d" by (rule absent_hidden [OF assms(1-3)], rule absent_unused [OF assms(4)])
  then have "require_visible_case i p ?d = Inl case_not_found" "require_visible_case j p ?d = Inl case_not_found"
    by (simp_all add: absent_def)
  note artifacts = hidden_artifacts [OF this]
  show ?thesis unfolding moves_of_requests
    by (intro conjI; (rule artifacts)?) (use absent_same_reads [OF ij] absent_same_moves [OF ij] in blast)+
qed

definition demo_caller :: authenticated_principal where
  "demo_caller = \<lparr>pr_subject = ''user'', pr_organization_id = 1, pr_roles = {OPERATOR},
     pr_asset_ids = {8}, pr_issuer = ''iss'', pr_client_id = None\<rparr>"

definition asset_case :: case_row where
  "asset_case = (new_case_row 1 demo_create)\<lparr>c_asset_id := Some 9\<rparr>"

theorem hidden_case_is_indistinguishable_witness:
  "tenant_request True demo_caller (get_case_endpoint demo_caller 10) (demo_store\<lparr>db_cases := [asset_case]\<rparr>) =
   tenant_request True demo_caller (get_case_endpoint demo_caller 99) (demo_store\<lparr>db_cases := [asset_case]\<rparr>)"
proof -
  let ?d = "demo_store\<lparr>db_cases := [asset_case]\<rparr>"
  have row: "c_org asset_case = 1" "c_id asset_case = 10" "c_state asset_case = ''new''" "c_asset_id asset_case = Some 9"
    by (simp_all add: asset_case_def new_case_row_def demo_create_def)
  have find: "find_row (\<lambda>r. c_org r = 1 \<and> c_id r = 10) (visible (bound 1 ?d) c_org [asset_case]) = Some asset_case"
    using row by (simp add: visible_def)
  obtain k where k: "case_record_of asset_case = Inr k" "rec_asset_id k = Some 9"
    by (simp add: case_record_of_def row CaseState_def all_case_states_def)
  have "select_timeline 1 10 (bound 1 ?d) = []" by (simp add: select_timeline_def visible_def)
  then have det: "get_detail (pr_organization_id demo_caller) 10 (bound (pr_organization_id demo_caller) ?d) =
      Inr \<lparr>det_case = k, det_timeline = []\<rparr>"
    unfolding demo_caller_def by (simp add: get_detail_def find k)
  have "\<forall>r \<in> set (db_cases ?d). c_id r \<noteq> 99" by (simp add: row)
  from hidden_case_is_indistinguishable [OF det _ _ this, of 9] k(2) show ?thesis
    by (simp add: demo_caller_def)
qed

section \<open>What a caller can change\<close>

lemma apply_transition_request_InrD:
  assumes "apply_transition_request x p i q d = Inr (k, d')"
  obtains a det c rec where
    "mk_actor (uuid5 NAMESPACE_URL (actor_name p)) HUMAN (pr_roles p) = Inr a"
    "get_detail (pr_organization_id p) i d = Inr det" "is_visible_to_principal (det_case det) p"
    "transition_command_of x i q a = Inr c" "k = case_response_of rec"
    "service_transition (get_snapshot (pr_organization_id p))
       (persist_transition (rq_outbox_id x) (rq_audit_id x) (pr_organization_id p)) c d = Inr (rec, d')"
  using assms
  by (auto simp: apply_transition_request_def bindE_eq_Inr mapE_eq_Inr visible_case_or_not_found_def
      actor_from_principal_def split: if_splits)

lemma transition_command_of_InrD:
  assumes "transition_command_of x i q a = Inr c"
  shows "tc_case_id c = i" "tc_expected_version c = tq_expected_version q" "tc_to_state c = tq_to_state q"
    "tc_actor c = a" "tc_approval_id c = tq_approval_id q" "tc_verification_note c = tq_verification_note q"
    "mk_transition_command c = Inr c"
  using assms by (auto simp: transition_command_of_def bindE_eq_Inr mk_transition_command_Inr)

lemma case_record_of_InrD:
  assumes "case_record_of row = Inr rec"
  shows "rec_case_id rec = c_id row" "case_state_value (rec_state rec) = c_state row" "rec_version rec = c_version row"
  using assms by (auto simp: case_record_of_def bindE_eq_Inr CaseState_Inr)

lemma same_effect_commits:
  assumes "tenant_connection org body d = (Inr u, d')"
    and "body (bound org d) = Inr (u, d2)" "body' (bound org d) = Inr (v, d2)"
  shows "tenant_connection org body' d = (Inr v, d')"
  using assms by (auto simp: tenant_connection_def tenant_transaction_def bound_def bindE_eq_Inr split: sum.splits)

lemma service_transition_advances:
  assumes fi: "full_invariant d"
    and b: "service_transition (get_snapshot org) (persist_transition oid aid org) c (bound org d) = Inr (rec, d2)"
  defines "d' \<equiv> settled (app_organization_id d) d2"
  obtains cur where "get_snapshot org (tc_case_id c) (bound org d) = Inr cur"
    "snap_version cur = tc_expected_version c" "tc_to_state c \<in> allowed_transitions (snap_state cur)"
    "actor_may (tc_actor c) (tc_to_state c)" "evidence_ok c" "full_invariant d'"
    "get_snapshot org (tc_case_id c) (bound org d') = Inr \<lparr>snap_case_id = tc_case_id c,
       snap_state = tc_to_state c, snap_version = tc_expected_version c + 1\<rparr>"
    "rec_case_id rec = tc_case_id c" "rec_state rec = tc_to_state c" "rec_version rec = tc_expected_version c + 1"
proof -
  note inv = full_invariant_parts [OF fi]
  from service_transition_InrD [OF b] obtain cur r where
    cur: "get_snapshot org (tc_case_id c) (bound org d) = Inr cur" and r: "apply_transition cur c = Inr r"
    and p: "persist_transition oid aid org r (tc_actor c) (bound org d) = Inr (rec, d2)" by metis
  note o = apply_transition_InrD [OF r]
  have t: "tenant_connection org (service_transition (get_snapshot org) (persist_transition oid aid org) c) d = (Inr rec, d')"
    unfolding d'_def by (rule transition_commits [OF inv(1) inv(6) b])
  with persist_full_invariant [OF fi, of org oid aid r "tc_actor c"] service_is_persist [OF cur r]
  have fi': "full_invariant d'" by simp
  have i: "snap_case_id (out_snapshot r) = tc_case_id c" using o(1,6) by simp
  have org: "current_org d2 = Some org" using persist_transition_InrD [OF p] by (metis persisted_simps(1) bound_simps(1))
  have "get_snapshot org (tc_case_id c) (bound org d') = get_snapshot org (tc_case_id c) d2"
    by (rule get_snapshot_cong) (simp_all add: d'_def org)
  with persist_transition_stores [OF inv(2) p] i o(1,2,6)
  have snap: "get_snapshot org (tc_case_id c) (bound org d') = Inr \<lparr>snap_case_id = tc_case_id c,
       snap_state = tc_to_state c, snap_version = tc_expected_version c + 1\<rparr>" by simp
  from persist_transition_InrD [OF p] obtain old where
    "case_record_of (outcome_case r old) = Inr rec" "c_id old = snap_case_id (out_snapshot r)" by metis
  with case_record_of_InrD [OF this(1)] i o(2,6)
  have "rec_case_id rec = tc_case_id c" "rec_state rec = tc_to_state c" "rec_version rec = tc_expected_version c + 1"
    by simp_all
  with cur o(2-5) fi' snap that show thesis by metis
qed

text \<open>
  C27. A transition request that is answered with success was authorised from end to end: the stored
  case was at the version the client named and inside the caller's asset scope, the target follows an
  edge of the state machine, the caller holds a role that may take it and gave the evidence it needs;
  and what the response shows is what is stored, one version later, in a store that keeps its invariant.
\<close>

theorem transition_request_is_authorised:
  assumes "full_invariant d" and "tenant_request True p (transition_case_endpoint x p i q) d = (Inr k, d')"
  defines "org \<equiv> pr_organization_id p" and "to \<equiv> tq_to_state q"
  shows "\<exists>cur det. get_snapshot org i (bound org d) = Inr cur \<and> snap_version cur = tq_expected_version q \<and>
    to \<in> allowed_transitions (snap_state cur) \<and>
    get_detail org i (bound org d) = Inr det \<and> is_visible_to_principal (det_case det) p \<and>
    pr_roles p \<inter> (if to = CONFIRMED then confirm_roles else case_write_roles) \<noteq> {} \<and> to \<noteq> LEARNED \<and>
    (to = CONFIRMED \<longrightarrow> tq_approval_id q \<noteq> None) \<and> (to = RESOLVED \<longrightarrow> tq_verification_note q \<noteq> None) \<and>
    get_snapshot org i (bound org d') =
      Inr \<lparr>snap_case_id = i, snap_state = to, snap_version = tq_expected_version q + 1\<rparr> \<and>
    cr_id k = i \<and> cr_state k = to \<and> cr_version k = tq_expected_version q + 1 \<and> full_invariant d'"
proof -
  from assms(2) have "tenant_connection org (transition_case_endpoint x p i q) d = (Inr k, d')"
    by (simp add: tenant_request_def org_def split: prod.splits)
  from tenant_committed [OF this] obtain d2 where
    "transition_case_endpoint x p i q (bound org d) = Inr (k, d2)" and d': "d' = settled (app_organization_id d) d2" .
  then have "apply_transition_request x p i q (bound org d) = Inr (k, d2)"
    by (simp add: transition_case_endpoint_def bindE_eq_Inr)
  from apply_transition_request_InrD [OF this] obtain a det c rec where
    a: "mk_actor (uuid5 NAMESPACE_URL (actor_name p)) HUMAN (pr_roles p) = Inr a" and
    det: "get_detail org i (bound org d) = Inr det" "is_visible_to_principal (det_case det) p" and
    c: "transition_command_of x i q a = Inr c" and k: "k = case_response_of rec" and
    s: "service_transition (get_snapshot org) (persist_transition (rq_outbox_id x) (rq_audit_id x) org) c (bound org d) =
      Inr (rec, d2)"
    unfolding org_def by metis
  note cd = transition_command_of_InrD [OF c]
  from service_transition_advances [OF assms(1) s] cd(1-3) obtain cur where
    cur: "get_snapshot org i (bound org d) = Inr cur" "snap_version cur = tq_expected_version q"
      "to \<in> allowed_transitions (snap_state cur)" and may: "actor_may (tc_actor c) to" "evidence_ok c" and
    after: "full_invariant d'" "get_snapshot org i (bound org d') =
      Inr \<lparr>snap_case_id = i, snap_state = to, snap_version = tq_expected_version q + 1\<rparr>"
      "rec_case_id rec = i" "rec_state rec = to" "rec_version rec = tq_expected_version q + 1"
    unfolding to_def d' by metis
  from a have "kind a = HUMAN" "roles a = pr_roles p" by (auto simp: mk_actor_def split: if_splits)
  with may(1) cd(4) have role: "pr_roles p \<inter> (if to = CONFIRMED then confirm_roles else case_write_roles) \<noteq> {}"
    "to \<noteq> LEARNED" by (auto simp: actor_may_def)
  from may(2) cd(3,5,6) have ev: "to = CONFIRMED \<longrightarrow> tq_approval_id q \<noteq> None"
    "to = RESOLVED \<longrightarrow> tq_verification_note q \<noteq> None" by (auto simp: evidence_ok_def to_def)
  have "cr_id k = i" "cr_state k = to" "cr_version k = tq_expected_version q + 1"
    using after(3-5) by (simp_all add: k case_response_of_def)
  with cur det role ev after(1,2) show ?thesis by (intro exI [of _ cur] exI [of _ det] conjI)
qed

definition demo_context :: request_context where
  "demo_context = \<lparr>rq_case_id = 50, rq_event_id = 31, rq_input_id = 51, rq_transition_id = 30,
     rq_outbox_id = 40, rq_audit_id = 41, rq_correlation_id = uuid_str 32, rq_now = utc_at 2000\<rparr>"

definition demo_move :: transition_case_request where
  "demo_move = \<lparr>tq_expected_version = 0, tq_to_state = INVESTIGATING, tq_approval_id = None,
     tq_verification_note = None, tq_knowledge_item_id = None, tq_note = None\<rparr>"

lemma demo_opened_detail:
  "\<exists>det. get_detail 1 10 (bound 1 demo_opened) = Inr det \<and> is_visible_to_principal (det_case det) demo_caller"
proof -
  let ?d = "bound 1 demo_opened" and ?row = "new_case_row 1 demo_create" and ?e = "created_event 1 demo_create"
  have row: "c_org ?row = 1" "c_id ?row = 10" "c_state ?row = ''new''" "c_asset_id ?row = None"
    by (simp_all add: demo_create_def new_case_row_def)
  have asset: "cc_asset_id demo_create = None" and id: "cc_case_id demo_create = 10" by (simp_all add: demo_create_def)
  have find: "find_row (\<lambda>r. c_org r = 1 \<and> c_id r = 10) (visible ?d c_org [?row]) = Some ?row"
    using row by (simp add: visible_def)
  have e: "e_org ?e = 1" "e_case_id ?e = 10" "e_transition_id ?e = None"
    by (simp_all add: created_event_def event_row_of_def creation_event_def created_record_def demo_create_def)
  have "e_actor_id ?e = Some (actor_id (cc_actor demo_create))"
    by (simp add: created_event_def event_row_of_def creation_event_def)
  then have "is_ok (timeline_entry (?e, None))"
    by (simp add: timeline_entry_def optional_state_def uuid_of_def)
  then obtain t where "timeline_entry (?e, None) = Inr t" by (auto simp: is_ok_iff)
  moreover have "select_timeline 1 10 ?d = [(?e, None)]"
    by (simp add: select_timeline_def visible_def demo_opened_tables sort_by_def e id)
  ultimately show ?thesis
    by (simp add: get_detail_def demo_opened_tables find is_visible_to_principal_def created_record_def asset)
qed

lemma demo_move_accepted:
  "\<exists>k d'. tenant_request True demo_caller (transition_case_endpoint demo_context demo_caller 10 demo_move) demo_opened =
    (Inr k, d')"
proof -
  let ?a = "\<lparr>actor_id = uuid5 NAMESPACE_URL (actor_name demo_caller), kind = HUMAN, roles = {OPERATOR}\<rparr>"
  let ?c = "demo_start\<lparr>tc_actor := ?a\<rparr>" and ?d = "bound 1 demo_opened"
  have mk: "mk_transition_command ?c = Inr ?c"
    using demo_start_valid by (simp add: mk_transition_command_Inr demo_start_def)
  have c: "transition_command_of demo_context 10 demo_move ?a = Inr ?c"
    using mk by (simp add: transition_command_of_def request_correlation_id_def demo_context_def demo_move_def demo_start_def)
  have a: "actor_from_principal demo_caller = Inr ?a"
    by (simp add: actor_from_principal_def mk_actor_def demo_caller_def)
  obtain r where r: "apply_transition demo_snapshot ?c = Inr r"
    by (simp add: apply_transition_def demo_snapshot_def demo_start_def validate_actor_def
        validate_transition_constraints_def case_write_roles_def Let_def)
  have ready: "transition_ready 40 41 1 ?c ?d" using demo_start_ready by (simp add: transition_ready_def)
  note inv = full_invariant_parts [OF demo_opened_invariant]
  from persist_transition_ok [OF mk bound_simps(1) inv(2-5) ready _ r] demo_opened_snapshot obtain k d2 where
    p: "persist_transition 40 41 1 r ?a ?d = Inr (k, d2)"
    by (auto simp: is_ok_iff demo_start_def demo_snapshot_def)
  obtain det where det: "get_detail 1 10 ?d = Inr det" "is_visible_to_principal (det_case det) demo_caller"
    using demo_opened_detail by blast
  have s: "service_transition (get_snapshot 1) (persist_transition 40 41 1) ?c ?d = Inr (k, d2)"
    using p r demo_opened_snapshot by (simp add: service_transition_def demo_start_def)
  have gates: "require_case_read_access demo_caller = Inr ()" "require_case_create_access demo_caller = Inr ()"
    "validate_transition_request demo_move = Inr ()" "pr_organization_id demo_caller = 1"
    "rq_outbox_id demo_context = 40" "rq_audit_id demo_context = 41"
    by (simp_all add: require_case_read_access_def require_case_create_access_def require_any_role_def
        case_read_roles_def case_create_roles_def demo_caller_def validate_transition_request_def
        raise_unless_def bounded_opt_def demo_move_def demo_context_def all_case_roles_def)
  have "transition_case_endpoint demo_context demo_caller 10 demo_move ?d = Inr (case_response_of k, d2)"
    by (simp add: transition_case_endpoint_def apply_transition_request_def gates det a c s visible_case_or_not_found_def)
  then have "tenant_connection 1 (transition_case_endpoint demo_context demo_caller 10 demo_move) demo_opened =
      (Inr (case_response_of k), settled (app_organization_id demo_opened) d2)"
    by (rule same_effect_commits [where
        body = "service_transition (get_snapshot 1) (persist_transition 40 41 1) ?c" and u = k,
        OF transition_commits [OF inv(1) inv(6) s] s])
  then show ?thesis by (simp add: tenant_request_def gates)
qed

theorem transition_request_is_authorised_witness:
  "\<exists>k d'. tenant_request True demo_caller (transition_case_endpoint demo_context demo_caller 10 demo_move) demo_opened =
      (Inr k, d') \<and> cr_state k = INVESTIGATING \<and> cr_version k = 1 \<and>
    get_snapshot 1 10 (bound 1 d') = Inr \<lparr>snap_case_id = 10, snap_state = INVESTIGATING, snap_version = 1\<rparr>"
proof -
  from demo_move_accepted obtain k d' where
    r: "tenant_request True demo_caller (transition_case_endpoint demo_context demo_caller 10 demo_move) demo_opened =
      (Inr k, d')" by blast
  have q: "tq_to_state demo_move = INVESTIGATING" "tq_expected_version demo_move = 0" "pr_organization_id demo_caller = 1"
    by (simp_all add: demo_move_def demo_caller_def)
  from transition_request_is_authorised [OF demo_opened_invariant r] r show ?thesis unfolding q by auto
qed

text \<open>
  A title of blanks passes the request model, which only bounds its length, and is refused by the
  command, which \<open>create_case\<close> builds outside its \<open>try\<close>: the \<open>ValueError\<close> is not mapped and the client
  sees an internal error.
\<close>

lemma blank_title_is_a_server_error:
  assumes "validate_create_request q key = Inr ()" "\<not> blank key" "cq_input q = None" "blank (cq_title q)"
    and "require_case_create_access p = Inr ()" "require_create_asset_scope p (cq_asset_id q) = Inr ()"
    and "uuid_parse (rq_correlation_id x) = Some u" "pr_roles p \<noteq> {}"
  shows "\<exists>e. create_case_endpoint x p q key d = Inl e \<and> response_status e = 500"
proof -
  have "\<exists>a. actor_from_principal p = Inr a" using assms(8) by (simp add: actor_from_principal_def mk_actor_def)
  then obtain a where a: "actor_from_principal p = Inr a" ..
  have "\<exists>m. create_command_of x q key a = Inl (ValueError m)"
    using assms(2,3,4,7) by (simp add: create_command_of_def case_input_of_def request_correlation_id_def
        mk_create_case_command_def)
  then show ?thesis using assms a by (auto simp: create_case_endpoint_def response_status_def)
qed

end
