(* ===== verification/Clam_Scanner.thy ===== *)
theory Clam_Scanner
  imports Worker_Artifacts Complex_Main
begin

text \<open>
  \<open>services/worker/netops_worker/clamav.py\<close>: the scanner that streams a private artifact to \<open>clamd\<close>.
  The private reader and the socket are ports over an environment \<open>'s\<close>; a \<open>with\<close> statement closes
  what it opened on every way out. Both loops are total: the first ends because every chunk that is
  sent is counted against the size limit, the second because the response is bounded.
\<close>

section \<open>Bytes\<close>

text \<open>The ASCII characters of a bytes literal.\<close>

definition bytes_of :: "string \<Rightarrow> byte list" where
  "bytes_of s = map (\<lambda>c. byte_of (of_char c)) s"

definition byte_space :: "byte \<Rightarrow> bool" where
  "byte_space b = (b = 32 \<or> (9 \<le> b \<and> b \<le> 13))"

definition bytes_strip :: "byte list \<Rightarrow> byte list" where
  "bytes_strip bs = rev (dropWhile byte_space (rev (dropWhile byte_space bs)))"

definition bytes_endswith :: "byte list \<Rightarrow> byte list \<Rightarrow> bool" where
  "bytes_endswith bs suffix = (length suffix \<le> length bs \<and> drop (length bs - length suffix) bs = suffix)"

text \<open>\<open>struct.pack("!I", n)\<close>\<close>

definition be32_bytes :: "nat \<Rightarrow> byte list" where
  "be32_bytes n = map (\<lambda>i. byte_of (n div 256 ^ i mod 256)) [3, 2, 1, 0]"

definition pack_u32 :: "nat \<Rightarrow> exn + byte list" where
  "pack_u32 n =
     (if n < 2 ^ 32 then Inr (be32_bytes n) else Inl (StructError ''argument out of range''))"

section \<open>Settings and ports\<close>

record clamav_settings =
  cs_address :: string
  cs_connect_timeout_seconds :: rat
  cs_read_timeout_seconds :: rat
  cs_max_scan_bytes :: nat

text \<open>\<open>address.rsplit(":", maxsplit=1)\<close>, unpacked into two names.\<close>

definition host_and_port :: "clamav_settings \<Rightarrow> exn + string \<times> int" where
  "host_and_port st =
     (let address = cs_address st; port = rev (takeWhile (\<lambda>c. c \<noteq> CHR '':'') (rev address)) in
      if CHR '':'' \<notin> set address then Inl (ValueError ''not enough values to unpack'')
      else case py_int port of
        None \<Rightarrow> Inl (ValueError ''invalid literal for int()'')
      | Some n \<Rightarrow> Inr (take (length address - length port - 1) address, n))"

record 's scan_ports =
  sp_open :: "artifact_processing_job \<Rightarrow> ('s, exn, unit) action"
  sp_read :: "nat \<Rightarrow> ('s, exn, byte list) action"
  sp_close_source :: "('s, exn, unit) action"
  sp_connect :: "string \<Rightarrow> int \<Rightarrow> rat \<Rightarrow> ('s, exn, unit) action"
  sp_settimeout :: "rat \<Rightarrow> ('s, exn, unit) action"
  sp_sendall :: "byte list \<Rightarrow> ('s, exn, unit) action"
  sp_recv :: "nat \<Rightarrow> ('s, exn, byte list) action"
  sp_close_connection :: "('s, exn, unit) action"

text \<open>\<open>with open() as x: body\<close>: a failing close replaces the outcome of the body.\<close>

definition with_resource ::
  "('s, exn, unit) action \<Rightarrow> ('s, exn, unit) action \<Rightarrow> ('s, exn, 'a) action \<Rightarrow> ('s, exn, 'a) action" where
  "with_resource open_it close_it body =
     bindS open_it (\<lambda>_ s. let (r, s1) = body s; (closed, s2) = close_it s1
       in (case closed of Inl e \<Rightarrow> Inl e | Inr _ \<Rightarrow> r, s2))"

lemma with_resource_Inr:
  assumes "with_resource open_it close_it body s = (Inr v, s')"
  obtains s1 s2 c where "open_it s = (Inr (), s1)" "body s1 = (Inr v, s2)" "close_it s2 = (Inr c, s')"
proof -
  from assms obtain s1 where o: "open_it s = (Inr (), s1)"
    and r: "(let (r, s1) = body s1; (closed, s2) = close_it s1 in (case closed of Inl e \<Rightarrow> Inl e | Inr _ \<Rightarrow> r, s2)) = (Inr v, s')"
    by (auto simp: with_resource_def bindS_Inr)
  obtain u s2 where b: "body s1 = (u, s2)" by fastforce
  obtain closed s3 where c: "close_it s2 = (closed, s3)" by fastforce
  from r b c have "closed = Inr ()" "u = Inr v" "s3 = s'" by (auto split: sum.splits)
  with o b c that show thesis by blast
qed

section \<open>The protocol\<close>

definition CHUNK_SIZE :: nat where
  "CHUNK_SIZE = 64 * 1024"

definition MAX_RESPONSE_BYTES :: nat where
  "MAX_RESPONSE_BYTES = 4 * 1024"

definition unavailable :: scan_result where
  "unavailable = \<lparr>sr_disposition = ScanUnavailable, sr_reason_code = ''scan.unavailable''\<rparr>"

definition too_large :: scan_result where
  "too_large = \<lparr>sr_disposition = ScanRejected, sr_reason_code = ''scan.size_limit_exceeded''\<rparr>"

definition send_chunk :: "'s scan_ports \<Rightarrow> byte list \<Rightarrow> ('s, exn, unit) action" where
  "send_chunk p chunk =
     bindS (liftS (pack_u32 (length chunk))) (\<lambda>header.
     bindS (sp_sendall p header) (\<lambda>_. sp_sendall p chunk))"

text \<open>The chunk loop; the result is the early return, if there is one.\<close>

function send_chunks :: "'s scan_ports \<Rightarrow> nat \<Rightarrow> nat \<Rightarrow> ('s, exn, scan_result option) action" where
  "send_chunks p limit scanned s = (case sp_read p CHUNK_SIZE s of
     (Inl e, s1) \<Rightarrow> (Inl e, s1)
   | (Inr chunk, s1) \<Rightarrow>
       if chunk = [] then (Inr None, s1)
       else if limit < scanned + length chunk then (Inr (Some too_large), s1)
       else (case send_chunk p chunk s1 of
           (Inl e, s2) \<Rightarrow> (Inl e, s2)
         | (Inr _, s2) \<Rightarrow> send_chunks p limit (scanned + length chunk) s2))"
  by pat_completeness auto
termination
  by (relation "measure (\<lambda>(p, limit, scanned, s). Suc limit - scanned)") (auto simp flip: length_greater_0_conv)

declare send_chunks.simps [simp del]

function read_response :: "'s scan_ports \<Rightarrow> byte list \<Rightarrow> ('s, exn, byte list) action" where
  "read_response p response s =
     (if MAX_RESPONSE_BYTES \<le> length response
      then (Inl (OSError ''clamd response exceeded the protocol limit''), s)
      else case sp_recv p (min 512 (MAX_RESPONSE_BYTES - length response)) s of
        (Inl e, s1) \<Rightarrow> (Inl e, s1)
      | (Inr fragment, s1) \<Rightarrow>
          if fragment = [] then (Inl (OSError ''clamd closed without a response''), s1)
          else if 0 \<in> set fragment then (Inr (takeWhile (\<lambda>b. b \<noteq> 0) (response @ fragment)), s1)
          else read_response p (response @ fragment) s1)"
  by pat_completeness auto
termination
  by (relation "measure (\<lambda>(p, response, s). MAX_RESPONSE_BYTES - length response)")
    (auto simp flip: length_greater_0_conv)

declare read_response.simps [simp del]

definition parse_response :: "byte list \<Rightarrow> exn + scan_result" where
  "parse_response response =
     (let normalized = bytes_strip response in
      if bytes_endswith normalized (bytes_of '': OK'')
      then mk_scan_result \<lparr>sr_disposition = ScanClean, sr_reason_code = ''scan.clean''\<rparr>
      else if bytes_endswith normalized (bytes_of '' FOUND'')
      then mk_scan_result \<lparr>sr_disposition = ScanRejected, sr_reason_code = ''scan.malware_detected''\<rparr>
      else mk_scan_result unavailable)"

definition instream_command :: "byte list" where
  "instream_command = bytes_of ''zINSTREAM'' @ [0]"

text \<open>What happens on the open connection: the early return, or the daemon's response.\<close>

definition exchange :: "'s scan_ports \<Rightarrow> clamav_settings \<Rightarrow> ('s, exn, scan_result + byte list) action" where
  "exchange p st =
     bindS (sp_settimeout p (cs_read_timeout_seconds st)) (\<lambda>_.
     bindS (sp_sendall p instream_command) (\<lambda>_.
     bindS (send_chunks p (cs_max_scan_bytes st) 0) (\<lambda>early. case early of
       Some r \<Rightarrow> bindS (liftS (mk_scan_result r)) (\<lambda>r. returnS (Inl r))
     | None \<Rightarrow>
         bindS (liftS (pack_u32 0)) (\<lambda>terminator.
         bindS (sp_sendall p terminator) (\<lambda>_.
         bindS (read_response p []) (\<lambda>response. returnS (Inr response)))))))"

definition scan_stream :: "'s scan_ports \<Rightarrow> clamav_settings \<Rightarrow> ('s, exn, scan_result) action" where
  "scan_stream p st =
     bindS (liftS (host_and_port st)) (\<lambda>(host, port).
     bindS (with_resource (sp_connect p host port (cs_connect_timeout_seconds st))
         (sp_close_connection p) (exchange p st)) (\<lambda>outcome. case outcome of
       Inl r \<Rightarrow> returnS r
     | Inr response \<Rightarrow> liftS (parse_response response)))"

text \<open>\<open>except (OSError, ValueError, UnicodeError)\<close>: every such failure is the unavailable verdict.\<close>

definition scan :: "'s scan_ports \<Rightarrow> clamav_settings \<Rightarrow> artifact_processing_job \<Rightarrow> ('s, exn, scan_result) action" where
  "scan p st job s =
     (let (r, s') = with_resource (sp_open p job) (sp_close_source p) (scan_stream p st) s in
      (case r of
         Inl e \<Rightarrow> if is_os_error e \<or> is_value_error e then mk_scan_result unavailable else Inl e
       | Inr v \<Rightarrow> Inr v, s'))"

section \<open>Bounded interaction\<close>

text \<open>The same ports, counting the reads of the source and of the socket.\<close>

definition lift_port :: "('s, exn, 'a) action \<Rightarrow> ('s \<times> nat \<times> nat, exn, 'a) action" where
  "lift_port a = (\<lambda>(s, n). let (r, s') = a s in (r, s', n))"

definition counting :: "'s scan_ports \<Rightarrow> ('s \<times> nat \<times> nat) scan_ports" where
  "counting p =
     \<lparr>sp_open = \<lambda>job. lift_port (sp_open p job),
      sp_read = \<lambda>n (s, i, j). let (r, s') = sp_read p n s in (r, s', Suc i, j),
      sp_close_source = lift_port (sp_close_source p),
      sp_connect = \<lambda>h q t. lift_port (sp_connect p h q t),
      sp_settimeout = \<lambda>t. lift_port (sp_settimeout p t),
      sp_sendall = \<lambda>b. lift_port (sp_sendall p b),
      sp_recv = \<lambda>n (s, i, j). let (r, s') = sp_recv p n s in (r, s', i, Suc j),
      sp_close_connection = lift_port (sp_close_connection p)\<rparr>"

text \<open>
  \<open>counted a b m n\<close>: the action \<open>b\<close> on the counting ports does what \<open>a\<close> does on the ports, with at
  most \<open>m\<close> reads of the source and \<open>n\<close> of the socket.
\<close>

definition counted :: "('s, exn, 'a) action \<Rightarrow> ('s \<times> nat \<times> nat, exn, 'a) action \<Rightarrow> nat \<Rightarrow> nat \<Rightarrow> bool" where
  "counted a b m n = (\<forall>s i j. \<exists>i' j'. b (s, i, j) = (fst (a s), snd (a s), i', j') \<and> i' \<le> i + m \<and> j' \<le> j + n)"

lemma counted_lift: "counted a (lift_port a) 0 0"
  by (simp add: counted_def lift_port_def split: prod.splits)

lemma counted_liftS: "counted (liftS r) (liftS r) 0 0"
  by (simp add: counted_def liftS_def)

lemma counted_returnS: "counted (returnS r) (returnS r) 0 0"
  by (simp add: counted_def returnS_def)

lemma counted_mono: "counted a b m n \<Longrightarrow> m \<le> m' \<Longrightarrow> n \<le> n' \<Longrightarrow> counted a b m' n'"
  unfolding counted_def by (meson add_left_mono order_trans)

lemma counted_bindS:
  assumes "counted a b m n" "\<And>x. counted (f x) (g x) m' n'"
  shows "counted (bindS a f) (bindS b g) (m + m') (n + n')"
  unfolding counted_def
proof (intro allI)
  fix s i j
  from assms(1) obtain i1 j1 where 1: "b (s, i, j) = (fst (a s), snd (a s), i1, j1)" "i1 \<le> i + m" "j1 \<le> j + n"
    unfolding counted_def by blast
  show "\<exists>i' j'. bindS b g (s, i, j) = (fst (bindS a f s), snd (bindS a f s), i', j') \<and>
      i' \<le> i + (m + m') \<and> j' \<le> j + (n + n')"
  proof (cases "a s")
    case (Pair r s1)
    show ?thesis
    proof (cases r)
      case (Inl e)
      with 1 Pair show ?thesis by (auto simp: bindS_def)
    next
      case (Inr x)
      from assms(2) [of x] obtain i2 j2 where
        "g x (s1, i1, j1) = (fst (f x s1), snd (f x s1), i2, j2)" "i2 \<le> i1 + m'" "j2 \<le> j1 + n'"
        unfolding counted_def by blast
      with 1 Pair Inr show ?thesis by (auto simp: bindS_def)
    qed
  qed
qed

lemma counting_simps [simp]:
  "sp_open (counting p) job = lift_port (sp_open p job)" "sp_close_source (counting p) = lift_port (sp_close_source p)"
  "sp_connect (counting p) h q t = lift_port (sp_connect p h q t)" "sp_settimeout (counting p) t = lift_port (sp_settimeout p t)"
  "sp_sendall (counting p) b = lift_port (sp_sendall p b)"
  "sp_close_connection (counting p) = lift_port (sp_close_connection p)"
  "sp_read (counting p) n (s, i, j) = (fst (sp_read p n s), snd (sp_read p n s), Suc i, j)"
  "sp_recv (counting p) n (s, i, j) = (fst (sp_recv p n s), snd (sp_recv p n s), i, Suc j)"
  by (simp_all add: counting_def split: prod.splits)

lemma counted_with:
  assumes "counted o1 o2 0 0" "counted c1 c2 0 0" "counted b1 b2 m n"
  shows "counted (with_resource o1 c1 b1) (with_resource o2 c2 b2) m n"
proof -
  have "counted (\<lambda>s. let (r, s1) = b1 s; (closed, s2) = c1 s1 in (case closed of Inl e \<Rightarrow> Inl e | Inr _ \<Rightarrow> r, s2))
      (\<lambda>s. let (r, s1) = b2 s; (closed, s2) = c2 s1 in (case closed of Inl e \<Rightarrow> Inl e | Inr _ \<Rightarrow> r, s2)) m n"
    unfolding counted_def
  proof (intro allI)
    fix s i j
    from assms(3) obtain i1 j1 where b: "b2 (s, i, j) = (fst (b1 s), snd (b1 s), i1, j1)" "i1 \<le> i + m" "j1 \<le> j + n"
      unfolding counted_def by blast
    from assms(2) obtain i2 j2 where "c2 (snd (b1 s), i1, j1) = (fst (c1 (snd (b1 s))), snd (c1 (snd (b1 s))), i2, j2)"
      "i2 \<le> i1 + 0" "j2 \<le> j1 + 0" unfolding counted_def by blast
    with b show "\<exists>i' j'. (let (r, s1) = b2 (s, i, j); (closed, s2) = c2 s1
          in (case closed of Inl e \<Rightarrow> Inl e | Inr _ \<Rightarrow> r, s2)) =
        (fst (let (r, s1) = b1 s; (closed, s2) = c1 s1 in (case closed of Inl e \<Rightarrow> Inl e | Inr _ \<Rightarrow> r, s2)),
         snd (let (r, s1) = b1 s; (closed, s2) = c1 s1 in (case closed of Inl e \<Rightarrow> Inl e | Inr _ \<Rightarrow> r, s2)), i', j') \<and>
        i' \<le> i + m \<and> j' \<le> j + n" by (cases "fst (c1 (snd (b1 s)))") (simp_all add: split_beta)
  qed
  from counted_bindS [OF assms(1) this] show ?thesis by (simp add: with_resource_def)
qed

lemma counted_send_chunk: "counted (send_chunk p chunk) (send_chunk (counting p) chunk) 0 0"
  unfolding send_chunk_def
  by (rule counted_bindS [of _ _ 0 0 _ _ 0 0, simplified])
    (auto intro: counted_liftS counted_bindS [of _ _ 0 0 _ _ 0 0, simplified] counted_lift)

text \<open>Every chunk that is sent counts at least one byte, so the chunks are at most the limit.\<close>

lemma counted_send_chunks_at:
  "scanned \<le> limit \<Longrightarrow>
   \<exists>i' j'. send_chunks (counting p) limit scanned (s, i, j) =
     (fst (send_chunks p limit scanned s), snd (send_chunks p limit scanned s), i', j') \<and>
     i' \<le> i + Suc (limit - scanned) \<and> j' \<le> j"
proof (induction p limit scanned s arbitrary: i j rule: send_chunks.induct)
  case (1 p limit scanned s)
  note unf = send_chunks.simps [of p limit scanned s] send_chunks.simps [of "counting p" limit scanned "(s, i, j)"]
  obtain r s1 where r: "sp_read p CHUNK_SIZE s = (r, s1)" by fastforce
  consider (stop) "(\<exists>e. r = Inl e) \<or> r = Inr [] \<or> (\<exists>chunk. r = Inr chunk \<and> limit < scanned + length chunk)"
    | (more) chunk where "r = Inr chunk" "chunk \<noteq> []" "\<not> limit < scanned + length chunk"
    by (cases r) auto
  then show ?case
  proof cases
    case more
    obtain u s2 where c1: "send_chunk p chunk s1 = (u, s2)" by fastforce
    with counted_send_chunk [of p chunk] obtain i2 j2 where
      c2: "send_chunk (counting p) chunk (s1, Suc i, j) = (u, s2, i2, j2)" "i2 \<le> Suc i" "j2 \<le> j"
      unfolding counted_def by (metis add_0_right fst_conv snd_conv)
    show ?thesis
    proof (cases u)
      case (Inl e)
      with unf r more c1 c2 show ?thesis by simp
    next
      case (Inr v)
      have "scanned + length chunk \<le> limit" using more by simp
      from 1(1) [OF r [symmetric, unfolded more(1)] refl more(2,3) c1 [symmetric, unfolded Inr] refl this, of i2 j2]
      obtain i' j' where
        "send_chunks (counting p) limit (scanned + length chunk) (s2, i2, j2) =
          (fst (send_chunks p limit (scanned + length chunk) s2),
           snd (send_chunks p limit (scanned + length chunk) s2), i', j')"
        "i' \<le> i2 + Suc (limit - (scanned + length chunk))" "j' \<le> j2" by blast
      moreover from more have "length chunk > 0" by simp
      then have "i2 + Suc (limit - (scanned + length chunk)) \<le> i + Suc (limit - scanned)"
        using more(3) c2(2) by linarith
      ultimately show ?thesis using unf r more c1 c2 Inr by simp
    qed
  qed (use unf r in auto)
qed

lemma counted_send_chunks:
  "counted (send_chunks p limit 0) (send_chunks (counting p) limit 0) (Suc limit) 0"
  using counted_send_chunks_at [of 0 limit p] by (simp add: counted_def)

lemma counted_read_response_at:
  "\<exists>i' j'. read_response (counting p) response (s, i, j) =
     (fst (read_response p response s), snd (read_response p response s), i', j') \<and>
     i' \<le> i \<and> j' \<le> j + (MAX_RESPONSE_BYTES - length response)"
proof (induction p response s arbitrary: i j rule: read_response.induct)
  case (1 p response s)
  note unf = read_response.simps [of p response s] read_response.simps [of "counting p" response "(s, i, j)"]
  show ?case
  proof (cases "MAX_RESPONSE_BYTES \<le> length response")
    case False
    let ?n = "min 512 (MAX_RESPONSE_BYTES - length response)"
    obtain r s1 where r: "sp_recv p ?n s = (r, s1)" by fastforce
    consider (stop) "(\<exists>e. r = Inl e) \<or> r = Inr [] \<or> (\<exists>f. r = Inr f \<and> 0 \<in> set f)"
      | (more) f where "r = Inr f" "f \<noteq> []" "0 \<notin> set f" by (cases r) auto
    then show ?thesis
    proof cases
      case more
      from 1 [OF False r [symmetric, unfolded more(1)] refl more(2,3), of i "Suc j"] obtain i' j' where
        "read_response (counting p) (response @ f) (s1, i, Suc j) =
          (fst (read_response p (response @ f) s1), snd (read_response p (response @ f) s1), i', j')"
        "i' \<le> i" "j' \<le> Suc j + (MAX_RESPONSE_BYTES - length (response @ f))" by blast
      moreover from more have "length f > 0" by simp
      then have "Suc j + (MAX_RESPONSE_BYTES - length (response @ f)) \<le> j + (MAX_RESPONSE_BYTES - length response)"
        using False unfolding length_append by linarith
      ultimately show ?thesis using unf r more False by simp
    qed (use unf r False in auto)
  qed (use unf in simp)
qed

lemma counted_read_response:
  "counted (read_response p []) (read_response (counting p) []) 0 MAX_RESPONSE_BYTES"
  using counted_read_response_at [of p "[]"] by (simp add: counted_def)

lemmas counted_silent = counted_bindS [of _ _ 0 0, simplified]

lemma counted_exchange:
  "counted (exchange p st) (exchange (counting p) st) (Suc (cs_max_scan_bytes st)) MAX_RESPONSE_BYTES"
proof -
  let ?m = "Suc (cs_max_scan_bytes st)" and ?n = MAX_RESPONSE_BYTES
  have receive: "counted (bindS (read_response p []) (\<lambda>r. returnS (Inr r)))
      (bindS (read_response (counting p) []) (\<lambda>r. returnS (Inr r))) 0 ?n"
    by (rule counted_bindS [OF counted_read_response, where m' = 0 and n' = 0, simplified]) (rule counted_returnS)
  have rest: "counted
      (case early of Some r \<Rightarrow> bindS (liftS (mk_scan_result r)) (\<lambda>r. returnS (Inl r))
       | None \<Rightarrow> bindS (liftS (pack_u32 0)) (\<lambda>t. bindS (sp_sendall p t) (\<lambda>_.
           bindS (read_response p []) (\<lambda>r. returnS (Inr r)))))
      (case early of Some r \<Rightarrow> bindS (liftS (mk_scan_result r)) (\<lambda>r. returnS (Inl r))
       | None \<Rightarrow> bindS (liftS (pack_u32 0)) (\<lambda>t. bindS (sp_sendall (counting p) t) (\<lambda>_.
           bindS (read_response (counting p) []) (\<lambda>r. returnS (Inr r))))) 0 ?n" for early
  proof (cases early)
    case None
    have "counted (bindS (sp_sendall p t) (\<lambda>_. bindS (read_response p []) (\<lambda>r. returnS (Inr r))))
        (bindS (sp_sendall (counting p) t) (\<lambda>_. bindS (read_response (counting p) []) (\<lambda>r. returnS (Inr r)))) 0 ?n" for t
      unfolding counting_simps by (rule counted_silent [OF counted_lift receive])
    from counted_silent [OF counted_liftS this] show ?thesis by (simp add: None)
  next
    case (Some r)
    have "counted (bindS (liftS (mk_scan_result r)) (\<lambda>r. returnS (Inl r)))
        (bindS (liftS (mk_scan_result r)) (\<lambda>r. returnS (Inl r))) 0 0"
      by (rule counted_silent [OF counted_liftS counted_returnS])
    then show ?thesis unfolding Some option.case by (rule counted_mono) simp_all
  qed
  have "counted (exchange p st) (exchange (counting p) st) (?m + 0) (0 + ?n)"
    unfolding exchange_def counting_simps(4,5)
    by (rule counted_silent, rule counted_lift, rule counted_silent, rule counted_lift, rule counted_bindS,
        rule counted_send_chunks, rule rest [unfolded counting_simps(4,5)])
  then show ?thesis by simp
qed

lemma counted_scan_stream:
  "counted (scan_stream p st) (scan_stream (counting p) st) (Suc (cs_max_scan_bytes st)) MAX_RESPONSE_BYTES"
proof -
  let ?answer = "\<lambda>outcome. case outcome of Inl r \<Rightarrow> returnS r | Inr response \<Rightarrow> liftS (parse_response response)"
  have answer: "counted (?answer v) (?answer v) 0 0" for v :: "scan_result + byte list"
    by (cases v) (simp_all add: counted_returnS counted_liftS)
  have "counted (bindS (with_resource (sp_connect p h q (cs_connect_timeout_seconds st)) (sp_close_connection p) (exchange p st)) ?answer)
      (bindS (with_resource (sp_connect (counting p) h q (cs_connect_timeout_seconds st)) (sp_close_connection (counting p))
        (exchange (counting p) st)) ?answer) (Suc (cs_max_scan_bytes st)) MAX_RESPONSE_BYTES" for h q
    unfolding counting_simps
    by (rule counted_bindS [OF counted_with [OF counted_lift counted_lift counted_exchange] answer, simplified])
  then show ?thesis unfolding scan_stream_def
    by (intro counted_silent [OF counted_liftS]) (simp split: prod.splits)
qed

lemma counted_scan:
  "counted (scan p st job) (scan (counting p) st job) (Suc (cs_max_scan_bytes st)) MAX_RESPONSE_BYTES"
proof -
  let ?a = "with_resource (sp_open p job) (sp_close_source p) (scan_stream p st)"
  let ?b = "with_resource (sp_open (counting p) job) (sp_close_source (counting p)) (scan_stream (counting p) st)"
  have c: "counted ?a ?b (Suc (cs_max_scan_bytes st)) MAX_RESPONSE_BYTES"
    unfolding counting_simps by (rule counted_with [OF counted_lift counted_lift counted_scan_stream])
  show ?thesis unfolding counted_def
  proof (intro allI)
    fix s i j
    from c obtain i' j' where "?b (s, i, j) = (fst (?a s), snd (?a s), i', j')"
      "i' \<le> i + Suc (cs_max_scan_bytes st)" "j' \<le> j + MAX_RESPONSE_BYTES" unfolding counted_def by blast
    then show "\<exists>i' j'. scan (counting p) st job (s, i, j) = (fst (scan p st job s), snd (scan p st job s), i', j') \<and>
        i' \<le> i + Suc (cs_max_scan_bytes st) \<and> j' \<le> j + MAX_RESPONSE_BYTES"
      by (simp add: scan_def split_beta)
  qed
qed

section \<open>Framing\<close>

text \<open>How \<open>clamd\<close> reads the stream that follows the command: chunks with their length, then a zero.\<close>

function instream_decode :: "byte list \<Rightarrow> byte list option" where
  "instream_decode bs =
     (if length bs < 4 then None
      else let n = unat (be32 (take 4 bs)); rest = drop 4 bs in
        if n = 0 then (if rest = [] then Some [] else None)
        else if length rest < n then None
        else map_option (\<lambda>d. take n rest @ d) (instream_decode (drop n rest)))"
  by pat_completeness auto
termination by (relation "measure length") auto

declare instream_decode.simps [simp del]

definition frame :: "byte list \<Rightarrow> byte list" where
  "frame chunk = be32_bytes (length chunk) @ chunk"

lemma length_be32_bytes [simp]: "length (be32_bytes n) = 4"
  by (simp add: be32_bytes_def)

lemma be32_be32_bytes:
  assumes "n < 2 ^ 32"
  shows "unat (be32 (be32_bytes n)) = n"
proof -
  have c: "ucast (byte_of (m mod 256)) = (of_nat (m mod 256) :: 32 word)" for m
    by (simp add: byte_of_def unsigned_of_nat take_bit_eq_mod)
  have "be32 (be32_bytes n) = of_nat
      (((n div 256 ^ 3 mod 256 * 256 + n div 256 ^ 2 mod 256) * 256 + n div 256 mod 256) * 256 + n mod 256)"
    by (simp add: be32_def be32_bytes_def c push_bit_eq_mult)
  also have "((n div 256 ^ 3 mod 256 * 256 + n div 256 ^ 2 mod 256) * 256 + n div 256 mod 256) * 256 + n mod 256 = n"
  proof -
    have d: "n div 256 ^ 2 = n div 256 div 256" "n div 256 ^ 3 = n div 256 div 256 div 256"
      by (simp_all flip: div_mult2_eq)
    have "n div 256 div 256 div 256 mod 256 = n div 256 div 256 div 256" using assms by simp
    then show ?thesis unfolding d by (simp only: div_mult_mod_eq)
  qed
  finally show ?thesis using assms by (simp add: unat_of_nat)
qed

lemma instream_decode_end: "instream_decode (be32_bytes 0) = Some []"
  by (subst instream_decode.simps) (simp add: be32_be32_bytes)

lemma instream_decode_frame:
  "chunk \<noteq> [] \<Longrightarrow> length chunk < 2 ^ 32 \<Longrightarrow>
   instream_decode (frame chunk @ bs) = map_option (\<lambda>d. chunk @ d) (instream_decode bs)"
  by (subst instream_decode.simps) (simp add: frame_def be32_be32_bytes)

lemma instream_decode_frames:
  "\<forall>c \<in> set chunks. c \<noteq> [] \<and> length c < 2 ^ 32 \<Longrightarrow>
   instream_decode (concat (map frame chunks) @ be32_bytes 0) = Some (concat chunks)"
  by (induction chunks) (simp_all add: instream_decode_end instream_decode_frame)

section \<open>What a verdict stands for\<close>

text \<open>
  The laws of a reader and a socket, over what is left to read, what has been sent and what has been
  received: reading returns the next bytes and returns none only at the end, a send that returns has
  sent its bytes, a connection starts empty.
\<close>

locale scanner_wire =
  fixes p :: "'s scan_ports" and content :: "artifact_processing_job \<Rightarrow> byte list"
    and remaining sent received :: "'s \<Rightarrow> byte list"
  assumes open_law: "sp_open p job s = (Inr (), s') \<Longrightarrow> remaining s' = content job"
    and read_law: "0 < n \<Longrightarrow> sp_read p n s = (Inr b, s') \<Longrightarrow>
      remaining s = b @ remaining s' \<and> length b \<le> n \<and> (b = [] \<longrightarrow> remaining s = []) \<and>
      sent s' = sent s \<and> received s' = received s"
    and close_source_law: "sp_close_source p s = (r, s') \<Longrightarrow> sent s' = sent s \<and> received s' = received s"
    and connect_law: "sp_connect p h q t s = (Inr (), s') \<Longrightarrow>
      sent s' = [] \<and> received s' = [] \<and> remaining s' = remaining s"
    and settimeout_law: "sp_settimeout p t s = (Inr (), s') \<Longrightarrow>
      sent s' = sent s \<and> received s' = received s \<and> remaining s' = remaining s"
    and send_law: "sp_sendall p b s = (Inr (), s') \<Longrightarrow>
      sent s' = sent s @ b \<and> received s' = received s \<and> remaining s' = remaining s"
    and recv_law: "sp_recv p n s = (Inr f, s') \<Longrightarrow>
      received s' = received s @ f \<and> sent s' = sent s \<and> remaining s' = remaining s"
    and close_connection_law: "sp_close_connection p s = (r, s') \<Longrightarrow>
      sent s' = sent s \<and> received s' = received s \<and> remaining s' = remaining s"
begin

lemma send_chunk_Inr:
  assumes "send_chunk p chunk s = (Inr u, s')"
  shows "length chunk < 2 ^ 32" "sent s' = sent s @ frame chunk" "received s' = received s"
    "remaining s' = remaining s"
  using assms send_law
  by (auto simp: send_chunk_def bindS_Inr liftS_def pack_u32_def frame_def split: if_splits)

lemma send_chunks_sent:
  assumes "send_chunks p limit scanned s = (Inr early, s')"
  shows "case early of
      None \<Rightarrow> \<exists>chunks. remaining s = concat chunks \<and> sent s' = sent s @ concat (map frame chunks) \<and>
        received s' = received s \<and> (\<forall>c \<in> set chunks. c \<noteq> [] \<and> length c < 2 ^ 32) \<and>
        (scanned \<le> limit \<longrightarrow> scanned + length (remaining s) \<le> limit)
    | Some r \<Rightarrow> r = too_large \<and> limit < scanned + length (remaining s)"
  using assms
proof (induction "Suc limit - scanned" arbitrary: scanned s rule: less_induct)
  case less
  from less.prems obtain chunk s1 where read: "sp_read p CHUNK_SIZE s = (Inr chunk, s1)"
    by (subst (asm) send_chunks.simps) (auto split: prod.splits sum.splits)
  have "0 < CHUNK_SIZE" by (simp add: CHUNK_SIZE_def)
  note r = read_law [OF this read]
  consider (eof) "chunk = []" | (big) "chunk \<noteq> []" "limit < scanned + length chunk"
    | (more) "chunk \<noteq> []" "scanned + length chunk \<le> limit" by linarith
  then show ?case
  proof cases
    case eof
    with less.prems read have "early = None" "s' = s1"
      by (subst (asm) send_chunks.simps, simp)+
    with eof r show ?thesis by (auto intro: exI [of _ "[]"])
  next
    case big
    with less.prems read have "early = Some too_large" by (subst (asm) send_chunks.simps) simp
    with big r show ?thesis by simp
  next
    case more
    with less.prems read obtain u s2 where c: "send_chunk p chunk s1 = (Inr u, s2)"
      and rest: "send_chunks p limit (scanned + length chunk) s2 = (Inr early, s')"
      by (subst (asm) send_chunks.simps) (auto split: prod.splits sum.splits)
    note sc = send_chunk_Inr [OF c]
    have "Suc limit - (scanned + length chunk) < Suc limit - scanned"
      using more by (cases chunk) auto
    note ih = less.hyps [OF this rest]
    show ?thesis
    proof (cases early)
      case None
      with ih obtain chunks where "remaining s2 = concat chunks" "sent s' = sent s2 @ concat (map frame chunks)"
        "received s' = received s2" "\<forall>c \<in> set chunks. c \<noteq> [] \<and> length c < 2 ^ 32"
        "scanned + length chunk + length (remaining s2) \<le> limit" using more by auto
      with None more r sc show ?thesis by (auto intro!: exI [of _ "chunk # chunks"])
    next
      case (Some v)
      with ih r sc show ?thesis by simp
    qed
  qed
qed

lemma read_response_Inr:
  assumes "read_response p response s = (Inr r, s')" "0 \<notin> set response"
  shows "\<exists>tail rest. r = response @ tail \<and> 0 \<notin> set r \<and> received s' = received s @ tail @ 0 # rest \<and> sent s' = sent s"
  using assms
proof (induction "MAX_RESPONSE_BYTES - length response" arbitrary: response s rule: less_induct)
  case less
  let ?n = "min 512 (MAX_RESPONSE_BYTES - length response)"
  from less.prems(1) have room: "\<not> MAX_RESPONSE_BYTES \<le> length response"
    by (subst (asm) read_response.simps) (auto split: if_splits)
  with less.prems(1) obtain f s1 where recv: "sp_recv p ?n s = (Inr f, s1)" "f \<noteq> []"
    by (subst (asm) read_response.simps) (auto split: prod.splits sum.splits if_splits)
  note l = recv_law [OF recv(1)]
  show ?case
  proof (cases "0 \<in> set f")
    case True
    with less.prems(1) recv room have r: "r = takeWhile (\<lambda>b. b \<noteq> 0) (response @ f)" "s' = s1"
      by (subst (asm) read_response.simps, simp)+
    obtain tail rest where f: "f = tail @ 0 # rest" "0 \<notin> set tail" using split_list_first [OF True] by blast
    have "takeWhile (\<lambda>b. b \<noteq> 0) (response @ f) = response @ tail"
    proof -
      have "takeWhile (\<lambda>b. b \<noteq> 0) (response @ tail @ 0 # rest) = response @ takeWhile (\<lambda>b. b \<noteq> 0) (tail @ 0 # rest)"
        using less.prems(2) by (intro takeWhile_append2) auto
      also have "takeWhile (\<lambda>b. b \<noteq> 0) (tail @ 0 # rest) = tail @ takeWhile (\<lambda>b. b \<noteq> 0) (0 # rest)"
        using f(2) by (intro takeWhile_append2) auto
      finally show ?thesis by (simp add: f)
    qed
    with r f l less.prems(2) show ?thesis by auto
  next
    case False
    with less.prems(1) recv room have rest: "read_response p (response @ f) s1 = (Inr r, s')"
      by (subst (asm) read_response.simps) simp
    have "MAX_RESPONSE_BYTES - length (response @ f) < MAX_RESPONSE_BYTES - length response"
      using room recv(2) by (cases f) auto
    from less.hyps [OF this rest] False less.prems(2) obtain tail rest where
      "r = (response @ f) @ tail" "0 \<notin> set r" "received s' = received s1 @ tail @ 0 # rest" "sent s' = sent s1" by auto
    with l show ?thesis by auto
  qed
qed

text \<open>What a finished exchange leaves behind.\<close>

lemma exchange_Inr:
  assumes "exchange p st s = (Inr v, s')" "sent s = []" "received s = []"
  shows "case v of
      Inl r \<Rightarrow> r = too_large \<and> cs_max_scan_bytes st < length (remaining s)
    | Inr answer \<Rightarrow> length (remaining s) \<le> cs_max_scan_bytes st \<and> 0 \<notin> set answer \<and>
        (\<exists>stream rest. sent s' = instream_command @ stream \<and> instream_decode stream = Some (remaining s) \<and>
          received s' = answer @ 0 # rest)"
proof -
  from assms(1) obtain s1 s2 s3 early where
    1: "sp_settimeout p (cs_read_timeout_seconds st) s = (Inr (), s1)"
      "sp_sendall p instream_command s1 = (Inr (), s2)"
      "send_chunks p (cs_max_scan_bytes st) 0 s2 = (Inr early, s3)" and
    2: "(case early of
       Some r \<Rightarrow> bindS (liftS (mk_scan_result r)) (\<lambda>r. returnS (Inl r))
     | None \<Rightarrow> bindS (liftS (pack_u32 0)) (\<lambda>t. bindS (sp_sendall p t) (\<lambda>_.
         bindS (read_response p []) (\<lambda>response. returnS (Inr response))))) s3 = (Inr v, s')"
    by (auto simp: exchange_def bindS_Inr)
  from settimeout_law [OF 1(1)] send_law [OF 1(2)] assms(2,3)
  have s2: "sent s2 = instream_command" "received s2 = []" "remaining s2 = remaining s" by auto
  note chunks = send_chunks_sent [OF 1(3)]
  show ?thesis
  proof (cases early)
    case (Some r)
    with chunks s2 2 show ?thesis by (auto simp: bindS_Inr liftS_def returnS_def mk_scan_result_def bindE_eq_Inr)
  next
    case None
    with 2 obtain s4 answer where t: "sp_sendall p (be32_bytes 0) s3 = (Inr (), s4)"
      "read_response p [] s4 = (Inr answer, s')" "v = Inr answer"
      by (auto simp: bindS_Inr liftS_def returnS_def pack_u32_def)
    from None chunks s2 obtain cs where cs: "remaining s = concat cs"
      "sent s3 = instream_command @ concat (map frame cs)" "received s3 = []"
      "\<forall>c \<in> set cs. c \<noteq> [] \<and> length c < 2 ^ 32" "length (remaining s) \<le> cs_max_scan_bytes st" by auto
    from read_response_Inr [OF t(2)] obtain rest where
      a: "0 \<notin> set answer" "received s' = received s4 @ answer @ 0 # rest" "sent s' = sent s4" by auto
    have "sent s' = instream_command @ concat (map frame cs) @ be32_bytes 0" "received s' = answer @ 0 # rest"
      using send_law [OF t(1)] cs(2,3) a(2,3) by simp_all
    with cs a(1) t(3) instream_decode_frames [OF cs(4)] show ?thesis by auto
  qed
qed

lemma scan_stream_Inr:
  assumes "scan_stream p st s = (Inr v, s')"
  shows "(v = too_large \<and> cs_max_scan_bytes st < length (remaining s)) \<or>
    (\<exists>answer stream rest. length (remaining s) \<le> cs_max_scan_bytes st \<and> 0 \<notin> set answer \<and>
      sent s' = instream_command @ stream \<and> instream_decode stream = Some (remaining s) \<and>
      received s' = answer @ 0 # rest \<and> parse_response answer = Inr v)"
proof -
  from assms obtain host port s1 outcome where
    w: "with_resource (sp_connect p host port (cs_connect_timeout_seconds st)) (sp_close_connection p) (exchange p st) s =
      (Inr outcome, s1)" and
    o: "(case outcome of Inl r \<Rightarrow> returnS r | Inr response \<Rightarrow> liftS (parse_response response)) s1 = (Inr v, s')"
    by (auto simp: scan_stream_def bindS_Inr liftS_def)
  from with_resource_Inr [OF w] obtain s2 s3 c where
    r: "sp_connect p host port (cs_connect_timeout_seconds st) s = (Inr (), s2)"
      "exchange p st s2 = (Inr outcome, s3)" "sp_close_connection p s3 = (Inr c, s1)" .
  note l = connect_law [OF r(1)] close_connection_law [OF r(3)]
  from exchange_Inr [OF r(2)] l o show ?thesis
    by (cases outcome) (auto simp: returnS_def liftS_def)
qed

end

section \<open>The wire of the tests\<close>

text \<open>
  \<open>FakeReader\<close> and \<open>FakeSocket\<close> of the worker's tests: an in-memory source, and a socket that records
  what is sent and answers once with a fixed response.
\<close>

record fake_wire =
  fw_unread :: "byte list"
  fw_response :: "byte list"
  fw_sent :: "byte list"
  fw_received :: "byte list"

definition fake_ports :: "byte list \<Rightarrow> fake_wire scan_ports" where
  "fake_ports content =
     \<lparr>sp_open = \<lambda>job w. (Inr (), w\<lparr>fw_unread := content\<rparr>),
      sp_read = \<lambda>n w. (Inr (take n (fw_unread w)), w\<lparr>fw_unread := drop n (fw_unread w)\<rparr>),
      sp_close_source = returnS (),
      sp_connect = \<lambda>h q t w. (Inr (), w\<lparr>fw_sent := [], fw_received := []\<rparr>),
      sp_settimeout = \<lambda>t. returnS (),
      sp_sendall = \<lambda>b w. (Inr (), w\<lparr>fw_sent := fw_sent w @ b\<rparr>),
      sp_recv = \<lambda>n w. (Inr (fw_response w), w\<lparr>fw_response := [], fw_received := fw_received w @ fw_response w\<rparr>),
      sp_close_connection = returnS ()\<rparr>"

interpretation fake: scanner_wire "fake_ports content" "\<lambda>job. content" fw_unread fw_sent fw_received
  by unfold_locales (auto simp: fake_ports_def returnS_def)

end
