(* ===== verification/Scan_Properties.thy ===== *)
theory Scan_Properties
  imports Clam_Scanner
begin

text \<open>The properties of the virus scan: it ends, it fails closed, and a verdict is about the whole artifact.\<close>

lemma mk_unavailable: "mk_scan_result unavailable = Inr unavailable"
  by (simp add: mk_scan_result_def unavailable_def validate_safe_code_def worker_safe_code_def strip_def
      strip_of_def rstrip_of_def py_space_def)

lemma clean_response:
  assumes "parse_response answer = Inr v" "sr_disposition v = ScanClean"
  shows "bytes_endswith (bytes_strip answer) (bytes_of '': OK'')"
  using assms by (auto simp: parse_response_def Let_def mk_scan_result_def bindE_eq_Inr unavailable_def split: if_splits)

lemma scan_clean_D:
  assumes "scan p st job s = (Inr v, s')" "sr_disposition v = ScanClean"
  shows "with_resource (sp_open p job) (sp_close_source p) (scan_stream p st) s = (Inr v, s')"
proof -
  have "v \<noteq> unavailable" using assms(2) by (auto simp: unavailable_def)
  with assms(1) show ?thesis by (auto simp: scan_def mk_unavailable split: prod.splits sum.splits if_splits)
qed

text \<open>The verdicts of the scanner, and the error each port may raise.\<close>

definition scan_verdicts :: "scan_result set" where
  "scan_verdicts =
     {\<lparr>sr_disposition = ScanClean, sr_reason_code = ''scan.clean''\<rparr>,
      \<lparr>sr_disposition = ScanRejected, sr_reason_code = ''scan.malware_detected''\<rparr>,
      \<lparr>sr_disposition = ScanRejected, sr_reason_code = ''scan.size_limit_exceeded''\<rparr>,
      \<lparr>sr_disposition = ScanUnavailable, sr_reason_code = ''scan.unavailable''\<rparr>}"

definition raises :: "('s, exn, 'a) action \<Rightarrow> exn \<Rightarrow> bool" where
  "raises a e = (\<exists>s. fst (a s) = Inl e)"

definition port_raises :: "'s scan_ports \<Rightarrow> exn \<Rightarrow> bool" where
  "port_raises p e =
     ((\<exists>job. raises (sp_open p job) e) \<or> (\<exists>n. raises (sp_read p n) e) \<or> raises (sp_close_source p) e \<or>
      (\<exists>h q t. raises (sp_connect p h q t) e) \<or> (\<exists>t. raises (sp_settimeout p t) e) \<or> (\<exists>b. raises (sp_sendall p b) e) \<or>
      (\<exists>n. raises (sp_recv p n) e) \<or> raises (sp_close_connection p) e)"

text \<open>An action whose errors all satisfy one predicate and whose results another.\<close>

definition ends :: "(exn \<Rightarrow> bool) \<Rightarrow> ('a \<Rightarrow> bool) \<Rightarrow> ('s, exn, 'a) action \<Rightarrow> bool" where
  "ends P Q a = (\<forall>s. case fst (a s) of Inl e \<Rightarrow> P e | Inr x \<Rightarrow> Q x)"

lemma ends_bindS: "ends P Q a \<Longrightarrow> (\<And>x. Q x \<Longrightarrow> ends P R (f x)) \<Longrightarrow> ends P R (bindS a f)"
proof (unfold ends_def, intro allI)
  fix s
  assume a: "\<forall>s. case fst (a s) of Inl e \<Rightarrow> P e | Inr x \<Rightarrow> Q x"
    and f: "\<And>x. Q x \<Longrightarrow> \<forall>s. case fst (f x s) of Inl e \<Rightarrow> P e | Inr x \<Rightarrow> R x"
  obtain r s1 where r: "a s = (r, s1)" by fastforce
  show "case fst (bindS a f s) of Inl e \<Rightarrow> P e | Inr x \<Rightarrow> R x"
  proof (cases r)
    case (Inl e)
    with r a [rule_format, of s] show ?thesis by (simp add: bindS_def)
  next
    case (Inr x)
    with r a [rule_format, of s] have "Q x" by simp
    with f r Inr show ?thesis by (simp add: bindS_def)
  qed
qed

lemma ends_returnS: "Q x \<Longrightarrow> ends P Q (returnS x)"
  by (simp add: ends_def returnS_def)

lemma ends_liftS: "(case r of Inl e \<Rightarrow> P e | Inr x \<Rightarrow> Q x) \<Longrightarrow> ends P Q (liftS r)"
  by (simp add: ends_def liftS_def)

lemma ends_port: "(\<And>e. raises a e \<Longrightarrow> P e) \<Longrightarrow> ends P (\<lambda>_. True) a"
  unfolding ends_def raises_def by (auto split: sum.split)

lemma ends_with_resource:
  assumes "ends P (\<lambda>_. True) open_it" "ends P (\<lambda>_. True) close_it" "ends P Q body"
  shows "ends P Q (with_resource open_it close_it body)"
proof -
  have "ends P Q (\<lambda>s. let (r, s1) = body s; (closed, s2) = close_it s1 in (case closed of Inl e \<Rightarrow> Inl e | Inr _ \<Rightarrow> r, s2))"
    unfolding ends_def
  proof (intro allI)
    fix s
    show "case fst (let (r, s1) = body s; (closed, s2) = close_it s1 in (case closed of Inl e \<Rightarrow> Inl e | Inr _ \<Rightarrow> r, s2)) of
        Inl e \<Rightarrow> P e | Inr x \<Rightarrow> Q x"
      using assms(3) [unfolded ends_def, rule_format, of s] assms(2) [unfolded ends_def, rule_format, of "snd (body s)"]
      by (cases "fst (close_it (snd (body s)))") (simp_all add: split_beta)
  qed
  then show ?thesis unfolding with_resource_def by (intro ends_bindS [OF assms(1)])
qed

text \<open>Below a limit of four gigabytes no chunk that is sent has a length the header cannot hold.\<close>

definition escapes :: "'s scan_ports \<Rightarrow> clamav_settings \<Rightarrow> exn \<Rightarrow> bool" where
  "escapes p st e = (port_raises p e \<or> is_os_error e \<or> is_value_error e \<or> 2 ^ 32 \<le> cs_max_scan_bytes st)"

lemma escapes_port: "port_raises p e \<Longrightarrow> escapes p st e"
  by (simp add: escapes_def)

lemma port_ends:
  "ends (escapes p st) (\<lambda>_. True) (sp_open p job)" "ends (escapes p st) (\<lambda>_. True) (sp_read p n)"
  "ends (escapes p st) (\<lambda>_. True) (sp_close_source p)" "ends (escapes p st) (\<lambda>_. True) (sp_connect p h q t)"
  "ends (escapes p st) (\<lambda>_. True) (sp_settimeout p t)" "ends (escapes p st) (\<lambda>_. True) (sp_sendall p b)"
  "ends (escapes p st) (\<lambda>_. True) (sp_recv p n)" "ends (escapes p st) (\<lambda>_. True) (sp_close_connection p)"
  by (rule ends_port, rule escapes_port, auto simp: port_raises_def)+

lemma send_chunk_ends:
  assumes "length chunk \<le> cs_max_scan_bytes st"
  shows "ends (escapes p st) (\<lambda>_. True) (send_chunk p chunk)"
  unfolding send_chunk_def
proof (intro ends_bindS [where Q = "\<lambda>_. True"] port_ends)
  show "ends (escapes p st) (\<lambda>_. True) (liftS (pack_u32 (length chunk)))"
    using assms by (intro ends_liftS) (auto simp: pack_u32_def escapes_def)
qed

lemma send_chunks_ends:
  "scanned \<le> cs_max_scan_bytes st \<Longrightarrow>
   case fst (send_chunks p (cs_max_scan_bytes st) scanned s) of Inl e \<Rightarrow> escapes p st e | Inr v \<Rightarrow> v \<in> {None, Some too_large}"
proof (induction p "cs_max_scan_bytes st" scanned s rule: send_chunks.induct)
  case (1 p scanned s)
  obtain r s1 where r: "sp_read p CHUNK_SIZE s = (r, s1)" by fastforce
  note unf = send_chunks.simps [of p "cs_max_scan_bytes st" scanned s] r
  show ?case
  proof (cases r)
    case (Inl e)
    have "case fst (sp_read p CHUNK_SIZE s) of Inl e \<Rightarrow> escapes p st e | Inr _ \<Rightarrow> True"
      using port_ends(2) [of p st CHUNK_SIZE] unfolding ends_def by blast
    then show ?thesis using unf Inl by simp
  next
    case (Inr chunk)
    show ?thesis
    proof (cases "chunk = [] \<or> cs_max_scan_bytes st < scanned + length chunk")
      case False
      obtain u s2 where c: "send_chunk p chunk s1 = (u, s2)" by fastforce
      have "length chunk \<le> cs_max_scan_bytes st" using False by simp
      then have e: "case u of Inl e \<Rightarrow> escapes p st e | Inr _ \<Rightarrow> True"
        using send_chunk_ends [of chunk st p, unfolded ends_def, rule_format, of s1] c by simp
      show ?thesis
      proof (cases u)
        case (Inr w)
        then have "scanned + length chunk \<le> cs_max_scan_bytes st" using False by simp
        from "1.hyps" [OF r [symmetric] \<open>r = Inr chunk\<close> _ _ c [symmetric] Inr this] False
        show ?thesis using unf \<open>r = Inr chunk\<close> c Inr by simp
      qed (use unf \<open>r = Inr chunk\<close> c False e in simp)
    qed (use unf Inr in auto)
  qed
qed

lemma read_response_ends: "ends (escapes p st) (\<lambda>_. True) (read_response p response)"
  unfolding ends_def
proof
  fix s
  show "case fst (read_response p response s) of Inl e \<Rightarrow> escapes p st e | Inr _ \<Rightarrow> True"
  proof (induction p response s rule: read_response.induct)
    case (1 p response s)
    obtain r s1 where r: "sp_recv p (min 512 (MAX_RESPONSE_BYTES - length response)) s = (r, s1)" by fastforce
    have e: "case r of Inl e \<Rightarrow> escapes p st e | Inr _ \<Rightarrow> True"
      using port_ends(7) [unfolded ends_def, rule_format, of p st "min 512 (MAX_RESPONSE_BYTES - length response)" s] r by simp
    show ?case
      using 1 [OF _ r [symmetric]] e
      by (subst read_response.simps) (auto simp: r escapes_def split: sum.split)
  qed
qed

lemma parse_response_ends: "case parse_response answer of Inl e \<Rightarrow> False | Inr v \<Rightarrow> v \<in> scan_verdicts"
  by (simp add: parse_response_def Let_def mk_scan_result_def validate_safe_code_def worker_safe_code_def strip_def
      strip_of_def rstrip_of_def py_space_def unavailable_def scan_verdicts_def)

lemma mk_too_large: "mk_scan_result too_large = Inr too_large"
  by (simp add: mk_scan_result_def too_large_def validate_safe_code_def worker_safe_code_def strip_def
      strip_of_def rstrip_of_def py_space_def)

lemma exchange_ends:
  "ends (escapes p st) (\<lambda>x. case x of Inl r \<Rightarrow> r = too_large | Inr _ \<Rightarrow> True) (exchange p st)"
proof -
  have chunks: "ends (escapes p st) (\<lambda>v. v \<in> {None, Some too_large}) (send_chunks p (cs_max_scan_bytes st) 0)"
    using send_chunks_ends [of 0 st p] unfolding ends_def by blast
  have rest: "ends (escapes p st) (\<lambda>x. case x of Inl r \<Rightarrow> r = too_large | Inr _ \<Rightarrow> True)
      (bindS (liftS (pack_u32 0)) (\<lambda>terminator. bindS (sp_sendall p terminator) (\<lambda>_.
       bindS (read_response p []) (\<lambda>response. returnS (Inr response)))))"
    by (intro ends_bindS [where Q = "\<lambda>_. True"] port_ends read_response_ends ends_liftS ends_returnS)
      (simp_all add: pack_u32_def)
  have early: "ends (escapes p st) (\<lambda>x. case x of Inl r \<Rightarrow> r = too_large | Inr _ \<Rightarrow> True)
      (bindS (liftS (mk_scan_result too_large)) (\<lambda>r. returnS (Inl r)))"
    by (simp add: mk_too_large bindS_def liftS_def returnS_def ends_def)
  show ?thesis
    unfolding exchange_def
    by (rule ends_bindS [OF port_ends(5)], rule ends_bindS [OF port_ends(6)], rule ends_bindS [OF chunks])
      (use rest early in auto)
qed

lemma host_and_port_ends: "case host_and_port st of Inl e \<Rightarrow> is_value_error e | Inr _ \<Rightarrow> True"
  by (simp add: host_and_port_def Let_def split: option.split)

lemma scan_stream_ends: "ends (escapes p st) (\<lambda>v. v \<in> scan_verdicts) (scan_stream p st)"
  unfolding scan_stream_def
proof (intro ends_bindS [where Q = "\<lambda>_. True"])
  show "ends (escapes p st) (\<lambda>_. True) (liftS (host_and_port st))"
    using host_and_port_ends [of st] by (intro ends_liftS) (auto simp: escapes_def split: sum.splits)
next
  fix x :: "string \<times> int"
  obtain h q where x: "x = (h, q)" by fastforce
  have body: "ends (escapes p st) (\<lambda>x. case x of Inl r \<Rightarrow> r = too_large | Inr _ \<Rightarrow> True)
      (with_resource (sp_connect p h q (cs_connect_timeout_seconds st)) (sp_close_connection p) (exchange p st))"
    by (intro ends_with_resource port_ends exchange_ends)
  show "ends (escapes p st) (\<lambda>v. v \<in> scan_verdicts) (case x of (host, port) \<Rightarrow>
      bindS (with_resource (sp_connect p host port (cs_connect_timeout_seconds st)) (sp_close_connection p) (exchange p st))
        (\<lambda>outcome. case outcome of Inl r \<Rightarrow> returnS r | Inr response \<Rightarrow> liftS (parse_response response)))"
    unfolding x prod.case
  proof (rule ends_bindS [OF body])
    fix outcome :: "scan_result + byte list"
    assume o: "case outcome of Inl r \<Rightarrow> r = too_large | Inr _ \<Rightarrow> True"
    show "ends (escapes p st) (\<lambda>v. v \<in> scan_verdicts)
        (case outcome of Inl r \<Rightarrow> returnS r | Inr response \<Rightarrow> liftS (parse_response response))"
    proof (cases outcome)
      case (Inl r)
      then show ?thesis using o by (simp add: ends_def returnS_def scan_verdicts_def too_large_def)
    next
      case (Inr response)
      then show ?thesis
        using parse_response_ends [of response] by (auto intro!: ends_liftS split: sum.splits)
    qed
  qed
qed

text \<open>
  C28. A scan always ends, whatever the reader and the daemon do: it reads the source at most once more
  than the size limit has bytes and the socket at most 4096 times, and counting the calls changes
  neither its verdict nor the environment. What it answers is one of the four declared verdicts: the one the
  exchange with the daemon gave, or unavailable. An unreadable source, a lost connection, a malformed address
  or an endless response is the unavailable verdict, never an \<open>OSError\<close> or a \<open>ValueError\<close>; an error leaves a
  scan only if a call of the reader or the socket raised it as something else, unless the limit exceeds what the
  length header of a chunk can hold.
\<close>

theorem scan_terminates_and_fails_closed:
  "\<exists>reads recvs. scan (counting p) st job (s, 0, 0) = (fst (scan p st job s), snd (scan p st job s), reads, recvs) \<and>
     reads \<le> cs_max_scan_bytes st + 1 \<and> recvs \<le> 4096 \<and>
     (case fst (scan p st job s) of
        Inl e \<Rightarrow> \<not> is_os_error e \<and> \<not> is_value_error e \<and> (port_raises p e \<or> 2 ^ 32 \<le> cs_max_scan_bytes st)
      | Inr v \<Rightarrow> v \<in> scan_verdicts \<and>
          (v = unavailable \<or>
           fst (with_resource (sp_open p job) (sp_close_source p) (scan_stream p st) s) = Inr v))"
proof -
  from counted_scan [of p st job] obtain i j where
    c: "scan (counting p) st job (s, 0, 0) = (fst (scan p st job s), snd (scan p st job s), i, j)"
      "i \<le> cs_max_scan_bytes st + 1" "j \<le> 4096"
    unfolding counted_def MAX_RESPONSE_BYTES_def by fastforce
  have "ends (escapes p st) (\<lambda>v. v \<in> scan_verdicts) (with_resource (sp_open p job) (sp_close_source p) (scan_stream p st))"
    by (intro ends_with_resource port_ends scan_stream_ends)
  then have "case fst (with_resource (sp_open p job) (sp_close_source p) (scan_stream p st) s) of
      Inl e \<Rightarrow> escapes p st e | Inr v \<Rightarrow> v \<in> scan_verdicts" by (simp add: ends_def)
  moreover have "unavailable \<in> scan_verdicts" by (simp add: unavailable_def scan_verdicts_def)
  ultimately have "case fst (scan p st job s) of
      Inl e \<Rightarrow> \<not> is_os_error e \<and> \<not> is_value_error e \<and> (port_raises p e \<or> 2 ^ 32 \<le> cs_max_scan_bytes st)
    | Inr v \<Rightarrow> v \<in> scan_verdicts \<and> (v = unavailable \<or>
        fst (with_resource (sp_open p job) (sp_close_source p) (scan_stream p st) s) = Inr v)"
    by (cases "fst (with_resource (sp_open p job) (sp_close_source p) (scan_stream p st) s)")
      (auto simp: scan_def split_beta mk_unavailable escapes_def)
  with c show ?thesis by blast
qed

text \<open>
  C29. A clean verdict covers the whole artifact: when the reader and the socket keep their contract
  (\<open>scanner_wire\<close>) and a scan answers clean, the artifact is within the size limit, the daemon was sent
  the command and a stream that decodes to exactly the artifact's bytes, and its answer, up to the first
  zero byte, ends with \<open>: OK\<close>. An artifact over the limit is never clean.
\<close>

theorem clean_verdict_covers_the_artifact:
  assumes "scanner_wire p content remaining sent received"
    and "scan p st job s = (Inr v, s')" "sr_disposition v = ScanClean"
  shows "length (content job) \<le> cs_max_scan_bytes st \<and>
    (\<exists>stream answer rest. sent s' = instream_command @ stream \<and>
      instream_decode stream = Some (content job) \<and>
      received s' = answer @ 0 # rest \<and> 0 \<notin> set answer \<and>
      bytes_endswith (bytes_strip answer) (bytes_of '': OK''))"
proof -
  note w = assms(1)
  from with_resource_Inr [OF scan_clean_D [OF assms(2,3)]] obtain s1 s2 c where
    r: "sp_open p job s = (Inr (), s1)" "scan_stream p st s1 = (Inr v, s2)" "sp_close_source p s2 = (Inr c, s')" .
  have "v \<noteq> too_large" using assms(3) by (auto simp: too_large_def)
  with scanner_wire.scan_stream_Inr [OF w r(2)] scanner_wire.open_law [OF w r(1)]
    scanner_wire.close_source_law [OF w r(3)] clean_response [OF _ assms(3)]
  show ?thesis by auto
qed

definition fake_scan_settings :: clamav_settings where
  "fake_scan_settings = \<lparr>cs_address = ''clamav:3310'', cs_connect_timeout_seconds = 5,
     cs_read_timeout_seconds = 90, cs_max_scan_bytes = 100\<rparr>"

definition fake_daemon :: fake_wire where
  "fake_daemon = \<lparr>fw_unread = [], fw_response = bytes_of ''stream: OK'' @ [0], fw_sent = [], fw_received = []\<rparr>"

lemma fake_ports_simps:
  "sp_open (fake_ports c) job w = (Inr (), w\<lparr>fw_unread := c\<rparr>)"
  "sp_read (fake_ports c) n w = (Inr (take n (fw_unread w)), w\<lparr>fw_unread := drop n (fw_unread w)\<rparr>)"
  "sp_close_source (fake_ports c) = returnS ()" "sp_settimeout (fake_ports c) t = returnS ()"
  "sp_close_connection (fake_ports c) = returnS ()"
  "sp_connect (fake_ports c) h q t w = (Inr (), w\<lparr>fw_sent := [], fw_received := []\<rparr>)"
  "sp_sendall (fake_ports c) b w = (Inr (), w\<lparr>fw_sent := fw_sent w @ b\<rparr>)"
  "sp_recv (fake_ports c) n w =
     (Inr (fw_response w), w\<lparr>fw_response := [], fw_received := fw_received w @ fw_response w\<rparr>)"
  by (simp_all add: fake_ports_def)

lemma fake_scan_address: "host_and_port fake_scan_settings = Inr (''clamav'', 3310)"
  by code_simp

lemma fake_answer:
  "parse_response (bytes_of ''stream: OK'') = Inr \<lparr>sr_disposition = ScanClean, sr_reason_code = ''scan.clean''\<rparr>"
  by code_simp

lemma fake_response: "takeWhile (\<lambda>b. b \<noteq> 0) (bytes_of ''stream: OK'' @ [0]) = bytes_of ''stream: OK''"
  by (simp add: bytes_of_def byte_of_def)

lemma fake_chunks:
  assumes "content \<noteq> []" "length content \<le> limit" "limit < CHUNK_SIZE" "fw_unread w = content"
  shows "\<exists>w'. send_chunks (fake_ports content) limit 0 w = (Inr None, w') \<and> fw_response w' = fw_response w"
proof -
  have l: "length content < 4294967296" "take CHUNK_SIZE content = content" "drop CHUNK_SIZE content = []"
    using assms(2,3) by (simp_all add: CHUNK_SIZE_def)
  show ?thesis using assms l
    by (simp add: send_chunks.simps [of _ limit 0] fake_ports_simps send_chunk_def bindS_def liftS_def pack_u32_def)
      (simp add: send_chunks.simps [of _ limit "length content"] fake_ports_simps)
qed

lemma fake_scan_clean:
  "fst (scan (fake_ports (bytes_of ''router'')) fake_scan_settings job fake_daemon) =
     Inr \<lparr>sr_disposition = ScanClean, sr_reason_code = ''scan.clean''\<rparr>"
proof -
  let ?c = "bytes_of ''router''" and ?st = fake_scan_settings
  let ?w = "\<lparr>fw_unread = ?c, fw_response = bytes_of ''stream: OK'' @ [0], fw_sent = instream_command, fw_received = []\<rparr>"
  have "\<exists>w'. send_chunks (fake_ports ?c) (cs_max_scan_bytes ?st) 0 ?w = (Inr None, w') \<and> fw_response w' = fw_response ?w"
    by (rule fake_chunks) (simp_all add: bytes_of_def fake_scan_settings_def CHUNK_SIZE_def)
  then obtain w' where w': "send_chunks (fake_ports ?c) (cs_max_scan_bytes ?st) 0 ?w = (Inr None, w')"
    "fw_response w' = bytes_of ''stream: OK'' @ [0]" by auto
  obtain w'' where "read_response (fake_ports ?c) [] (w'\<lparr>fw_sent := fw_sent w' @ be32_bytes 0\<rparr>) =
      (Inr (bytes_of ''stream: OK''), w'')"
    using w'(2) fake_response by (simp add: read_response.simps MAX_RESPONSE_BYTES_def fake_ports_simps)
  with w'(1) show ?thesis
    by (simp add: scan_def with_resource_def bindS_def fake_ports_simps scan_stream_def liftS_def fake_scan_address
        exchange_def returnS_def pack_u32_def fake_answer fake_daemon_def)
qed

theorem clean_verdict_covers_the_artifact_witness:
  "\<forall>job. \<exists>v w'. scan (fake_ports (bytes_of ''router'')) fake_scan_settings job fake_daemon = (Inr v, w') \<and>
    (\<exists>stream. fw_sent w' = instream_command @ stream \<and> instream_decode stream = Some (bytes_of ''router''))"
proof
  fix job
  obtain w' where r: "scan (fake_ports (bytes_of ''router'')) fake_scan_settings job fake_daemon =
      (Inr \<lparr>sr_disposition = ScanClean, sr_reason_code = ''scan.clean''\<rparr>, w')"
    using fake_scan_clean [of job] by (metis prod.collapse)
  from clean_verdict_covers_the_artifact [OF fake.scanner_wire_axioms r] r
  show "\<exists>v w'. scan (fake_ports (bytes_of ''router'')) fake_scan_settings job fake_daemon = (Inr v, w') \<and>
    (\<exists>stream. fw_sent w' = instream_command @ stream \<and> instream_decode stream = Some (bytes_of ''router''))"
    by auto
qed

end
