(* ===== verification/Observability.thy ===== *)
theory Observability
  imports Regex_Match Py_Data
begin

text \<open>
  \<open>core/logging.py\<close> and the hook of \<open>core/sentry.py\<close>: what the API lets out of the process as logs and
  error reports. A Python value is an \<open>observed\<close>: mappings carry the text of their keys, lists, tuples
  and sets are sequences, and any other object is what \<open>str\<close> makes of it.
\<close>

section \<open>Values\<close>

datatype observed =
    ONone
  | OBool bool
  | OInt int
  | OFloat string
  | OStr string
  | OMap "(string \<times> observed) list"
  | OSeq "observed list"
  | OOther string

text \<open>Assignment to a key of a dict, which keeps the place of a key it already has.\<close>

definition dict_set :: "string \<Rightarrow> observed \<Rightarrow> (string \<times> observed) list \<Rightarrow> (string \<times> observed) list" where
  "dict_set k v d =
     (if k \<in> fst ` set d then map (\<lambda>kv. if fst kv = k then (k, v) else kv) d else d @ [(k, v)])"

definition dict_of :: "(string \<times> observed) list \<Rightarrow> (string \<times> observed) list" where
  "dict_of kvs = fold (\<lambda>kv. dict_set (fst kv) (snd kv)) kvs []"

definition dict_pop :: "string \<Rightarrow> (string \<times> observed) list \<Rightarrow> (string \<times> observed) list" where
  "dict_pop k d = filter (\<lambda>kv. fst kv \<noteq> k) d"

section \<open>Patterns\<close>

definition REDACTED_MARKER :: string where "REDACTED_MARKER = ''[REDACTED]''"
definition TRUNCATED :: string where "TRUNCATED = ''[TRUNCATED]''"
definition MAX_VALUE_LENGTH :: nat where "MAX_VALUE_LENGTH = 2048"
definition MAX_COLLECTION_ITEMS :: nat where "MAX_COLLECTION_ITEMS = 50"
definition MAX_NESTING_DEPTH :: nat where "MAX_NESTING_DEPTH = 5"

fun alts :: "re list \<Rightarrow> re" where
  "alts [] = Eps"
| "alts [r] = r"
| "alts (r # s # rs) = Alt r (alts (s # rs))"

text \<open>\<open>pattern.search(s)\<close>, as a test.\<close>

fun re_search_from :: "re \<Rightarrow> string \<Rightarrow> string \<Rightarrow> bool" where
  "re_search_from r back [] = (matches r \<lparr>behind = back, ahead = [], captures = []\<rparr> \<noteq> [])"
| "re_search_from r back (c # cs) =
     (matches r \<lparr>behind = back, ahead = c # cs, captures = []\<rparr> \<noteq> [] \<or> re_search_from r (c # back) cs)"

definition re_search :: "re \<Rightarrow> string \<Rightarrow> bool" where
  "re_search r s = re_search_from r [] s"

text \<open>\<open>[_-]?\<close>\<close>

definition opt_dash :: re where
  "opt_dash = re_opt (Chars (\<lambda>c. c = CHR ''_'' \<or> c = CHR ''-''))"

definition sensitive_field_re :: re where
  "sensitive_field_re = alts
     [lit ''authorization'', lit ''cookie'', lit ''credential'', lit ''password'', lit ''secret'', lit ''token'',
      seqs [lit ''api'', opt_dash, lit ''key''], seqs [lit ''private'', opt_dash, lit ''key''],
      seqs [lit ''pre'', opt_dash, lit ''shared''], seqs [lit ''snmp'', opt_dash, lit ''community''],
      lit ''session'', lit ''config'', lit ''artifact'', lit ''audio'', lit ''body'', lit ''content'']"

definition inline_secret_re :: re where
  "inline_secret_re = seqs
     [alts [lit ''authorization'', lit ''password'', lit ''passwd'', lit ''secret'', lit ''token'',
        seqs [lit ''api'', opt_dash, lit ''key''], seqs [lit ''snmp-server'', re_spaces1, lit ''community''],
        seqs [lit ''crypto'', re_spaces1, lit ''isakmp'', re_spaces1, lit ''key'']],
      re_spaces,
      alts [Chars (\<lambda>c. c = CHR ''=''), Chars (\<lambda>c. c = CHR '':''), re_spaces1],
      re_spaces,
      re_plus (Chars (\<lambda>c. \<not> py_space c \<and> c \<noteq> CHR '','' \<and> c \<noteq> CHR '';''))]"

definition bearer_token_re :: re where
  "bearer_token_re = seqs
     [lit ''bearer'', re_spaces1,
      re_plus (Chars (\<lambda>c. ascii_lower (lower_char c) \<or> ascii_digit c \<or> c \<in> set ''._~+/-'')),
      Star (Chars (\<lambda>c. c = CHR ''=''))]"

section \<open>Redaction\<close>

definition redact_text :: "string \<Rightarrow> string" where
  "redact_text value =
     (let redacted = fst (subn bearer_token_re (\<lambda>_. ''Bearer '' @ REDACTED_MARKER) value);
          redacted = fst (subn inline_secret_re (\<lambda>_. REDACTED_MARKER) redacted)
      in if MAX_VALUE_LENGTH < length redacted then take MAX_VALUE_LENGTH redacted @ TRUNCATED else redacted)"

definition sensitive_field :: "string option \<Rightarrow> bool" where
  "sensitive_field field_name =
     (case field_name of None \<Rightarrow> False | Some n \<Rightarrow> n \<noteq> [] \<and> re_search sensitive_field_re n)"

function redact_for_observability :: "string option \<Rightarrow> nat \<Rightarrow> observed \<Rightarrow> observed" where
  "redact_for_observability field_name depth value =
     (if sensitive_field field_name then OStr REDACTED_MARKER
      else if MAX_NESTING_DEPTH \<le> depth then OStr TRUNCATED
      else case value of
        OStr s \<Rightarrow> OStr (redact_text s)
      | OMap members \<Rightarrow>
          (let result = dict_of (map (\<lambda>kv. (fst kv, redact_for_observability (Some (fst kv)) (depth + 1) (snd kv)))
                 (take MAX_COLLECTION_ITEMS members))
           in OMap (if MAX_COLLECTION_ITEMS < length members then dict_set ''_truncated'' (OBool True) result else result))
      | OSeq items \<Rightarrow>
          (let result = map (\<lambda>item. redact_for_observability None (depth + 1) item) (take MAX_COLLECTION_ITEMS items)
           in OSeq (if MAX_COLLECTION_ITEMS < length items then result @ [OStr TRUNCATED] else result))
      | OOther s \<Rightarrow> OStr (redact_text s)
      | _ \<Rightarrow> value)"
  by pat_completeness auto
termination by (relation "measure (\<lambda>(f, depth, v). MAX_NESTING_DEPTH - depth)") auto

declare redact_for_observability.simps [simp del]

section \<open>Log lines\<close>

record log_record =
  lr_levelname :: string
  lr_name :: string
  lr_message :: string
  lr_request_id :: "string option"
  lr_trace_id :: "string option"
  lr_exception_type :: "string option"
  lr_dict :: "(string \<times> observed) list"

text \<open>\<open>_BASE_RECORD_FIELDS\<close>: the attributes of a fresh \<open>LogRecord\<close>, and the rest of the set.\<close>

definition BASE_RECORD_FIELDS :: "string list" where
  "BASE_RECORD_FIELDS =
     [''name'', ''msg'', ''args'', ''levelname'', ''levelno'', ''pathname'', ''filename'', ''module'', ''exc_info'',
      ''exc_text'', ''stack_info'', ''lineno'', ''funcName'', ''created'', ''msecs'', ''relativeCreated'',
      ''thread'', ''threadName'', ''processName'', ''process'', ''message'', ''asctime'', ''taskName'',
      ''request_id'', ''trace_id'']"

definition record_extras :: "log_record \<Rightarrow> (string \<times> observed) list" where
  "record_extras r =
     filter (\<lambda>kv. fst kv \<notin> set BASE_RECORD_FIELDS \<and> \<not> startswith (fst kv) ''_'') (lr_dict r)"

text \<open>\<open>json.dumps(..., default=str)\<close>\<close>

fun json_of :: "observed \<Rightarrow> json" where
  "json_of ONone = JNull"
| "json_of (OBool b) = JBool b"
| "json_of (OInt i) = JInt i"
| "json_of (OFloat r) = JFloat r"
| "json_of (OStr s) = JStr s"
| "json_of (OMap kvs) = JObj (map (\<lambda>kv. (fst kv, json_of (snd kv))) kvs)"
| "json_of (OSeq xs) = JArr (map json_of xs)"
| "json_of (OOther s) = JStr s"

text \<open>\<open>getattr(record, name, None) or fallback\<close>\<close>

definition text_or :: "string option \<Rightarrow> string \<Rightarrow> string" where
  "text_or v fallback = (case v of None \<Rightarrow> fallback | Some s \<Rightarrow> if s = [] then fallback else s)"

definition log_payload :: "string \<Rightarrow> string \<Rightarrow> string \<Rightarrow> string option \<Rightarrow> log_record \<Rightarrow> (string \<times> observed) list" where
  "log_payload service_name timestamp correlation_id trace_id r =
     [(''timestamp'', OStr timestamp), (''level'', OStr (lr_levelname r)), (''logger'', OStr (lr_name r)),
      (''event'', OStr (redact_text (lr_message r))), (''service'', OStr service_name),
      (''correlation_id'', OStr (text_or (lr_request_id r) correlation_id))]
     @ (case text_or (lr_trace_id r) (case trace_id of None \<Rightarrow> [] | Some t \<Rightarrow> t) of
          [] \<Rightarrow> [] | t \<Rightarrow> [(''trace_id'', OStr t)])
     @ (case lr_exception_type r of None \<Rightarrow> [] | Some e \<Rightarrow> [(''exception_type'', OStr e)])
     @ (if record_extras r = [] then [] else [(''attributes'', redact_for_observability None 0 (OMap (record_extras r)))])"

definition format_record :: "string \<Rightarrow> string \<Rightarrow> string \<Rightarrow> string option \<Rightarrow> log_record \<Rightarrow> string" where
  "format_record service_name timestamp correlation_id trace_id r =
     json_dumps (json_of (OMap (log_payload service_name timestamp correlation_id trace_id r)))"

section \<open>Error reports\<close>

definition exception_item :: "observed \<Rightarrow> observed list" where
  "exception_item item = (case item of
     OMap m \<Rightarrow> [OMap [(''type'', case map_of m ''type'' of None \<Rightarrow> OStr ''Exception'' | Some t \<Rightarrow> t)]]
   | _ \<Rightarrow> [])"

definition scrub_exception :: "observed \<Rightarrow> observed" where
  "scrub_exception x = (case x of
     OMap m \<Rightarrow> (case map_of m ''values'' of
         Some (OSeq items) \<Rightarrow> OMap (dict_set ''values'' (OSeq (concat (map exception_item items))) m)
       | _ \<Rightarrow> x)
   | _ \<Rightarrow> x)"

definition scrub_request :: "observed \<Rightarrow> observed" where
  "scrub_request x = (case x of
     OMap m \<Rightarrow> OMap (fold dict_pop [''data'', ''headers'', ''cookies'', ''query_string'', ''env''] m)
   | _ \<Rightarrow> x)"

text \<open>The nested objects are updated in place.\<close>

definition update_member :: "string \<Rightarrow> (observed \<Rightarrow> observed) \<Rightarrow> (string \<times> observed) list \<Rightarrow> (string \<times> observed) list" where
  "update_member k f m = map (\<lambda>kv. if fst kv = k then (k, f (snd kv)) else kv) m"

definition before_send :: "(string \<times> observed) list \<Rightarrow> (string \<times> observed) list option" where
  "before_send event = (case redact_for_observability None 0 (OMap event) of
     OMap sanitized \<Rightarrow> Some
       (update_member ''request'' scrub_request
         (update_member ''exception'' scrub_exception
           (fold dict_pop [''logentry'', ''breadcrumbs'', ''threads''] sanitized)))
   | _ \<Rightarrow> None)"

section \<open>What gets out\<close>

text \<open>
  A value that may leave the process from nesting depth \<open>d\<close>: bounded texts, bounded collections, no
  nesting past the limit, and nothing but the marker under a sensitive field name.
\<close>

function safe :: "nat \<Rightarrow> observed \<Rightarrow> bool" where
  "safe d (OStr s) = (length s \<le> MAX_VALUE_LENGTH + 11)"
| "safe d (OMap kvs) = (d < MAX_NESTING_DEPTH \<and> length kvs \<le> MAX_COLLECTION_ITEMS + 1 \<and> distinct (map fst kvs) \<and>
     list_all (\<lambda>kv. (sensitive_field (Some (fst kv)) \<longrightarrow> snd kv = OStr REDACTED_MARKER) \<and> safe (Suc d) (snd kv)) kvs)"
| "safe d (OSeq xs) = (d < MAX_NESTING_DEPTH \<and> length xs \<le> MAX_COLLECTION_ITEMS + 1 \<and> list_all (safe (Suc d)) xs)"
| "safe d (OOther s) = False"
| "safe d ONone = True"
| "safe d (OBool b) = True"
| "safe d (OInt i) = True"
| "safe d (OFloat r) = True"
  by pat_completeness auto
termination
proof (relation "measure (\<lambda>(d, v). size v)", goal_cases)
  case (2 d kvs kv)
  then have "size (snd kv) < size_list (size_prod (\<lambda>_. 0) size) kvs + 1"
    by (induction kvs) auto
  then show ?case by simp
next
  case (3 d xs x)
  then show ?case by (induction xs) auto
qed simp

lemma length_redact_text: "length (redact_text s) \<le> MAX_VALUE_LENGTH + 11"
  by (simp add: redact_text_def Let_def TRUNCATED_def)

lemma dict_set_facts:
  "kv \<in> set (dict_set k v d) \<Longrightarrow> kv = (k, v) \<or> kv \<in> set d"
  "distinct (map fst d) \<Longrightarrow> distinct (map fst (dict_set k v d))"
  "length (dict_set k v d) \<le> Suc (length d)"
  "fst ` set (dict_set k v d) = insert k (fst ` set d)"
proof -
  have keys: "map fst (map (\<lambda>kv. if fst kv = k then (k, v) else kv) d) = map fst d" by (induction d) auto
  show "kv \<in> set (dict_set k v d) \<Longrightarrow> kv = (k, v) \<or> kv \<in> set d"
    by (auto simp: dict_set_def split: if_splits)
  show "distinct (map fst d) \<Longrightarrow> distinct (map fst (dict_set k v d))"
    unfolding dict_set_def by (cases "k \<in> fst ` set d") (simp_all only: keys if_True if_False, auto)
  show "length (dict_set k v d) \<le> Suc (length d)" by (simp add: dict_set_def)
  show "fst ` set (dict_set k v d) = insert k (fst ` set d)"
  proof (cases "k \<in> fst ` set d")
    case True
    then have "fst ` set (dict_set k v d) = set (map fst (map (\<lambda>kv. if fst kv = k then (k, v) else kv) d))"
      by (simp only: dict_set_def if_True set_map)
    with True show ?thesis by (simp only: keys) auto
  qed (simp add: dict_set_def)
qed

lemma dict_of_facts:
  "set (dict_of kvs) \<subseteq> set kvs" "distinct (map fst (dict_of kvs))" "length (dict_of kvs) \<le> length kvs"
proof -
  have "set (fold (\<lambda>kv. dict_set (fst kv) (snd kv)) kvs d) \<subseteq> set d \<union> set kvs \<and>
      (distinct (map fst d) \<longrightarrow> distinct (map fst (fold (\<lambda>kv. dict_set (fst kv) (snd kv)) kvs d))) \<and>
      length (fold (\<lambda>kv. dict_set (fst kv) (snd kv)) kvs d) \<le> length d + length kvs" for d
  proof (induction kvs arbitrary: d)
    case (Cons kv kvs)
    let ?d = "dict_set (fst kv) (snd kv) d"
    have "set ?d \<subseteq> insert kv (set d)" using dict_set_facts(1) [of _ "fst kv" "snd kv" d] by auto
    with Cons.IH [of ?d] dict_set_facts(2) [of d "fst kv" "snd kv"] dict_set_facts(3) [of "fst kv" "snd kv" d]
    show ?case by fastforce
  qed simp
  from this [of "[]"] show "set (dict_of kvs) \<subseteq> set kvs" "distinct (map fst (dict_of kvs))"
    "length (dict_of kvs) \<le> length kvs" by (simp_all add: dict_of_def)
qed

lemma matches_lit_step:
  "matches (lit (c # s)) p = (if ahead p \<noteq> [] \<and> same_letter c (hd (ahead p)) then matches (lit s) (advance p) else [])"
  "matches (lit []) p = [p]"
  by (simp_all add: lit_def)

lemmas field_search_simps =
  sensitive_field_def re_search_def sensitive_field_re_def seqs_def matches_lit_step same_letter_def lower_char_def
  advance_def opt_dash_def re_opt_def

lemma truncated_not_sensitive: "\<not> sensitive_field (Some ''_truncated'')"
  by (simp add: field_search_simps)

lemma safe_redacted: "safe d (OStr REDACTED_MARKER)" "safe d (OStr TRUNCATED)"
  by (simp_all add: REDACTED_MARKER_def TRUNCATED_def MAX_VALUE_LENGTH_def)

lemma redact_sensitive: "sensitive_field f \<Longrightarrow> redact_for_observability f d v = OStr REDACTED_MARKER"
  by (subst redact_for_observability.simps) simp

lemma safe_OMapI:
  assumes "d < MAX_NESTING_DEPTH" "length kvs \<le> MAX_COLLECTION_ITEMS + 1" "distinct (map fst kvs)"
    "\<And>kv. kv \<in> set kvs \<Longrightarrow> (sensitive_field (Some (fst kv)) \<longrightarrow> snd kv = OStr REDACTED_MARKER) \<and> safe (Suc d) (snd kv)"
  shows "safe d (OMap kvs)"
  using assms by (simp add: list_all_iff)

text \<open>
  What holds of every redacted value: it holds of the markers and the redacted texts, of the numbers of
  the value, and of collections within their bounds whose members have it one level down.
\<close>

lemma redact_cases:
  assumes markers: "\<And>d. P d (OStr REDACTED_MARKER)" "\<And>d. P d (OStr TRUNCATED)"
    and plain_text: "\<And>d s. P d (OStr (redact_text s))"
    and scalar: "\<And>d. P d ONone" "\<And>d b. P d (OBool b)" "\<And>d i. P d (OInt i)" "\<And>d r. Q (OFloat r) \<Longrightarrow> P d (OFloat r)"
    and maps: "\<And>d kvs. d < MAX_NESTING_DEPTH \<Longrightarrow> length kvs \<le> MAX_COLLECTION_ITEMS + 1 \<Longrightarrow> distinct (map fst kvs) \<Longrightarrow>
      (\<And>kv. kv \<in> set kvs \<Longrightarrow> (sensitive_field (Some (fst kv)) \<longrightarrow> snd kv = OStr REDACTED_MARKER) \<and> P (Suc d) (snd kv)) \<Longrightarrow>
      P d (OMap kvs)"
    and seqs: "\<And>d xs. d < MAX_NESTING_DEPTH \<Longrightarrow> length xs \<le> MAX_COLLECTION_ITEMS + 1 \<Longrightarrow>
      (\<And>x. x \<in> set xs \<Longrightarrow> P (Suc d) x) \<Longrightarrow> P d (OSeq xs)"
    and parts: "\<And>kvs kv. Q (OMap kvs) \<Longrightarrow> kv \<in> set kvs \<Longrightarrow> Q (snd kv)" "\<And>xs x. Q (OSeq xs) \<Longrightarrow> x \<in> set xs \<Longrightarrow> Q x"
  shows "Q v \<Longrightarrow> P depth (redact_for_observability f depth v)"
proof (induction f depth v rule: redact_for_observability.induct)
  case (1 f depth v)
  note unf = redact_for_observability.simps [of f depth v]
  show ?case
  proof (cases "sensitive_field f \<or> MAX_NESTING_DEPTH \<le> depth")
    case True
    then show ?thesis by (subst unf) (use markers in auto)
  next
    case False
    then have deep: "depth < MAX_NESTING_DEPTH" by simp
    show ?thesis
    proof (cases v)
      case (OMap members)
      let ?kvs = "map (\<lambda>kv. (fst kv, redact_for_observability (Some (fst kv)) (depth + 1) (snd kv)))
        (take MAX_COLLECTION_ITEMS members)"
      let ?ok = "\<lambda>kv. (sensitive_field (Some (fst kv)) \<longrightarrow> snd kv = OStr REDACTED_MARKER) \<and> P (Suc depth) (snd kv)"
      have Q: "Q (snd kv)" if "kv \<in> set (take MAX_COLLECTION_ITEMS members)" for kv
        using parts(1) in_set_takeD [OF that] 1(3) OMap by blast
      have "?ok kv" if "kv \<in> set ?kvs" for kv
        using that 1(1) [OF _ _ OMap _ Q] False redact_sensitive by auto
      then have kept: "?ok kv" if "kv \<in> set (dict_of ?kvs)" for kv
        using that dict_of_facts(1) [of ?kvs] by blast
      have len: "length (dict_of ?kvs) \<le> MAX_COLLECTION_ITEMS" using dict_of_facts(3) [of ?kvs] by simp
      then have "length (dict_of ?kvs) \<le> MAX_COLLECTION_ITEMS + 1" by linarith
      then have plain: "P depth (OMap (dict_of ?kvs))"
        by (rule maps [OF deep _ dict_of_facts(2) kept])
      have more: "P depth (OMap (dict_set ''_truncated'' (OBool True) (dict_of ?kvs)))"
      proof (rule maps [OF deep _ dict_set_facts(2) [OF dict_of_facts(2)]])
        show "length (dict_set ''_truncated'' (OBool True) (dict_of ?kvs)) \<le> MAX_COLLECTION_ITEMS + 1"
          using len dict_set_facts(3) [of "''_truncated''" "OBool True" "dict_of ?kvs"] by linarith
        show "?ok kv" if "kv \<in> set (dict_set ''_truncated'' (OBool True) (dict_of ?kvs))" for kv
          using dict_set_facts(1) [OF that]
        proof
          assume "kv = (''_truncated'', OBool True)"
          then show ?thesis using truncated_not_sensitive scalar(2) by simp
        qed (rule kept)
      qed
      have "redact_for_observability f depth v = OMap (if MAX_COLLECTION_ITEMS < length members
          then dict_set ''_truncated'' (OBool True) (dict_of ?kvs) else dict_of ?kvs)"
        using False OMap unf by (simp add: Let_def)
      with plain more show ?thesis by (cases "MAX_COLLECTION_ITEMS < length members") (simp_all only: if_True if_False)
    next
      case (OSeq items)
      let ?xs = "map (\<lambda>item. redact_for_observability None (depth + 1) item) (take MAX_COLLECTION_ITEMS items)"
      have item: "P (Suc depth) x" if "x \<in> set ?xs" for x
        using that 1(2) [OF _ _ OSeq] parts(2) [of items] 1(3) OSeq False by (auto dest: in_set_takeD)
      have "redact_for_observability f depth v =
          OSeq (if MAX_COLLECTION_ITEMS < length items then ?xs @ [OStr TRUNCATED] else ?xs)"
        using False OSeq unf by (simp add: Let_def)
      then show ?thesis using item markers(2) by (auto intro!: seqs [OF deep])
    qed (use False unf plain_text scalar 1(3) in auto)
  qed
qed

lemma redact_is_safe: "safe depth (redact_for_observability f depth v)"
proof (rule redact_cases [where Q = "\<lambda>_. True"])
  show "safe d (OMap kvs)"
    if "d < MAX_NESTING_DEPTH" "length kvs \<le> MAX_COLLECTION_ITEMS + 1" "distinct (map fst kvs)"
      "\<And>kv. kv \<in> set kvs \<Longrightarrow> (sensitive_field (Some (fst kv)) \<longrightarrow> snd kv = OStr REDACTED_MARKER) \<and> safe (Suc d) (snd kv)"
    for d kvs
    using that by (rule safe_OMapI)
qed (use length_redact_text safe_redacted in \<open>auto simp: list_all_iff\<close>)

end
