(* ===== verification/Bearer_Facts.thy ===== *)
theory Bearer_Facts
  imports Observability
begin

text \<open>
  Bearer tokens: what \<open>bearer_token_re\<close> matches, stated on texts, and why no text that went through
  \<open>redact_text\<close> holds one.
\<close>

section \<open>Existence of matches\<close>

lemma advance_simps: "ahead p = c # s \<Longrightarrow> ahead (advance p) = s"
  by (simp add: advance_def)

lemma lit_sound:
  "q \<in> set (matches (lit w) p) \<Longrightarrow> \<exists>h. ahead p = h @ ahead q \<and> map lower_char h = map lower_char w"
proof (induction w arbitrary: p)
  case (Cons c w)
  from Cons.prems have c: "ahead p \<noteq> []" "same_letter c (hd (ahead p))" "q \<in> set (matches (lit w) (advance p))"
    by (auto simp: matches_lit_step split: if_splits)
  from Cons.IH [OF c(3)] obtain h where "ahead (advance p) = h @ ahead q" "map lower_char h = map lower_char w" by blast
  with c have "ahead p = (hd (ahead p) # h) @ ahead q \<and> map lower_char (hd (ahead p) # h) = map lower_char (c # w)"
    by (cases "ahead p") (auto simp: advance_def same_letter_def)
  then show ?case by blast
qed (simp add: matches_lit_step)

lemma lit_complete:
  "ahead p = h @ s \<Longrightarrow> map lower_char h = map lower_char w \<Longrightarrow> \<exists>q \<in> set (matches (lit w) p). ahead q = s"
proof (induction w arbitrary: p h)
  case (Cons c w)
  then obtain x h' where h: "h = x # h'" "same_letter c x" "map lower_char h' = map lower_char w"
    by (cases h) (auto simp: same_letter_def)
  with Cons.prems(1) Cons.IH [of "advance p" h'] show ?case by (simp add: matches_lit_step advance_def)
qed (simp add: matches_lit_step)

lemma star_self: "p \<in> set (matches (Star r) p)"
  by (cases "length (ahead p)") (simp_all add: Let_def)

lemma star_complete:
  "ahead p = u @ s \<Longrightarrow> list_all a u \<Longrightarrow> \<exists>q \<in> set (matches (Star (Chars a)) p). ahead q = s"
proof (induction u arbitrary: p)
  case Nil
  then show ?case using star_self by fastforce
next
  case (Cons c u)
  then have "ahead (advance p) = u @ s" "list_all a u" by (simp_all add: advance_def)
  from Cons.IH [OF this] obtain q where q: "q \<in> set (matches (Star (Chars a)) (advance p))" "ahead q = s" by blast
  have "length (ahead p) = Suc (length (ahead (advance p)))" using Cons.prems(1) by (simp add: advance_def)
  then have "q \<in> set (matches (Star (Chars a)) p)"
    using q(1) Cons.prems by (simp add: Let_def advance_def)
  with q(2) show ?case by blast
qed

lemma plus_complete:
  "ahead p = c # u @ s \<Longrightarrow> a c \<Longrightarrow> list_all a u \<Longrightarrow> \<exists>q \<in> set (matches (re_plus (Chars a)) p). ahead q = s"
  using star_complete [of "advance p" u s a] by (simp add: re_plus_def advance_def)

section \<open>A bearer token at the head of a text\<close>

definition token_char :: "char \<Rightarrow> bool" where
  "token_char c \<longleftrightarrow> ascii_lower (lower_char c) \<or> ascii_digit c \<or> c \<in> set ''._~+/-''"

definition bearer_letters :: string where
  "bearer_letters = ''bearer''"

lemma lower_letters: "map lower_char bearer_letters = bearer_letters"
  by (simp add: bearer_letters_def lower_char_def)

definition bearer_word :: "string \<Rightarrow> bool" where
  "bearer_word h \<longleftrightarrow> (\<exists>w sp c. h = w @ sp @ [c] \<and> map lower_char w = bearer_letters \<and> sp \<noteq> [] \<and> list_all py_space sp \<and> token_char c)"

definition bearer_at :: "string \<Rightarrow> bool" where
  "bearer_at s \<longleftrightarrow> (\<exists>h v. s = h @ v \<and> bearer_word h)"

lemma in_matches_Seq: "q \<in> set (matches (Seq r s) p) \<longleftrightarrow> (\<exists>m \<in> set (matches r p). q \<in> set (matches s m))"
  by simp

lemma bearer_token_seq:
  "bearer_token_re = Seq (lit bearer_letters) (Seq re_spaces1 (Seq (re_plus (Chars token_char)) (Seq (Star (Chars (\<lambda>c. c = CHR ''=''))) Eps)))"
  unfolding bearer_letters_def bearer_token_re_def seqs_def token_char_def foldr.simps comp_def id_def by (rule refl)

lemma bearer_atE:
  assumes "bearer_at s"
  shows "\<exists>w sp c v. s = w @ sp @ c # v \<and> map lower_char w = bearer_letters \<and> sp \<noteq> [] \<and> list_all py_space sp \<and> token_char c"
proof -
  from assms obtain h v where s: "s = h @ v" "bearer_word h" unfolding bearer_at_def by blast
  from s(2) obtain w sp c where h: "h = w @ sp @ [c]" and
    rest: "map lower_char w = bearer_letters \<and> sp \<noteq> [] \<and> list_all py_space sp \<and> token_char c"
    unfolding bearer_word_def by blast
  from s(1) h have "s = w @ sp @ c # v" by simp
  with rest show ?thesis by blast
qed

lemma bearer_re_sound: "q \<in> set (matches bearer_token_re p) \<Longrightarrow> bearer_at (ahead p)"
proof -
  assume "q \<in> set (matches bearer_token_re p)"
  then obtain m1 m2 m3 where m: "m1 \<in> set (matches (lit bearer_letters) p)" "m2 \<in> set (matches re_spaces1 m1)"
    "m3 \<in> set (matches (re_plus (Chars token_char)) m2)"
    unfolding bearer_token_seq in_matches_Seq by blast
  obtain w where w: "ahead p = w @ ahead m1" "map lower_char w = map lower_char bearer_letters" using lit_sound [OF m(1)] by blast
  obtain sp where sp: "ahead m1 = sp @ ahead m2" "sp \<noteq> []" "list_all py_space sp"
    using matches_class_plus [OF m(2) [unfolded re_spaces1_def]] by blast
  obtain t where t: "ahead m2 = t @ ahead m3" "t \<noteq> []" "list_all token_char t"
    using matches_class_plus [OF m(3)] by blast
  have "bearer_word (w @ sp @ [hd t])"
    unfolding bearer_word_def using w(2) sp(2,3) t(2,3) lower_letters
    by (intro exI [of _ w] exI [of _ sp] exI [of _ "hd t"]) (cases t; simp)
  moreover have "ahead p = (w @ sp @ [hd t]) @ (tl t @ ahead m3)" using w(1) sp(1) t(1,2) by simp
  ultimately show ?thesis unfolding bearer_at_def by blast
qed

lemma bearer_re_complete:
  assumes "bearer_at (ahead p)"
  shows "\<exists>q \<in> set (matches bearer_token_re p). length (ahead q) < length (ahead p)"
proof -
  from assms obtain w sp c v where h: "ahead p = w @ sp @ c # v" "map lower_char w = bearer_letters" "sp \<noteq> []"
    "list_all py_space sp" "token_char c"
    using bearer_atE [OF assms] by metis
  obtain m1 where m1: "m1 \<in> set (matches (lit bearer_letters) p)" "ahead m1 = sp @ c # v"
    using lit_complete [of p w "sp @ c # v" "bearer_letters"] h(1,2) lower_letters by auto
  obtain m2 where m2: "m2 \<in> set (matches re_spaces1 m1)" "ahead m2 = c # v"
    using plus_complete [of m1 "hd sp" "tl sp" "c # v" py_space] h(3,4) m1(2) unfolding re_spaces1_def by (cases sp) auto
  obtain m3 where m3: "m3 \<in> set (matches (re_plus (Chars token_char)) m2)" "ahead m3 = v"
    using plus_complete [of m2 c "[]" v token_char] m2(2) h(5) by auto
  have "m3 \<in> set (matches bearer_token_re p)"
    unfolding bearer_token_seq in_matches_Seq
    using m1(1) m2(1) m3(1) star_self [of m3 "Chars (\<lambda>c. c = CHR ''='')"]
    by (intro bexI [OF _ m1(1)] bexI [OF _ m2(1)] bexI [OF _ m3(1)] bexI [OF _ star_self]) simp
  with m3(2) h(1) show ?thesis by (intro bexI [of _ m3]) auto
qed

lemma no_match_no_bearer: "match_here bearer_token_re p = None \<Longrightarrow> \<not> bearer_at (ahead p)"
  using bearer_re_complete [of "p\<lparr>captures := []\<rparr>"]
  by (auto simp add: match_here_def filter_empty_conv)

lemma re_search_from_iff:
  "re_search_from r b s \<longleftrightarrow> (\<exists>u v. s = u @ v \<and> matches r \<lparr>behind = rev u @ b, ahead = v, captures = []\<rparr> \<noteq> [])"
proof (induction s arbitrary: b)
  case (Cons c s)
  have "(\<exists>u v. c # s = u @ v \<and> P u v) \<longleftrightarrow> P [] (c # s) \<or> (\<exists>u v. s = u @ v \<and> P (c # u) v)" for P
    by (auto simp: Cons_eq_append_conv)
  from this [of "\<lambda>u v. matches r \<lparr>behind = rev u @ b, ahead = v, captures = []\<rparr> \<noteq> []"] Cons.IH [of "c # b"]
  show ?case by simp
qed simp

lemma search_bearer: "re_search bearer_token_re s \<longleftrightarrow> (\<exists>u v. s = u @ v \<and> bearer_at v)"
proof -
  have "matches bearer_token_re \<lparr>behind = b, ahead = v, captures = []\<rparr> \<noteq> [] \<longleftrightarrow> bearer_at v" for b v
    using bearer_re_sound [of _ "\<lparr>behind = b, ahead = v, captures = []\<rparr>"]
      bearer_re_complete [of "\<lparr>behind = b, ahead = v, captures = []\<rparr>"]
    by (cases "matches bearer_token_re \<lparr>behind = b, ahead = v, captures = []\<rparr>") auto
  then show ?thesis by (simp add: re_search_def re_search_from_iff)
qed

section \<open>Where a bearer token can stand\<close>

lemma lower_char_code: "(of_char (lower_char c) :: nat) =
    (let n = of_char c in if (65 \<le> n \<and> n \<le> 90) \<or> (192 \<le> n \<and> n \<le> 222 \<and> n \<noteq> 215) then n + 32 else n)"
  by (auto simp: lower_char_def Let_def)

lemma lower_py_space: "py_space (lower_char c) = py_space c"
  unfolding py_space_def Let_def lower_char_code by (auto split: if_splits)

lemma char_code_eq: "c = d \<longleftrightarrow> (of_char c :: nat) = of_char d"
  by simp

lemma token_char_code: "token_char c \<longleftrightarrow>
    (let n = (of_char (lower_char c) :: nat) in
       (97 \<le> n \<and> n \<le> 122) \<or> (48 \<le> n \<and> n \<le> 57) \<or> n = 46 \<or> n = 95 \<or> n = 126 \<or> n = 43 \<or> n = 47 \<or> n = 45)"
  unfolding token_char_def ascii_lower_def ascii_digit_def lower_char_code Let_def list.set insert_iff empty_iff
    char_code_eq [of c]
  by (auto simp del: of_char_eq_iff)

lemma bearer_append: "bearer_at s \<Longrightarrow> bearer_at (s @ t)"
  unfolding bearer_at_def by (metis append_assoc)

lemma bearer_word_facts:
  assumes "bearer_word h"
  shows "h \<noteq> []" "c \<in> set h \<Longrightarrow> py_space c \<or> token_char c" "token_char (last h)" "lower_char (hd h) = CHR ''b''"
proof -
  from assms obtain w sp t where h: "h = w @ sp @ [t]" "map lower_char w = bearer_letters" "list_all py_space sp" "token_char t"
    unfolding bearer_word_def by blast
  show "h \<noteq> []" "token_char (last h)" using h by simp_all
  have "\<forall>l \<in> set (map lower_char w). l \<in> {CHR ''b'', CHR ''e'', CHR ''a'', CHR ''r''}"
    unfolding h(2) by (simp add: bearer_letters_def)
  then have "token_char c" if "c \<in> set w" for c
    using that by (fastforce simp: token_char_def ascii_lower_def)
  then show "c \<in> set h \<Longrightarrow> py_space c \<or> token_char c" using h(1,3,4) by (auto simp: list_all_iff)
  have "w \<noteq> []" "lower_char (hd w) = hd (map lower_char w)" using h(2) by (auto simp: bearer_letters_def)
  then show "lower_char (hd h) = CHR ''b''" by (simp add: h(1,2) bearer_letters_def)
qed

lemma bearer_first: "bearer_at s \<Longrightarrow> s \<noteq> [] \<and> lower_char (hd s) = CHR ''b''"
  unfolding bearer_at_def using bearer_word_facts(1,4) by fastforce

text \<open>A word cannot cross a character that is neither space nor token, nor end in a space.\<close>

lemma bearer_cut:
  assumes "bearer_at (s @ x # t)" "\<not> token_char x" "\<not> py_space x"
  shows "bearer_at s"
proof -
  from assms(1) obtain h v where h: "s @ x # t = h @ v" "bearer_word h" unfolding bearer_at_def by blast
  have "x \<notin> set h" using bearer_word_facts(2) [OF h(2)] assms(2,3) by blast
  moreover from h(1) obtain us where "s = h @ us \<or> (h = s @ us \<and> x # t = us @ v)"
    by (auto simp: append_eq_append_conv2)
  ultimately obtain u where "s = h @ u" by (cases us) auto
  with h(2) show ?thesis unfolding bearer_at_def by blast
qed

lemma bearer_cut_space:
  assumes "bearer_at (s @ [x])" "\<not> token_char x"
  shows "bearer_at s"
proof -
  from assms(1) obtain h v where h: "s @ [x] = h @ v" "bearer_word h" unfolding bearer_at_def by blast
  have "v \<noteq> []" using bearer_word_facts(3) [OF h(2)] assms(2) h(1) by (cases v) (auto simp: last_snoc dest: arg_cong [where f = last])
  with h(1) obtain u where "s = h @ u" by (cases v rule: rev_cases) auto
  with h(2) show ?thesis unfolding bearer_at_def by blast
qed

lemma map_append_split: "map g s = a @ b \<Longrightarrow> \<exists>u v. s = u @ v \<and> map g u = a \<and> map g v = b"
  unfolding map_eq_append_conv by blast

lemma bearer_same_letters:
  assumes "bearer_at s" "map lower_char s' = map lower_char s"
  shows "bearer_at s'"
proof -
  from bearer_atE [OF assms(1)] obtain w sp c v where s: "s = w @ sp @ c # v" "map lower_char w = bearer_letters"
    "sp \<noteq> []" "list_all py_space sp" "token_char c" by blast
  have "map lower_char s' = map lower_char w @ map lower_char sp @ map lower_char (c # v)"
    using assms(2) s(1) by simp
  from map_append_split [OF this] obtain w' r1 where r1: "s' = w' @ r1" "map lower_char w' = map lower_char w"
    "map lower_char r1 = map lower_char sp @ map lower_char (c # v)"
    by blast
  from map_append_split [OF r1(3)] obtain sp' r2 where r2: "r1 = sp' @ r2" "map lower_char sp' = map lower_char sp"
    "map lower_char r2 = map lower_char (c # v)"
    by blast
  from r2(3) obtain c' v' where "r2 = c' # v'" "lower_char c' = lower_char c" by auto
  with r1 r2 have s': "s' = w' @ sp' @ c' # v'" "map lower_char w' = map lower_char w"
    "map lower_char sp' = map lower_char sp" "lower_char c' = lower_char c" by simp_all
  have "list_all py_space (map lower_char sp')"
    unfolding s'(3) using s(4) by (simp add: list_all_iff lower_py_space)
  then have "list_all py_space sp'" by (simp add: list_all_iff lower_py_space)
  moreover have "token_char c'" using s(5) s'(4) by (simp add: token_char_code)
  moreover have "sp' \<noteq> []" using s(3) s'(3) by auto
  moreover have "map lower_char w' = bearer_letters" using s(2) s'(2) by (rule trans [rotated])
  ultimately have "bearer_word (w' @ sp' @ [c'])"
    unfolding bearer_word_def by (intro exI [of _ w'] exI [of _ sp'] exI [of _ c'] conjI refl)
  moreover have "s' = (w' @ sp' @ [c']) @ v'" using s'(1) by simp
  ultimately show ?thesis unfolding bearer_at_def by blast
qed

definition bearer_free :: "string \<Rightarrow> bool" where
  "bearer_free s \<longleftrightarrow> (\<forall>u v. s = u @ v \<longrightarrow> \<not> bearer_at v)"

lemma bearer_free_search: "bearer_free s \<longleftrightarrow> \<not> re_search bearer_token_re s"
  by (auto simp: bearer_free_def search_bearer)

section \<open>Substitution\<close>

text \<open>
  How the text of a substitution relates to the text it replaced: copied characters, and replacements
  in front of which no bearer word is new.
\<close>

lemma subn_from_no_new:
  assumes "\<And>p q x z. match_here r p = Some q \<Longrightarrow> bearer_at (x @ f q @ z) \<Longrightarrow> bearer_at (x @ ahead p)"
  shows "bearer_at (x @ fst (subn_from r f p)) \<Longrightarrow> bearer_at (x @ ahead p)"
proof (induction p arbitrary: x rule: subn_from_induct [where r = r])
  case (Found p q)
  then show ?case using assms by (simp add: subn_from_found)
next
  case (Skip p c cs)
  then show ?case using Skip.IH [of "x @ [c]"] by (simp add: subn_from_skip advance_def)
next
  case (End p)
  then show ?case by (simp add: subn_from_end)
qed

lemma subn_from_bearer_free:
  assumes new: "\<And>p q x z. match_here r p = Some q \<Longrightarrow> bearer_at (x @ f q @ z) \<Longrightarrow> bearer_at (x @ ahead p)"
    and inside: "\<And>q u v z. f q = u @ v \<Longrightarrow> v \<noteq> [] \<Longrightarrow> \<not> bearer_at (v @ z)"
    and kept: "\<And>p u. match_here r p = None \<Longrightarrow> s = u @ ahead p \<Longrightarrow> \<not> bearer_at (ahead p)"
  shows "s = w @ ahead p \<Longrightarrow> bearer_free (fst (subn_from r f p))"
proof (induction p arbitrary: w rule: subn_from_induct [where r = r])
  case (Found p q)
  have "reaches (p\<lparr>captures := []\<rparr>) q" using match_here_Some [OF Found(1)] matches_reaches by blast
  then obtain m where "ahead p = m @ ahead q" by (auto simp: reaches_def)
  with Found have rest: "bearer_free (fst (subn_from r f q))" by (metis append_assoc)
  show ?case
    unfolding bearer_free_def subn_from_found [OF Found(1)] fst_conv
  proof (intro allI impI)
    fix u v
    assume "f q @ fst (subn_from r f q) = u @ v"
    then obtain us where "(f q = u @ us \<and> v = us @ fst (subn_from r f q)) \<or> fst (subn_from r f q) = us @ v"
      by (auto simp: append_eq_append_conv2)
    then show "\<not> bearer_at v"
      using rest inside by (cases "us = []") (auto simp: bearer_free_def)
  qed
next
  case (Skip p c cs)
  have a: "ahead p = [c] @ ahead (advance p)" using Skip(2) by (simp add: advance_def)
  have rest: "bearer_free (fst (subn_from r f (advance p)))"
    using Skip(3) [of "w @ [c]"] Skip.prems Skip(2) by (simp add: advance_def)
  have "\<not> bearer_at (c # fst (subn_from r f (advance p)))"
  proof
    assume "bearer_at (c # fst (subn_from r f (advance p)))"
    then have "bearer_at ([c] @ fst (subn_from r f (advance p)))" by simp
    then have "bearer_at ([c] @ ahead (advance p))" by (rule subn_from_no_new [rotated]) (rule new)
    with kept [OF Skip(1) Skip.prems] a show False by simp
  qed
  with rest show ?case
    unfolding bearer_free_def subn_from_skip [OF Skip(1,2)] fst_conv by (auto simp: Cons_eq_append_conv)
next
  case (End p)
  then show ?case using kept [OF End(1), of w] by (simp add: subn_from_end bearer_free_def)
qed

section \<open>The two substitutions\<close>

lemma marker_split: "REDACTED_MARKER = CHR ''['' # ''REDACTED]''"
  by (simp add: REDACTED_MARKER_def)

lemma bracket_cuts: "\<not> token_char (CHR ''['')" "\<not> py_space (CHR ''['')" "\<not> token_char (CHR '' '')"
  by (simp_all add: token_char_code lower_char_def py_space_def)

lemma lower_b: "lower_char c = CHR ''b'' \<longleftrightarrow> c = CHR ''b'' \<or> c = CHR ''B''"
  unfolding char_code_eq [of "lower_char c"] char_code_eq [of c] lower_char_code Let_def by (auto split: if_splits)

lemma no_b_no_bearer: "\<forall>c \<in> set v. lower_char c \<noteq> CHR ''b'' \<Longrightarrow> v \<noteq> [] \<Longrightarrow> \<not> bearer_at (v @ z)"
  using bearer_first [of "v @ z"] by (cases v) auto

lemma marker_no_b: "\<forall>c \<in> set (''earer '' @ REDACTED_MARKER). lower_char c \<noteq> CHR ''b''"
  "\<forall>c \<in> set REDACTED_MARKER. lower_char c \<noteq> CHR ''b''" "\<forall>c \<in> set TRUNCATED. lower_char c \<noteq> CHR ''b''"
  by (simp_all add: REDACTED_MARKER_def TRUNCATED_def lower_b)

lemma bearer_long: "bearer_at s \<Longrightarrow> 8 \<le> length s"
proof -
  assume "bearer_at s"
  from bearer_atE [OF this] obtain w sp c v where s: "s = w @ sp @ c # v" "map lower_char w = bearer_letters" "sp \<noteq> []" by blast
  from arg_cong [OF s(2), of length] have "length w = 6" by (simp add: bearer_letters_def)
  with s(1,3) show ?thesis by (cases sp) simp_all
qed

lemma bearer_pass: "bearer_free (fst (subn bearer_token_re (\<lambda>_. ''Bearer '' @ REDACTED_MARKER) s))"
  unfolding subn_def
proof (rule subn_from_bearer_free [where w = "[]" and s = s])
  fix p q x z
  assume m: "match_here bearer_token_re p = Some q" and b: "bearer_at (x @ (''Bearer '' @ REDACTED_MARKER) @ z)"
  have "bearer_at ((x @ ''Bearer '') @ CHR ''['' # (''REDACTED]'' @ z))" using b by (simp add: marker_split)
  from bearer_cut [OF this bracket_cuts(1,2)] have "bearer_at ((x @ ''Bearer'') @ [CHR '' ''])" by simp
  from bearer_cut_space [OF this bracket_cuts(3)] have short: "bearer_at (x @ ''Bearer'')" .
  have "bearer_at (ahead p)" using bearer_re_sound match_here_Some [OF m] by force
  from bearer_atE [OF this] obtain w v where w: "ahead p = w @ v" "map lower_char w = bearer_letters" by blast
  have "map lower_char (x @ w) = map lower_char (x @ ''Bearer'')"
    using w(2) lower_b [of "CHR ''B''"] by (simp add: bearer_letters_def) (simp add: lower_char_def)
  from bearer_append [OF bearer_same_letters [OF short this], of v] show "bearer_at (x @ ahead p)" using w(1) by simp
next
  fix q :: re_pos and u v z
  assume r: "''Bearer '' @ REDACTED_MARKER = u @ v" and v: "v \<noteq> []"
  show "\<not> bearer_at (v @ z)"
  proof (cases u)
    case Nil
    have "\<not> bearer_at (''Bearer '' @ CHR ''['' # (''REDACTED]'' @ z))"
      using bearer_cut [OF _ bracket_cuts(1,2)] bearer_long [of "''Bearer ''"] by fastforce
    then show ?thesis using r Nil by (auto simp: marker_split)
  next
    case (Cons c u')
    then have "set v \<subseteq> set (''earer '' @ REDACTED_MARKER)" using r by auto
    then show ?thesis using no_b_no_bearer v marker_no_b(1) by blast
  qed
qed (simp_all add: no_match_no_bearer start_of_def)

lemma inline_pass:
  assumes "bearer_free s"
  shows "bearer_free (fst (subn inline_secret_re (\<lambda>_. REDACTED_MARKER) s))"
  unfolding subn_def
proof (rule subn_from_bearer_free [where w = "[]" and s = s])
  fix p q x z
  assume "bearer_at (x @ REDACTED_MARKER @ z)"
  then have "bearer_at (x @ CHR ''['' # (''REDACTED]'' @ z))" by (simp add: marker_split)
  from bearer_append [OF bearer_cut [OF this bracket_cuts(1,2)]] show "bearer_at (x @ ahead p)" .
next
  fix q :: re_pos and u v z
  assume "REDACTED_MARKER = u @ v" "v \<noteq> []"
  then show "\<not> bearer_at (v @ z)" using no_b_no_bearer marker_no_b(2) by (metis Un_iff set_append)
qed (use assms in \<open>auto simp: bearer_free_def start_of_def\<close>)

lemma bearer_free_take: "bearer_free s \<Longrightarrow> bearer_free (take n s)"
  unfolding bearer_free_def
proof (intro allI impI notI)
  fix u v
  assume free: "\<forall>u v. s = u @ v \<longrightarrow> \<not> bearer_at v" and "take n s = u @ v" "bearer_at v"
  then have "s = u @ (v @ drop n s)" "bearer_at (v @ drop n s)"
    using append_take_drop_id [of n s] bearer_append by simp_all
  with free show False by blast
qed

lemma bearer_free_truncated: "bearer_free s \<Longrightarrow> bearer_free (s @ TRUNCATED)"
  unfolding bearer_free_def
proof (intro allI impI notI)
  fix u v
  assume free: "\<forall>u v. s = u @ v \<longrightarrow> \<not> bearer_at v" and "s @ TRUNCATED = u @ v" and b: "bearer_at v"
  then obtain us where "(s = u @ us \<and> v = us @ TRUNCATED) \<or> TRUNCATED = us @ v"
    by (auto simp: append_eq_append_conv2)
  then show False
  proof
    assume s: "s = u @ us \<and> v = us @ TRUNCATED"
    have "TRUNCATED = CHR ''['' # ''TRUNCATED]''" by (simp add: TRUNCATED_def)
    with s b have "bearer_at us" using bearer_cut [OF _ bracket_cuts(1,2)] by metis
    with free s show False by blast
  next
    assume "TRUNCATED = us @ v"
    then have "set v \<subseteq> set TRUNCATED" by (metis Un_upper2 set_append)
    with b show False using no_b_no_bearer [of v "[]"] marker_no_b(3) bearer_first by fastforce
  qed
qed

lemma redact_text_bearer_free: "bearer_free (redact_text s)"
  using inline_pass [OF bearer_pass [of s]] bearer_free_take bearer_free_truncated by (simp add: redact_text_def Let_def)

end
