(* ===== verification/Event_Stream.thy ===== *)
theory Event_Stream
  imports Feature_Api
begin

text \<open>
  The two ends of the event stream: \<open>_sse_events\<close> of \<open>api/events.py\<close> renders a page as Server-Sent
  Events, \<open>streamCaseEvents\<close> and \<open>parseCaseEventFrame\<close> of the generated client
  (\<open>packages/api-client/src/generated.ts\<close>) read it back from chunks of any size. \<open>JSON.parse\<close> is an
  argument of the client.
\<close>

section \<open>\<open>datetime.isoformat\<close>\<close>

text \<open>Days before January 1st of a year of the proleptic Gregorian calendar, from year 1.\<close>

definition days_before_year :: "nat \<Rightarrow> nat" where
  "days_before_year y = (let p = y - 1 in 365 * p + p div 4 - p div 100 + p div 400)"

text \<open>The last year at or before \<open>y\<close> that has begun after \<open>n\<close> days.\<close>

fun year_at :: "nat \<Rightarrow> nat \<Rightarrow> nat" where
  "year_at n 0 = 1"
| "year_at n (Suc y) = (if days_before_year (Suc y) \<le> n then Suc y else year_at n y)"

definition leap_year :: "nat \<Rightarrow> bool" where
  "leap_year y = (y mod 4 = 0 \<and> (y mod 100 \<noteq> 0 \<or> y mod 400 = 0))"

definition month_lengths :: "nat \<Rightarrow> nat list" where
  "month_lengths y = [31, if leap_year y then 29 else 28, 31, 30, 31, 30, 31, 31, 30, 31, 30, 31]"

fun month_at :: "nat list \<Rightarrow> nat \<Rightarrow> nat \<Rightarrow> nat \<times> nat" where
  "month_at [] m n = (m, n)"
| "month_at (l # ls) m n = (if n < l then (m, n) else month_at ls (Suc m) (n - l))"

text \<open>Year, month and day of a day count from 0001-01-01.\<close>

definition civil :: "nat \<Rightarrow> nat \<times> nat \<times> nat" where
  "civil n = (let y = year_at n (n div 365 + 1);
     (m, d) = month_at (month_lengths y) 1 (n - days_before_year y) in (y, m, d + 1))"

text \<open>\<open>%0kd\<close>\<close>

definition zero_pad :: "nat \<Rightarrow> nat \<Rightarrow> string" where
  "zero_pad k n = (let s = dec_nat n in replicate (k - length s) (CHR ''0'') @ s)"

definition micros_suffix :: "nat \<Rightarrow> string" where
  "micros_suffix us = (if us = 0 then [] else ''.'' @ zero_pad 6 us)"

definition clock_text :: "nat \<Rightarrow> string" where
  "clock_text us = (let s = us div 1000000 in
     zero_pad 2 (s div 3600) @ '':'' @ zero_pad 2 (s div 60 mod 60) @ '':'' @ zero_pad 2 (s mod 60)
     @ micros_suffix (us mod 1000000))"

definition offset_text :: "int \<Rightarrow> string" where
  "offset_text offset = (let us = nat \<bar>offset\<bar>; s = us div 1000000 in
     (if offset < 0 then ''-'' else ''+'') @ zero_pad 2 (s div 3600) @ '':'' @ zero_pad 2 (s div 60 mod 60)
     @ (if s mod 60 = 0 \<and> us mod 1000000 = 0 then []
        else '':'' @ zero_pad 2 (s mod 60) @ micros_suffix (us mod 1000000)))"

text \<open>719162 days separate 0001-01-01 from the epoch; 86400000000 microseconds make a day.\<close>

definition isoformat :: "datetime \<Rightarrow> string" where
  "isoformat t =
     (let (y, m, d) = civil (nat (wall_us t div 86400000000 + 719162)) in
      zero_pad 4 y @ ''-'' @ zero_pad 2 m @ ''-'' @ zero_pad 2 d @ ''T''
      @ clock_text (nat (wall_us t mod 86400000000))
      @ (case utcoffset t of None \<Rightarrow> [] | Some offset \<Rightarrow> offset_text offset))"

section \<open>The server\<close>

definition newline :: char where
  "newline = CHR 0x0A"

definition sse_payload :: "case_feed_event \<Rightarrow> json" where
  "sse_payload e = JObj
     [(''event_id'', JStr (uuid_str (fe_event_id e))), (''case_id'', JStr (uuid_str (fe_case_id e))),
      (''event_type'', JStr (fe_event_type e)), (''aggregate_version'', JInt (fe_aggregate_version e)),
      (''transition_id'', json_opt (\<lambda>u. JStr (uuid_str u)) (fe_transition_id e)),
      (''actor_id'', JStr (uuid_str (fe_actor_id e))), (''correlation_id'', JStr (uuid_str (fe_correlation_id e))),
      (''occurred_at'', JStr (replace_all ''+00:00'' ''Z'' (isoformat (fe_occurred_at e))))]"

definition sse_frame :: "case_feed_event \<Rightarrow> string" where
  "sse_frame e = ''id: '' @ uuid_str (fe_event_id e) @ newline # ''event: case'' @ newline # ''data: ''
     @ json_dumps (sse_payload e) @ [newline, newline]"

definition sse_events :: "case_feed_event list \<Rightarrow> string" where
  "sse_events es = concat (map sse_frame es)"

section \<open>The client\<close>

text \<open>\<open>pending.indexOf('\n\n')\<close> with the two slices around it.\<close>

fun split_frame :: "string \<Rightarrow> (string \<times> string) option" where
  "split_frame [] = None"
| "split_frame (c # cs) =
     (if c = newline \<and> cs \<noteq> [] \<and> hd cs = newline then Some ([], tl cs)
      else map_option (\<lambda>(frame, rest). (c # frame, rest)) (split_frame cs))"

lemma split_frame_shorter: "split_frame s = Some (frame, rest) \<Longrightarrow> length rest < length s"
  by (induction s arbitrary: frame) (auto split: if_splits)

text \<open>The inner loop: the complete frames, and what stays pending.\<close>

function drain :: "string \<Rightarrow> string list \<times> string" where
  "drain pending = (case split_frame pending of
     None \<Rightarrow> ([], pending)
   | Some (frame, rest) \<Rightarrow> (let (frames, left) = drain rest in (frame # frames, left)))"
  by pat_completeness auto
termination by (relation "measure length") (auto dest: split_frame_shorter)

declare drain.simps [simp del]

text \<open>\<open>frame.split('\n')\<close>\<close>

fun split_lines :: "string \<Rightarrow> string list" where
  "split_lines [] = [[]]"
| "split_lines (c # cs) =
     (if c = newline then [] # split_lines cs
      else case split_lines cs of [] \<Rightarrow> [[c]] | l # ls \<Rightarrow> (c # l) # ls)"

record 'j client_event =
  ce_id :: string
  ce_data :: 'j

record frame_fields =
  ff_id :: "string option"
  ff_event :: "string option"
  ff_data :: "string list"

definition frame_line :: "string \<Rightarrow> frame_fields \<Rightarrow> frame_fields" where
  "frame_line line ff =
     (if startswith line ''id: '' then ff\<lparr>ff_id := Some (drop 4 line)\<rparr>
      else if startswith line ''event: '' then ff\<lparr>ff_event := Some (drop 7 line)\<rparr>
      else if startswith line ''data: '' then ff\<lparr>ff_data := ff_data ff @ [drop 6 line]\<rparr>
      else ff)"

definition parse_frame :: "(string \<Rightarrow> 'j) \<Rightarrow> string \<Rightarrow> 'j client_event option" where
  "parse_frame json_parse frame =
     (let ff = fold frame_line (split_lines frame) \<lparr>ff_id = None, ff_event = None, ff_data = []\<rparr> in
      case ff_id ff of
        None \<Rightarrow> None
      | Some i \<Rightarrow> if ff_event ff \<noteq> Some ''case'' \<or> ff_data ff = [] then None
          else Some \<lparr>ce_id = i, ce_data = json_parse (join [newline] (ff_data ff))\<rparr>)"

text \<open>The outer loop over the decoded chunks; the frame left at the end of the stream is parsed too.\<close>

fun read_chunks :: "(string \<Rightarrow> 'j) \<Rightarrow> string \<Rightarrow> string list \<Rightarrow> 'j client_event list" where
  "read_chunks json_parse pending [] = (case parse_frame json_parse pending of None \<Rightarrow> [] | Some e \<Rightarrow> [e])"
| "read_chunks json_parse pending (chunk # chunks) =
     (let (frames, left) = drain (pending @ chunk)
      in List.map_filter (parse_frame json_parse) frames @ read_chunks json_parse left chunks)"

definition stream_case_events :: "(string \<Rightarrow> 'j) \<Rightarrow> string list \<Rightarrow> 'j client_event list" where
  "stream_case_events json_parse chunks = read_chunks json_parse [] chunks"

section \<open>Chunks do not matter\<close>

lemma split_frame_append: "split_frame a = Some (frame, rest) \<Longrightarrow> split_frame (a @ b) = Some (frame, rest @ b)"
proof (induction a arbitrary: frame)
  case (Cons c cs)
  then show ?case by (cases cs) (auto split: if_splits)
qed simp

lemma drain_append:
  "drain (a @ b) = (let (fs, r) = drain a; (gs, r') = drain (r @ b) in (fs @ gs, r'))"
proof (induction a rule: drain.induct)
  case (1 a)
  show ?case
  proof (cases "split_frame a")
    case None
    then have "drain a = ([], a)" by (simp add: drain.simps [of a])
    then show ?thesis by simp
  next
    case (Some fr)
    obtain f r where fr: "fr = (f, r)" by fastforce
    have "drain a = (f # fst (drain r), snd (drain r))"
      by (simp add: drain.simps [of a] Some fr split_beta)
    moreover have "drain (a @ b) = (f # fst (drain (r @ b)), snd (drain (r @ b)))"
      using split_frame_append [of a f r b] Some fr by (simp add: drain.simps [of "a @ b"] split_beta)
    ultimately show ?thesis using 1 [OF Some fr [symmetric]] by (simp add: split_beta Let_def)
  qed
qed

lemma drain_left: "drain s = (frames, left) \<Longrightarrow> drain left = ([], left)"
proof (induction s arbitrary: frames rule: drain.induct)
  case (1 s)
  show ?case
  proof (cases "split_frame s")
    case None
    with 1(2) have "left = s" by (simp add: drain.simps [of s])
    with None show ?thesis by (simp add: drain.simps [of s])
  next
    case (Some fr)
    obtain f r where fr: "fr = (f, r)" by fastforce
    with 1(2) Some obtain fs where "drain r = (fs, left)" by (auto simp: drain.simps [of s] split: prod.splits)
    then show ?thesis by (rule 1(1) [OF Some fr [symmetric]])
  qed
qed

lemma read_chunks_concat:
  "drain pending = ([], pending) \<Longrightarrow> read_chunks json_parse pending chunks =
     (let (frames, left) = drain (pending @ concat chunks)
      in List.map_filter (parse_frame json_parse) frames @ read_chunks json_parse left [])"
proof (induction chunks arbitrary: pending)
  case Nil
  then show ?case by (simp add: map_filter_simps)
next
  case (Cons chunk chunks)
  obtain fs r where d: "drain (pending @ chunk) = (fs, r)" by fastforce
  note drain_left [OF d]
  from Cons.IH [OF this] d drain_append [of "pending @ chunk" "concat chunks"]
  show ?case by (simp add: split_beta map_filter_def Let_def del: read_chunks.simps(1))
qed

section \<open>Frames\<close>

lemma split_frame_text: "newline \<notin> set l \<Longrightarrow> split_frame (l @ s) = map_option (\<lambda>(f, r). (l @ f, r)) (split_frame s)"
  by (induction l; cases "split_frame s") auto

lemma split_frame_line:
  "newline \<notin> set l \<Longrightarrow> l \<noteq> [] \<Longrightarrow>
   split_frame (newline # l @ s) = map_option (\<lambda>(f, r). (newline # l @ f, r)) (split_frame s)"
  using split_frame_text [of l s] by (cases l; cases "split_frame s") auto

lemma split_frame_end: "split_frame (newline # newline # s) = Some ([], s)"
  by simp

lemma split_lines_text: "newline \<notin> set l \<Longrightarrow> split_lines (l @ newline # s) = l # split_lines s"
  by (induction l) auto

lemma split_lines_last: "newline \<notin> set l \<Longrightarrow> split_lines l = [l]"
  by (induction l) auto

text \<open>No text the server puts into a frame breaks a line.\<close>

lemma hex_pad_no_newline: "newline \<notin> set (hex_pad k n)"
  using hex_pad_lower_hex [of newline k n] by (auto simp: is_lower_hex_def ascii_digit_def newline_def)

lemma json_escape_no_newline: "newline \<notin> set (json_escape c)"
  using hex_pad_no_newline [of 4 "of_char c"] by (auto simp: json_escape_def Let_def newline_def)

lemma json_string_no_newline: "newline \<notin> set (json_string s)"
  using json_escape_no_newline by (auto simp: json_string_def newline_def)

lemma dec_nat_digits: "c \<in> set (dec_nat n) \<Longrightarrow> 48 \<le> (of_char c :: nat) \<and> (of_char c :: nat) \<le> 57"
proof (induction n rule: dec_nat.induct)
  case (1 n)
  then show ?case by (subst (asm) dec_nat.simps) (auto split: if_splits)
qed

lemma dec_int_no_newline: "newline \<notin> set (dec_int i)"
  using dec_nat_digits [of newline] by (auto simp: dec_int_def newline_def)

lemma uuid_str_no_newline: "newline \<notin> set (uuid_str u)"
  using uuid_str_chars [of newline u] by (auto simp: is_lower_hex_def ascii_digit_def newline_def)

lemma payload_no_newline: "newline \<notin> set (json_dumps (sse_payload e))"
proof -
  have opt: "newline \<notin> set (json_dumps (json_opt (\<lambda>u. JStr (uuid_str u)) v))" for v
    using json_string_no_newline by (cases v) (auto simp: json_opt_def newline_def)
  have sep: "newline \<notin> set '',''" "newline \<notin> set '':''" "newline \<notin> set ''{''" "newline \<notin> set ''}''"
    by (simp_all add: newline_def)
  show ?thesis
    using json_string_no_newline dec_int_no_newline opt sep by (simp add: sse_payload_def)
qed

text \<open>The client reads a frame back, whatever follows it.\<close>

lemma sse_frame_body:
  "\<exists>body. split_frame (sse_frame e @ rest) = Some (body, rest) \<and>
     parse_frame json_parse body = Some \<lparr>ce_id = uuid_str (fe_event_id e), ce_data = json_parse (json_dumps (sse_payload e))\<rparr>"
proof -
  define id_line where "id_line = ''id: '' @ uuid_str (fe_event_id e)"
  define event_line where "event_line = ''event: case''"
  define data_line where "data_line = ''data: '' @ json_dumps (sse_payload e)"
  have n: "newline \<notin> set id_line" "newline \<notin> set event_line" "newline \<notin> set data_line"
    using uuid_str_no_newline payload_no_newline by (auto simp: id_line_def event_line_def data_line_def newline_def)
  have ne: "event_line \<noteq> []" "data_line \<noteq> []" by (simp_all add: event_line_def data_line_def)
  let ?body = "id_line @ newline # event_line @ newline # data_line"
  have "sse_frame e @ rest = id_line @ newline # event_line @ newline # data_line @ newline # newline # rest"
    by (simp add: sse_frame_def id_line_def event_line_def data_line_def)
  then have "split_frame (sse_frame e @ rest) = Some (?body, rest)"
    by (simp only: split_frame_text [OF n(1)] split_frame_line [OF n(2) ne(1)] split_frame_line [OF n(3) ne(2)]
        split_frame_end) simp
  moreover have "split_lines ?body = [id_line, event_line, data_line]"
    by (simp only: split_lines_text [OF n(1)] split_lines_text [OF n(2)] split_lines_last [OF n(3)])
  then have "parse_frame json_parse ?body =
      Some \<lparr>ce_id = uuid_str (fe_event_id e), ce_data = json_parse (json_dumps (sse_payload e))\<rparr>"
    by (simp add: parse_frame_def id_line_def event_line_def data_line_def frame_line_def startswith_def)
  ultimately show ?thesis by blast
qed

lemma drain_sse_events:
  "\<exists>frames. drain (sse_events es) = (frames, []) \<and>
     map (parse_frame json_parse) frames =
       map (\<lambda>e. Some \<lparr>ce_id = uuid_str (fe_event_id e), ce_data = json_parse (json_dumps (sse_payload e))\<rparr>) es"
proof (induction es)
  case Nil
  show ?case by (simp add: sse_events_def drain.simps)
next
  case (Cons e es)
  then obtain frames where f: "drain (sse_events es) = (frames, [])"
    "map (parse_frame json_parse) frames =
       map (\<lambda>e. Some \<lparr>ce_id = uuid_str (fe_event_id e), ce_data = json_parse (json_dumps (sse_payload e))\<rparr>) es" by blast
  from sse_frame_body [of e "sse_events es" json_parse] obtain body where
    b: "split_frame (sse_frame e @ sse_events es) = Some (body, sse_events es)"
      "parse_frame json_parse body =
        Some \<lparr>ce_id = uuid_str (fe_event_id e), ce_data = json_parse (json_dumps (sse_payload e))\<rparr>" by blast
  have "sse_events (e # es) = sse_frame e @ sse_events es" by (simp add: sse_events_def)
  with b(1) f(1) have "drain (sse_events (e # es)) = (body # frames, [])"
    by (simp add: drain.simps [of "sse_frame e @ sse_events es"])
  with b(2) f(2) show ?case by (intro exI [of _ "body # frames"]) simp
qed

lemma client_reads_stream:
  assumes "concat chunks = sse_events es"
  shows "stream_case_events json_parse chunks =
    map (\<lambda>e. \<lparr>ce_id = uuid_str (fe_event_id e), ce_data = json_parse (json_dumps (sse_payload e))\<rparr>) es"
proof -
  from drain_sse_events [of es json_parse] obtain frames where f: "drain (sse_events es) = (frames, [])"
    "map (parse_frame json_parse) frames =
       map (\<lambda>e. Some \<lparr>ce_id = uuid_str (fe_event_id e), ce_data = json_parse (json_dumps (sse_payload e))\<rparr>) es" by blast
  have last: "parse_frame json_parse [] = None" by (simp add: parse_frame_def frame_line_def startswith_def)
  have "drain [] = ([], [])" by (simp add: drain.simps)
  from read_chunks_concat [OF this, of json_parse chunks] f(1) assms
  have "stream_case_events json_parse chunks = List.map_filter (parse_frame json_parse) frames"
    by (simp add: stream_case_events_def last)
  also have "\<dots> = map the (map (parse_frame json_parse) frames)"
  proof -
    have "list_all (\<lambda>o'. o' \<noteq> None) (map (parse_frame json_parse) frames)" unfolding f(2) by (simp add: list_all_iff)
    then show ?thesis by (induction frames) (auto simp: map_filter_simps)
  qed
  finally show ?thesis by (simp only: f(2) map_map comp_def option.sel)
qed

text \<open>
  C30. What the server streams is what the client yields: however the network cuts the rendered page into
  chunks, the generated client yields one event per event of the page, in order, with the event's id
  and the payload the server wrote, and every id it yields is a cursor the server takes for that
  event. No event type, however odd, can forge or split a frame.
\<close>

theorem stream_roundtrip:
  assumes "concat chunks = sse_events es"
  shows "stream_case_events json_parse chunks =
      map (\<lambda>e. \<lparr>ce_id = uuid_str (fe_event_id e), ce_data = json_parse (json_dumps (sse_payload e))\<rparr>) es \<and>
    map (\<lambda>v. parse_last_event_id (Some (ce_id v))) (stream_case_events json_parse chunks) =
      map (\<lambda>e. Inr (Some (fe_event_id e))) es"
  using client_reads_stream [OF assms, of json_parse] by (simp add: parse_last_event_id_def comp_def)

definition demo_feed_event :: case_feed_event where
  "demo_feed_event = \<lparr>fe_event_id = 11, fe_case_id = 10, fe_event_type = [newline, newline], fe_aggregate_version = 0,
     fe_transition_id = None, fe_actor_id = 2, fe_correlation_id = 12, fe_occurred_at = utc_at 1000\<rparr>"

theorem stream_roundtrip_witness:
  "map (\<lambda>v. parse_last_event_id (Some (ce_id v)))
     (stream_case_events id [take 7 (sse_events [demo_feed_event]), drop 7 (sse_events [demo_feed_event])]) =
   [Inr (Some 11)]"
proof -
  have "fe_event_id demo_feed_event = 11" by (simp add: demo_feed_event_def)
  moreover have "map (\<lambda>v. parse_last_event_id (Some (ce_id v)))
      (stream_case_events id [take 7 (sse_events [demo_feed_event]), drop 7 (sse_events [demo_feed_event])]) =
    map (\<lambda>e. Inr (Some (fe_event_id e))) [demo_feed_event]"
    by (rule conjunct2 [OF stream_roundtrip]) simp
  ultimately show ?thesis by simp
qed

end
