(* ===== verification/Observability_Properties.thy ===== *)
theory Observability_Properties
  imports Bearer_Facts Event_Stream
begin

text \<open>
  What can leave the API as a log line or an error report.
\<close>

section \<open>A log line is one line\<close>

text \<open>\<open>float.__repr__\<close> of a value has no line break.\<close>

fun floats_one_line :: "observed \<Rightarrow> bool" where
  "floats_one_line (OFloat r) = (newline \<notin> set r)"
| "floats_one_line (OMap kvs) = list_all (\<lambda>kv. floats_one_line (snd kv)) kvs"
| "floats_one_line (OSeq xs) = list_all floats_one_line xs"
| "floats_one_line _ = True"

lemma join_no_newline:
  "newline \<notin> set sep \<Longrightarrow> (\<And>x. x \<in> set xs \<Longrightarrow> newline \<notin> set x) \<Longrightarrow> newline \<notin> set (join sep xs)"
  by (induction sep xs rule: join.induct) auto

lemma json_of_no_newline: "floats_one_line v \<Longrightarrow> newline \<notin> set (json_dumps (json_of v))"
proof (induction v rule: floats_one_line.induct)
  case (2 kvs)
  have sep: "newline \<notin> set '',''" "newline \<notin> set '':''" "newline \<notin> set ''{''" "newline \<notin> set ''}''"
    by (simp_all add: newline_def)
  have "newline \<notin> set (json_dumps (json_of (snd kv)))" if "kv \<in> set kvs" for kv
    using that 2 by (simp add: list_all_iff)
  then have "newline \<notin> set (join '','' (map (\<lambda>kv. json_string (fst kv) @ '':'' @ json_dumps (json_of (snd kv))) kvs))"
    by (intro join_no_newline sep(1)) (use json_string_no_newline sep(2) in auto)
  then show ?case using sep by (simp add: comp_def)
next
  case (3 xs)
  have sep: "newline \<notin> set '',''" "newline \<notin> set ''[''" "newline \<notin> set '']''" by (simp_all add: newline_def)
  have "newline \<notin> set (join '','' (map (\<lambda>x. json_dumps (json_of x)) xs))"
    by (intro join_no_newline sep(1)) (use 3 in \<open>auto simp: list_all_iff\<close>)
  then show ?case using sep by (simp add: comp_def)
qed (auto simp: newline_def json_string_no_newline [unfolded newline_def] dec_int_no_newline [unfolded newline_def])

lemma redact_floats: "floats_one_line v \<Longrightarrow> floats_one_line (redact_for_observability f depth v)"
  by (rule redact_cases [where Q = floats_one_line]) (auto simp: list_all_iff)

lemma payload_floats:
  "floats_one_line (OMap (lr_dict r)) \<Longrightarrow>
   floats_one_line (OMap (log_payload service_name timestamp correlation_id trace_id r))"
proof -
  assume a: "floats_one_line (OMap (lr_dict r))"
  then have "floats_one_line (OMap (record_extras r))" by (auto simp: record_extras_def list_all_iff)
  from redact_floats [OF this] show ?thesis
    by (auto simp: log_payload_def list_all_iff split: option.splits list.splits)
qed

text \<open>
  A log record leaves the process as one line: whatever the message, the exception and the
  attributes hold, the JSON text has no line break; the message is bounded, nothing of an exception but
  the name of its type is there, and the attributes hold no nested value past the limit, no collection
  or text past its bound and only the marker under a field with a sensitive name.
\<close>

theorem log_line_is_contained:
  assumes "floats_one_line (OMap (lr_dict r))"
  shows "newline \<notin> set (format_record service_name timestamp correlation_id trace_id r) \<and>
    (\<forall>kv \<in> set (log_payload service_name timestamp correlation_id trace_id r).
       (fst kv = ''event'' \<longrightarrow> (\<exists>t. snd kv = OStr t \<and> length t \<le> MAX_VALUE_LENGTH + length TRUNCATED)) \<and>
       (fst kv = ''exception_type'' \<longrightarrow> Some (snd kv) = map_option OStr (lr_exception_type r)) \<and>
       (fst kv = ''attributes'' \<longrightarrow> safe 0 (snd kv)))"
proof
  show "newline \<notin> set (format_record service_name timestamp correlation_id trace_id r)"
    unfolding format_record_def by (rule json_of_no_newline [OF payload_floats [OF assms]])
  have "length TRUNCATED = 11" by (simp add: TRUNCATED_def)
  then show "\<forall>kv \<in> set (log_payload service_name timestamp correlation_id trace_id r).
       (fst kv = ''event'' \<longrightarrow> (\<exists>t. snd kv = OStr t \<and> length t \<le> MAX_VALUE_LENGTH + length TRUNCATED)) \<and>
       (fst kv = ''exception_type'' \<longrightarrow> Some (snd kv) = map_option OStr (lr_exception_type r)) \<and>
       (fst kv = ''attributes'' \<longrightarrow> safe 0 (snd kv))"
    using redact_is_safe [of 0 None "OMap (record_extras r)"] length_redact_text [of "lr_message r"]
    by (cases "lr_exception_type r") (auto simp: log_payload_def split: option.splits list.splits)
qed

theorem log_line_is_contained_witness:
  "newline \<notin> set (format_record ''api'' ''t'' ''c'' None
     \<lparr>lr_levelname = ''ERROR'', lr_name = ''x'', lr_message = ''a'' @ [newline] @ ''b'', lr_request_id = None,
      lr_trace_id = None, lr_exception_type = Some ''ValueError'', lr_dict = [(''password'', OStr ''p'')]\<rparr>)"
  using log_line_is_contained [of "\<lparr>lr_levelname = ''ERROR'', lr_name = ''x'', lr_message = ''a'' @ [newline] @ ''b'',
      lr_request_id = None, lr_trace_id = None, lr_exception_type = Some ''ValueError'',
      lr_dict = [(''password'', OStr ''p'')]\<rparr>" "''api''" "''t''" "''c''" None] by simp

section \<open>An error report holds no payload\<close>

lemma dict_pops: "fold dict_pop ks d = filter (\<lambda>kv. fst kv \<notin> set ks) d"
  by (induction ks arbitrary: d) (auto simp: dict_pop_def intro: filter_cong)

lemma dict_pops_facts:
  "set (fold dict_pop ks d) \<subseteq> set d" "fst ` set (fold dict_pop ks d) \<inter> set ks = {}"
  "distinct (map fst d) \<Longrightarrow> distinct (map fst (fold dict_pop ks d))" "length (fold dict_pop ks d) \<le> length d"
  unfolding dict_pops by (auto simp: distinct_map_filter)

lemma safe_pops: "safe d (OMap m) \<Longrightarrow> safe d (OMap (fold dict_pop ks m))"
  using dict_pops_facts(1,3,4) [where ks = ks and d = m] by (auto simp: list_all_iff)

lemma update_member_keys: "map fst (update_member k f m) = map fst m"
  by (induction m) (auto simp: update_member_def)

lemma update_member_in: "kv \<in> set (update_member k f m) \<Longrightarrow> \<exists>old. (fst kv, old) \<in> set m \<and> snd kv = (if fst kv = k then f old else old)"
  by (auto simp: update_member_def)

lemma update_member_lookup: "map_of (update_member k f m) j = (if j = k then map_option f (map_of m j) else map_of m j)"
  by (induction m) (auto simp: update_member_def)

lemma safe_update:
  assumes "safe d (OMap m)" and "\<And>v. safe (Suc d) v \<Longrightarrow> safe (Suc d) (f v)" and "f (OStr REDACTED_MARKER) = OStr REDACTED_MARKER"
  shows "safe d (OMap (update_member k f m))"
proof (rule safe_OMapI)
  show "d < MAX_NESTING_DEPTH" "length (update_member k f m) \<le> MAX_COLLECTION_ITEMS + 1"
    "distinct (map fst (update_member k f m))"
    using assms(1) by (simp_all add: update_member_keys) (simp add: update_member_def)
  fix kv assume "kv \<in> set (update_member k f m)"
  then obtain old where "(fst kv, old) \<in> set m" "snd kv = (if fst kv = k then f old else old)"
    using update_member_in by blast
  with assms show "(sensitive_field (Some (fst kv)) \<longrightarrow> snd kv = OStr REDACTED_MARKER) \<and> safe (Suc d) (snd kv)"
    by (fastforce simp: list_all_iff)
qed

lemma values_type_not_sensitive: "\<not> sensitive_field (Some ''values'')" "\<not> sensitive_field (Some ''type'')"
  by (simp_all add: field_search_simps)

lemma safe_exception_item:
  assumes "safe d item"
  shows "list_all (safe d) (exception_item item)" "length (exception_item item) \<le> 1"
proof -
  have "safe d (OMap [(''type'', case map_of m ''type'' of None \<Rightarrow> OStr ''Exception'' | Some t \<Rightarrow> t)])"
    if "item = OMap m" for m
  proof (rule safe_OMapI)
    fix kv assume kv: "kv \<in> set [(''type'', case map_of m ''type'' of None \<Rightarrow> OStr ''Exception'' | Some t \<Rightarrow> t)]"
    have "safe (Suc d) t" if "map_of m ''type'' = Some t" for t
      using map_of_SomeD [OF that] assms \<open>item = OMap m\<close> by (auto simp: list_all_iff)
    then show "(sensitive_field (Some (fst kv)) \<longrightarrow> snd kv = OStr REDACTED_MARKER) \<and> safe (Suc d) (snd kv)"
      using kv values_type_not_sensitive(2) by (auto simp: MAX_VALUE_LENGTH_def split: option.splits)
  qed (use assms that in auto)
  then show "list_all (safe d) (exception_item item)"
    by (auto simp: exception_item_def simp del: safe.simps split: observed.splits)
  show "length (exception_item item) \<le> 1" by (simp add: exception_item_def split: observed.splits)
qed

lemma safe_exception_items:
  "list_all (safe d) items \<Longrightarrow>
   list_all (safe d) (concat (map exception_item items)) \<and> length (concat (map exception_item items)) \<le> length items"
proof (induction items)
  case (Cons item items)
  then show ?case using safe_exception_item [of d item] by (simp del: safe.simps)
qed simp

text \<open>The reported exceptions and the request of a report, when they are objects.\<close>

definition only_exception_types :: "observed \<Rightarrow> bool" where
  "only_exception_types x = (case x of
     OMap m \<Rightarrow> (case map_of m ''values'' of
         Some (OSeq items) \<Rightarrow> list_all (\<lambda>i. case i of OMap [(k, t)] \<Rightarrow> k = ''type'' | _ \<Rightarrow> False) items
       | _ \<Rightarrow> True)
   | _ \<Rightarrow> True)"

definition no_request_payload :: "observed \<Rightarrow> bool" where
  "no_request_payload x = (case x of
     OMap m \<Rightarrow> fst ` set m \<inter> {''data'', ''headers'', ''cookies'', ''query_string'', ''env''} = {}
   | _ \<Rightarrow> True)"

lemma map_of_dict_set: "map_of (dict_set k v d) j = (if j = k then Some v else map_of d j)"
proof -
  have "map_of (map (\<lambda>kv. if fst kv = k then (k, v) else kv) d) j =
      (if j = k \<and> map_of d k \<noteq> None then Some v else map_of d j)"
    by (induction d) auto
  then show ?thesis
    by (cases "k \<in> fst ` set d")
      (simp_all add: dict_set_def map_add_def map_of_eq_None_iff map_of_eq_None_iff [THEN iffD2] split: option.splits)
qed

lemma scrub_exception_facts:
  "only_exception_types (scrub_exception x)"
  "safe (Suc d) x \<Longrightarrow> safe (Suc d) (scrub_exception x)"
proof -
  show "only_exception_types (scrub_exception x)"
  proof (cases "\<exists>m items. x = OMap m \<and> map_of m ''values'' = Some (OSeq items)")
    case True
    then obtain m items where x: "x = OMap m" "map_of m ''values'' = Some (OSeq items)" by blast
    have "list_all (\<lambda>i. case i of OMap [(k, t)] \<Rightarrow> k = ''type'' | _ \<Rightarrow> False) (concat (map exception_item items))"
      by (induction items) (auto simp: exception_item_def split: observed.splits)
    then show ?thesis by (simp add: x only_exception_types_def scrub_exception_def map_of_dict_set)
  next
    case False
    then show ?thesis by (auto simp: only_exception_types_def scrub_exception_def split: observed.splits option.splits)
  qed
  assume safe: "safe (Suc d) x"
  show "safe (Suc d) (scrub_exception x)"
  proof (cases "\<exists>m items. x = OMap m \<and> map_of m ''values'' = Some (OSeq items)")
    case True
    then obtain m items where x: "x = OMap m" "map_of m ''values'' = Some (OSeq items)" by blast
    let ?new = "OSeq (concat (map exception_item items))"
    have "safe (Suc (Suc d)) (OSeq items)"
      using map_of_SomeD [OF x(2)] safe by (auto simp: x(1) list_all_iff)
    then have new: "safe (Suc (Suc d)) ?new"
      using safe_exception_items [of "Suc (Suc (Suc d))" items] by auto
    have "safe (Suc d) (OMap (dict_set ''values'' ?new m))"
    proof (rule safe_OMapI)
      have "''values'' \<in> fst ` set m" using map_of_SomeD [OF x(2)] by force
      then show "length (dict_set ''values'' ?new m) \<le> MAX_COLLECTION_ITEMS + 1"
        using safe by (simp add: x(1) dict_set_def)
      show "Suc d < MAX_NESTING_DEPTH" "distinct (map fst (dict_set ''values'' ?new m))"
        using safe dict_set_facts(2) by (simp_all add: x(1))
      fix kv assume "kv \<in> set (dict_set ''values'' ?new m)"
      from dict_set_facts(1) [OF this]
      show "(sensitive_field (Some (fst kv)) \<longrightarrow> snd kv = OStr REDACTED_MARKER) \<and> safe (Suc (Suc d)) (snd kv)"
        using values_type_not_sensitive(1) new safe by (auto simp: x(1) list_all_iff simp del: safe.simps(3))
    qed
    then show ?thesis by (simp add: x scrub_exception_def)
  next
    case False
    then show ?thesis using safe by (auto simp: scrub_exception_def split: observed.splits option.splits)
  qed
qed

lemma scrub_request_facts:
  "no_request_payload (scrub_request x)"
  "safe d x \<Longrightarrow> safe d (scrub_request x)"
proof -
  let ?ks = "[''data'', ''headers'', ''cookies'', ''query_string'', ''env'']"
  show "no_request_payload (scrub_request x)"
  proof (cases x)
    case (OMap m)
    have "fst ` set (fold dict_pop ?ks m) \<inter> set ?ks = {}" by (rule dict_pops_facts(2))
    then show ?thesis by (simp only: OMap no_request_payload_def scrub_request_def observed.case list.set)
  qed (simp_all add: no_request_payload_def scrub_request_def)
  assume "safe d x"
  then show "safe d (scrub_request x)"
    using safe_pops [of d _ ?ks] by (cases x) (simp_all only: scrub_request_def observed.case)
qed

text \<open>
  An error report is sent without what it was raised on: \<open>_before_send\<close> always gives a report whose
  every nested value is bounded and redacted, without log entry, breadcrumbs and threads, whose
  exceptions are reduced to their types and whose request has no body, headers, cookies, query or
  environment.
\<close>

theorem error_report_is_scrubbed:
  "\<exists>report. before_send event = Some report \<and> safe 0 (OMap report) \<and>
     fst ` set report \<inter> {''logentry'', ''breadcrumbs'', ''threads''} = {} \<and>
     (case map_of report ''exception'' of None \<Rightarrow> True | Some x \<Rightarrow> only_exception_types x) \<and>
     (case map_of report ''request'' of None \<Rightarrow> True | Some x \<Rightarrow> no_request_payload x)"
proof -
  let ?drop = "[''logentry'', ''breadcrumbs'', ''threads'']"
  obtain sanitized where r: "redact_for_observability None 0 (OMap event) = OMap sanitized"
    by (simp add: redact_for_observability.simps [of None] sensitive_field_def MAX_NESTING_DEPTH_def Let_def)
  define kept where "kept = fold dict_pop ?drop sanitized"
  define reported where "reported = update_member ''exception'' scrub_exception kept"
  define report where "report = update_member ''request'' scrub_request reported"
  have marker: "scrub_exception (OStr REDACTED_MARKER) = OStr REDACTED_MARKER"
    "scrub_request (OStr REDACTED_MARKER) = OStr REDACTED_MARKER"
    by (simp_all add: scrub_exception_def scrub_request_def)
  have "safe 0 (OMap kept)" unfolding kept_def by (rule safe_pops [OF redact_is_safe [of 0 None "OMap event", unfolded r]])
  then have "safe 0 (OMap reported)"
    unfolding reported_def by (rule safe_update) (use scrub_exception_facts(2) marker(1) in blast)+
  then have safe: "safe 0 (OMap report)"
    unfolding report_def by (rule safe_update) (use scrub_request_facts(2) marker(2) in blast)+
  have "map fst report = map fst kept" by (simp only: report_def reported_def update_member_keys)
  then have "fst ` set report = fst ` set kept" by (metis set_map)
  then have dropped: "fst ` set report \<inter> {''logentry'', ''breadcrumbs'', ''threads''} = {}"
    using dict_pops_facts(2) [where ks = ?drop and d = sanitized] by (simp only: kept_def list.set)
  have members: "map_of report ''exception'' = map_option scrub_exception (map_of kept ''exception'')"
    "map_of report ''request'' = map_option scrub_request (map_of kept ''request'')"
    by (simp_all add: report_def reported_def update_member_lookup)
  have "before_send event = Some report"
    by (simp only: before_send_def r observed.case report_def reported_def kept_def)
  with safe dropped members scrub_exception_facts(1) scrub_request_facts(1) show ?thesis by (auto split: option.splits)
qed

section \<open>No value carries a bearer token\<close>

text \<open>The texts a value holds, the keys of its mappings included, and these keys alone.\<close>

fun texts :: "observed \<Rightarrow> string list" where
  "texts (OStr s) = [s]"
| "texts (OOther s) = [s]"
| "texts (OMap kvs) = concat (map (\<lambda>kv. fst kv # texts (snd kv)) kvs)"
| "texts (OSeq xs) = concat (map texts xs)"
| "texts _ = []"

fun map_keys :: "observed \<Rightarrow> string list" where
  "map_keys (OMap kvs) = concat (map (\<lambda>kv. fst kv # map_keys (snd kv)) kvs)"
| "map_keys (OSeq xs) = concat (map map_keys xs)"
| "map_keys _ = []"

lemma marker_texts_free: "bearer_free REDACTED_MARKER" "bearer_free TRUNCATED"
proof -
  have "bearer_free s" if "\<forall>c \<in> set s. lower_char c \<noteq> CHR ''b''" for s
    unfolding bearer_free_def using that bearer_first by (metis UnCI hd_in_set set_append)
  then show "bearer_free REDACTED_MARKER" "bearer_free TRUNCATED" using marker_no_b(2,3) by blast+
qed

lemma no_space_bearer_free:
  assumes "list_all (\<lambda>c. \<not> py_space c) s"
  shows "bearer_free s"
  unfolding bearer_free_def
proof (intro allI impI notI)
  fix u v assume s: "s = u @ v" and "bearer_at v"
  then obtain w sp c z where "v = w @ sp @ c # z" "sp \<noteq> []" "list_all py_space sp" using bearer_atE by blast
  with s assms show False by (cases sp) auto
qed

text \<open>The keys the code writes itself.\<close>

lemma own_keys_free:
  "list_all bearer_free [''_truncated'', ''timestamp'', ''level'', ''logger'', ''event'', ''service'', ''correlation_id'',
     ''trace_id'', ''exception_type'', ''attributes'']"
  by (auto intro!: no_space_bearer_free simp: py_space_def)

lemma redact_texts:
  "\<forall>t \<in> set (texts (redact_for_observability f depth v)). bearer_free t \<or> t \<in> set (map_keys v)"
proof (induction f depth v rule: redact_for_observability.induct)
  case (1 f depth v)
  note unf = redact_for_observability.simps [of f depth v]
  show ?case
  proof (cases "sensitive_field f \<or> MAX_NESTING_DEPTH \<le> depth")
    case True
    then show ?thesis by (subst unf) (use marker_texts_free in auto)
  next
    case False
    show ?thesis
    proof (cases v)
      case (OMap members)
      let ?red = "\<lambda>kv. (fst kv, redact_for_observability (Some (fst kv)) (depth + 1) (snd kv))"
      let ?result = "dict_of (map ?red (take MAX_COLLECTION_ITEMS members))"
      have kept: "bearer_free t \<or> t \<in> set (map_keys v)" if kv: "kv \<in> set ?result" and t: "t \<in> insert (fst kv) (set (texts (snd kv)))" for kv t
      proof -
        from kv dict_of_facts(1) obtain m where m: "m \<in> set (take MAX_COLLECTION_ITEMS members)" "kv = ?red m" by fastforce
        then have "m \<in> set members" by (auto dest: in_set_takeD)
        moreover have "bearer_free u \<or> u \<in> set (map_keys (snd m))" if "u \<in> set (texts (snd kv))" for u
          using 1(1) [OF _ _ OMap m(1)] False that m(2) by simp
        ultimately show ?thesis using t m(2) OMap by auto
      qed
      have "\<forall>t \<in> set (texts (OMap ?result)). bearer_free t \<or> t \<in> set (map_keys v)" using kept by auto
      moreover have "\<forall>t \<in> set (texts (OMap (dict_set ''_truncated'' (OBool True) ?result))). bearer_free t \<or> t \<in> set (map_keys v)"
      proof -
        have "kv = (''_truncated'', OBool True) \<or> kv \<in> set ?result" if "kv \<in> set (dict_set ''_truncated'' (OBool True) ?result)" for kv
          using dict_set_facts(1) [OF that] .
        then show ?thesis using kept own_keys_free by fastforce
      qed
      ultimately show ?thesis by (subst unf) (use False OMap in \<open>simp add: Let_def\<close>)
    next
      case (OSeq items)
      have "bearer_free t \<or> t \<in> set (map_keys x)"
        if "x \<in> set (take MAX_COLLECTION_ITEMS items)" "t \<in> set (texts (redact_for_observability None (depth + 1) x))" for x t
        using 1(2) [OF _ _ OSeq that(1)] False that(2) by simp
      then have "\<forall>t \<in> set (texts (OSeq (map (redact_for_observability None (depth + 1)) (take MAX_COLLECTION_ITEMS items)))).
          bearer_free t \<or> t \<in> set (map_keys v)"
        using OSeq by (auto dest: in_set_takeD)
      then show ?thesis by (subst unf) (use False OSeq marker_texts_free in \<open>auto simp: Let_def\<close>)
    qed (subst unf, use False redact_text_bearer_free in simp)+
  qed
qed

text \<open>
  C31. Redaction removes bearer tokens from values: \<open>_BEARER_TOKEN_PATTERN\<close> finds nothing in any text of a redacted
  value, at any nesting, also not where a replacement or the truncation joins two pieces of text, except in keys
  that the mappings of the original value have, which are copied. So of all texts of a log line, keys and values, the
  pattern can match only those the code passes on without redacting: the time, the level, the logger, the service, the
  identifiers of request and trace, the type of the exception, and keys of the extra attributes. In the message
  it finds nothing.
\<close>

theorem no_bearer_token_in_logged_values:
  "set (filter (re_search bearer_token_re) (texts (redact_for_observability field_name depth value))) \<subseteq> set (map_keys value) \<and>
   \<not> re_search bearer_token_re (redact_text message) \<and>
   set (filter (re_search bearer_token_re) (texts (OMap (log_payload service_name timestamp correlation_id trace_id r)))) \<subseteq>
     {timestamp, lr_levelname r, lr_name r, service_name, text_or (lr_request_id r) correlation_id,
      text_or (lr_trace_id r) (case trace_id of None \<Rightarrow> [] | Some t \<Rightarrow> t)} \<union>
     set_option (lr_exception_type r) \<union> set (map_keys (OMap (record_extras r)))"
proof (intro conjI)
  note redacted = redact_texts [unfolded bearer_free_search]
  show "set (filter (re_search bearer_token_re) (texts (redact_for_observability field_name depth value))) \<subseteq> set (map_keys value)"
    using redacted by auto
  show "\<not> re_search bearer_token_re (redact_text message)"
    using redact_text_bearer_free by (simp add: bearer_free_search)
  note own = own_keys_free [unfolded bearer_free_search]
  show "set (filter (re_search bearer_token_re) (texts (OMap (log_payload service_name timestamp correlation_id trace_id r)))) \<subseteq>
     {timestamp, lr_levelname r, lr_name r, service_name, text_or (lr_request_id r) correlation_id,
      text_or (lr_trace_id r) (case trace_id of None \<Rightarrow> [] | Some t \<Rightarrow> t)} \<union>
     set_option (lr_exception_type r) \<union> set (map_keys (OMap (record_extras r)))"
    using own redacted [of None 0 "OMap (record_extras r)"] redact_text_bearer_free [of "lr_message r", unfolded bearer_free_search]
    by (auto simp: log_payload_def simp del: map_keys.simps split: list.splits option.splits if_splits)
qed

text \<open>A key is copied, whatever it holds.\<close>

lemma key_is_copied: "k \<in> set (texts (redact_for_observability None 0 (OMap [(k, v)])))"
  by (subst redact_for_observability.simps)
    (simp add: sensitive_field_def MAX_NESTING_DEPTH_def MAX_COLLECTION_ITEMS_def dict_of_def dict_set_def)

end
