(* ===== verification/Worker_Process.thy ===== *)
theory Worker_Process
  imports Clam_Scanner Observability Publisher
begin

text \<open>
  The worker process: \<open>config.py\<close>, \<open>logging.py\<close>, \<open>health.py\<close> and \<open>main.py\<close> of
  \<open>services/worker/netops_worker\<close>. Every \<open>await\<close> of \<open>run_worker\<close> is a state of the main coroutine;
  what the event loop may do next (an await completes or raises, a signal arrives, the publisher task
  ends, the Temporal worker interrupts its body) is an event.
\<close>

section \<open>Settings\<close>

datatype environment = LOCAL | TEST | STAGING | PRODUCTION

record worker_settings =
  ws_environment :: environment
  ws_service_name :: string
  ws_service_version :: string
  ws_health_host :: string
  ws_health_port :: int
  ws_temporal_address :: string
  ws_temporal_namespace :: string
  ws_task_queue :: string
  ws_graceful_shutdown_seconds :: int
  ws_otel_traces_enabled :: bool
  ws_otel_exporter_otlp_endpoint :: "string option"
  ws_outbox_publisher_enabled :: bool
  ws_database_url :: "string option"
  ws_outbox_organization_id :: "uuid option"
  ws_outbox_consumer_name :: string
  ws_outbox_worker_id :: string
  ws_outbox_batch_size :: int
  ws_outbox_lease_seconds :: int
  ws_outbox_retry_seconds :: int
  ws_outbox_poll_seconds :: rat
  ws_clamav_enabled :: bool
  ws_clamav_address :: string
  ws_clamav_connect_timeout_seconds :: rat
  ws_clamav_read_timeout_seconds :: rat
  ws_clamav_max_scan_bytes :: int

definition default_worker_settings :: worker_settings where
  "default_worker_settings =
     \<lparr>ws_environment = LOCAL, ws_service_name = ''netops-worker'', ws_service_version = ''0.1.0'',
      ws_health_host = ''0.0.0.0'', ws_health_port = 8081, ws_temporal_address = ''temporal:7233'',
      ws_temporal_namespace = ''default'', ws_task_queue = ''netops-platform'', ws_graceful_shutdown_seconds = 30,
      ws_otel_traces_enabled = True, ws_otel_exporter_otlp_endpoint = None, ws_outbox_publisher_enabled = False,
      ws_database_url = None, ws_outbox_organization_id = None,
      ws_outbox_consumer_name = ''case-event-receipt.v1'', ws_outbox_worker_id = ''netops-worker'',
      ws_outbox_batch_size = 50, ws_outbox_lease_seconds = 60, ws_outbox_retry_seconds = 30, ws_outbox_poll_seconds = 1,
      ws_clamav_enabled = True, ws_clamav_address = ''clamav:3310'', ws_clamav_connect_timeout_seconds = 5,
      ws_clamav_read_timeout_seconds = 90, ws_clamav_max_scan_bytes = 104857600\<rparr>"

text \<open>\<open>part in value\<close> and \<open>value.isdigit()\<close> (the superscript digits count, and \<open>int()\<close> refuses them).\<close>

fun has_part :: "string \<Rightarrow> string \<Rightarrow> bool" where
  "has_part part [] = (part = [])"
| "has_part part (c # cs) = (startswith (c # cs) part \<or> has_part part cs)"

definition is_digits :: "string \<Rightarrow> bool" where
  "is_digits s = (s \<noteq> [] \<and> list_all (\<lambda>c. ascii_digit c \<or> c \<in> {CHR 0xB2, CHR 0xB3, CHR 0xB9}) s)"

definition host_port_ok :: "string \<Rightarrow> bool" where
  "host_port_ok v =
     (\<not> has_part ''://'' v \<and> length (filter (\<lambda>c. c = CHR '':'') v) = 1 \<and>
      (let host = takeWhile (\<lambda>c. c \<noteq> CHR '':'') v; port = tl (dropWhile (\<lambda>c. c \<noteq> CHR '':'') v)
       in host \<noteq> [] \<and> is_digits port \<and> (case py_int port of None \<Rightarrow> False | Some n \<Rightarrow> 1 \<le> n \<and> n \<le> 65535)))"

definition task_queue_char :: "char \<Rightarrow> bool" where
  "task_queue_char c = (ascii_lower (lower_char c) \<or> ascii_digit c)"

definition task_queue_ok :: "string \<Rightarrow> bool" where
  "task_queue_ok v = (case v of
     [] \<Rightarrow> False
   | c # cs \<Rightarrow> task_queue_char c \<and> length cs \<le> 255 \<and> list_all (\<lambda>c. task_queue_char c \<or> c \<in> set ''._/-'') cs)"

definition outbox_identifier_ok :: "string \<Rightarrow> bool" where
  "outbox_identifier_ok v = (\<not> blank v \<and> length v \<le> 200)"

text \<open>\<open>blank_optional_outbox_setting_is_absent\<close>\<close>

definition blank_is_absent :: "string option \<Rightarrow> string option" where
  "blank_is_absent v = (case v of None \<Rightarrow> None | Some s \<Rightarrow> if blank s then None else Some s)"

definition field_bounds_ok :: "worker_settings \<Rightarrow> bool" where
  "field_bounds_ok w =
     ((0 \<le> ws_health_port w \<and> ws_health_port w \<le> 65535) \<and>
      (1 \<le> ws_graceful_shutdown_seconds w \<and> ws_graceful_shutdown_seconds w \<le> 300) \<and>
      (1 \<le> ws_outbox_batch_size w \<and> ws_outbox_batch_size w \<le> 100) \<and>
      (1 \<le> ws_outbox_lease_seconds w \<and> ws_outbox_lease_seconds w \<le> 3600) \<and>
      (1 \<le> ws_outbox_retry_seconds w \<and> ws_outbox_retry_seconds w \<le> 3600) \<and>
      (0 < ws_outbox_poll_seconds w \<and> ws_outbox_poll_seconds w \<le> 60) \<and>
      (0 < ws_clamav_connect_timeout_seconds w \<and> ws_clamav_connect_timeout_seconds w \<le> 60) \<and>
      (0 < ws_clamav_read_timeout_seconds w \<and> ws_clamav_read_timeout_seconds w \<le> 600) \<and>
      (1 \<le> ws_clamav_max_scan_bytes w \<and> ws_clamav_max_scan_bytes w \<le> 1073741824))"

text \<open>
  \<open>WorkerSettings(...)\<close> on values of the declared types, the organization still as text (\<open>parse_uuid\<close> is
  pydantic's reading of it). Any rejected field is one \<open>ValidationError\<close>, a \<open>ValueError\<close>.
\<close>

definition mk_worker_settings ::
  "(string \<Rightarrow> uuid option) \<Rightarrow> string option \<Rightarrow> worker_settings \<Rightarrow> exn + worker_settings" where
  "mk_worker_settings parse_uuid organization w =
     (let url = blank_is_absent (ws_database_url w);
          org = (case blank_is_absent organization of None \<Rightarrow> None | Some s \<Rightarrow> Some (parse_uuid s))
      in if \<not> field_bounds_ok w \<or> \<not> host_port_ok (ws_temporal_address w) \<or> \<not> host_port_ok (ws_clamav_address w)
            \<or> blank (ws_temporal_namespace w) \<or> \<not> task_queue_ok (ws_task_queue w)
            \<or> \<not> outbox_identifier_ok (ws_outbox_consumer_name w) \<or> \<not> outbox_identifier_ok (ws_outbox_worker_id w)
            \<or> org = Some None
         then Inl (ValueError ''validation error for WorkerSettings'')
         else if ws_outbox_publisher_enabled w \<and> (url = None \<or> org = None)
         then Inl (ValueError ''database_url and outbox_organization_id are required when outbox publisher is enabled'')
         else Inr (w\<lparr>ws_database_url := url, ws_outbox_organization_id := Option.bind org (\<lambda>u. u),
                    ws_outbox_consumer_name := strip (ws_outbox_consumer_name w),
                    ws_outbox_worker_id := strip (ws_outbox_worker_id w)\<rparr>))"

text \<open>\<open>ClamAvSettings.from_worker_settings\<close>\<close>

definition clamav_settings_of :: "worker_settings \<Rightarrow> clamav_settings" where
  "clamav_settings_of w =
     \<lparr>cs_address = ws_clamav_address w, cs_connect_timeout_seconds = ws_clamav_connect_timeout_seconds w,
      cs_read_timeout_seconds = ws_clamav_read_timeout_seconds w, cs_max_scan_bytes = nat (ws_clamav_max_scan_bytes w)\<rparr>"

section \<open>The publisher the settings ask for\<close>

text \<open>\<open>timedelta(seconds=x)\<close> in microseconds, rounded half to even.\<close>

definition timedelta_seconds :: "rat \<Rightarrow> int" where
  "timedelta_seconds x =
     (let y = x * 1000000; f = \<lfloor>y\<rfloor>; r = y - of_int f
      in if r < 1 / 2 \<or> (r = 1 / 2 \<and> even f) then f else f + 1)"

record 'e outbox_publisher =
  op_database :: 'e
  op_organization_id :: uuid
  op_consumer_name :: string
  op_settings :: publisher_settings

text \<open>\<open>create_engine\<close> is SQLAlchemy's; it does not connect.\<close>

definition build_outbox_publisher ::
  "(string \<Rightarrow> exn + 'e) \<Rightarrow> worker_settings \<Rightarrow> exn + 'e outbox_publisher option" where
  "build_outbox_publisher create_engine w =
     (if \<not> ws_outbox_publisher_enabled w then Inr None
      else case (ws_database_url w, ws_outbox_organization_id w) of
        (Some url, Some org) \<Rightarrow>
          bindE (create_engine url) (\<lambda>database.
          bindE (mk_receipt_consumer (ws_outbox_consumer_name w)) (\<lambda>consumer.
          bindE (mk_publisher_settings
             \<lparr>ps_worker_id = ws_outbox_worker_id w, ps_batch_size = ws_outbox_batch_size w,
              ps_lease_for = timedelta_seconds (of_int (ws_outbox_lease_seconds w)),
              ps_retry_after = timedelta_seconds (of_int (ws_outbox_retry_seconds w)),
              ps_poll_interval = timedelta_seconds (ws_outbox_poll_seconds w)\<rparr>) (\<lambda>settings.
          Inr (Some \<lparr>op_database = database, op_organization_id = org, op_consumer_name = consumer,
                     op_settings = settings\<rparr>))))
      | _ \<Rightarrow> Inl (RuntimeError ''Enabled outbox publisher is missing its database tenant scope.''))"

section \<open>Log lines\<close>

definition worker_log_payload :: "string \<Rightarrow> string \<Rightarrow> log_record \<Rightarrow> json" where
  "worker_log_payload service_name timestamp r = JObj
     ([(''timestamp'', JStr timestamp), (''level'', JStr (lr_levelname r)), (''logger'', JStr (lr_name r)),
       (''event'', JStr (lr_message r)), (''service'', JStr service_name)]
      @ (case lr_exception_type r of None \<Rightarrow> [] | Some e \<Rightarrow> [(''exception_type'', JStr e)]))"

definition worker_format :: "string \<Rightarrow> string \<Rightarrow> log_record \<Rightarrow> string" where
  "worker_format service_name timestamp r = json_dumps (worker_log_payload service_name timestamp r)"

section \<open>Health probes\<close>

definition MAX_REQUEST_BYTES :: nat where
  "MAX_REQUEST_BYTES = 8192"

record worker_health =
  wh_settings :: worker_settings
  wh_ready :: bool

definition health_answer :: "worker_health \<Rightarrow> string \<Rightarrow> nat \<times> json" where
  "health_answer h path =
     (let base = [(''service'', JStr (ws_service_name (wh_settings h))), (''version'', JStr (ws_service_version (wh_settings h)))];
          temporal = (\<lambda>state. [(''components'', JObj [(''temporal'', JStr state)])])
      in if path = ''/healthz'' then (200, JObj ((''status'', JStr ''ok'') # base))
         else if path = ''/readyz'' then
           (if wh_ready h then (200, JObj ((''status'', JStr ''ok'') # base @ temporal ''ready''))
            else (503, JObj ((''status'', JStr ''unavailable'') # base @ temporal ''unavailable'')))
         else (404, JObj [(''status'', JStr ''not_found'')]))"

text \<open>\<open>request.split(b"\r\n", maxsplit=1)[0].decode("ascii")\<close>, and the three words of the request line.\<close>

fun first_line :: "byte list \<Rightarrow> byte list" where
  "first_line [] = []"
| "first_line (b # bs) = (if b = 13 \<and> bs \<noteq> [] \<and> hd bs = 10 then [] else b # first_line bs)"

definition ascii_decode :: "byte list \<Rightarrow> exn + string" where
  "ascii_decode bs =
     (if list_all (\<lambda>b. unat b < 128) bs then Inr (map (\<lambda>b. char_of (unat b)) bs)
      else Inl (UnicodeError ''ordinal not in range(128)''))"

definition split_word :: "string \<Rightarrow> exn + string \<times> string" where
  "split_word s = (case dropWhile (\<lambda>c. c \<noteq> CHR '' '') s of
     [] \<Rightarrow> Inl (ValueError ''not enough values to unpack'')
   | _ # rest \<Rightarrow> Inr (takeWhile (\<lambda>c. c \<noteq> CHR '' '') s, rest))"

definition health_request :: "worker_health \<Rightarrow> byte list \<Rightarrow> exn + nat \<times> json" where
  "health_request h request =
     bindE (raise_unless (length request \<le> MAX_REQUEST_BYTES) (ValueError ''request too large'')) (\<lambda>_.
     bindE (ascii_decode (first_line request)) (\<lambda>request_line.
     bindE (split_word request_line) (\<lambda>(request_method, r1).
     bindE (split_word r1) (\<lambda>(target, _). Inr
       (if request_method \<noteq> ''GET'' then (405, JObj [(''status'', JStr ''method_not_allowed'')])
        else health_answer h (takeWhile (\<lambda>c. c \<noteq> CHR ''?'') target))))))"

definition reason_phrase :: "nat \<Rightarrow> string" where
  "reason_phrase status =
     (if status = 200 then ''OK'' else if status = 400 then ''Bad Request'' else if status = 404 then ''Not Found''
      else if status = 405 then ''Method Not Allowed'' else ''Service Unavailable'')"

definition CRLF :: "byte list" where
  "CRLF = [13, 10]"

definition render_health :: "nat \<times> json \<Rightarrow> byte list" where
  "render_health answer = (let body = bytes_of (json_dumps (snd answer)) in
     bytes_of (''HTTP/1.1 '' @ dec_nat (fst answer) @ '' '' @ reason_phrase (fst answer)) @ CRLF
     @ bytes_of ''Content-Type: application/json'' @ CRLF
     @ bytes_of (''Content-Length: '' @ dec_nat (length body)) @ CRLF
     @ bytes_of ''Connection: close'' @ CRLF @ CRLF @ body)"

text \<open>
  What \<open>handle_connection\<close> writes; \<open>received\<close> is what \<open>reader.readuntil\<close> gives, and an end of input in
  front of the blank line is its \<open>IncompleteReadError\<close>, an \<open>EOFError\<close>.
\<close>

definition handle_connection :: "worker_health \<Rightarrow> exn + byte list \<Rightarrow> exn + byte list" where
  "handle_connection h received = (case bindE received (health_request h) of
     Inr answer \<Rightarrow> Inr (render_health answer)
   | Inl e \<Rightarrow>
       if is_value_error e \<or> (case e of EOFError _ \<Rightarrow> True | _ \<Rightarrow> False)
       then Inr (render_health (400, JObj [(''status'', JStr ''bad_request'')])) else Inl e)"

section \<open>The life of the process\<close>

datatype publisher_task = NoTask | TaskRunning | TaskEnded "exn option"

text \<open>Where the main coroutine stands; \<open>Some e\<close> is the exception that is on its way out.\<close>

datatype worker_phase =
    AwaitServer
  | AwaitConnect
  | AwaitSystemInfo
  | AwaitEnter
  | AwaitProbeStart
  | AwaitProbeResult
  | AwaitFirstSweep
  | AwaitStop
  | AwaitExit "exn option"
  | AwaitPublisher "exn option"
  | AwaitServerClosed "exn option"
  | Finished "exn option"

datatype worker_event =
    AwaitCompletes
  | AwaitRaises exn
  | WorkerInterrupts exn
  | StopRequested
  | PublisherEnds "exn option"

record worker_life =
  wl_phase :: worker_phase
  wl_ready :: bool
  wl_stop :: bool
  wl_task :: publisher_task
  wl_serving :: bool

definition worker_start :: worker_life where
  "worker_start = \<lparr>wl_phase = AwaitServer, wl_ready = False, wl_stop = False, wl_task = NoTask, wl_serving = False\<rparr>"

text \<open>The start of the \<open>finally\<close> block.\<close>

definition close_server :: "exn option \<Rightarrow> worker_life \<Rightarrow> worker_life" where
  "close_server r s = s\<lparr>wl_phase := AwaitServerClosed r, wl_serving := False\<rparr>"

definition clean_up :: "exn option \<Rightarrow> worker_life \<Rightarrow> worker_life" where
  "clean_up r s = (let s' = s\<lparr>wl_ready := False, wl_stop := True\<rparr> in
     if wl_task s = NoTask then close_server r s' else s'\<lparr>wl_phase := AwaitPublisher r\<rparr>)"

text \<open>After the probe: \<open>build\<close> is the publisher factory's answer, whether there is a publisher.\<close>

definition after_probe :: "exn + bool \<Rightarrow> worker_life \<Rightarrow> worker_life" where
  "after_probe build s = (case build of
     Inl e \<Rightarrow> s\<lparr>wl_phase := AwaitExit (Some e)\<rparr>
   | Inr publisher \<Rightarrow>
       if publisher then s\<lparr>wl_phase := AwaitFirstSweep\<rparr> else s\<lparr>wl_phase := AwaitStop, wl_ready := True\<rparr>)"

text \<open>\<open>await stop.wait()\<close>, or \<open>_wait_for_stop_or_publisher_failure\<close> with the handler around it.\<close>

definition after_wait :: "worker_life \<Rightarrow> worker_life option" where
  "after_wait s =
     (let failed = (\<lambda>e. Some (s\<lparr>wl_phase := AwaitExit (Some e), wl_ready := False, wl_stop := True\<rparr>));
          stopped = Some (s\<lparr>wl_phase := AwaitExit None, wl_ready := False\<rparr>)
      in case wl_task s of
           TaskEnded (Some e) \<Rightarrow> failed e
         | TaskEnded None \<Rightarrow>
             if wl_stop s then stopped else failed (RuntimeError ''Outbox publisher stopped unexpectedly.'')
         | _ \<Rightarrow> if wl_stop s then stopped else None)"

fun await_completes :: "exn + bool \<Rightarrow> worker_phase \<Rightarrow> worker_life \<Rightarrow> worker_life option" where
  "await_completes build AwaitServer s = Some (s\<lparr>wl_phase := AwaitConnect, wl_serving := True\<rparr>)"
| "await_completes build AwaitConnect s = Some (s\<lparr>wl_phase := AwaitSystemInfo\<rparr>)"
| "await_completes build AwaitSystemInfo s = Some (s\<lparr>wl_phase := AwaitEnter\<rparr>)"
| "await_completes build AwaitEnter s = Some (s\<lparr>wl_phase := AwaitProbeStart\<rparr>)"
| "await_completes build AwaitProbeStart s = Some (s\<lparr>wl_phase := AwaitProbeResult\<rparr>)"
| "await_completes build AwaitProbeResult s = Some (after_probe build s)"
| "await_completes build AwaitFirstSweep s = Some (s\<lparr>wl_phase := AwaitStop, wl_task := TaskRunning, wl_ready := True\<rparr>)"
| "await_completes build AwaitStop s = after_wait s"
| "await_completes build (AwaitExit r) s = Some (clean_up r s)"
| "await_completes build (AwaitPublisher r) s = (case wl_task s of TaskEnded _ \<Rightarrow> Some (close_server r s) | _ \<Rightarrow> None)"
| "await_completes build (AwaitServerClosed r) s = Some (s\<lparr>wl_phase := Finished r\<rparr>)"
| "await_completes build (Finished r) s = None"

text \<open>
  An await that raises. \<open>stop.wait()\<close> does not raise, and what the publisher task raises is suppressed in
  the \<open>finally\<close> block.
\<close>

fun await_raises :: "exn \<Rightarrow> worker_phase \<Rightarrow> worker_life \<Rightarrow> worker_life option" where
  "await_raises e AwaitServer s = Some (s\<lparr>wl_phase := Finished (Some e)\<rparr>)"
| "await_raises e AwaitConnect s = Some (clean_up (Some e) s)"
| "await_raises e AwaitSystemInfo s = Some (clean_up (Some e) s)"
| "await_raises e AwaitEnter s = Some (clean_up (Some e) s)"
| "await_raises e AwaitProbeStart s = Some (s\<lparr>wl_phase := AwaitExit (Some e)\<rparr>)"
| "await_raises e AwaitProbeResult s = Some (s\<lparr>wl_phase := AwaitExit (Some e)\<rparr>)"
| "await_raises e AwaitFirstSweep s = Some (s\<lparr>wl_phase := AwaitExit (Some e)\<rparr>)"
| "await_raises e (AwaitExit r) s = Some (clean_up (Some e) s)"
| "await_raises e (AwaitServerClosed r) s = Some (s\<lparr>wl_phase := Finished (Some e)\<rparr>)"
| "await_raises e _ s = None"

definition in_worker_body :: "worker_phase \<Rightarrow> bool" where
  "in_worker_body p = (p \<in> {AwaitProbeStart, AwaitProbeResult, AwaitFirstSweep, AwaitStop})"

definition is_finished :: "worker_phase \<Rightarrow> bool" where
  "is_finished p = (case p of Finished _ \<Rightarrow> True | _ \<Rightarrow> False)"

text \<open>
  \<open>run_worker\<close>. A Temporal worker that fails cancels the body of its \<open>async with\<close>; the cancellation is
  not an \<open>Exception\<close>, so no handler of the body sees it.
\<close>

fun worker_step :: "exn + bool \<Rightarrow> worker_life \<Rightarrow> worker_event \<Rightarrow> worker_life option" where
  "worker_step build s AwaitCompletes = await_completes build (wl_phase s) s"
| "worker_step build s (AwaitRaises e) = await_raises e (wl_phase s) s"
| "worker_step build s (WorkerInterrupts e) =
     (if in_worker_body (wl_phase s) then Some (s\<lparr>wl_phase := AwaitExit (Some e)\<rparr>) else None)"
| "worker_step build s StopRequested =
     (if wl_stop s \<or> is_finished (wl_phase s) then None else Some (s\<lparr>wl_stop := True\<rparr>))"
| "worker_step build s (PublisherEnds r) =
     (if wl_task s = TaskRunning then Some (s\<lparr>wl_task := TaskEnded r\<rparr>) else None)"

fun worker_run :: "exn + bool \<Rightarrow> worker_life \<Rightarrow> worker_event list \<Rightarrow> worker_life option" where
  "worker_run build s [] = Some s"
| "worker_run build s (e # es) = Option.bind (worker_step build s e) (\<lambda>s'. worker_run build s' es)"

section \<open>Telemetry and the probe\<close>

text \<open>The service name and the endpoint spans are exported to, if any.\<close>

definition configure_worker_telemetry :: "worker_settings \<Rightarrow> (string \<times> string) option" where
  "configure_worker_telemetry s = (case ws_otel_exporter_otlp_endpoint s of
     None \<Rightarrow> None
   | Some endpoint \<Rightarrow> if ws_otel_traces_enabled s \<and> endpoint \<noteq> [] then Some (ws_service_name s, endpoint) else None)"

text \<open>The startup probe: one activity, at most five seconds, tried once.\<close>

definition worker_runtime_probe :: string where
  "worker_runtime_probe = ''worker-runtime-ready''"

definition runtime_probe_workflow :: "(string \<Rightarrow> int \<Rightarrow> nat \<Rightarrow> exn + string) \<Rightarrow> exn + string" where
  "runtime_probe_workflow execute_activity = execute_activity ''netops.worker.runtime-probe.activity'' (seconds 5) 1"

end
