(* ===== verification/Worker_Properties.thy ===== *)
theory Worker_Properties
  imports Worker_Process
begin

text \<open>
  The properties of the worker process: validated settings build their publisher, readiness is honest,
  the process always stops and hides no failure of its publisher.
\<close>

section \<open>Settings\<close>

lemma mk_worker_settings_Inr:
  assumes "mk_worker_settings parse_uuid organization w = Inr s"
  shows "field_bounds_ok s" "outbox_identifier_ok (ws_outbox_consumer_name w)" "outbox_identifier_ok (ws_outbox_worker_id w)"
    "ws_outbox_consumer_name s = strip (ws_outbox_consumer_name w)" "ws_outbox_worker_id s = strip (ws_outbox_worker_id w)"
    "ws_outbox_publisher_enabled s \<Longrightarrow> \<exists>url org. ws_database_url s = Some url \<and> ws_outbox_organization_id s = Some org"
  using assms unfolding mk_worker_settings_def Let_def
  by (auto simp: field_bounds_ok_def split: if_splits option.splits)

lemma stripped_identifier:
  assumes "outbox_identifier_ok v"
  shows "\<not> blank (strip v)" "length (strip v) \<le> 200" "strip (strip v) = strip v"
  using assms length_strip [of v] by (auto simp: outbox_identifier_ok_def not_blank_strip strip_strip)

lemma timedelta_of_int: "timedelta_seconds (of_int n) = n * 1000000"
proof -
  have f: "\<lfloor>(of_int n :: rat) * 1000000\<rfloor> = n * 1000000"
    by (metis floor_of_int of_int_mult of_int_numeral)
  show ?thesis unfolding timedelta_seconds_def Let_def f by simp
qed

text \<open>Half a microsecond rounds to nothing, more does not.\<close>

lemma timedelta_positive: "0 < x \<Longrightarrow> timedelta_seconds x \<le> 0 \<longleftrightarrow> x \<le> 1 / 2000000"
proof -
  assume x: "0 < x"
  define y where "y = x * 1000000"
  have y: "0 < y" "x \<le> 1 / 2000000 \<longleftrightarrow> y \<le> 1 / 2" using x by (simp_all add: y_def field_simps)
  show ?thesis
  proof (cases "\<lfloor>y\<rfloor> \<le> 0")
    case True
    with y(1) have f: "\<lfloor>y\<rfloor> = 0" by (metis floor_less_zero leD le_less order_antisym_conv linorder_not_le)
    show ?thesis unfolding y(2) timedelta_seconds_def y_def [symmetric] Let_def f by auto
  next
    case False
    then have f: "1 \<le> \<lfloor>y\<rfloor>" by linarith
    then have "1 \<le> y" by (simp only: one_le_floor)
    then have half: "(y \<le> 1 / 2) = False" by simp
    have "1 \<le> i \<Longrightarrow> ((if c then i else i + 1) \<le> 0) = False" for c and i :: int by auto
    note this [OF f]
    then show ?thesis unfolding y(2) timedelta_seconds_def y_def [symmetric] Let_def half by (simp del: one_le_floor)
  qed
qed

text \<open>
  Settings the worker accepts are settings it can run with: when \<open>WorkerSettings\<close> accepts them and the
  publisher is on, \<open>build_outbox_publisher\<close> never misses its tenant scope, and it raises only what the
  database engine raises, or the interval error when the polling time is at most half a microsecond,
  which \<open>timedelta\<close> rounds to nothing. The publisher it builds is bound to the configured organization.
\<close>

theorem accepted_settings_build_the_publisher:
  assumes "mk_worker_settings parse_uuid organization w = Inr s"
  shows "if ws_outbox_publisher_enabled s
    then \<exists>url org. ws_database_url s = Some url \<and> ws_outbox_organization_id s = Some org \<and>
      build_outbox_publisher create_engine s = bindE (create_engine url) (\<lambda>database.
        if ws_outbox_poll_seconds s \<le> 1 / 2000000 then Inl (ValueError ''poll_interval must be positive.'')
        else Inr (Some \<lparr>op_database = database, op_organization_id = org,
          op_consumer_name = ws_outbox_consumer_name s,
          op_settings = \<lparr>ps_worker_id = ws_outbox_worker_id s, ps_batch_size = ws_outbox_batch_size s,
            ps_lease_for = ws_outbox_lease_seconds s * 1000000, ps_retry_after = ws_outbox_retry_seconds s * 1000000,
            ps_poll_interval = timedelta_seconds (ws_outbox_poll_seconds s)\<rparr>\<rparr>))
    else build_outbox_publisher create_engine s = Inr None"
proof (cases "ws_outbox_publisher_enabled s")
  case True
  note ok = mk_worker_settings_Inr [OF assms]
  from ok(6) [OF True] obtain url org where scope: "ws_database_url s = Some url" "ws_outbox_organization_id s = Some org" by blast
  have consumer: "mk_receipt_consumer (ws_outbox_consumer_name s) = Inr (ws_outbox_consumer_name s)"
    using stripped_identifier [OF ok(2)] by (simp add: mk_receipt_consumer_def ok(4))
  have worker: "\<not> blank (ws_outbox_worker_id s)" "length (ws_outbox_worker_id s) \<le> 200"
    using stripped_identifier [OF ok(3)] by (simp_all add: ok(5))
  have bounds: "1 \<le> ws_outbox_batch_size s" "ws_outbox_batch_size s \<le> 100" "1 \<le> ws_outbox_lease_seconds s"
    "1 \<le> ws_outbox_retry_seconds s" "0 < ws_outbox_poll_seconds s"
    using ok(1) unfolding field_bounds_ok_def by blast+
  show ?thesis
    using True worker bounds
    by (simp add: scope build_outbox_publisher_def consumer mk_publisher_settings_def timedelta_of_int
        timedelta_positive if_distrib [of "\<lambda>x. bindE x _"] cong: if_cong)
qed (simp add: build_outbox_publisher_def)

definition demo_worker_settings :: worker_settings where
  "demo_worker_settings = default_worker_settings\<lparr>ws_outbox_publisher_enabled := True, ws_database_url := Some ''db''\<rparr>"

lemma demo_fields_ok:
  "field_bounds_ok demo_worker_settings" "host_port_ok (ws_temporal_address demo_worker_settings)"
  "host_port_ok (ws_clamav_address demo_worker_settings)" "task_queue_ok (ws_task_queue demo_worker_settings)"
  "outbox_identifier_ok (ws_outbox_consumer_name demo_worker_settings)"
  "outbox_identifier_ok (ws_outbox_worker_id demo_worker_settings)" "\<not> blank (ws_temporal_namespace demo_worker_settings)"
proof -
  show "host_port_ok (ws_temporal_address demo_worker_settings)" "host_port_ok (ws_clamav_address demo_worker_settings)"
    by code_simp+
qed (simp_all add: demo_worker_settings_def default_worker_settings_def field_bounds_ok_def task_queue_ok_def
    task_queue_char_def outbox_identifier_ok_def blank_def py_space_def ascii_lower_def ascii_digit_def lower_char_def)

theorem accepted_settings_build_the_publisher_witness:
  "\<exists>s. mk_worker_settings (\<lambda>_. Some 1) (Some ''org'') demo_worker_settings = Inr s \<and>
     (\<exists>p. build_outbox_publisher (\<lambda>u. Inr u) s = Inr (Some p) \<and> op_organization_id p = 1)"
proof -
  have "blank_is_absent (Some ''db'') = Some ''db''" "blank_is_absent (Some ''org'') = Some ''org''" by code_simp+
  then obtain s where s: "mk_worker_settings (\<lambda>_. Some 1) (Some ''org'') demo_worker_settings = Inr s"
    "ws_outbox_publisher_enabled s" "ws_outbox_organization_id s = Some 1" "ws_outbox_poll_seconds s = 1"
    using demo_fields_ok by (simp add: mk_worker_settings_def demo_worker_settings_def default_worker_settings_def)
  from accepted_settings_build_the_publisher [OF s(1), of "\<lambda>u. Inr u"] s show ?thesis by auto
qed

section \<open>The life of the process\<close>

lemma worker_run_Cons: "worker_run build s (e # es) = Some t \<longleftrightarrow> (\<exists>s'. worker_step build s e = Some s' \<and> worker_run build s' es = Some t)"
  by (cases "worker_step build s e") simp_all

text \<open>An invariant of the steps holds after every run.\<close>

lemma worker_run_invariant:
  assumes "\<And>s e s'. I s \<Longrightarrow> worker_step build s e = Some s' \<Longrightarrow> I s'"
  shows "worker_run build s es = Some t \<Longrightarrow> I s \<Longrightarrow> I t"
  by (induction es arbitrary: s) (auto simp: worker_run_Cons simp del: worker_run.simps(2) intro: assms)

text \<open>What the server, the publisher task and the readiness flag are at each await.\<close>

fun phase_ok :: "bool \<Rightarrow> publisher_task \<Rightarrow> bool \<Rightarrow> worker_phase \<Rightarrow> bool" where
  "phase_ok serving task ready AwaitServer = (\<not> serving \<and> task = NoTask \<and> \<not> ready)"
| "phase_ok serving task ready AwaitStop = serving"
| "phase_ok serving task ready (AwaitExit r) = serving"
| "phase_ok serving task ready (AwaitPublisher r) = (serving \<and> task \<noteq> NoTask \<and> \<not> ready)"
| "phase_ok serving task ready (AwaitServerClosed r) = (\<not> serving \<and> task \<noteq> TaskRunning \<and> \<not> ready)"
| "phase_ok serving task ready (Finished r) = (\<not> serving \<and> task \<noteq> TaskRunning \<and> \<not> ready)"
| "phase_ok serving task ready p = (serving \<and> task = NoTask \<and> \<not> ready)"

definition life_ok :: "worker_life \<Rightarrow> bool" where
  "life_ok s = phase_ok (wl_serving s) (wl_task s) (wl_ready s) (wl_phase s)"

lemma after_wait_cases:
  assumes "after_wait s = Some s'"
  obtains e where "s' = s\<lparr>wl_phase := AwaitExit (Some e), wl_ready := False, wl_stop := True\<rparr>"
  | "s' = s\<lparr>wl_phase := AwaitExit None, wl_ready := False\<rparr>" "wl_stop s" "\<forall>e. wl_task s \<noteq> TaskEnded (Some e)"
  using assms unfolding after_wait_def Let_def
  by (cases "wl_task s") (auto split: option.splits if_splits)

lemma after_probe_cases:
  obtains e where "build = Inl e" "after_probe build s = s\<lparr>wl_phase := AwaitExit (Some e)\<rparr>"
  | "build = Inr True" "after_probe build s = s\<lparr>wl_phase := AwaitFirstSweep\<rparr>"
  | "build = Inr False" "after_probe build s = s\<lparr>wl_phase := AwaitStop, wl_ready := True\<rparr>"
  unfolding after_probe_def by (cases build) auto

lemma life_ok_clean_up: "phase_ok (wl_serving s) (wl_task s) (wl_ready s) (AwaitExit r) \<Longrightarrow> life_ok (clean_up r' s)"
  by (simp add: life_ok_def clean_up_def close_server_def Let_def)

lemma life_ok_completes: "life_ok s \<Longrightarrow> await_completes build (wl_phase s) s = Some s' \<Longrightarrow> life_ok s'"
proof (cases "wl_phase s")
  case AwaitProbeResult
  assume "life_ok s" "await_completes build (wl_phase s) s = Some s'"
  then show ?thesis by (cases build s rule: after_probe_cases) (auto simp: life_ok_def AwaitProbeResult)
next
  case AwaitStop
  assume ok: "life_ok s" and "await_completes build (wl_phase s) s = Some s'"
  then have "after_wait s = Some s'" by (simp add: AwaitStop)
  then show ?thesis using ok by (elim after_wait_cases) (simp_all add: life_ok_def AwaitStop)
next
  case (AwaitPublisher r)
  assume "life_ok s" "await_completes build (wl_phase s) s = Some s'"
  then show ?thesis by (cases "wl_task s") (auto simp: life_ok_def AwaitPublisher close_server_def)
next
  case (AwaitExit r)
  assume "life_ok s" "await_completes build (wl_phase s) s = Some s'"
  then show ?thesis using life_ok_clean_up [of s r r] by (simp add: AwaitExit) (simp add: life_ok_def AwaitExit)
qed (auto simp: life_ok_def)

lemma life_ok_raises: "life_ok s \<Longrightarrow> await_raises e (wl_phase s) s = Some s' \<Longrightarrow> life_ok s'"
  using life_ok_clean_up [of s None "Some e"] by (cases "wl_phase s") (auto simp: life_ok_def)

lemma life_ok_step: "life_ok s \<Longrightarrow> worker_step build s e = Some s' \<Longrightarrow> life_ok s'"
proof (cases e)
  case (WorkerInterrupts x)
  assume "life_ok s" "worker_step build s e = Some s'"
  with WorkerInterrupts show ?thesis by (cases "wl_phase s") (auto simp: life_ok_def in_worker_body_def)
next
  case StopRequested
  assume "life_ok s" "worker_step build s e = Some s'"
  with StopRequested show ?thesis by (auto simp: life_ok_def split: if_splits)
next
  case (PublisherEnds r)
  assume "life_ok s" "worker_step build s e = Some s'"
  with PublisherEnds show ?thesis by (cases "wl_phase s") (auto simp: life_ok_def split: if_splits)
next
  case AwaitCompletes
  assume "life_ok s" "worker_step build s e = Some s'"
  then show ?thesis using life_ok_completes [of s build s'] by (simp add: AwaitCompletes)
next
  case (AwaitRaises x)
  assume "life_ok s" "worker_step build s e = Some s'"
  then show ?thesis using life_ok_raises [of s x s'] by (simp add: AwaitRaises)
qed

lemma life_ok_run: "worker_run build worker_start es = Some s \<Longrightarrow> life_ok s"
proof (rule worker_run_invariant [where I = life_ok])
  show "life_ok worker_start" by (simp add: life_ok_def worker_start_def)
qed (rule life_ok_step)

text \<open>The awaits a run has completed.\<close>

fun completed_awaits :: "exn + bool \<Rightarrow> worker_life \<Rightarrow> worker_event list \<Rightarrow> worker_phase set" where
  "completed_awaits build s [] = {}"
| "completed_awaits build s (e # es) = (case worker_step build s e of
     None \<Rightarrow> {}
   | Some s' \<Rightarrow> (if e = AwaitCompletes then {wl_phase s} else {}) \<union> completed_awaits build s' es)"

text \<open>What must have completed before an await of the startup, and before the process is ready.\<close>

fun before :: "worker_phase \<Rightarrow> worker_phase set" where
  "before AwaitConnect = {AwaitServer}"
| "before AwaitSystemInfo = {AwaitServer, AwaitConnect}"
| "before AwaitEnter = {AwaitServer, AwaitConnect, AwaitSystemInfo}"
| "before AwaitProbeStart = {AwaitServer, AwaitConnect, AwaitSystemInfo, AwaitEnter}"
| "before AwaitProbeResult = {AwaitServer, AwaitConnect, AwaitSystemInfo, AwaitEnter, AwaitProbeStart}"
| "before AwaitFirstSweep = {AwaitServer, AwaitConnect, AwaitSystemInfo, AwaitEnter, AwaitProbeStart, AwaitProbeResult}"
| "before _ = {}"

definition startup :: "exn + bool \<Rightarrow> worker_phase set" where
  "startup build = before AwaitFirstSweep \<union> (if build = Inr True then {AwaitFirstSweep} else {})"

definition progress :: "exn + bool \<Rightarrow> worker_phase set \<Rightarrow> worker_life \<Rightarrow> bool" where
  "progress build A s \<longleftrightarrow> before (wl_phase s) \<subseteq> A \<and> (wl_ready s \<longrightarrow> startup build \<subseteq> A)"

lemma progress_mono: "progress build A s \<Longrightarrow> A \<subseteq> B \<Longrightarrow> progress build B s"
  unfolding progress_def by blast

lemma progress_clean_up: "progress build A (clean_up r s)"
  by (simp add: progress_def clean_up_def close_server_def Let_def)

lemma progress_completes:
  assumes "progress build A s" "await_completes build (wl_phase s) s = Some s'"
  shows "progress build (insert (wl_phase s) A) s'"
proof (cases "wl_phase s")
  case AwaitProbeResult
  with assms show ?thesis
    by (cases build s rule: after_probe_cases) (auto simp: progress_def startup_def)
next
  case AwaitStop
  with assms(2) have "after_wait s = Some s'" by simp
  then show ?thesis by (elim after_wait_cases) (simp_all add: progress_def)
next
  case AwaitFirstSweep
  with assms show ?thesis by (auto simp: progress_def startup_def)
next
  case (AwaitExit r)
  with assms(2) show ?thesis using progress_clean_up by auto
next
  case (AwaitPublisher r)
  with assms show ?thesis by (cases "wl_task s") (auto simp: progress_def close_server_def)
next
  case (AwaitServerClosed r)
  with assms show ?thesis by (auto simp: progress_def)
qed (use assms in \<open>auto simp: progress_def\<close>)

lemma progress_raises:
  assumes "progress build A s" "await_raises e (wl_phase s) s = Some s'"
  shows "progress build A s'"
  using assms progress_clean_up [of build A "Some e" s] by (cases "wl_phase s") (auto simp: progress_def)

lemma progress_step:
  assumes "progress build A s" "worker_step build s e = Some s'"
  shows "progress build (A \<union> (if e = AwaitCompletes then {wl_phase s} else {})) s'"
proof (cases e)
  case AwaitCompletes
  with assms progress_completes [of build A s s'] show ?thesis by simp
next
  case (AwaitRaises x)
  with assms progress_raises [of build A s x s'] show ?thesis by simp
next
  case (PublisherEnds r)
  with assms show ?thesis by (auto simp: progress_def split: if_splits)
qed (use assms in \<open>auto simp: progress_def split: if_splits\<close>)

lemma progress_run:
  "worker_run build s es = Some t \<Longrightarrow> progress build A s \<Longrightarrow> progress build (A \<union> completed_awaits build s es) t"
proof (induction es arbitrary: s A)
  case (Cons e es)
  then obtain s' where s': "worker_step build s e = Some s'" "worker_run build s' es = Some t"
    unfolding worker_run_Cons by blast
  from Cons.IH [OF s'(2) progress_step [OF Cons.prems(2) s'(1)]] show ?case
    by (simp add: s'(1) Un_assoc)
qed simp

text \<open>
  C32. Readiness is honest: whenever the probe of a running worker answers \<open>/readyz\<close> with 200, the health
  server is up, the client is connected, the server information was read, the worker was entered, the
  probe workflow was started and gave its result, and, with a publisher, its first sweep succeeded.
\<close>

theorem ready_means_probed:
  assumes "worker_run build worker_start es = Some s"
    and "fst (health_answer \<lparr>wh_settings = w, wh_ready = wl_ready s\<rparr> ''/readyz'') = 200"
  shows "wl_serving s \<and> startup build \<subseteq> completed_awaits build worker_start es"
proof -
  from assms(2) have ready: "wl_ready s" by (cases "wl_ready s") (simp_all add: health_answer_def)
  have "progress build {} worker_start" by (simp add: progress_def worker_start_def)
  from progress_run [OF assms(1) this] ready have "startup build \<subseteq> completed_awaits build worker_start es"
    by (simp add: progress_def)
  moreover have "wl_serving s" using life_ok_run [OF assms(1)] ready
    by (cases "wl_phase s") (auto simp: life_ok_def)
  ultimately show ?thesis by blast
qed

theorem ready_means_probed_witness:
  "\<exists>s. worker_run (Inr True) worker_start (replicate 7 AwaitCompletes) = Some s \<and> wl_serving s \<and>
     AwaitFirstSweep \<in> completed_awaits (Inr True) worker_start (replicate 7 AwaitCompletes)"
proof -
  obtain s where s: "worker_run (Inr True) worker_start (replicate 7 AwaitCompletes) = Some s" "wl_ready s"
    by (simp add: numeral_eq_Suc worker_start_def after_probe_def)
  have "fst (health_answer \<lparr>wh_settings = default_worker_settings, wh_ready = wl_ready s\<rparr> ''/readyz'') = 200"
    using s(2) by (simp add: health_answer_def)
  from ready_means_probed [OF s(1) this] s(1) show ?thesis by (auto simp: startup_def)
qed

section \<open>The process ends\<close>

fun phase_rank :: "worker_phase \<Rightarrow> nat" where
  "phase_rank AwaitServer = 11"
| "phase_rank AwaitConnect = 10"
| "phase_rank AwaitSystemInfo = 9"
| "phase_rank AwaitEnter = 8"
| "phase_rank AwaitProbeStart = 7"
| "phase_rank AwaitProbeResult = 6"
| "phase_rank AwaitFirstSweep = 5"
| "phase_rank AwaitStop = 4"
| "phase_rank (AwaitExit r) = 3"
| "phase_rank (AwaitPublisher r) = 2"
| "phase_rank (AwaitServerClosed r) = 1"
| "phase_rank (Finished r) = 0"

fun task_rank :: "publisher_task \<Rightarrow> nat" where
  "task_rank NoTask = 2"
| "task_rank TaskRunning = 1"
| "task_rank (TaskEnded r) = 0"

definition life_rank :: "worker_life \<Rightarrow> nat" where
  "life_rank s = phase_rank (wl_phase s) + task_rank (wl_task s) + (if wl_stop s then 0 else 1)"

lemma life_rank_clean_up: "2 < phase_rank (wl_phase s) \<Longrightarrow> life_rank (clean_up r s) < life_rank s"
  by (simp add: life_rank_def clean_up_def close_server_def Let_def)

lemma life_rank_completes:
  assumes "life_ok s" "await_completes build (wl_phase s) s = Some s'"
  shows "life_rank s' < life_rank s"
proof (cases "wl_phase s")
  case AwaitProbeResult
  with assms show ?thesis by (cases build s rule: after_probe_cases) (auto simp: life_rank_def)
next
  case AwaitStop
  with assms(2) have "after_wait s = Some s'" by simp
  then show ?thesis by (elim after_wait_cases) (simp_all add: life_rank_def AwaitStop)
next
  case AwaitFirstSweep
  with assms show ?thesis by (auto simp: life_rank_def life_ok_def)
next
  case (AwaitExit r)
  with assms(2) life_rank_clean_up [of s r] show ?thesis by auto
next
  case (AwaitPublisher r)
  with assms show ?thesis by (cases "wl_task s") (auto simp: life_rank_def close_server_def)
qed (use assms in \<open>auto simp: life_rank_def\<close>)

lemma life_rank_step:
  assumes "life_ok s" "worker_step build s e = Some s'"
  shows "life_rank s' < life_rank s"
proof (cases e)
  case AwaitCompletes
  with assms life_rank_completes show ?thesis by simp
next
  case (AwaitRaises x)
  with assms life_rank_clean_up [of s "Some x"] show ?thesis by (cases "wl_phase s") (auto simp: life_rank_def)
next
  case (WorkerInterrupts x)
  with assms show ?thesis by (cases "wl_phase s") (auto simp: life_rank_def in_worker_body_def)
qed (use assms in \<open>auto simp: life_rank_def split: if_splits\<close>)

lemma worker_run_length: "life_ok s \<Longrightarrow> worker_run build s es = Some t \<Longrightarrow> length es + life_rank t \<le> life_rank s"
proof (induction es arbitrary: s)
  case (Cons e es)
  then obtain s' where s': "worker_step build s e = Some s'" "worker_run build s' es = Some t"
    unfolding worker_run_Cons by blast
  from Cons.IH [OF life_ok_step [OF Cons.prems(1) s'(1)] s'(2)] life_rank_step [OF Cons.prems(1) s'(1)]
  show ?case by simp
qed simp

lemma worker_not_stuck:
  assumes "life_ok s" "\<And>e. worker_step build s e = None"
  shows "is_finished (wl_phase s)"
proof (rule ccontr)
  assume open_phase: "\<not> is_finished (wl_phase s)"
  with assms(2) [of StopRequested] have stop: "wl_stop s" by (auto split: if_splits)
  have "wl_task s \<noteq> TaskRunning" using assms(2) [of "PublisherEnds None"] by auto
  then show False using assms(1) assms(2) [of AwaitCompletes] stop open_phase
    by (cases "wl_phase s"; cases "wl_task s")
      (auto simp: life_ok_def is_finished_def after_wait_def Let_def split: option.splits)
qed

text \<open>
  C33. The worker process always ends, and ends tidily: no run has more than 14 events, so the process
  cannot spin, and where nothing more can happen it has finished, is not ready, has closed its server
  and left no publisher running. Waiting for ever is only possible while no stop is requested.
\<close>

theorem worker_always_stops:
  assumes "worker_run build worker_start es = Some s"
  shows "length es \<le> 14 \<and>
    ((\<forall>e. worker_step build s e = None) \<longrightarrow>
       is_finished (wl_phase s) \<and> \<not> wl_ready s \<and> \<not> wl_serving s \<and> wl_task s \<noteq> TaskRunning)"
proof -
  have start: "life_ok worker_start" "life_rank worker_start = 14"
    by (simp_all add: life_ok_def worker_start_def life_rank_def)
  have ok: "life_ok s" by (rule life_ok_run [OF assms])
  have "is_finished (wl_phase s) \<Longrightarrow> \<not> wl_ready s \<and> \<not> wl_serving s \<and> wl_task s \<noteq> TaskRunning"
    using ok by (cases "wl_phase s") (simp_all add: life_ok_def is_finished_def)
  with worker_run_length [OF start(1) assms] start(2) worker_not_stuck [OF ok] show ?thesis by auto
qed

text \<open>Start, a publisher that ends after the stop signal, and the way out.\<close>

definition demo_events :: "worker_event list" where
  "demo_events = replicate 7 AwaitCompletes @ [StopRequested, AwaitCompletes, AwaitCompletes, PublisherEnds None,
     AwaitCompletes, AwaitCompletes]"

lemma demo_life: "\<exists>s. worker_run (Inr True) worker_start demo_events = Some s \<and> wl_phase s = Finished None"
  by (simp add: demo_events_def numeral_eq_Suc worker_start_def after_probe_def after_wait_def clean_up_def close_server_def
      is_finished_def)

theorem worker_always_stops_witness:
  "\<exists>s. worker_run (Inr True) worker_start demo_events = Some s \<and> \<not> wl_serving s"
proof -
  from demo_life obtain s where s: "worker_run (Inr True) worker_start demo_events = Some s" "wl_phase s = Finished None" by blast
  have "worker_step (Inr True) s e = None" for e
    using life_ok_run [OF s(1)] s(2) by (cases e) (simp_all add: life_ok_def in_worker_body_def is_finished_def)
  with worker_always_stops [OF s(1)] s(1) show ?thesis by blast
qed

section \<open>No failure of the publisher is hidden\<close>

text \<open>An exception is on its way out, or the publisher has failed while the process waits for its stop.\<close>

definition failing :: "worker_life \<Rightarrow> bool" where
  "failing s = (case wl_phase s of
     AwaitStop \<Rightarrow> (case wl_task s of TaskEnded (Some e) \<Rightarrow> True | _ \<Rightarrow> False)
   | AwaitExit r \<Rightarrow> r \<noteq> None
   | AwaitPublisher r \<Rightarrow> r \<noteq> None
   | AwaitServerClosed r \<Rightarrow> r \<noteq> None
   | Finished r \<Rightarrow> r \<noteq> None
   | _ \<Rightarrow> False)"

lemma failing_clean_up: "r \<noteq> None \<Longrightarrow> failing (clean_up r s)"
  by (simp add: failing_def clean_up_def close_server_def Let_def)

lemma failing_step:
  assumes "failing s" "worker_step build s e = Some s'"
  shows "failing s'"
proof (cases e)
  case AwaitCompletes
  then have c: "await_completes build (wl_phase s) s = Some s'" using assms(2) by simp
  show ?thesis
  proof (cases "wl_phase s")
    case (AwaitExit r)
    with c have "s' = clean_up r s" by simp
    with AwaitExit assms(1) failing_clean_up show ?thesis by (auto simp: failing_def)
  next
    case AwaitStop
    with c assms(1) show ?thesis
      by (auto simp: failing_def after_wait_def Let_def split: publisher_task.splits option.splits)
  next
    case (AwaitPublisher r)
    with c assms(1) show ?thesis by (cases "wl_task s") (auto simp: failing_def close_server_def)
  qed (use c assms(1) in \<open>auto simp: failing_def\<close>)
next
  case (AwaitRaises x)
  with assms failing_clean_up [of "Some x" s] show ?thesis by (cases "wl_phase s") (auto simp: failing_def)
next
  case (WorkerInterrupts x)
  with assms show ?thesis by (cases "wl_phase s") (auto simp: failing_def in_worker_body_def)
next
  case (PublisherEnds r)
  with assms show ?thesis by (cases "wl_phase s") (auto simp: failing_def split: if_splits)
next
  case StopRequested
  with assms show ?thesis by (cases "wl_phase s") (auto simp: failing_def split: if_splits)
qed

lemma failing_run: "worker_run build s es = Some t \<Longrightarrow> failing s \<Longrightarrow> failing t"
  by (rule worker_run_invariant [where I = failing]) (rule failing_step)

text \<open>
  A failed publisher cannot be hidden: when its task ends with an exception while the process waits
  for the stop, then however the run goes on (a stop requested meanwhile, failing clean-ups), a process
  that finishes does so with an exception. A task that merely returns before a stop is such a failure.
\<close>

theorem publisher_failure_is_reported:
  assumes "wl_phase s = AwaitStop" "wl_task s = TaskEnded r"
    and "worker_run build s es = Some s'" "wl_phase s' = Finished outcome"
    and "r \<noteq> None \<or> \<not> wl_stop s \<and> hd es = AwaitCompletes"
  shows "outcome \<noteq> None"
proof -
  have "failing s'"
  proof (cases r)
    case (Some e)
    with assms(1,2) have "failing s" by (simp add: failing_def)
    with assms(3) show ?thesis by (rule failing_run)
  next
    case None
    with assms(5) have stop: "\<not> wl_stop s" "hd es = AwaitCompletes" by auto
    have "es \<noteq> []" using assms(1,3,4) by auto
    with stop(2) obtain rest where es: "es = AwaitCompletes # rest" by (cases es) auto
    define s1 where "s1 = s\<lparr>wl_phase := AwaitExit (Some (RuntimeError ''Outbox publisher stopped unexpectedly.'')),
      wl_ready := False, wl_stop := True\<rparr>"
    have s1: "failing s1" "worker_run build s1 rest = Some s'"
      using assms(1,2,3) None stop(1) es by (simp_all add: after_wait_def failing_def s1_def)
    from s1(2,1) show ?thesis by (rule failing_run)
  qed
  with assms(4) show ?thesis by (simp add: failing_def)
qed

theorem publisher_failure_is_reported_witness:
  "\<exists>s s' e. worker_run (Inr True) s [AwaitCompletes, AwaitCompletes, AwaitCompletes, AwaitCompletes] = Some s' \<and>
     wl_phase s' = Finished (Some e)"
proof -
  define s where "s = worker_start\<lparr>wl_phase := AwaitStop, wl_ready := True, wl_task := TaskEnded None, wl_serving := True\<rparr>"
  have s: "wl_phase s = AwaitStop" "wl_task s = TaskEnded None" "\<not> wl_stop s" by (simp_all add: s_def worker_start_def)
  obtain s' outcome where r: "worker_run (Inr True) s [AwaitCompletes, AwaitCompletes, AwaitCompletes, AwaitCompletes] = Some s'"
    "wl_phase s' = Finished outcome"
    by (simp add: s_def worker_start_def after_wait_def clean_up_def close_server_def)
  from publisher_failure_is_reported [OF s(1,2) r] s(3) have "outcome \<noteq> None" by simp
  with r show ?thesis by auto
qed

end
