(* ===== verification/Error_Responses.thy ===== *)
theory Error_Responses
  imports Request_Guards Observability
begin

text \<open>
  \<open>api/errors.py\<close> and the middleware of \<open>core/middleware.py\<close> in the order \<open>main.py\<close> stacks them. An
  endpoint with its dependencies is a parameter: an action that answers with a response or fails. What
  Starlette adds is its documented order: the handlers of the declared exceptions run inside the
  middleware, the handler of any other exception outside of it.
\<close>

section \<open>Responses\<close>

datatype response_body = JsonBody json | TextBody string

record http_response =
  rs_status :: int
  rs_body :: response_body
  rs_headers :: "(string \<times> string) list"

text \<open>Header names are lower-case; setting one replaces it, the later of two entries of a dict wins.\<close>

definition set_header :: "string \<Rightarrow> string \<Rightarrow> (string \<times> string) list \<Rightarrow> (string \<times> string) list" where
  "set_header name v hs = filter (\<lambda>h. fst h \<noteq> name) hs @ [(name, v)]"

definition merge_headers :: "(string \<times> string) list \<Rightarrow> (string \<times> string) list \<Rightarrow> (string \<times> string) list" where
  "merge_headers hs extra = fold (\<lambda>h. set_header (fst h) (snd h)) extra hs"

definition CORRELATION_ID_HEADER :: string where
  "CORRELATION_ID_HEADER = ''x-correlation-id''"

definition TRACEPARENT_HEADER :: string where
  "TRACEPARENT_HEADER = ''traceparent''"

section \<open>The error envelope\<close>

record api_error =
  ae_status_code :: int
  ae_code :: string
  ae_message :: string
  ae_details :: "json option"
  ae_headers :: "(string \<times> string) list"

text \<open>One entry of \<open>RequestValidationError.errors()\<close>; it carries the rejected input.\<close>

record validation_issue =
  vi_location :: "json list"
  vi_type :: string
  vi_message :: string
  vi_input :: json

datatype failure =
    ApiFailure api_error
  | ValidationFailure "validation_issue list"
  | HttpFailure int "string option"
  | OtherFailure exn

definition error_envelope :: "string \<Rightarrow> string \<Rightarrow> string \<Rightarrow> json option \<Rightarrow> json" where
  "error_envelope code message request_id details = JObj [(''error'', JObj
     [(''code'', JStr code), (''message'', JStr message), (''request_id'', JStr request_id),
      (''details'', case details of None \<Rightarrow> JNull | Some d \<Rightarrow> d)])]"

definition error_response ::
  "int \<Rightarrow> string \<Rightarrow> string \<Rightarrow> string \<Rightarrow> json option \<Rightarrow> (string \<times> string) list \<Rightarrow> http_response" where
  "error_response status_code code message request_id details headers =
     \<lparr>rs_status = status_code, rs_body = JsonBody (error_envelope code message request_id details),
      rs_headers = merge_headers [(CORRELATION_ID_HEADER, request_id)] headers\<rparr>"

definition api_error_handler :: "string \<Rightarrow> api_error \<Rightarrow> http_response" where
  "api_error_handler request_id exc =
     error_response (ae_status_code exc) (ae_code exc) (ae_message exc) request_id (ae_details exc) (ae_headers exc)"

definition issue_json :: "validation_issue \<Rightarrow> json" where
  "issue_json i = JObj [(''location'', JArr (vi_location i)), (''type'', JStr (vi_type i))]"

definition validation_error_handler :: "string \<Rightarrow> validation_issue list \<Rightarrow> http_response" where
  "validation_error_handler request_id issues =
     error_response 422 ''validation_error'' ''The submitted request is invalid.'' request_id
       (Some (JObj [(''issues'', JArr (map issue_json issues))])) []"

definition http_error_handler :: "string \<Rightarrow> int \<Rightarrow> string option \<Rightarrow> http_response" where
  "http_error_handler request_id status_code detail =
     error_response status_code ''http_error''
       (case detail of None \<Rightarrow> ''The request could not be completed.'' | Some d \<Rightarrow> d) request_id None []"

definition unhandled_error_response :: "string \<Rightarrow> http_response" where
  "unhandled_error_response request_id =
     error_response 500 ''internal_error'' ''An unexpected error occurred.'' request_id None []"

section \<open>The stack\<close>

record http_request =
  rq_method :: string
  rq_path :: string
  rq_client :: "string option"
  rq_correlation_id :: "string option"
  rq_traceparent :: "string option"

text \<open>What the application keeps, and the log with the context of each record.\<close>

record log_entry =
  lg_record :: log_record
  lg_correlation_id :: string
  lg_trace_id :: "string option"

record 's server =
  sv_app :: 's
  sv_limiter :: rate_limiter
  sv_log :: "log_entry list"

text \<open>What a request draws from its environment: identifiers, the clock, the matched route.\<close>

record draws =
  dr_uuid :: uuid
  dr_hex32 :: string
  dr_hex16 :: string
  dr_now :: int
  dr_duration :: string
  dr_route :: "string option"

type_synonym 's endpoint = "string \<Rightarrow> http_request \<Rightarrow> 's \<Rightarrow> (failure + http_response) \<times> 's"

definition app_record :: "string \<Rightarrow> string \<Rightarrow> string \<Rightarrow> (string \<times> observed) list \<Rightarrow> log_record" where
  "app_record level logger event extras =
     \<lparr>lr_levelname = level, lr_name = logger, lr_message = event, lr_request_id = None, lr_trace_id = None,
      lr_exception_type = None, lr_dict = extras\<rparr>"

definition log_event :: "string \<Rightarrow> trace_context option \<Rightarrow> log_record \<Rightarrow> 's server \<Rightarrow> 's server" where
  "log_event correlation_id trace r s =
     s\<lparr>sv_log := sv_log s @ [\<lparr>lg_record = r, lg_correlation_id = correlation_id,
                             lg_trace_id = map_option tx_trace_id trace\<rparr>]\<rparr>"

text \<open>The endpoint behind the handlers of the declared exceptions.\<close>

definition handled_endpoint :: "'s endpoint \<Rightarrow> string \<Rightarrow> http_request \<Rightarrow> ('s server, exn, http_response) action" where
  "handled_endpoint endpoint cid rq s =
     (let (r, app) = endpoint cid rq (sv_app s); s' = s\<lparr>sv_app := app\<rparr> in
      case r of
        Inr response \<Rightarrow> (Inr response, s')
      | Inl (ApiFailure exc) \<Rightarrow> (Inr (api_error_handler cid exc), s')
      | Inl (ValidationFailure issues) \<Rightarrow> (Inr (validation_error_handler cid issues), s')
      | Inl (HttpFailure status detail) \<Rightarrow> (Inr (http_error_handler cid status detail), s')
      | Inl (OtherFailure e) \<Rightarrow> (Inl e, s'))"

text \<open>\<open>RequestTelemetryMiddleware.dispatch\<close>\<close>

definition telemetry_record :: "draws \<Rightarrow> http_request \<Rightarrow> int \<Rightarrow> log_record" where
  "telemetry_record dr rq status = app_record ''INFO'' ''netops_api.core.middleware'' ''http_request_completed''
     [(''http'', OMap [(''method'', OStr (rq_method rq)),
        (''route'', OStr (case dr_route dr of None \<Rightarrow> rq_path rq | Some route \<Rightarrow> route)),
        (''status_code'', OInt status), (''duration_ms'', OFloat (dr_duration dr))])]"

definition telemetry_dispatch ::
  "draws \<Rightarrow> string \<Rightarrow> trace_context \<Rightarrow> http_request \<Rightarrow> ('s server, exn, http_response) action \<Rightarrow>
   ('s server, exn, http_response) action" where
  "telemetry_dispatch dr cid trace rq call_next s = (case call_next s of
     (Inl e, s') \<Rightarrow> (Inl e, s')
   | (Inr response, s') \<Rightarrow>
       (Inr response, log_event cid (Some trace) (telemetry_record dr rq (rs_status response)) s'))"

text \<open>\<open>RateLimitMiddleware.dispatch\<close>\<close>

definition throttled_response :: "string \<Rightarrow> int \<Rightarrow> http_response" where
  "throttled_response request_id retry =
     \<lparr>rs_status = 429,
      rs_body = JsonBody (JObj [(''error'', JObj
        [(''code'', JStr ''rate_limited''), (''message'', JStr ''Too many requests. Please retry later.''),
         (''request_id'', JStr request_id), (''details'', JNull)])]),
      rs_headers = [(CORRELATION_ID_HEADER, request_id), (''retry-after'', dec_int retry)]\<rparr>"

definition throttle_record :: "int \<Rightarrow> log_record" where
  "throttle_record retry = app_record ''WARNING'' ''netops_api.core.middleware'' ''rate_limit_exceeded''
     [(''rate_limit'', OMap [(''scope'', OStr ''client''), (''retry_after_seconds'', OInt retry)])]"

definition rate_limit_middleware ::
  "bool \<Rightarrow> draws \<Rightarrow> string \<Rightarrow> trace_context \<Rightarrow> http_request \<Rightarrow> ('s server, exn, http_response) action \<Rightarrow>
   ('s server, exn, http_response) action" where
  "rate_limit_middleware enabled dr cid trace rq call_next s =
     (case rate_limit_dispatch enabled (rq_path rq) (rq_client rq) (dr_now dr) (sv_limiter s) of
        (PassOn, rl) \<Rightarrow> call_next (s\<lparr>sv_limiter := rl\<rparr>)
      | (TooManyRequests retry, rl) \<Rightarrow>
          (Inr (throttled_response cid retry), log_event cid (Some trace) (throttle_record retry) (s\<lparr>sv_limiter := rl\<rparr>)))"

text \<open>\<open>CorrelationIdMiddleware.dispatch\<close>: the headers of the response it gets.\<close>

definition correlation_headers :: "string \<Rightarrow> trace_context \<Rightarrow> http_response \<Rightarrow> http_response" where
  "correlation_headers cid trace response =
     response\<lparr>rs_headers := set_header TRACEPARENT_HEADER (traceparent trace)
       (set_header CORRELATION_ID_HEADER cid (rs_headers response))\<rparr>"

text \<open>\<open>unhandled_error_handler\<close>: its log record names the request, since the context is gone by then.\<close>

definition unhandled_record :: "(exn \<Rightarrow> string) \<Rightarrow> string \<Rightarrow> exn \<Rightarrow> log_record" where
  "unhandled_record type_name cid e =
     (app_record ''ERROR'' ''netops_api.api.errors'' ''unhandled_exception'' [])
       \<lparr>lr_request_id := Some cid, lr_exception_type := Some (type_name e)\<rparr>"

text \<open>The whole application; \<open>type_name\<close> is the name of the class of an exception.\<close>

definition serve ::
  "(exn \<Rightarrow> string) \<Rightarrow> bool \<Rightarrow> 's endpoint \<Rightarrow> draws \<Rightarrow> http_request \<Rightarrow> 's server \<Rightarrow> http_response \<times> 's server" where
  "serve type_name enabled endpoint dr rq s =
     (let cid = valid_or_new_correlation_id (dr_uuid dr) (rq_correlation_id rq);
          trace = new_trace_context (dr_hex32 dr) (dr_hex16 dr) (rq_traceparent rq)
      in case rate_limit_middleware enabled dr cid trace rq
           (telemetry_dispatch dr cid trace rq (handled_endpoint endpoint cid rq)) s of
         (Inr response, s') \<Rightarrow> (correlation_headers cid trace response, s')
       | (Inl e, s') \<Rightarrow> (unhandled_error_response cid, log_event ''-'' None (unhandled_record type_name cid e) s'))"

section \<open>Properties\<close>

definition header :: "string \<Rightarrow> http_response \<Rightarrow> string option" where
  "header name r = map_of (rs_headers r) name"

text \<open>A response in the shape of the envelope that names the request.\<close>

definition envelope_for :: "string \<Rightarrow> http_response \<Rightarrow> bool" where
  "envelope_for cid r \<longleftrightarrow> (\<exists>code message details. rs_body r = JsonBody (error_envelope code message cid details))"

lemma map_of_set_header: "map_of (set_header name v hs) k = (if k = name then Some v else map_of hs k)"
proof -
  have "map_of (filter (\<lambda>h. fst h \<noteq> name) hs) k = (if k = name then None else map_of hs k)"
    by (induction hs) auto
  then show ?thesis by (simp add: set_header_def map_add_def split: option.splits)
qed

lemma header_correlation: "header CORRELATION_ID_HEADER (correlation_headers cid trace r) = Some cid"
  by (simp add: header_def correlation_headers_def map_of_set_header CORRELATION_ID_HEADER_def TRACEPARENT_HEADER_def)

lemma header_traceparent: "header TRACEPARENT_HEADER (correlation_headers cid trace r) = Some (traceparent trace)"
  by (simp add: header_def correlation_headers_def map_of_set_header)

lemma envelope_headers: "envelope_for cid (correlation_headers c trace r) = envelope_for cid r"
  by (simp add: envelope_for_def correlation_headers_def)

lemma envelope_error: "envelope_for cid (error_response status code message cid details headers)"
  unfolding envelope_for_def error_response_def by auto

lemma handlers_envelope:
  "envelope_for cid (api_error_handler cid exc)" "envelope_for cid (validation_error_handler cid issues)"
  "envelope_for cid (http_error_handler cid status detail)" "envelope_for cid (unhandled_error_response cid)"
  by (simp_all add: envelope_error api_error_handler_def validation_error_handler_def
      http_error_handler_def unhandled_error_response_def)

lemma throttled_envelope: "envelope_for cid (throttled_response cid retry)"
  unfolding envelope_for_def throttled_response_def error_envelope_def
  by (intro exI [of _ "''rate_limited''"] exI [of _ "''Too many requests. Please retry later.''"] exI [of _ None]) simp

text \<open>The four ways a request ends.\<close>

lemma serve_cases:
  fixes cid trace and dr :: draws and rq :: http_request
  defines "cid \<equiv> valid_or_new_correlation_id (dr_uuid dr) (rq_correlation_id rq)"
    and "trace \<equiv> new_trace_context (dr_hex32 dr) (dr_hex16 dr) (rq_traceparent rq)"
  obtains (throttled) retry where "fst (serve type_name enabled endpoint dr rq s) = correlation_headers cid trace (throttled_response cid retry)"
  | (answered) response where "fst (endpoint cid rq (sv_app s)) = Inr response"
      "fst (serve type_name enabled endpoint dr rq s) = correlation_headers cid trace response"
  | (failed) response f where "fst (endpoint cid rq (sv_app s)) = Inl f" "envelope_for cid response"
      "fst (serve type_name enabled endpoint dr rq s) = correlation_headers cid trace response"
  | (unhandled) e where "fst (endpoint cid rq (sv_app s)) = Inl (OtherFailure e)"
      "fst (serve type_name enabled endpoint dr rq s) = unhandled_error_response cid"
proof (cases "fst (rate_limit_dispatch enabled (rq_path rq) (rq_client rq) (dr_now dr) (sv_limiter s))")
  case (TooManyRequests retry)
  then show thesis
    by (intro throttled) (auto simp: serve_def rate_limit_middleware_def Let_def cid_def trace_def split: prod.splits)
next
  case PassOn
  then obtain rl where p: "rate_limit_dispatch enabled (rq_path rq) (rq_client rq) (dr_now dr) (sv_limiter s) = (PassOn, rl)"
    by (cases "rate_limit_dispatch enabled (rq_path rq) (rq_client rq) (dr_now dr) (sv_limiter s)") auto
  obtain r app where r: "endpoint cid rq (sv_app s) = (r, app)" by fastforce
  note run = serve_def rate_limit_middleware_def telemetry_dispatch_def handled_endpoint_def Let_def
  show thesis
  proof (cases r)
    case (Inr response)
    with p r show thesis by (intro answered) (simp_all add: run cid_def [symmetric] trace_def [symmetric])
  next
    case (Inl f)
    show thesis
    proof (cases f)
      case (OtherFailure e)
      with p r Inl show thesis by (intro unhandled) (simp_all add: run cid_def [symmetric] trace_def [symmetric])
    next
      case (ApiFailure exc)
      with p r Inl show thesis
        by (intro failed [OF _ handlers_envelope(1)]) (simp_all add: run cid_def [symmetric] trace_def [symmetric])
    next
      case (ValidationFailure issues)
      with p r Inl show thesis
        by (intro failed [OF _ handlers_envelope(2)]) (simp_all add: run cid_def [symmetric] trace_def [symmetric])
    next
      case (HttpFailure status detail)
      with p r Inl show thesis
        by (intro failed [OF _ handlers_envelope(3)]) (simp_all add: run cid_def [symmetric] trace_def [symmetric])
    qed
  qed
qed

text \<open>
  C34. Every response can be matched to its request: whatever the endpoint does, the response carries the
  correlation id of the request (the client's own when it is a UUID, in canonical form), and a request
  that fails or is throttled is answered with the error envelope naming that id. Only the answer to an
  exception without a handler lacks the trace header.
\<close>

theorem every_response_names_its_request:
  fixes s :: "'s server"
  shows "let cid = valid_or_new_correlation_id (dr_uuid dr) (rq_correlation_id rq);
      response = fst (serve type_name enabled endpoint dr rq s)
    in header CORRELATION_ID_HEADER response = Some cid \<and>
      (response = unhandled_error_response cid \<or> (\<exists>t. header TRACEPARENT_HEADER response = Some t)) \<and>
      (envelope_for cid response \<or> (\<exists>answer trace. fst (endpoint cid rq (sv_app s)) = Inr answer \<and>
         response = correlation_headers cid trace answer))"
  unfolding Let_def
  by (cases rule: serve_cases [where dr = dr and rq = rq and type_name = type_name and enabled = enabled and endpoint = endpoint and s = s])
    (simp_all add: header_correlation header_traceparent envelope_headers throttled_envelope handlers_envelope,
     auto simp: header_def unhandled_error_response_def error_response_def merge_headers_def)

text \<open>What a failure shows of itself: nothing of an exception, of an issue only its place and its type.\<close>

fun public_failure :: "failure \<Rightarrow> failure" where
  "public_failure (ApiFailure exc) = ApiFailure exc"
| "public_failure (ValidationFailure issues) =
     ValidationFailure (map (\<lambda>i. i\<lparr>vi_message := [], vi_input := JNull\<rparr>) issues)"
| "public_failure (HttpFailure status detail) = HttpFailure status detail"
| "public_failure (OtherFailure e) = OtherFailure (RuntimeError [])"

lemma public_issues: "map issue_json issues = map issue_json (map (\<lambda>i. i\<lparr>vi_message := [], vi_input := JNull\<rparr>) issues)"
  by (simp add: issue_json_def comp_def)

text \<open>
  C35. Errors disclose nothing of what was submitted: a response depends on a failure only through its
  public part. Replacing the exception an endpoint dies of by any other, or the rejected inputs and
  messages of a validation error by any others, changes neither the response nor the limiter; and of an
  unhandled exception the log holds its type alone.
\<close>

theorem errors_disclose_nothing:
  assumes "\<And>cid rq st. fst (quiet cid rq st) = (case fst (endpoint cid rq st) of Inr r \<Rightarrow> Inr r | Inl f \<Rightarrow> Inl (public_failure f))"
    and "\<And>cid rq st. snd (quiet cid rq st) = snd (endpoint cid rq st)"
  shows "serve (\<lambda>_. name) enabled endpoint dr rq s = serve (\<lambda>_. name) enabled quiet dr rq s"
proof -
  have quiet_endpoint: "handled_endpoint quiet cid rq st =
      (mapE (\<lambda>_. RuntimeError []) (fst (handled_endpoint endpoint cid rq st)), snd (handled_endpoint endpoint cid rq st))"
    for cid rq and st :: "'a server"
  proof -
    obtain r app where r: "endpoint cid rq (sv_app st) = (r, app)" by fastforce
    with assms have q: "quiet cid rq (sv_app st) = (case r of Inr x \<Rightarrow> Inr x | Inl f \<Rightarrow> Inl (public_failure f), app)"
      by (metis fst_conv snd_conv prod.collapse)
    show ?thesis
    proof (cases r)
      case (Inl f)
      then show ?thesis using r q
        by (cases f) (simp_all add: handled_endpoint_def Let_def validation_error_handler_def public_issues)
    qed (use r q in \<open>simp add: handled_endpoint_def Let_def\<close>)
  qed
  have quiet_telemetry: "telemetry_dispatch dr cid trace rq (handled_endpoint quiet cid rq) st =
      (mapE (\<lambda>_. RuntimeError []) (fst (telemetry_dispatch dr cid trace rq (handled_endpoint endpoint cid rq) st)),
       snd (telemetry_dispatch dr cid trace rq (handled_endpoint endpoint cid rq) st))"
    for cid trace and st :: "'a server"
    unfolding telemetry_dispatch_def quiet_endpoint
    by (cases "handled_endpoint endpoint cid rq st"; cases "fst (handled_endpoint endpoint cid rq st)") simp_all
  show ?thesis
    unfolding serve_def Let_def rate_limit_middleware_def quiet_telemetry
    by (auto simp: unhandled_record_def split: prod.splits sum.splits limiter_verdict.splits)
qed

theorem errors_disclose_nothing_witness:
  "\<forall>enabled dr rq s. serve (\<lambda>_. ''ValueError'') enabled (\<lambda>_ _ st. (Inl (OtherFailure (ValueError ''secret'')), st)) dr rq (s :: nat server) =
     serve (\<lambda>_. ''ValueError'') enabled (\<lambda>_ _ st. (Inl (OtherFailure (RuntimeError [])), st)) dr rq s"
  by (intro allI errors_disclose_nothing) simp_all

end
