(* ===== verification/Cursor_Codec.thy ===== *)
theory Cursor_Codec
  imports Event_Stream Clam_Scanner
begin

text \<open>
  The text form of the list cursor in \<open>api/cases.py\<close>: \<open>_encode_case_list_cursor\<close>,
  \<open>_parse_case_list_cursor\<close>, and the list endpoint between them. \<open>base64\<close> is modelled as CPython decodes
  it (leniently); \<open>json.loads\<close> and \<open>datetime.fromisoformat\<close> are arguments.
\<close>

section \<open>\<open>base64\<close>\<close>

text \<open>\<open>A\<close> to \<open>Z\<close>, \<open>a\<close> to \<open>z\<close>, \<open>0\<close> to \<open>9\<close>, dash and underscore.\<close>

definition b64_char :: "nat \<Rightarrow> char" where
  "b64_char v = char_of (if v < 26 then v + 65 else if v < 52 then v + 71 else if v < 62 then v - 4
     else if v = 62 then 45 else 95)"

fun sextets :: "nat list \<Rightarrow> nat list" where
  "sextets [] = []"
| "sextets [a] = [a div 4, a mod 4 * 16]"
| "sextets [a, b] = [a div 4, a mod 4 * 16 + b div 16, b mod 16 * 4]"
| "sextets (a # b # c # bs) =
     [a div 4, a mod 4 * 16 + b div 16, b mod 16 * 4 + c div 64, c mod 64] @ sextets bs"

definition padding :: "nat \<Rightarrow> string" where
  "padding n = replicate ((4 - n mod 4) mod 4) (CHR ''='')"

definition urlsafe_b64encode :: "byte list \<Rightarrow> string" where
  "urlsafe_b64encode bs =
     (let s = map b64_char (sextets (map unat bs)) in s @ padding (length s))"

text \<open>The value of a character; the URL-safe characters and the ones they stand for are both read.\<close>

definition sextet :: "char \<Rightarrow> nat option" where
  "sextet c = (let n = (of_char c :: nat) in
     if 65 \<le> n \<and> n \<le> 90 then Some (n - 65)
     else if 97 \<le> n \<and> n \<le> 122 then Some (n - 71)
     else if 48 \<le> n \<and> n \<le> 57 then Some (n + 4)
     else if n = 45 \<or> n = 43 then Some 62
     else if n = 95 \<or> n = 47 then Some 63 else None)"

text \<open>
  \<open>binascii.a2b_base64\<close> without strict mode: characters outside the alphabet are skipped, and the padding
  that completes a quad ends the data.
\<close>

fun a2b :: "nat \<Rightarrow> nat \<Rightarrow> nat \<Rightarrow> string \<Rightarrow> exn + nat list" where
  "a2b quad left pads [] =
     (if quad = 0 then Inr []
      else if quad = 1 then Inl (ValueError ''number of data characters cannot be 1 more than a multiple of 4'')
      else Inl (ValueError ''Incorrect padding''))"
| "a2b quad left pads (c # cs) =
     (if c = CHR ''='' then
        (if quad < 2 then a2b quad left pads cs
         else if 4 \<le> quad + Suc pads then Inr [] else a2b quad left (Suc pads) cs)
      else case sextet c of
        None \<Rightarrow> a2b quad left pads cs
      | Some v \<Rightarrow>
          if quad = 0 then a2b 1 v 0 cs
          else if quad = 1 then map_sum id ((#) (left * 4 + v div 16)) (a2b 2 (v mod 16) 0 cs)
          else if quad = 2 then map_sum id ((#) (left * 16 + v div 4)) (a2b 3 (v mod 4) 0 cs)
          else map_sum id ((#) (left * 64 + v)) (a2b 0 0 0 cs))"

definition urlsafe_b64decode :: "string \<Rightarrow> exn + byte list" where
  "urlsafe_b64decode s = map_sum id (map byte_of) (a2b 0 0 0 s)"

section \<open>The cursor\<close>

definition cursor_payload :: "case_list_cursor \<Rightarrow> json" where
  "cursor_payload c = JObj
     [(''case_id'', JStr (uuid_str (cur_case_id c))), (''updated_at'', JStr (isoformat (cur_updated_at c)))]"

definition encode_case_list_cursor :: "case_list_cursor \<Rightarrow> string" where
  "encode_case_list_cursor c =
     rstrip_of (\<lambda>x. x = CHR ''='') (urlsafe_b64encode (bytes_of (json_canonical (cursor_payload c))))"

text \<open>
  \<open>set(payload) == {"case_id", "updated_at"}\<close>: a mapping gives its keys, a string its characters, a list its
  elements if they can be hashed.
\<close>

definition hashable :: "json \<Rightarrow> bool" where
  "hashable v = (case v of JArr _ \<Rightarrow> False | JObj _ \<Rightarrow> False | _ \<Rightarrow> True)"

definition has_cursor_members :: "json \<Rightarrow> exn + bool" where
  "has_cursor_members payload = (case payload of
     JObj kvs \<Rightarrow> Inr (fst ` set kvs = {''case_id'', ''updated_at''})
   | JStr s \<Rightarrow> Inr False
   | JArr xs \<Rightarrow>
       if list_all hashable xs then Inr (set xs = {JStr ''case_id'', JStr ''updated_at''})
       else Inl (TypeError ''unhashable type'')
   | _ \<Rightarrow> Inl (TypeError ''object is not iterable''))"

text \<open>\<open>payload[key]\<close>\<close>

definition cursor_member :: "json \<Rightarrow> string \<Rightarrow> exn + json" where
  "cursor_member payload key = (case payload of
     JObj kvs \<Rightarrow> (case map_of kvs key of None \<Rightarrow> Inl (RuntimeError ''KeyError'') | Some v \<Rightarrow> Inr v)
   | _ \<Rightarrow> Inl (TypeError ''indices must be integers or slices''))"

text \<open>\<open>UUID(value)\<close> and \<open>datetime.fromisoformat(value)\<close> of a JSON value.\<close>

definition uuid_of_json :: "json \<Rightarrow> exn + uuid" where
  "uuid_of_json v = (case v of
     JStr s \<Rightarrow> (case uuid_parse s of None \<Rightarrow> Inl (ValueError ''badly formed hexadecimal UUID string'') | Some u \<Rightarrow> Inr u)
   | JNull \<Rightarrow> Inl (TypeError ''one of the hex, bytes, bytes_le, fields, or int arguments must be given'')
   | _ \<Rightarrow> Inl (AttributeError ''replace''))"

definition datetime_of_json :: "(string \<Rightarrow> exn + datetime) \<Rightarrow> json \<Rightarrow> exn + datetime" where
  "datetime_of_json fromisoformat v = (case v of
     JStr s \<Rightarrow> fromisoformat s | _ \<Rightarrow> Inl (TypeError ''fromisoformat: argument must be str''))"

definition invalid_case_cursor :: exn where
  "invalid_case_cursor = ApiError 422 ''invalid_case_cursor''"

definition cursor_failure :: "exn \<Rightarrow> exn" where
  "cursor_failure e =
     (if is_value_error e \<or> (case e of TypeError _ \<Rightarrow> True | _ \<Rightarrow> False) then invalid_case_cursor else e)"

definition cursor_of_payload :: "(string \<Rightarrow> exn + datetime) \<Rightarrow> json \<Rightarrow> exn + case_list_cursor" where
  "cursor_of_payload fromisoformat payload =
     bindE (has_cursor_members payload) (\<lambda>ok.
     bindE (raise_unless ok (ValueError ''Unexpected cursor members.'')) (\<lambda>_.
     bindE (bindE (cursor_member payload ''updated_at'') (datetime_of_json fromisoformat)) (\<lambda>updated_at.
     bindE (raise_unless (utcoffset updated_at = Some 0) (ValueError ''Cursor time must use UTC.'')) (\<lambda>_.
     bindE (bindE (cursor_member payload ''case_id'') uuid_of_json) (\<lambda>case_id. Inr
       \<lparr>cur_updated_at = astimezone_utc updated_at, cur_case_id = case_id\<rparr>)))))"

definition parse_case_list_cursor ::
  "(byte list \<Rightarrow> exn + json) \<Rightarrow> (string \<Rightarrow> exn + datetime) \<Rightarrow> string \<Rightarrow> exn + case_list_cursor" where
  "parse_case_list_cursor json_loads fromisoformat v = mapE cursor_failure
     (bindE (raise_unless (list_all (\<lambda>c. (of_char c :: nat) < 128) v) (UnicodeError ''ordinal not in range(128)'')) (\<lambda>_.
      bindE (urlsafe_b64decode (v @ padding (length v))) (\<lambda>bytes.
      bindE (json_loads bytes) (cursor_of_payload fromisoformat))))"

section \<open>The list endpoint\<close>

record case_list_text_response =
  lt_items :: "case_response list"
  lt_next_cursor :: "string option"

definition list_query_ok :: "int \<Rightarrow> string option \<Rightarrow> string option \<Rightarrow> string option \<Rightarrow> bool" where
  "list_query_ok limit cursor q severity =
     (1 \<le> limit \<and> limit \<le> 100 \<and> (case cursor of None \<Rightarrow> True | Some c \<Rightarrow> length c \<le> 512) \<and>
      (case q of None \<Rightarrow> True | Some t \<Rightarrow> length t \<le> 100) \<and>
      (case severity of None \<Rightarrow> True | Some s \<Rightarrow> s \<in> {''low'', ''medium'', ''high'', ''critical''}))"

definition list_cases_request ::
  "(byte list \<Rightarrow> exn + json) \<Rightarrow> (string \<Rightarrow> exn + datetime) \<Rightarrow> authenticated_principal \<Rightarrow> uuid list \<Rightarrow> int \<Rightarrow>
   string option \<Rightarrow> string option \<Rightarrow> case_state option \<Rightarrow> string option \<Rightarrow> db \<Rightarrow> exn + case_list_text_response \<times> db" where
  "list_cases_request json_loads fromisoformat p asset_ids limit cursor q state severity d =
     bindE (raise_unless (list_query_ok limit cursor q severity) validation_error) (\<lambda>_.
     bindE (require_case_read_access p) (\<lambda>_.
     bindE (case cursor of None \<Rightarrow> Inr None
       | Some c \<Rightarrow> bindE (parse_case_list_cursor json_loads fromisoformat c) (\<lambda>k. Inr (Some k))) (\<lambda>parsed_cursor.
     bindE (list_cases_endpoint p asset_ids limit parsed_cursor q state severity d) (\<lambda>(page, d'). Inr
       (\<lparr>lt_items = cl_items page, lt_next_cursor = map_option encode_case_list_cursor (cl_next_cursor page)\<rparr>, d')))))"

section \<open>Round trip\<close>

lemma b64_char_code: "v < 64 \<Longrightarrow> (of_char (b64_char v) :: nat) =
    (if v < 26 then v + 65 else if v < 52 then v + 71 else if v < 62 then v - 4 else if v = 62 then 45 else 95)"
  by (simp add: b64_char_def)

lemma sextet_b64_char: "v < 64 \<Longrightarrow> sextet (b64_char v) = Some v"
  unfolding sextet_def Let_def b64_char_code by auto

lemma b64_char_ascii: "v < 64 \<Longrightarrow> (of_char (b64_char v) :: nat) < 128"
  unfolding b64_char_code by auto

lemma b64_char_not_pad: "v < 64 \<Longrightarrow> b64_char v \<noteq> CHR ''=''"
proof
  assume v: "v < 64" and "b64_char v = CHR ''=''"
  then have "(of_char (b64_char v) :: nat) = 61" by simp
  then show False unfolding b64_char_code [OF v] by (auto split: if_splits)
qed

lemma sextets_bound: "list_all (\<lambda>x. x < 256) bs \<Longrightarrow> list_all (\<lambda>v. v < 64) (sextets bs)"
  by (induction bs rule: sextets.induct) auto

lemma a2b_data:
  assumes "v < 64"
  shows "a2b quad left pads (b64_char v # cs) =
     (if quad = 0 then a2b 1 v 0 cs
      else if quad = 1 then map_sum id ((#) (left * 4 + v div 16)) (a2b 2 (v mod 16) 0 cs)
      else if quad = 2 then map_sum id ((#) (left * 16 + v div 4)) (a2b 3 (v mod 4) 0 cs)
      else map_sum id ((#) (left * 64 + v)) (a2b 0 0 0 cs))"
  using sextet_b64_char [OF assms] b64_char_not_pad [OF assms] by simp

lemma a2b_pad:
  "a2b quad left pads (CHR ''='' # cs) =
     (if quad < 2 then a2b quad left pads cs else if 4 \<le> quad + Suc pads then Inr [] else a2b quad left (Suc pads) cs)"
  by simp

lemmas a2b_simps = a2b.simps(1) a2b_data a2b_pad

lemma padding_values: "padding 2 = ''==''" "padding 3 = ''=''" "padding (Suc (Suc 0)) = ''==''" "padding (Suc (Suc (Suc 0))) = ''=''"
  by (simp_all add: padding_def numeral_2_eq_2)

lemma a2b_sextets:
  assumes "list_all (\<lambda>x. x < 256) bs"
  shows "a2b 0 0 0 (map b64_char (sextets bs) @ padding (length (sextets bs))) = Inr bs"
  using assms
proof (induction bs rule: sextets.induct)
  case (2 a)
  then have "a div 4 < 64" "a mod 4 * 16 < 64" by auto
  then show ?case by (simp del: a2b.simps add: a2b_simps padding_values)
next
  case (3 a b)
  then have "a div 4 < 64" "a mod 4 * 16 + b div 16 < 64" "b mod 16 * 4 < 64" by auto
  moreover have "(a mod 4 * 16 + b div 16) div 16 = a mod 4" "(a mod 4 * 16 + b div 16) mod 16 = b div 16"
    using 3 by auto
  ultimately show ?case by (simp del: a2b.simps add: a2b_simps padding_values)
next
  case (4 a b c bs)
  then have "a div 4 < 64" "a mod 4 * 16 + b div 16 < 64" "b mod 16 * 4 + c div 64 < 64" "c mod 64 < 64" by auto
  moreover have "(a mod 4 * 16 + b div 16) div 16 = a mod 4" "(a mod 4 * 16 + b div 16) mod 16 = b div 16"
    "(b mod 16 * 4 + c div 64) div 4 = b mod 16" "(b mod 16 * 4 + c div 64) mod 4 = c div 64"
    using 4 by auto
  moreover have "padding (length (sextets (a # b # c # bs))) = padding (length (sextets bs))" by (simp add: padding_def)
  moreover have "a2b 0 0 0 (map b64_char (sextets bs) @ padding (length (sextets bs))) = Inr bs" using 4 by simp
  ultimately show ?case by (simp del: a2b.simps add: a2b_simps)
qed (simp add: padding_def)

lemma map_byte_of_unat: "map byte_of (map unat bs) = bs"
  by (induction bs) (simp_all add: byte_of_def)

lemma bytes_below: "list_all (\<lambda>x. x < 256) (map unat (bs :: byte list))"
proof -
  have "unat b < 256" for b :: byte using unsigned_less [of b] by simp
  then show ?thesis by (simp add: list_all_iff)
qed

lemma rstrip_pad:
  assumes "\<forall>c \<in> set s. \<not> p c" "list_all p t"
  shows "rstrip_of p (s @ t) = s"
proof -
  have "dropWhile p (rev t @ rev s) = dropWhile p (rev s)" using assms(2)
    by (intro dropWhile_append2) (simp add: list_all_iff)
  also have "dropWhile p (rev s) = rev s" using assms(1) by (cases "rev s") (auto simp: dropWhile_eq_self_iff)
  finally show ?thesis by (simp add: rstrip_of_def)
qed

lemma b64_text:
  fixes bs :: "byte list"
  defines "s \<equiv> map b64_char (sextets (map unat bs))"
  shows "rstrip_of (\<lambda>x. x = CHR ''='') (urlsafe_b64encode bs) = s"
    and "list_all (\<lambda>c. (of_char c :: nat) < 128) s"
    and "urlsafe_b64decode (s @ padding (length s)) = Inr bs"
proof -
  have v: "\<forall>v \<in> set (sextets (map unat bs)). v < 64"
    using sextets_bound [OF bytes_below [of bs]] by (simp add: list_all_iff)
  show "rstrip_of (\<lambda>x. x = CHR ''='') (urlsafe_b64encode bs) = s"
    unfolding urlsafe_b64encode_def Let_def s_def
    by (rule rstrip_pad) (use v b64_char_not_pad in \<open>auto simp: padding_def list_all_iff\<close>)
  show "list_all (\<lambda>c. (of_char c :: nat) < 128) s"
    using v b64_char_ascii by (auto simp: s_def list_all_iff)
  show "urlsafe_b64decode (s @ padding (length s)) = Inr bs"
    using a2b_sextets [OF bytes_below [of bs]] map_byte_of_unat [of bs] by (simp add: urlsafe_b64decode_def s_def)
qed

lemma parse_encoded_cursor:
  assumes "json_loads (bytes_of (json_canonical (cursor_payload c))) = Inr (cursor_payload c)"
    and "fromisoformat (isoformat (cur_updated_at c)) = Inr t"
    and "utcoffset t = Some 0" "instant t = instant (cur_updated_at c)"
  shows "parse_case_list_cursor json_loads fromisoformat (encode_case_list_cursor c) =
      Inr (c\<lparr>cur_updated_at := astimezone_utc (cur_updated_at c)\<rparr>)"
proof -
  have "cursor_of_payload fromisoformat (cursor_payload c) = Inr (c\<lparr>cur_updated_at := astimezone_utc (cur_updated_at c)\<rparr>)"
    using assms(2-4) by (simp add: cursor_of_payload_def cursor_payload_def has_cursor_members_def cursor_member_def
        datetime_of_json_def uuid_of_json_def astimezone_utc_def insert_commute)
  then show ?thesis
    using assms(1) b64_text [of "bytes_of (json_canonical (cursor_payload c))"]
    by (simp add: parse_case_list_cursor_def encode_case_list_cursor_def)
qed

definition demo_cursor :: case_list_cursor where
  "demo_cursor = \<lparr>cur_updated_at = utc_at 0, cur_case_id = 1\<rparr>"

lemma epoch_text: "isoformat (utc_at 0) = ''1970-01-01T00:00:00+00:00''"
proof -
  have "year_at 719162 1971 = 1970"
    using year_at.simps(2) [of 719162 1970] year_at.simps(2) [of 719162 1969] by (simp add: days_before_year_def)
  then have day: "civil 719162 = (1970, 1, 1)"
    by (simp add: civil_def Let_def days_before_year_def month_lengths_def)
  have pads: "zero_pad 4 1970 = ''1970''" "zero_pad 2 (Suc 0) = ''01''" "zero_pad 2 0 = ''00''" by code_simp+
  have "offset_text 0 = ''+00:00''" "clock_text 0 = ''00:00:00''"
    by (simp_all add: offset_text_def clock_text_def micros_suffix_def pads)
  moreover have "wall_us (utc_at 0) = 0" "utcoffset (utc_at 0) = Some 0" by (simp_all add: utc_at_def utcoffset_def)
  ultimately show ?thesis using day pads by (simp add: isoformat_def)
qed

lemma length_sextets: "length (sextets xs) \<le> 2 * length xs"
  by (induction xs rule: sextets.induct) auto

lemma demo_cursor_fits: "length (encode_case_list_cursor demo_cursor) \<le> 512"
proof -
  have one: "uuid_str 1 = ''00000000-0000-0000-0000-000000000001''" by code_simp
  have "length (json_canonical (JObj [(''case_id'', JStr ''00000000-0000-0000-0000-000000000001''),
      (''updated_at'', JStr ''1970-01-01T00:00:00+00:00'')])) = 91" by code_simp
  then have "length (json_canonical (cursor_payload demo_cursor)) = 91"
    by (simp add: cursor_payload_def demo_cursor_def epoch_text one)
  then show ?thesis
    using length_sextets [of "map unat (bytes_of (json_canonical (cursor_payload demo_cursor)))"]
    by (simp add: encode_case_list_cursor_def b64_text bytes_of_def)
qed

text \<open>
  C36. A page can be followed through the text of its cursor: when \<open>json.loads\<close> inverts \<open>json.dumps\<close> on the
  payload and \<open>fromisoformat\<close> gives back the instant \<open>isoformat\<close> wrote, a request with the
  \<open>next_cursor\<close> text of a page is answered exactly as the listing with the position that text stands for.
\<close>

theorem cursor_roundtrip:
  assumes "json_loads (bytes_of (json_canonical (cursor_payload c))) = Inr (cursor_payload c)"
    and "fromisoformat (isoformat (cur_updated_at c)) = Inr t"
    and "utcoffset t = Some 0" "instant t = instant (cur_updated_at c)"
    and "list_query_ok limit (Some (encode_case_list_cursor c)) q severity"
  shows "list_cases_request json_loads fromisoformat p asset_ids limit (Some (encode_case_list_cursor c)) q state severity d =
      bindE (list_cases_endpoint p asset_ids limit (Some (c\<lparr>cur_updated_at := astimezone_utc (cur_updated_at c)\<rparr>))
          q state severity d) (\<lambda>(page, d'). Inr
        (\<lparr>lt_items = cl_items page, lt_next_cursor = map_option encode_case_list_cursor (cl_next_cursor page)\<rparr>, d'))"
  using assms(5) parse_encoded_cursor [where json_loads = json_loads and fromisoformat = fromisoformat and c = c and t = t]
    assms(1-4)
  by (cases "require_case_read_access p") (simp_all add: list_cases_request_def list_cases_endpoint_def)

theorem cursor_roundtrip_witness:
  "\<forall>p d. list_cases_request (\<lambda>_. Inr (cursor_payload demo_cursor)) (\<lambda>_. Inr (utc_at 0)) p [] 50
      (Some (encode_case_list_cursor demo_cursor)) None None None d =
    bindE (list_cases_endpoint p [] 50 (Some demo_cursor) None None None d) (\<lambda>(page, d'). Inr
      (\<lparr>lt_items = cl_items page, lt_next_cursor = map_option encode_case_list_cursor (cl_next_cursor page)\<rparr>, d'))"
proof (intro allI)
  fix p d
  have "list_query_ok 50 (Some (encode_case_list_cursor demo_cursor)) None None"
    using demo_cursor_fits by (simp add: list_query_ok_def)
  from cursor_roundtrip [OF _ _ _ _ this, of "\<lambda>_. Inr (cursor_payload demo_cursor)" "\<lambda>_. Inr (utc_at 0)" "utc_at 0" p "[]" None d]
  show "list_cases_request (\<lambda>_. Inr (cursor_payload demo_cursor)) (\<lambda>_. Inr (utc_at 0)) p [] 50
      (Some (encode_case_list_cursor demo_cursor)) None None None d =
    bindE (list_cases_endpoint p [] 50 (Some demo_cursor) None None None d) (\<lambda>(page, d'). Inr
      (\<lparr>lt_items = cl_items page, lt_next_cursor = map_option encode_case_list_cursor (cl_next_cursor page)\<rparr>, d'))"
    by (simp add: demo_cursor_def astimezone_utc_def utc_at_def instant_def utcoffset_def)
qed

text \<open>\<open>UUID(5)\<close> raises \<open>AttributeError\<close>, which no clause of the parser catches.\<close>

theorem numeric_case_id_is_a_server_error:
  assumes "json_loads bytes = Inr (JObj [(''case_id'', JInt i), (''updated_at'', JStr time)])"
    and "fromisoformat time = Inr t" "utcoffset t = Some 0"
  shows "parse_case_list_cursor json_loads fromisoformat (rstrip_of (\<lambda>x. x = CHR ''='') (urlsafe_b64encode bytes)) =
    Inl (AttributeError ''replace'')"
  using assms b64_text [of bytes]
  by (simp add: parse_case_list_cursor_def cursor_of_payload_def has_cursor_members_def cursor_member_def
      datetime_of_json_def uuid_of_json_def cursor_failure_def insert_commute)

end
