(* ===== verification/Url_Text.thy ===== *)
theory Url_Text
  imports Cursor_Codec
begin

text \<open>
  The part of \<open>urllib.parse\<close> the program uses: \<open>urlparse\<close>, the way CPython 3.12 splits a text (a text of
  Latin-1 characters never fails its NFKC check of the host), and \<open>urlencode\<close>. Whether a host in brackets is an
  address is asked of \<open>ipaddress\<close>, an argument.
\<close>

section \<open>\<open>urlparse\<close>\<close>

record parse_result =
  url_scheme :: string
  url_netloc :: string
  url_path :: string
  url_params :: string
  url_query :: string
  url_fragment :: string

text \<open>\<open>s.split(c, 1)\<close>, with an empty second part where \<open>c\<close> is absent.\<close>

definition cut :: "char \<Rightarrow> string \<Rightarrow> string \<times> string" where
  "cut c s = (takeWhile (\<lambda>x. x \<noteq> c) s, drop 1 (dropWhile (\<lambda>x. x \<noteq> c) s))"

definition c0_control_or_space :: "char \<Rightarrow> bool" where
  "c0_control_or_space c = ((of_char c :: nat) \<le> 32)"

definition unsafe_url_char :: "char \<Rightarrow> bool" where
  "unsafe_url_char c = (let n = (of_char c :: nat) in n = 9 \<or> n = 10 \<or> n = 13)"

definition ascii_alpha :: "char \<Rightarrow> bool" where
  "ascii_alpha c = (ascii_lower c \<or> ascii_upper c)"

definition scheme_char :: "char \<Rightarrow> bool" where
  "scheme_char c = (ascii_alpha c \<or> ascii_digit c \<or> c \<in> set ''+-.'')"

text \<open>The text before the first colon is a scheme if it starts with a letter and has scheme characters only.\<close>

definition split_scheme :: "string \<Rightarrow> string \<times> string" where
  "split_scheme url = (let (s, rest) = cut (CHR '':'') url in
     if CHR '':'' \<in> set url \<and> s \<noteq> [] \<and> ascii_alpha (hd s) \<and> list_all scheme_char s then (str_lower s, rest)
     else ([], url))"

definition netloc_end :: "char \<Rightarrow> bool" where
  "netloc_end c = (c \<in> set ''/?#'')"

definition split_netloc :: "string \<Rightarrow> string \<times> string" where
  "split_netloc url =
     (if startswith url ''//'' then let u = drop 2 url in (takeWhile (Not \<circ> netloc_end) u, dropWhile (Not \<circ> netloc_end) u)
      else ([], url))"

definition bracketed_host :: "string \<Rightarrow> string" where
  "bracketed_host host = fst (cut (CHR '']'') (snd (cut (CHR ''['') host)))"

definition check_brackets :: "(string \<Rightarrow> bool) \<Rightarrow> string \<Rightarrow> exn + unit" where
  "check_brackets bracketed_ok host = (let opens = CHR ''['' \<in> set host; closes = CHR '']'' \<in> set host in
     if opens \<noteq> closes then Inl (ValueError ''Invalid IPv6 URL'')
     else if opens \<and> \<not> bracketed_ok (bracketed_host host) then Inl (ValueError ''not an IPv6 address'')
     else Inr ())"

text \<open>The parameters follow the first semicolon of the last segment.\<close>

definition split_params :: "string \<Rightarrow> string \<times> string" where
  "split_params url = (let segment = rev (takeWhile (\<lambda>x. x \<noteq> CHR ''/'') (rev url)) in
     (take (length url - length segment) url @ fst (cut (CHR '';'') segment), snd (cut (CHR '';'') segment)))"

definition uses_params :: "string list" where
  "uses_params = [[], ''ftp'', ''hdl'', ''prospero'', ''http'', ''https'', ''shttp'', ''rtsp'', ''rtsps'', ''rtspu'',
     ''sip'', ''sips'', ''mms'', ''sftp'', ''tel'']"

definition urlparse :: "(string \<Rightarrow> bool) \<Rightarrow> string \<Rightarrow> exn + parse_result" where
  "urlparse bracketed_ok v =
     (let (s, rest) = split_scheme (filter (Not \<circ> unsafe_url_char) (dropWhile c0_control_or_space v));
          (host, rest) = split_netloc rest;
          (rest, frag) = cut (CHR ''#'') rest;
          (rest, q) = cut (CHR ''?'') rest;
          (p, ps) = (if s \<in> set uses_params then split_params rest else (rest, []))
      in bindE (check_brackets bracketed_ok host) (\<lambda>_. Inr
           \<lparr>url_scheme = s, url_netloc = host, url_path = p, url_params = ps, url_query = q, url_fragment = frag\<rparr>))"

section \<open>\<open>urlencode\<close>\<close>

definition upper_hex :: "nat \<Rightarrow> char" where
  "upper_hex v = char_of (if v < 10 then v + 48 else v + 55)"

definition unreserved :: "char \<Rightarrow> bool" where
  "unreserved c = (ascii_alpha c \<or> ascii_digit c \<or> c \<in> set ''_.-~'')"

text \<open>\<open>quote_plus\<close>\<close>

definition quote_char :: "char \<Rightarrow> string" where
  "quote_char c =
     (if c = CHR '' '' then ''+'' else if unreserved c then [c]
      else concat (map (\<lambda>b. [CHR ''%'', upper_hex (unat b div 16), upper_hex (unat b mod 16)]) (utf8_char c)))"

definition quote_plus :: "string \<Rightarrow> string" where
  "quote_plus s = concat (map quote_char s)"

definition urlencode :: "(string \<times> string) list \<Rightarrow> string" where
  "urlencode kvs = join ''&'' (map (\<lambda>(k, v). quote_plus k @ ''='' @ quote_plus v) kvs)"

section \<open>Trailing slashes\<close>

text \<open>Taking the slashes off the end of a URL leaves its scheme and host, and an empty path or fragment empty.\<close>

abbreviation slashes :: "nat \<Rightarrow> string" where
  "slashes n \<equiv> replicate n (CHR ''/'')"

lemma cut_append: "c \<in> set x \<Longrightarrow> cut c (x @ y) = (fst (cut c x), snd (cut c x) @ y)"
proof -
  assume c: "c \<in> set x"
  then have "dropWhile (\<lambda>z. z \<noteq> c) x \<noteq> []" by (auto simp: dropWhile_eq_Nil_conv)
  then show ?thesis using c by (cases "dropWhile (\<lambda>z. z \<noteq> c) x") (auto simp: cut_def)
qed

lemma cut_slashes: "c \<noteq> CHR ''/'' \<Longrightarrow> c \<notin> set x \<Longrightarrow> cut c (x @ slashes n) = (x @ slashes n, [])"
  by (simp add: cut_def takeWhile_append dropWhile_append)

lemma cut_absent: "c \<notin> set x \<Longrightarrow> cut c x = (x, [])"
  by (auto simp: cut_def takeWhile_eq_all_conv dropWhile_eq_Nil_conv intro!: arg_cong [where f = "drop 1" and y = "[]", simplified])

lemma split_scheme_slashes:
  "fst (split_scheme (x @ slashes n)) \<noteq> [] \<Longrightarrow> split_scheme (x @ slashes n) = (fst (split_scheme x), snd (split_scheme x) @ slashes n) \<and> fst (split_scheme x) \<noteq> []"
proof -
  assume a: "fst (split_scheme (x @ slashes n)) \<noteq> []"
  then have "CHR '':'' \<in> set x" by (auto simp: split_scheme_def Let_def cut_def split: if_splits)
  then show ?thesis using a cut_append [of "CHR '':''" x "slashes n"]
    by (auto simp: split_scheme_def Let_def split: if_splits prod.splits)
qed

lemma split_netloc_slashes:
  "fst (split_netloc (x @ slashes n)) \<noteq> [] \<Longrightarrow>
   split_netloc (x @ slashes n) = (fst (split_netloc x), snd (split_netloc x) @ slashes n) \<and> fst (split_netloc x) \<noteq> []"
proof -
  assume a: "fst (split_netloc (x @ slashes n)) \<noteq> []"
  then have s: "startswith (x @ slashes n) ''//''" by (auto simp: split_netloc_def split: if_splits)
  obtain y where x: "x = ''//'' @ y"
  proof (cases x)
    case Nil
    then have "fst (split_netloc (x @ slashes n)) = []" by (cases n; cases "n - 1") (auto simp: split_netloc_def Let_def netloc_end_def)
    with a show ?thesis by simp
  next
    case (Cons c cs)
    note c = this
    show ?thesis
    proof (cases cs)
      case Nil
      with c s have "fst (split_netloc (x @ slashes n)) = []"
        by (cases n; cases "n - 1") (auto simp: split_netloc_def Let_def netloc_end_def startswith_def)
      with a show ?thesis by simp
    next
      case (Cons d ds)
      with c s have "x = ''//'' @ ds" by (auto simp: startswith_def)
      then show ?thesis by (rule that)
    qed
  qed
  have "takeWhile (Not \<circ> netloc_end) (y @ slashes n) = takeWhile (Not \<circ> netloc_end) y"
    "dropWhile (Not \<circ> netloc_end) (y @ slashes n) = dropWhile (Not \<circ> netloc_end) y @ slashes n"
    by (induction y) (cases n; simp add: netloc_end_def)+
  then show ?thesis using a by (auto simp: split_netloc_def Let_def x startswith_def)
qed

definition clean_url :: "string \<Rightarrow> string" where
  "clean_url v = filter (Not \<circ> unsafe_url_char) (dropWhile c0_control_or_space v)"

lemma clean_slashes: "\<not> list_all c0_control_or_space x \<Longrightarrow> clean_url (x @ slashes n) = clean_url x @ slashes n"
  by (auto simp: clean_url_def list_all_iff unsafe_url_char_def)

lemma cut_hash_slashes:
  "snd (cut c (x @ slashes n)) = [] \<Longrightarrow> c \<noteq> CHR ''/'' \<Longrightarrow> snd (cut c x) = []"
  by (cases "c \<in> set x") (simp_all add: cut_append cut_absent)

lemma scheme_not_control:
  assumes "fst (split_scheme (clean_url (x @ slashes n))) \<noteq> []"
  shows "\<not> list_all c0_control_or_space x"
proof
  assume x: "list_all c0_control_or_space x"
  have "dropWhile c0_control_or_space (x @ slashes n) = slashes n"
    using x by (cases n) (simp_all add: dropWhile_append2 list_all_iff c0_control_or_space_def)
  then have "clean_url (x @ slashes n) = slashes n" by (simp add: clean_url_def unsafe_url_char_def)
  then show False using assms by (auto simp: split_scheme_def Let_def split: if_splits)
qed

definition path_of :: "string \<Rightarrow> string \<Rightarrow> string" where
  "path_of s rest = (let rest = fst (cut (CHR ''?'') (fst (cut (CHR ''#'') rest)))
     in if s \<in> set uses_params then fst (split_params rest) else rest)"

lemma split_params_slash: "split_params (x @ slashes (Suc n)) = (x @ slashes (Suc n), [])"
proof -
  have "takeWhile (\<lambda>c. c \<noteq> CHR ''/'') (slashes (Suc n) @ rev x) = []" by simp
  moreover have "rev (x @ slashes (Suc n)) = slashes (Suc n) @ rev x" by (simp del: replicate.simps)
  ultimately show ?thesis by (simp add: split_params_def cut_def del: replicate.simps)
qed

lemma path_slashes:
  assumes "path_of s (x @ slashes n) \<in> {[], ''/''}"
  shows "path_of s x \<in> {[], ''/''}"
proof (cases "n = 0 \<or> CHR ''#'' \<in> set x \<or> CHR ''?'' \<in> set x")
  case True
  have "path_of s (x @ slashes n) = path_of s x"
  proof (cases "CHR ''#'' \<in> set x")
    case False
    then show ?thesis using True
      by (auto simp: path_of_def cut_append cut_slashes cut_absent Let_def)
  qed (simp add: path_of_def cut_append)
  then show ?thesis using assms by simp
next
  case False
  then obtain k where n: "n = Suc k" by (cases n) auto
  have "path_of s (x @ slashes n) = x @ slashes n"
    using False by (simp add: path_of_def cut_slashes n split_params_slash Let_def del: replicate.simps)
  then have "x = []" using assms n by (cases x) auto
  then show ?thesis by (simp add: path_of_def cut_def split_params_def)
qed

lemma urlparse_slashes:
  assumes "urlparse b (x @ slashes n) = Inr r" "url_scheme r \<noteq> []" "url_netloc r \<noteq> []"
  shows "\<exists>r'. urlparse b x = Inr r' \<and> url_scheme r' = url_scheme r \<and> url_netloc r' = url_netloc r \<and>
    (url_fragment r = [] \<longrightarrow> url_fragment r' = []) \<and> (url_path r \<in> {[], ''/''} \<longrightarrow> url_path r' \<in> {[], ''/''})"
proof -
  have "fst (split_scheme (clean_url (x @ slashes n))) \<noteq> []"
    using assms by (auto simp: urlparse_def clean_url_def Let_def result_simps split: prod.splits)
  then have clean: "clean_url (x @ slashes n) = clean_url x @ slashes n"
    by (rule clean_slashes [OF scheme_not_control])
  let ?s = "split_scheme (clean_url x)"
  have s: "split_scheme (clean_url x @ slashes n) = (fst ?s, snd ?s @ slashes n)"
    using \<open>fst (split_scheme (clean_url (x @ slashes n))) \<noteq> []\<close> split_scheme_slashes [of "clean_url x" n] by (simp add: clean)
  let ?h = "split_netloc (snd ?s)"
  have "fst (split_netloc (snd ?s @ slashes n)) \<noteq> []"
    using assms s by (auto simp: urlparse_def clean_url_def [symmetric] clean Let_def result_simps split: prod.splits)
  then have h: "split_netloc (snd ?s @ slashes n) = (fst ?h, snd ?h @ slashes n)"
    using split_netloc_slashes [of "snd ?s" n] by simp
  show ?thesis
    using assms(1) cut_hash_slashes [of "CHR ''#''" "snd ?h" n] path_slashes [of "fst ?s" "snd ?h" n]
    by (auto simp: path_of_def urlparse_def clean_url_def [symmetric] clean s h Let_def case_prod_beta result_simps)
qed

end
