(* ===== verification/Api_Settings.thy ===== *)
theory Api_Settings
  imports Url_Text Access_Control Artifact_Store Request_Guards
begin

text \<open>
  The settings of the API (\<open>core/config.py\<close>): the records, their bounds and validators, and the cache of
  \<open>get_settings\<close>. A raw value is a record of the same type, as the environment gives it after conversion; a
  rejected one raises, and an accepted one is returned as the validators rewrite it.
\<close>

section \<open>Endpoints\<close>

datatype api_environment = Local | Test | Staging | Production

fun api_environment_value :: "api_environment \<Rightarrow> string" where
  "api_environment_value Local = ''local''"
| "api_environment_value Test = ''test''"
| "api_environment_value Staging = ''staging''"
| "api_environment_value Production = ''production''"

record service_endpoint =
  se_host :: string
  se_port :: int

definition validation_failed :: "string \<Rightarrow> exn" where
  "validation_failed field_name = ValueError field_name"

definition mk_service_endpoint :: "service_endpoint \<Rightarrow> exn + service_endpoint" where
  "mk_service_endpoint e =
     bindE (raise_unless (se_host e \<noteq> []) (validation_failed ''host'')) (\<lambda>_.
     bindE (raise_unless (1 \<le> se_port e \<and> se_port e \<le> 65535) (validation_failed ''port'')) (\<lambda>_. Inr e))"

record dependency_endpoints =
  de_postgres :: service_endpoint
  de_redis :: service_endpoint
  de_minio :: service_endpoint
  de_temporal :: service_endpoint
  de_keycloak :: service_endpoint

definition default_endpoints :: dependency_endpoints where
  "default_endpoints =
     \<lparr>de_postgres = \<lparr>se_host = ''postgres'', se_port = 5432\<rparr>, de_redis = \<lparr>se_host = ''redis'', se_port = 6379\<rparr>,
      de_minio = \<lparr>se_host = ''minio'', se_port = 9000\<rparr>, de_temporal = \<lparr>se_host = ''temporal'', se_port = 7233\<rparr>,
      de_keycloak = \<lparr>se_host = ''keycloak'', se_port = 8080\<rparr>\<rparr>"

definition mk_dependency_endpoints :: "dependency_endpoints \<Rightarrow> exn + dependency_endpoints" where
  "mk_dependency_endpoints d =
     bindE (traverseE mk_service_endpoint [de_postgres d, de_redis d, de_minio d, de_temporal d, de_keycloak d])
       (\<lambda>_. Inr d)"

section \<open>Authentication\<close>

definition default_auth_settings :: auth_settings where
  "default_auth_settings =
     \<lparr>as_issuer = ''http://localhost:8080/realms/netops-dev'', as_audience = ''netops-api'',
      as_jwks_url = ''http://keycloak:8080/realms/netops-dev/protocol/openid-connect/certs'',
      as_allowed_algorithms = [''RS256''], as_clock_skew_seconds = 30, as_organization_claim = ''organization_id'',
      as_asset_ids_claim = ''asset_ids''\<rparr>"

definition rstrip_slash :: "string \<Rightarrow> string" where
  "rstrip_slash v = rstrip_of (\<lambda>c. c = CHR ''/'') v"

definition require_http_url :: "(string \<Rightarrow> bool) \<Rightarrow> string \<Rightarrow> exn + string" where
  "require_http_url bracketed_ok v =
     bindE (urlparse bracketed_ok v) (\<lambda>parsed.
     bindE (raise_unless (url_scheme parsed \<in> {''http'', ''https''} \<and> url_netloc parsed \<noteq> [] \<and> url_fragment parsed = [])
       (ValueError ''must be an absolute HTTP(S) URL without a fragment'')) (\<lambda>_. Inr (rstrip_slash v)))"

definition mk_auth_settings :: "(string \<Rightarrow> bool) \<Rightarrow> auth_settings \<Rightarrow> exn + auth_settings" where
  "mk_auth_settings bracketed_ok a =
     bindE (require_http_url bracketed_ok (as_issuer a)) (\<lambda>issuer.
     bindE (require_http_url bracketed_ok (as_jwks_url a)) (\<lambda>jwks_url.
     bindE (require_supported_asymmetric_algorithms (as_allowed_algorithms a)) (\<lambda>_.
     bindE (raise_unless (0 \<le> as_clock_skew_seconds a \<and> as_clock_skew_seconds a \<le> 300)
       (validation_failed ''clock_skew_seconds'')) (\<lambda>_.
     bindE (require_claim_name (as_organization_claim a)) (\<lambda>_.
     bindE (require_claim_name (as_asset_ids_claim a)) (\<lambda>_. Inr
       (a\<lparr>as_issuer := issuer, as_jwks_url := jwks_url\<rparr>)))))))"

section \<open>The artifact store\<close>

definition default_artifact_store_settings :: artifact_store_settings where
  "default_artifact_store_settings =
     \<lparr>as_enabled = False, as_bucket = ''netops-artifacts'', as_presign_ttl_seconds = 300,
      as_public_endpoint_url = ''http://localhost:9000'', as_access_key_id = None, as_secret_access_key = None\<rparr>"

definition bucket_alnum :: "char \<Rightarrow> bool" where
  "bucket_alnum c = (ascii_lower c \<or> ascii_digit c)"

text \<open>\<open>re.fullmatch(r"[a-z0-9](?:[a-z0-9-]{1,61}[a-z0-9])?", v)\<close>\<close>

definition bucket_pattern :: "string \<Rightarrow> bool" where
  "bucket_pattern v = (case v of
     [] \<Rightarrow> False
   | c # cs \<Rightarrow> bucket_alnum c \<and> (cs = [] \<or>
       2 \<le> length cs \<and> length cs \<le> 62 \<and> list_all (\<lambda>x. bucket_alnum x \<or> x = CHR ''-'') (butlast cs) \<and>
       bucket_alnum (last cs)))"

definition require_safe_bucket_name :: "string \<Rightarrow> exn + string" where
  "require_safe_bucket_name v =
     (let normalized = strip v in
      if normalized = [] \<or> normalized \<noteq> v
      then Inl (ValueError ''must not be blank or contain leading/trailing whitespace'')
      else if \<not> bucket_pattern normalized
      then Inl (ValueError ''must be a 3 to 63 character lowercase DNS-compatible bucket name'')
      else Inr normalized)"

definition require_public_http_url :: "(string \<Rightarrow> bool) \<Rightarrow> string \<Rightarrow> exn + string" where
  "require_public_http_url bracketed_ok v =
     bindE (urlparse bracketed_ok v) (\<lambda>parsed.
     bindE (raise_unless (url_scheme parsed \<in> {''http'', ''https''} \<and> url_netloc parsed \<noteq> [] \<and> url_path parsed \<in> {[], ''/''})
       (ValueError ''must be an absolute HTTP(S) origin without a path'')) (\<lambda>_. Inr (rstrip_slash v)))"

definition mk_artifact_store_settings ::
  "(string \<Rightarrow> bool) \<Rightarrow> artifact_store_settings \<Rightarrow> exn + artifact_store_settings" where
  "mk_artifact_store_settings bracketed_ok a =
     bindE (raise_unless (3 \<le> length (as_bucket a) \<and> length (as_bucket a) \<le> 63) (validation_failed ''bucket'')) (\<lambda>_.
     bindE (require_safe_bucket_name (as_bucket a)) (\<lambda>bucket.
     bindE (raise_unless (30 \<le> as_presign_ttl_seconds a \<and> as_presign_ttl_seconds a \<le> 900)
       (validation_failed ''presign_ttl_seconds'')) (\<lambda>_.
     bindE (require_public_http_url bracketed_ok (as_public_endpoint_url a)) (\<lambda>url. Inr
       (a\<lparr>as_bucket := bucket, as_public_endpoint_url := url\<rparr>)))))"

section \<open>The settings\<close>

record api_settings =
  st_environment :: api_environment
  st_service_name :: string
  st_api_version :: string
  st_host :: string
  st_port :: int
  st_reload :: bool
  st_docs_enabled :: bool
  st_log_level :: string
  st_otel_traces_enabled :: bool
  st_otel_exporter_otlp_endpoint :: "string option"
  st_sentry_dsn :: "string option"
  st_sentry_traces_sample_rate :: rat
  st_rate_limit_enabled :: bool
  st_rate_limit_requests :: int
  st_rate_limit_window_seconds :: int
  st_database_url :: "string option"
  st_dependencies :: dependency_endpoints
  st_auth :: auth_settings
  st_artifact_store :: artifact_store_settings

definition default_api_settings :: api_settings where
  "default_api_settings =
     \<lparr>st_environment = Local, st_service_name = ''netops-api'', st_api_version = ''0.1.0'', st_host = ''0.0.0.0'',
      st_port = 8000, st_reload = False, st_docs_enabled = True, st_log_level = ''INFO'',
      st_otel_traces_enabled = True, st_otel_exporter_otlp_endpoint = None, st_sentry_dsn = None,
      st_sentry_traces_sample_rate = 0, st_rate_limit_enabled = True, st_rate_limit_requests = 120,
      st_rate_limit_window_seconds = 60, st_database_url = None, st_dependencies = default_endpoints,
      st_auth = default_auth_settings, st_artifact_store = default_artifact_store_settings\<rparr>"

definition log_levels :: "string list" where
  "log_levels = [''DEBUG'', ''INFO'', ''WARNING'', ''ERROR'', ''CRITICAL'']"

definition settings_bounds_ok :: "api_settings \<Rightarrow> bool" where
  "settings_bounds_ok s =
     (1 \<le> st_port s \<and> st_port s \<le> 65535 \<and> st_log_level s \<in> set log_levels \<and>
      0 \<le> st_sentry_traces_sample_rate s \<and> st_sentry_traces_sample_rate s \<le> 1 \<and>
      1 \<le> st_rate_limit_requests s \<and> st_rate_limit_requests s \<le> 10000 \<and>
      1 \<le> st_rate_limit_window_seconds s \<and> st_rate_limit_window_seconds s \<le> 3600)"

definition mk_api_settings :: "(string \<Rightarrow> bool) \<Rightarrow> api_settings \<Rightarrow> exn + api_settings" where
  "mk_api_settings bracketed_ok s =
     bindE (raise_unless (settings_bounds_ok s) (validation_failed ''Settings'')) (\<lambda>_.
     bindE (mk_dependency_endpoints (st_dependencies s)) (\<lambda>_.
     bindE (mk_auth_settings bracketed_ok (st_auth s)) (\<lambda>auth.
     bindE (mk_artifact_store_settings bracketed_ok (st_artifact_store s)) (\<lambda>artifact_store. Inr
       (s\<lparr>st_auth := auth, st_artifact_store := artifact_store\<rparr>)))))"

text \<open>\<open>lru_cache(maxsize=1)\<close>: the first result is kept, an exception is not.\<close>

definition get_settings :: "(string \<Rightarrow> bool) \<Rightarrow> api_settings \<Rightarrow> (api_settings option, exn, api_settings) action" where
  "get_settings bracketed_ok environment cache = (case cache of
     Some s \<Rightarrow> (Inr s, cache)
   | None \<Rightarrow> (case mk_api_settings bracketed_ok environment of
       Inl e \<Rightarrow> (Inl e, None) | Inr s \<Rightarrow> (Inr s, Some s)))"

end
