(* ===== verification/Api_Process.thy ===== *)
theory Api_Process
  imports Api_Settings Observability
begin

text \<open>
  How the API process is put together: \<open>build_dependencies\<close> of \<open>core/dependencies.py\<close>, \<open>create_app\<close> of
  \<open>main.py\<close> with its lifespan, and the two optional reporters. \<open>boto3.client\<close>, \<open>create_engine\<close> and the
  installed packages are arguments.
\<close>

section \<open>The container\<close>

record token_verifier =
  tv_settings :: auth_settings
  tv_jwks_url :: string
  tv_resolver :: jwks_resolver



record 'client minio_store =
  ms_client :: 'client
  ms_head_client :: 'client
  ms_settings :: artifact_store_settings

record ('client, 'engine) application_dependencies =
  ad_settings :: api_settings
  ad_token_verifier :: token_verifier
  ad_database :: "'engine option"
  ad_artifact_store :: "'client minio_store option"






section \<open>The limiter of the middleware\<close>


section \<open>Reporters\<close>





section \<open>The application\<close>



definition root_response :: "api_settings \<Rightarrow> json" where
  "root_response s = JObj [(''service'', JStr (st_service_name s)), (''version'', JStr (st_api_version s))]"

text \<open>The lifespan: what is logged, and whether the pool is disposed of, when the server stops.\<close>

definition lifespan_events :: "('client, 'engine) application_dependencies \<Rightarrow> string list" where
  "lifespan_events d =
     [''application_started''] @ (if ad_database d \<noteq> None then [''dispose''] else []) @ [''application_stopped'']"

section \<open>Accepted settings\<close>

lemma rstrip_slash_last: "rstrip_slash v \<noteq> [] \<Longrightarrow> last (rstrip_slash v) \<noteq> CHR ''/''"
proof -
  assume "rstrip_slash v \<noteq> []"
  then have d: "dropWhile (\<lambda>c. c = CHR ''/'') (rev v) \<noteq> []" by (simp add: rstrip_slash_def rstrip_of_def)
  show ?thesis using hd_dropWhile [OF d] by (simp add: rstrip_slash_def rstrip_of_def last_rev)
qed

lemma require_http_url_accepts: "require_http_url bracketed_ok v = Inr u \<Longrightarrow> u = rstrip_slash v"
  by (auto simp: require_http_url_def result_simps)

lemma require_safe_bucket_name_accepts: "require_safe_bucket_name v = Inr u \<Longrightarrow> u = v \<and> bucket_pattern u"
  by (auto simp: require_safe_bucket_name_def Let_def split: if_splits)


lemma mk_artifact_store_settings_accepts:
  assumes "mk_artifact_store_settings bracketed_ok a = Inr b"
  shows "bucket_pattern (as_bucket b)" "3 \<le> length (as_bucket b)" "length (as_bucket b) \<le> 63"
    "30 \<le> as_presign_ttl_seconds b" "as_presign_ttl_seconds b \<le> 900"
    "as_enabled b = as_enabled a" "as_bucket b = as_bucket a"
  using assms by (auto simp: mk_artifact_store_settings_def result_simps dest!: require_safe_bucket_name_accepts)

lemma mk_api_settings_accepts:
  assumes "mk_api_settings bracketed_ok raw = Inr s"
  obtains auth store where "s = raw\<lparr>st_auth := auth, st_artifact_store := store\<rparr>" "settings_bounds_ok raw"
    "mk_auth_settings bracketed_ok (st_auth raw) = Inr auth"
    "mk_artifact_store_settings bracketed_ok (st_artifact_store raw) = Inr store"
  using assms by (auto simp: mk_api_settings_def result_simps)

lemma rstrip_slash_split: "\<exists>n. v = rstrip_slash v @ slashes n"
proof -
  have "rev v = takeWhile (\<lambda>c. c = CHR ''/'') (rev v) @ rev (rstrip_slash v)"
    by (simp add: rstrip_slash_def rstrip_of_def)
  moreover have "takeWhile (\<lambda>c. c = CHR ''/'') (rev v) = slashes (length (takeWhile (\<lambda>c. c = CHR ''/'') (rev v)))"
    by (rule replicate_eqI [symmetric, THEN sym]) (auto dest: set_takeWhileD)
  ultimately show ?thesis by (metis rev_append rev_replicate rev_rev_ident)
qed

lemma rstrip_slash_idem: "rstrip_slash (rstrip_slash v) = rstrip_slash v"
  by (simp add: rstrip_slash_def rstrip_of_def)

lemma require_http_url_stable:
  assumes "require_http_url b v = Inr u"
  shows "require_http_url b u = Inr u"
proof -
  obtain n where v: "v = rstrip_slash v @ slashes n" using rstrip_slash_split by blast
  have u: "u = rstrip_slash v" using assms by (rule require_http_url_accepts)
  from assms obtain r where "urlparse b v = Inr r" and r: "url_scheme r \<in> {''http'', ''https''}" "url_netloc r \<noteq> []" "url_fragment r = []"
    by (auto simp: require_http_url_def result_simps)
  then have "urlparse b (u @ slashes n) = Inr r" using u v by simp
  from urlparse_slashes [OF this] r obtain r' where "urlparse b u = Inr r'" "url_scheme r' = url_scheme r"
    "url_netloc r' = url_netloc r" "url_fragment r' = []" by auto
  then show ?thesis using r by (simp add: require_http_url_def u rstrip_slash_idem)
qed
lemma require_public_http_url_stable:
  assumes "require_public_http_url b v = Inr u"
  shows "require_public_http_url b u = Inr u"
proof -
  obtain n where v: "v = rstrip_slash v @ slashes n" using rstrip_slash_split by blast
  from assms obtain r where "urlparse b v = Inr r" and r: "url_scheme r \<in> {''http'', ''https''}" "url_netloc r \<noteq> []"
    "url_path r \<in> {[], ''/''}" and u: "u = rstrip_slash v"
    by (auto simp: require_public_http_url_def result_simps)
  then have "urlparse b (u @ slashes n) = Inr r" using v by simp
  from urlparse_slashes [OF this] r obtain r' where "urlparse b u = Inr r'" "url_scheme r' = url_scheme r"
    "url_netloc r' = url_netloc r" "url_path r' \<in> {[], ''/''}" by auto
  then show ?thesis using r by (simp add: require_public_http_url_def u rstrip_slash_idem)
qed

text \<open>
  Validation is a projection: the accepted settings, with the URLs as the validators rewrote them, are accepted
  again and unchanged, so a process configured from a dump of another one has its settings.
\<close>

theorem accepted_settings_revalidate:
  assumes "mk_api_settings bracketed_ok raw = Inr s"
  shows "mk_api_settings bracketed_ok s = Inr s"
proof -
  from assms obtain auth store where s: "s = raw\<lparr>st_auth := auth, st_artifact_store := store\<rparr>"
    and bounds: "settings_bounds_ok raw" and auth: "mk_auth_settings bracketed_ok (st_auth raw) = Inr auth"
    and store: "mk_artifact_store_settings bracketed_ok (st_artifact_store raw) = Inr store"
    by (rule mk_api_settings_accepts)
  have "mk_dependency_endpoints (st_dependencies raw) = Inr (st_dependencies raw)"
    using assms by (auto simp: mk_api_settings_def mk_dependency_endpoints_def result_simps)
  moreover have "mk_auth_settings bracketed_ok auth = Inr auth"
    using auth by (auto simp: mk_auth_settings_def result_simps require_http_url_stable)
  moreover have "require_safe_bucket_name (as_bucket (st_artifact_store raw)) = Inr (as_bucket (st_artifact_store raw))"
    using store require_safe_bucket_name_accepts by (fastforce simp: mk_artifact_store_settings_def result_simps)
  then have "mk_artifact_store_settings bracketed_ok store = Inr store"
    using store by (auto simp: mk_artifact_store_settings_def result_simps require_public_http_url_stable)
  ultimately show ?thesis
    using bounds by (simp add: mk_api_settings_def s settings_bounds_ok_def)
qed

theorem accepted_settings_revalidate_witness:
  "mk_api_settings (\<lambda>_. True) (default_api_settings\<lparr>st_service_name := ''netops''\<rparr>) =
     Inr (default_api_settings\<lparr>st_service_name := ''netops''\<rparr>)"
proof (rule accepted_settings_revalidate)
  show "mk_api_settings (\<lambda>_. True) (default_api_settings\<lparr>st_service_name := ''netops'',
      st_auth := default_auth_settings\<lparr>as_issuer := ''http://localhost:8080/realms/netops-dev/''\<rparr>\<rparr>) =
    Inr (default_api_settings\<lparr>st_service_name := ''netops''\<rparr>)" by code_simp
qed








end
