(* ===== verification/Pkce_Verify.thy ===== *)
theory Pkce_Verify
  imports Url_Text
begin

text \<open>
  The developer check \<open>scripts/verify-pkce-trace.py\<close>: a PKCE sign-in through a loopback listener, a call of the
  API with the token, and a look for the trace. The network, the clock, the random strings and \<open>json.loads\<close> are
  arguments: a loop reads one element of a list per round, and \<open>None\<close> means it is still running when the list ends.
\<close>

section \<open>The environment file\<close>

fun port_of_lines :: "string \<Rightarrow> int \<Rightarrow> string list \<Rightarrow> exn + int" where
  "port_of_lines name fallback [] = Inr fallback"
| "port_of_lines name fallback (line # lines) =
     (if startswith line (name @ ''='')
      then (case py_int (strip (snd (cut (CHR ''='') line))) of
          Some port \<Rightarrow> Inr port | None \<Rightarrow> Inl (RuntimeError (name @ '' must be an integer port.'')))
      else port_of_lines name fallback lines)"

definition env_port :: "string option \<Rightarrow> string \<Rightarrow> int \<Rightarrow> exn + int" where
  "env_port env_file name fallback = (case env_file of
     None \<Rightarrow> Inl (RuntimeError ''Missing .env.'')
   | Some contents \<Rightarrow> port_of_lines name fallback (splitlines contents))"

section \<open>Attributes\<close>

text \<open>
  Assigning to \<open>self.name\<close> writes the attribute of the instance; reading falls back to the class. The server makes
  a new instance of the handler for each request.
\<close>

datatype python_object = CallbackHandler | Handler nat

type_synonym attributes = "python_object \<Rightarrow> string \<rightharpoonup> string option"

definition setattr :: "python_object \<Rightarrow> string \<Rightarrow> string option \<Rightarrow> attributes \<Rightarrow> attributes" where
  "setattr obj name v attrs = attrs(obj := (attrs obj)(name \<mapsto> v))"

definition getattr :: "attributes \<Rightarrow> python_object \<Rightarrow> string \<Rightarrow> string option option" where
  "getattr attrs obj name =
     (case attrs obj name of Some v \<Rightarrow> Some v | None \<Rightarrow> attrs CallbackHandler name)"

definition class_attribute :: "attributes \<Rightarrow> string \<Rightarrow> string" where
  "class_attribute attrs name =
     (case getattr attrs CallbackHandler name of Some (Some v) \<Rightarrow> v | _ \<Rightarrow> [])"

section \<open>The callback\<close>

record callback_response =
  cr_status :: nat
  cr_headers :: "(string \<times> string) list"
  cr_body :: string

definition respond :: "nat \<Rightarrow> string \<Rightarrow> callback_response" where
  "respond status message =
     (let body = ''<!doctype html><title>NetOps Copilot verification</title><p>'' @ message @ ''</p>'' in
      \<lparr>cr_status = status, cr_headers = [(''Content-Type'', ''text/html; charset=utf-8''),
         (''Content-Length'', dec_nat (length (utf8 body)))], cr_body = body\<rparr>)"

text \<open>\<open>parameters.get(name, [None])[0]\<close>; \<open>parse_qs\<close> gives no empty lists.\<close>

definition parameter :: "(string \<times> string list) list \<Rightarrow> string \<Rightarrow> string option" where
  "parameter parameters name = (case map_of parameters name of Some (v # _) \<Rightarrow> Some v | _ \<Rightarrow> None)"

definition truthy :: "string option \<Rightarrow> bool" where
  "truthy v = (case v of None \<Rightarrow> False | Some s \<Rightarrow> s \<noteq> [])"

definition do_GET ::
  "(string \<Rightarrow> bool) \<Rightarrow> (string \<Rightarrow> exn + (string \<times> string list) list) \<Rightarrow> python_object \<Rightarrow> string \<Rightarrow> attributes \<Rightarrow>
   (exn + callback_response) \<times> attributes" where
  "do_GET bracketed_ok parse_qs self target attrs = (case urlparse bracketed_ok target of
     Inl e \<Rightarrow> (Inl e, attrs)
   | Inr parsed \<Rightarrow> (case parse_qs (url_query parsed) of
       Inl e \<Rightarrow> (Inl e, attrs)
     | Inr parameters \<Rightarrow>
        (let code = parameter parameters ''code''; state = parameter parameters ''state'';
             error = parameter parameters ''error'' in
         if url_path parsed \<noteq> ''/callback'' \<or> Some state \<noteq> getattr attrs self ''expected_state'' then
           (Inr (respond 400 ''Verification failed. Return to the terminal.''),
            setattr self ''callback_error''
              (Some ''The callback path or state did not match this verification run.'') attrs)
         else if truthy error \<or> \<not> truthy code then
           (Inr (respond 400 ''Keycloak sign-in was not completed. Return to the terminal.''),
            setattr self ''callback_error'' (Some ''Keycloak did not return an authorization code.'') attrs)
         else
           (Inr (respond 200 ''Sign-in received. You may return to the terminal.''),
            setattr self ''authorization_code'' code attrs))))"

section \<open>Waiting for the callback\<close>

definition reset_class :: "string \<Rightarrow> attributes \<Rightarrow> attributes" where
  "reset_class state attrs =
     setattr CallbackHandler ''callback_error'' None
       (setattr CallbackHandler ''authorization_code'' None
         (setattr CallbackHandler ''expected_state'' (Some state) attrs))"

text \<open>
  \<open>server.handle_request()\<close>: at most one request, handled by a fresh instance; an exception of the handler is
  reported by the server and dropped. A round is the time read before it and the request that came in. The server's
  timeout bounds only the wait for a connection; one that never sends its request blocks the call, and the process
  with it, which is a list of rounds that ends there.
\<close>

definition handle_request ::
  "(string \<Rightarrow> bool) \<Rightarrow> (string \<Rightarrow> exn + (string \<times> string list) list) \<Rightarrow> nat \<Rightarrow> string option \<Rightarrow> attributes \<Rightarrow> attributes" where
  "handle_request bracketed_ok parse_qs n request attrs = (case request of
     None \<Rightarrow> attrs
   | Some target \<Rightarrow> snd (do_GET bracketed_ok parse_qs (Handler n) target (attrs(Handler n := Map.empty))))"

definition callback_timeout :: exn where
  "callback_timeout = RuntimeError ''Timed out waiting for the Keycloak sign-in callback.''"

fun wait_for_callback ::
  "(string \<Rightarrow> bool) \<Rightarrow> (string \<Rightarrow> exn + (string \<times> string list) list) \<Rightarrow> int \<Rightarrow> nat \<Rightarrow>
   (int \<times> string option) list \<Rightarrow> attributes \<Rightarrow> (exn + string) option" where
  "wait_for_callback bracketed_ok parse_qs deadline n [] attrs = None"
| "wait_for_callback bracketed_ok parse_qs deadline n ((now, request) # rounds) attrs =
     (if deadline \<le> now then Some (Inl callback_timeout)
      else let attrs' = handle_request bracketed_ok parse_qs n request attrs in
        if class_attribute attrs' ''callback_error'' \<noteq> [] then
          Some (Inl (RuntimeError (class_attribute attrs' ''callback_error'')))
        else if class_attribute attrs' ''authorization_code'' \<noteq> [] then
          Some (Inr (class_attribute attrs' ''authorization_code''))
        else wait_for_callback bracketed_ok parse_qs deadline (Suc n) rounds attrs')"

definition receive_authorization_code ::
  "(string \<Rightarrow> bool) \<Rightarrow> (string \<Rightarrow> exn + (string \<times> string list) list) \<Rightarrow> bool \<Rightarrow> int \<Rightarrow> string \<Rightarrow> int \<Rightarrow>
   (int \<times> string option) list \<Rightarrow> attributes \<Rightarrow> (exn + string) option" where
  "receive_authorization_code bracketed_ok parse_qs can_bind start state timeout_seconds rounds attrs =
     (if \<not> can_bind then Some (Inl (RuntimeError ''Could not bind the loopback port.''))
      else wait_for_callback bracketed_ok parse_qs (start + timeout_seconds) 0 rounds (reset_class state attrs))"

section \<open>The check\<close>

definition CLIENT_ID :: string where "CLIENT_ID = ''netops-web''"

definition redirect_uri :: string where "redirect_uri = ''http://127.0.0.1:8765/callback''"

fun bytes_of_hex :: "string \<Rightarrow> byte list" where
  "bytes_of_hex (a # b # cs) =
     byte_of (16 * (case hex_value a of Some v \<Rightarrow> v | None \<Rightarrow> 0) + (case hex_value b of Some v \<Rightarrow> v | None \<Rightarrow> 0))
     # bytes_of_hex cs"
| "bytes_of_hex _ = []"

definition challenge_of :: "string \<Rightarrow> string" where
  "challenge_of verifier =
     rstrip_of (\<lambda>c. c = CHR ''='') (urlsafe_b64encode (bytes_of_hex (sha256 (utf8 verifier))))"

definition authorization_url :: "string \<Rightarrow> string \<Rightarrow> string \<Rightarrow> string" where
  "authorization_url issuer verifier state = issuer @ ''/protocol/openid-connect/auth?'' @ urlencode
     [(''response_type'', ''code''), (''client_id'', CLIENT_ID), (''redirect_uri'', redirect_uri),
      (''scope'', ''openid''), (''code_challenge'', challenge_of verifier), (''code_challenge_method'', ''S256''),
      (''state'', state)]"

definition token_request_body :: "string \<Rightarrow> string \<Rightarrow> string" where
  "token_request_body code verifier = urlencode
     [(''grant_type'', ''authorization_code''), (''client_id'', CLIENT_ID), (''code'', code),
      (''redirect_uri'', redirect_uri), (''code_verifier'', verifier)]"

text \<open>\<open>URLError\<close> with its subclass \<open>HTTPError\<close>, and every other exception of a request.\<close>

datatype fetch_error = UrlError string | OtherError exn

datatype outcome = Exit nat | Uncaught exn

definition failed_fetch :: "fetch_error \<Rightarrow> outcome" where
  "failed_fetch e = (case e of
     UrlError _ \<Rightarrow> Exit 1 | OtherError x \<Rightarrow> if is_runtime_error x then Exit 1 else Uncaught x)"

fun poll_trace :: "int \<Rightarrow> (int \<times> (fetch_error + byte list)) list \<Rightarrow> outcome option" where
  "poll_trace deadline [] = None"
| "poll_trace deadline ((now, answer) # rounds) =
     (if deadline \<le> now then Some (Exit 1)
      else case answer of
        Inr _ \<Rightarrow> Some (Exit 0)
      | Inl (UrlError _) \<Rightarrow> poll_trace deadline rounds
      | Inl e \<Rightarrow> Some (failed_fetch e))"

record network =
  nw_can_bind :: bool
  nw_callback_start :: int
  nw_callback_rounds :: "(int \<times> string option) list"
  nw_post :: "string \<Rightarrow> string \<Rightarrow> fetch_error + byte list"
  nw_me :: "string \<Rightarrow> (string \<times> string) list \<Rightarrow> fetch_error + string option"
  nw_trace_start :: int
  nw_trace_rounds :: "string \<Rightarrow> (int \<times> (fetch_error + byte list)) list"

definition trace_check :: "network \<Rightarrow> int \<Rightarrow> int \<Rightarrow> string \<Rightarrow> string \<Rightarrow> string \<Rightarrow> outcome option" where
  "trace_check net api_port tempo_port trace_id span_id bearer =
     (let traceparent = ''00-'' @ trace_id @ ''-'' @ span_id @ ''-01'' in
      case nw_me net (''http://127.0.0.1:'' @ dec_int api_port @ ''/v1/auth/me'')
          [(''Authorization'', ''Bearer '' @ bearer), (''traceparent'', traceparent)] of
        Inl e \<Rightarrow> Some (failed_fetch e)
      | Inr returned \<Rightarrow>
          if \<not> startswith (case returned of None \<Rightarrow> [] | Some t \<Rightarrow> t) (''00-'' @ trace_id @ ''-'')
          then Some (failed_fetch (OtherError (RuntimeError ''The API did not retain the W3C trace ID.'')))
          else poll_trace (nw_trace_start net + 30)
            (nw_trace_rounds net (''http://127.0.0.1:'' @ dec_int tempo_port @ ''/api/traces/'' @ trace_id)))"

text \<open>\<open>json.loads(...).get("access_token")\<close>\<close>

definition access_token_of :: "json \<Rightarrow> exn + json option" where
  "access_token_of v = (case v of JObj kvs \<Rightarrow> Inr (map_of kvs ''access_token'') | _ \<Rightarrow> Inl (AttributeError ''get''))"

record secrets =
  sc_verifier :: string
  sc_state :: string
  sc_trace_id :: string
  sc_span_id :: string

definition exchange_code ::
  "(byte list \<Rightarrow> exn + json) \<Rightarrow> network \<Rightarrow> secrets \<Rightarrow> string \<Rightarrow> int \<Rightarrow> int \<Rightarrow> string \<Rightarrow> outcome option" where
  "exchange_code json_loads net keys issuer api_port tempo_port code =
     (case nw_post net (issuer @ ''/protocol/openid-connect/token'') (token_request_body code (sc_verifier keys)) of
        Inl e \<Rightarrow> Some (failed_fetch e)
      | Inr token_response \<Rightarrow> (case bindE (json_loads token_response) access_token_of of
          Inl e \<Rightarrow> Some (Uncaught e)
        | Inr (Some (JStr bearer)) \<Rightarrow>
            if bearer = [] then Some (Exit 1)
            else trace_check net api_port tempo_port (sc_trace_id keys) (sc_span_id keys) bearer
        | Inr _ \<Rightarrow> Some (Exit 1)))"

definition env_ports :: "string option \<Rightarrow> exn + int \<times> int \<times> int" where
  "env_ports env_file =
     bindE (env_port env_file ''KEYCLOAK_PORT'' 8080) (\<lambda>keycloak_port.
     bindE (env_port env_file ''NETOPS_PORT'' 8000) (\<lambda>api_port.
     bindE (env_port env_file ''TEMPO_HTTP_PORT'' 3200) (\<lambda>tempo_port. Inr
       (keycloak_port, api_port, tempo_port))))"

definition verify_pkce ::
  "(string \<Rightarrow> bool) \<Rightarrow> (string \<Rightarrow> exn + (string \<times> string list) list) \<Rightarrow> (byte list \<Rightarrow> exn + json) \<Rightarrow> network \<Rightarrow>
   secrets \<Rightarrow> string option \<Rightarrow> int \<Rightarrow> attributes \<Rightarrow> outcome option" where
  "verify_pkce bracketed_ok parse_qs json_loads net keys env_file timeout attrs =
     (if timeout < 30 \<or> 900 < timeout then Some (Exit 2)
      else case env_ports env_file of
        Inl e \<Rightarrow> Some (Uncaught e)
      | Inr (keycloak_port, api_port, tempo_port) \<Rightarrow>
         (let issuer = ''http://localhost:'' @ dec_int keycloak_port @ ''/realms/netops-dev'' in
          case receive_authorization_code bracketed_ok parse_qs (nw_can_bind net) (nw_callback_start net)
              (sc_state keys) timeout (nw_callback_rounds net) attrs of
            None \<Rightarrow> None
          | Some (Inl e) \<Rightarrow> Some (failed_fetch (OtherError e))
          | Some (Inr code) \<Rightarrow> exchange_code json_loads net keys issuer api_port tempo_port code))"

section \<open>Facts\<close>

lemma handle_request_class:
  "handle_request bracketed_ok parse_qs n request attrs CallbackHandler = attrs CallbackHandler"
  by (simp add: handle_request_def do_GET_def setattr_def Let_def split: option.split sum.split)

lemma class_attribute_cong:
  "attrs CallbackHandler = attrs' CallbackHandler \<Longrightarrow> class_attribute attrs name = class_attribute attrs' name"
  by (simp add: class_attribute_def getattr_def cong: option.case_cong)

lemma wait_without_result:
  assumes "class_attribute attrs ''callback_error'' = []" "class_attribute attrs ''authorization_code'' = []"
  shows "wait_for_callback bracketed_ok parse_qs deadline n rounds attrs =
    (if list_all (\<lambda>r. fst r < deadline) rounds then None else Some (Inl callback_timeout))"
  using assms
proof (induction rounds arbitrary: n attrs)
  case (Cons r rounds)
  obtain now request where r: "r = (now, request)" by (cases r)
  let ?attrs = "handle_request bracketed_ok parse_qs n request attrs"
  have "class_attribute ?attrs name = class_attribute attrs name" for name
    by (rule class_attribute_cong) (rule handle_request_class)
  then show ?case using Cons by (auto simp: r Let_def)
qed simp

lemma reset_class_attributes:
  "class_attribute (reset_class state attrs) ''callback_error'' = []"
  "class_attribute (reset_class state attrs) ''authorization_code'' = []"
  "getattr (reset_class state attrs) CallbackHandler ''expected_state'' = Some (Some state)"
  by (simp_all add: class_attribute_def getattr_def reset_class_def setattr_def)

lemma receive_always_times_out:
  "receive_authorization_code bracketed_ok parse_qs can_bind start state timeout rounds attrs =
     (if \<not> can_bind then Some (Inl (RuntimeError ''Could not bind the loopback port.''))
      else if list_all (\<lambda>r. fst r < start + timeout) rounds then None else Some (Inl callback_timeout))"
  by (simp add: receive_authorization_code_def wait_without_result reset_class_attributes)

text \<open>A completed sign-in is acknowledged to the browser with 200.\<close>

lemma completed_sign_in_is_acknowledged:
  assumes "urlparse bracketed_ok target = Inr parsed" "url_path parsed = ''/callback''"
    and "parse_qs (url_query parsed) = Inr parameters" "parameter parameters ''state'' = Some state"
    and "\<not> truthy (parameter parameters ''error'')" "truthy (parameter parameters ''code'')"
    and "attrs CallbackHandler ''expected_state'' = Some (Some state)"
  shows "fst (do_GET bracketed_ok parse_qs (Handler n) target (attrs(Handler n := Map.empty))) =
    Inr (respond 200 ''Sign-in received. You may return to the terminal.'')"
  using assms by (simp add: do_GET_def getattr_def Let_def)

text \<open>
  C39. The check never succeeds. Whatever the browser, Keycloak, the API and the trace store answer, the process does
  not exit with 0, and it ends at the first round that starts at or after the deadline: the handler keeps the code it received, and
  acknowledged with 200, on its own instance, and the loop reads the attributes of the class.
\<close>

theorem pkce_check_never_succeeds:
  "(case verify_pkce bracketed_ok parse_qs json_loads net keys env_file timeout attrs of
      None \<Rightarrow> list_all (\<lambda>r. fst r < nw_callback_start net + timeout) (nw_callback_rounds net)
    | Some (Exit status) \<Rightarrow> status = (if timeout < 30 \<or> 900 < timeout then 2 else 1)
    | Some (Uncaught e) \<Rightarrow> env_ports env_file = Inl e)"
  by (auto simp: verify_pkce_def receive_always_times_out callback_timeout_def failed_fetch_def Let_def
      split: sum.split)

section \<open>The challenge\<close>

lemma length_sextets_exact: "length (sextets bs) = (4 * length bs + 2) div 3"
  by (induction bs rule: sextets.induct) auto

lemma length_bytes_of_hex: "length (bytes_of_hex h) = length h div 2"
  by (induction h rule: bytes_of_hex.induct) auto

lemma b64_char_unreserved: "v < 64 \<Longrightarrow> unreserved (b64_char v)"
proof -
  assume v: "v < 64"
  have "b64_char 62 = CHR ''-''" "b64_char 63 = CHR ''_''" by code_simp+
  then show ?thesis
    using v b64_char_code [OF v] by (cases "v = 62"; cases "v = 63")
      (auto simp: unreserved_def ascii_alpha_def ascii_lower_def ascii_upper_def ascii_digit_def Let_def)
qed

text \<open>
  The challenge is the S256 transformation of RFC 7636: 43 characters that pass through the query unchanged, whose
  base64 text is the SHA-256 digest of the verifier.
\<close>

lemma challenge_is_s256:
  shows "length (challenge_of verifier) = 43" "quote_plus (challenge_of verifier) = challenge_of verifier"
    and "urlsafe_b64decode (challenge_of verifier @ ''='') = Inr (bytes_of_hex (sha256 (utf8 verifier)))"
proof -
  let ?digest = "bytes_of_hex (sha256 (utf8 verifier))"
  let ?s = "map b64_char (sextets (map unat ?digest))"
  have c: "challenge_of verifier = ?s" by (simp add: challenge_of_def b64_text(1))
  have l: "length ?s = 43" by (simp add: length_sextets_exact length_bytes_of_hex)
  then show "length (challenge_of verifier) = 43" by (simp add: c)
  have "list_all (\<lambda>v. v < 64) (sextets (map unat ?digest))" by (rule sextets_bound [OF bytes_below])
  then have u: "list_all unreserved ?s" by (auto simp: list_all_iff b64_char_unreserved)
  have "quote_plus t = t" if "list_all unreserved t" for t
    using that by (induction t) (auto simp: quote_plus_def quote_char_def unreserved_def ascii_alpha_def ascii_lower_def
        ascii_upper_def ascii_digit_def)
  with u show "quote_plus (challenge_of verifier) = challenge_of verifier" by (simp add: c)
  have "padding (length ?s) = ''=''" unfolding l by (simp add: padding_def)
  then show "urlsafe_b64decode (challenge_of verifier @ ''='') = Inr ?digest"
    using b64_text(3) [of ?digest] by (simp add: c)
qed

end
