(* ===== verification/Client_Generator.thy ===== *)
theory Client_Generator
  imports Cursor_Codec
begin

text \<open>
  \<open>scripts/generate-api-client.py\<close>: the TypeScript client and its types, rendered from the OpenAPI document, and the
  check that the committed files are up to date. The document FastAPI builds is an argument; a Python dict of it is a
  list of members with distinct keys. A file is its text, and reading one translates line ends as \<open>read_text\<close> does.
\<close>

section \<open>\<open>json.dumps\<close>\<close>

text \<open>Without options, and with \<open>indent=2\<close>.\<close>

fun json_text :: "json \<Rightarrow> string" where
  "json_text (JArr xs) = ''['' @ join '', '' (map json_text xs) @ '']''"
| "json_text (JObj kvs) =
     ''{'' @ join '', '' (map (\<lambda>kv. json_string (fst kv) @ '': '' @ json_text (snd kv)) kvs) @ ''}''"
| "json_text v = json_dumps v"

definition new_line :: "nat \<Rightarrow> string" where
  "new_line depth = CHR 0x0A # replicate (2 * depth) (CHR '' '')"

fun json_indented :: "nat \<Rightarrow> json \<Rightarrow> string" where
  "json_indented depth (JArr xs) =
     (if xs = [] then ''[]''
      else ''['' @ new_line (Suc depth) @ join ('','' @ new_line (Suc depth)) (map (json_indented (Suc depth)) xs)
        @ new_line depth @ '']'')"
| "json_indented depth (JObj kvs) =
     (if kvs = [] then ''{}''
      else ''{'' @ new_line (Suc depth) @ join ('','' @ new_line (Suc depth))
          (map (\<lambda>kv. json_string (fst kv) @ '': '' @ json_indented (Suc depth) (snd kv)) kvs)
        @ new_line depth @ ''}'')"
| "json_indented depth v = json_dumps v"

section \<open>Reading the document\<close>

type_synonym members = "(string \<times> json) list"

definition mapping_of :: "json option \<Rightarrow> members" where
  "mapping_of v = (case v of Some (JObj kvs) \<Rightarrow> kvs | _ \<Rightarrow> [])"

fun string_list :: "json list \<Rightarrow> string list" where
  "string_list [] = []"
| "string_list (JStr s # vs) = s # string_list vs"
| "string_list (_ # vs) = string_list vs"

definition string_list_of :: "json option \<Rightarrow> string list" where
  "string_list_of v = (case v of Some (JArr vs) \<Rightarrow> string_list vs | _ \<Rightarrow> [])"

definition parameter_name :: "json \<Rightarrow> json option" where
  "parameter_name p = (case p of JObj kvs \<Rightarrow> map_of kvs ''name'' | _ \<Rightarrow> None)"

definition mapping_parameter_names :: "json option \<Rightarrow> string set" where
  "mapping_parameter_names v = (case v of
     Some (JArr ps) \<Rightarrow> set (string_list (map (\<lambda>p. case parameter_name p of Some n \<Rightarrow> n | None \<Rightarrow> JNull) ps)) | _ \<Rightarrow> {})"

definition sorted_items :: "members \<Rightarrow> members" where
  "sorted_items m = sort_by (\<lambda>a b. str_le (fst a) (fst b)) m"

section \<open>Types\<close>

text \<open>\<open>reference.rsplit("/", maxsplit=1)[-1]\<close>\<close>

definition after_last_slash :: "string \<Rightarrow> string" where
  "after_last_slash s = rev (takeWhile (\<lambda>c. c \<noteq> CHR ''/'') (rev s))"

text \<open>\<open>m.get(k)\<close> where it is a list, a string, a mapping.\<close>

definition list_member :: "members \<Rightarrow> string \<Rightarrow> json list option" where
  "list_member m k = (case map_of m k of Some (JArr vs) \<Rightarrow> Some vs | _ \<Rightarrow> None)"

definition text_member :: "members \<Rightarrow> string \<Rightarrow> string option" where
  "text_member m k = (case map_of m k of Some (JStr s) \<Rightarrow> Some s | _ \<Rightarrow> None)"

definition mapping_member :: "members \<Rightarrow> string \<Rightarrow> members option" where
  "mapping_member m k = (case map_of m k of Some (JObj kvs) \<Rightarrow> Some kvs | _ \<Rightarrow> None)"

lemma member_Some [simp]:
  "list_member m k = Some vs \<longleftrightarrow> map_of m k = Some (JArr vs)"
  "text_member m k = Some s \<longleftrightarrow> map_of m k = Some (JStr s)"
  "mapping_member m k = Some a \<longleftrightarrow> map_of m k = Some (JObj a)"
  by (auto simp: list_member_def text_member_def mapping_member_def split: option.splits json.splits)

definition composite_of :: "members \<Rightarrow> json list option" where
  "composite_of m = (case list_member m ''anyOf'' of Some vs \<Rightarrow> Some vs | None \<Rightarrow>
     (case list_member m ''oneOf'' of Some vs \<Rightarrow> Some vs | None \<Rightarrow> list_member m ''allOf''))"

definition members_size :: "members \<Rightarrow> nat" where
  "members_size m = size_list (\<lambda>kv. size (snd kv)) m"

lemma members_size_lookup: "map_of m k = Some v \<Longrightarrow> size v < members_size m"
  by (induction m) (auto simp: members_size_def split: if_splits)

lemma members_size_mapping: "members_size (mapping_of (Some v)) \<le> size v"
proof (cases v)
  case (JObj kvs)
  have "members_size kvs \<le> size_list (size_prod (\<lambda>_. 0) size) kvs"
    by (induction kvs) (auto simp: members_size_def)
  then show ?thesis by (simp add: JObj mapping_of_def)
qed (simp_all add: mapping_of_def members_size_def)

lemma composite_of_lookup: "composite_of m = Some vs \<Longrightarrow> \<exists>k. map_of m k = Some (JArr vs)"
  by (auto simp: composite_of_def split: option.splits)

text \<open>
  The case of \<open>_ts_type\<close> a schema falls under. Asking whether a type that is a list or an object is in a set raises
  \<open>TypeError\<close>.
\<close>

datatype schema_kind =
    Reference string
  | Enumeration "json list"
  | Composite "json list"
  | ArrayOf members
  | Dictionary members
  | Primitive string
  | UnhashableType

definition kind_of_type :: "members \<Rightarrow> string \<Rightarrow> schema_kind" where
  "kind_of_type m t =
     (if t = ''array'' then ArrayOf (mapping_of (map_of m ''items''))
      else if t = ''integer'' \<or> t = ''number'' then Primitive ''number''
      else if t = ''boolean'' \<or> t = ''null'' \<or> t = ''string'' then Primitive t
      else if t = ''object'' then (case mapping_member m ''additionalProperties'' of
          Some a \<Rightarrow> Dictionary a | None \<Rightarrow> Primitive ''Record<string, unknown>'')
      else Primitive ''unknown'')"

definition unhashable :: "json option \<Rightarrow> bool" where
  "unhashable v = (case v of Some (JArr _) \<Rightarrow> True | Some (JObj _) \<Rightarrow> True | _ \<Rightarrow> False)"

definition kind_of :: "members \<Rightarrow> schema_kind" where
  "kind_of m = (case text_member m ''$ref'' of Some r \<Rightarrow> Reference r | None \<Rightarrow>
     (case list_member m ''enum'' of Some vs \<Rightarrow> Enumeration vs | None \<Rightarrow>
     (case composite_of m of Some vs \<Rightarrow> Composite vs | None \<Rightarrow>
     (case text_member m ''type'' of Some t \<Rightarrow> kind_of_type m t | None \<Rightarrow>
        if unhashable (map_of m ''type'') then UnhashableType else Primitive ''unknown''))))"

lemma kind_of_type_parts:
  "kind_of_type m t \<noteq> Composite vs"
  "kind_of_type m t = ArrayOf a \<Longrightarrow> a = mapping_of (map_of m ''items'')"
  "kind_of_type m t = Dictionary a \<Longrightarrow> map_of m ''additionalProperties'' = Some (JObj a)"
  by (simp_all add: kind_of_type_def split: option.splits if_splits)

lemma kind_of_parts:
  "kind_of m = Composite vs \<Longrightarrow> composite_of m = Some vs"
  "kind_of m = ArrayOf a \<Longrightarrow> a = mapping_of (map_of m ''items'') \<and> (\<exists>t. map_of m ''type'' = Some t)"
  "kind_of m = Dictionary a \<Longrightarrow> map_of m ''additionalProperties'' = Some (JObj a)"
  by (auto simp: kind_of_def kind_of_type_parts dest: kind_of_type_parts(2,3) split: option.splits if_splits)

lemma part_size:
  "kind_of m = Composite vs \<Longrightarrow> v \<in> set vs \<Longrightarrow> members_size (mapping_of (Some v)) < members_size m"
  "kind_of m = ArrayOf a \<Longrightarrow> members_size a < members_size m"
  "kind_of m = Dictionary a \<Longrightarrow> members_size a < members_size m"
proof -
  assume c: "kind_of m = Composite vs" and v: "v \<in> set vs"
  from composite_of_lookup [OF kind_of_parts(1) [OF c]] obtain k where "map_of m k = Some (JArr vs)" by blast
  from members_size_lookup [OF this] have "size_list size vs < members_size m" by simp
  moreover have "size v \<le> size_list size vs" using v by (rule size_list_estimation') simp
  ultimately show "members_size (mapping_of (Some v)) < members_size m" using members_size_mapping [of v] by simp
next
  assume c: "kind_of m = ArrayOf a"
  then obtain t where t: "map_of m ''type'' = Some t" and a: "a = mapping_of (map_of m ''items'')"
    using kind_of_parts(2) by blast
  show "members_size a < members_size m"
  proof (cases "map_of m ''items''")
    case None
    then show ?thesis using members_size_lookup [OF t] by (simp add: a mapping_of_def members_size_def)
  next
    case (Some v)
    then show ?thesis using members_size_lookup [OF Some] members_size_mapping [of v] by (simp add: a)
  qed
next
  assume "kind_of m = Dictionary a"
  then have "map_of m ''additionalProperties'' = Some (JObj a)" by (rule kind_of_parts(3))
  from members_size_lookup [OF this] members_size_mapping [of "JObj a"]
  show "members_size a < members_size m" by (simp add: mapping_of_def)
qed

lemma traverseE_cong [fundef_cong]:
  "xs = ys \<Longrightarrow> (\<And>x. x \<in> set ys \<Longrightarrow> f x = g x) \<Longrightarrow> traverseE f xs = traverseE g ys"
  by (induction ys arbitrary: xs) auto

function ts_type :: "members \<Rightarrow> exn + string" where
  "ts_type m = (case kind_of m of
     Reference r \<Rightarrow> Inr (after_last_slash r)
   | Enumeration vs \<Rightarrow> Inr (join '' | '' (map json_text vs))
   | Composite vs \<Rightarrow> bindE (traverseE (\<lambda>v. ts_type (mapping_of (Some v))) vs) (\<lambda>ts. Inr (join '' | '' ts))
   | ArrayOf a \<Rightarrow> bindE (ts_type a) (\<lambda>t. Inr (t @ ''[]''))
   | Dictionary a \<Rightarrow> bindE (ts_type a) (\<lambda>t. Inr (''Record<string, '' @ t @ ''>''))
   | Primitive t \<Rightarrow> Inr t
   | UnhashableType \<Rightarrow> Inl (TypeError ''unhashable type''))"
  by pat_completeness auto

termination
  by (relation "measure members_size") (simp_all add: part_size)

declare ts_type.simps [simp del]

section \<open>Declarations\<close>

text \<open>\<open>str.isidentifier\<close> on Latin-1.\<close>

definition ident_start :: "char \<Rightarrow> bool" where
  "ident_start c = (let n = (of_char c :: nat) in
     ascii_lower c \<or> ascii_upper c \<or> n = 95 \<or> n = 170 \<or> n = 181 \<or> n = 186 \<or> (192 \<le> n \<and> n \<noteq> 215 \<and> n \<noteq> 247))"

definition ident_char :: "char \<Rightarrow> bool" where
  "ident_char c = (ident_start c \<or> ascii_digit c \<or> (of_char c :: nat) = 183)"

definition isidentifier :: "string \<Rightarrow> bool" where
  "isidentifier s = (case s of [] \<Rightarrow> False | c # cs \<Rightarrow> ident_start c \<and> list_all ident_char cs)"

definition property_name :: "string \<Rightarrow> string" where
  "property_name s = (if isidentifier s then s else json_string s)"

definition render_property :: "string list \<Rightarrow> string \<times> json \<Rightarrow> exn + string" where
  "render_property required kv =
     bindE (ts_type (mapping_of (Some (snd kv)))) (\<lambda>t. Inr
       (''  '' @ property_name (fst kv) @ (if fst kv \<in> set required then [] else ''?'') @ '': '' @ t @ '';''))"

definition render_additional :: "members option \<Rightarrow> exn + string list" where
  "render_additional a = (case a of
     None \<Rightarrow> Inr [] | Some m \<Rightarrow> bindE (ts_type m) (\<lambda>t. Inr [''  [key: string]: '' @ t @ '';'']))"

definition render_named_schema :: "string \<Rightarrow> members \<Rightarrow> exn + string list" where
  "render_named_schema name m =
     (if text_member m ''type'' = Some ''object'' \<or> map_of m ''properties'' \<noteq> None then
        bindE (traverseE (render_property (string_list_of (map_of m ''required'')))
          (sorted_items (mapping_of (map_of m ''properties'')))) (\<lambda>properties.
        bindE (render_additional (mapping_member m ''additionalProperties'')) (\<lambda>additional. Inr
          ([''export interface '' @ name @ '' {''] @ properties @ additional @ [''}''])))
      else bindE (ts_type m) (\<lambda>t. Inr [''export type '' @ name @ '' = '' @ t @ '';'']))"

section \<open>The client\<close>

definition squoted :: "string \<Rightarrow> string" where
  "squoted s = [CHR 0x27] @ s @ [CHR 0x27]"

definition client_option_lines :: "string list" where
  "client_option_lines =
    [''export interface ApiClientOptions {'',
     ''  baseUrl: string;'',
     ''  accessToken: () => string | Promise<string>;'',
     ''  fetch?: typeof fetch;'',
     ''}'',
     [],
     ''export interface CaseListOptions {'',
     ''  cursor?: string;'',
     ''  limit?: number;'',
     ''  q?: string;'',
     ''  severity?: CaseResponse['' @ squoted ''severity'' @ ''];'',
     ''  state?: CaseState;'',
     ''}'',
     [],
     ''export interface CaseEventStreamEventData {'',
     ''  event_id: string;'',
     ''  case_id: string;'',
     ''  event_type: string;'',
     ''  aggregate_version: number;'',
     ''  transition_id: string | null;'',
     ''  actor_id: string;'',
     ''  correlation_id: string;'',
     ''  occurred_at: string;'',
     ''}'',
     [],
     ''export interface CaseEventStreamEvent {'',
     ''  id: string;'',
     ''  event: '' @ squoted ''case'' @ '';'',
     ''  data: CaseEventStreamEventData;'',
     ''}'',
     [],
     ''export interface CaseEventStreamOptions {'',
     ''  lastEventId?: string;'',
     ''  limit?: number;'',
     ''  signal?: AbortSignal;'',
     ''}'',
     [],
     ''export class NetOpsApiError extends Error {'',
     ''  readonly status: number;'',
     ''  readonly body: unknown;'',
     [],
     ''  constructor(status: number, body: unknown) {'',
     ''    super(`NetOps API request failed with status ${status}.`);'',
     ''    this.name = '' @ squoted ''NetOpsApiError'' @ '';'',
     ''    this.status = status;'',
     ''    this.body = body;'',
     ''  }'',
     ''}'',
     []]"

definition client_method_lines :: "string list" where
  "client_method_lines =
    [''export class NetOpsCaseClient {'',
     ''  private readonly fetchImpl: typeof fetch;'',
     [],
     ''  constructor(private readonly options: ApiClientOptions) {'',
     ''    this.fetchImpl = options.fetch ?? fetch;'',
     ''  }'',
     [],
     ''  listCases(options: number | CaseListOptions = 50): Promise<CaseListResponse> {'',
     ''    const normalized = typeof options === '' @ squoted ''number'' @ '' ? { limit: options } : options;'',
     ''    const parameters = new URLSearchParams({ limit: String(normalized.limit ?? 50) });'',
     ''    if (normalized.cursor !== undefined) parameters.set('' @ squoted ''cursor'' @ '', normalized.cursor);'',
     ''    if (normalized.q !== undefined) parameters.set('' @ squoted ''q'' @ '', normalized.q);'',
     ''    if (normalized.severity !== undefined) parameters.set('' @ squoted ''severity'' @ '', normalized.severity);'',
     ''    if (normalized.state !== undefined) parameters.set('' @ squoted ''state'' @ '', normalized.state);'',
     ''    return this.request('' @ squoted ''GET'' @ '', `/v1/cases?${parameters.toString()}`);'',
     ''  }'',
     [],
     ''  createCase(body: CreateCaseRequest, idempotencyKey: string): Promise<CaseResponse> {'',
     ''    return this.request('' @ squoted ''POST'' @ '', '' @ squoted ''/v1/cases'' @ '', body, { '' @ squoted ''Idempotency-Key'' @ '': idempotencyKey });'',
     ''  }'',
     [],
     ''  getCase(caseId: string): Promise<CaseDetailResponse> {'',
     ''    return this.request('' @ squoted ''GET'' @ '', `/v1/cases/${encodeURIComponent(caseId)}`);'',
     ''  }'',
     [],
     ''  getCaseTimeline(caseId: string): Promise<CaseTimelineEntryResponse[]> {'',
     ''    return this.request('' @ squoted ''GET'' @ '', `/v1/cases/${encodeURIComponent(caseId)}/timeline`);'',
     ''  }'',
     [],
     ''  transitionCase(caseId: string, body: TransitionCaseRequest): Promise<CaseResponse> {'',
     ''    return this.request('' @ squoted ''POST'' @ '', `/v1/cases/${encodeURIComponent(caseId)}/transitions`, body);'',
     ''  }'',
     [],
     ''  resolveCase(caseId: string, body: ResolveCaseRequest): Promise<CaseResponse> {'',
     ''    return this.request('' @ squoted ''POST'' @ '', `/v1/cases/${encodeURIComponent(caseId)}/resolution`, body);'',
     ''  }'',
     [],
     ''  requestCaseFeedback(caseId: string, body: CaseFeedbackRequest): Promise<CaseResponse> {'',
     ''    return this.request('' @ squoted ''POST'' @ '', `/v1/cases/${encodeURIComponent(caseId)}/feedback`, body);'',
     ''  }'',
     [],
     ''  previewCaseConfig(caseId: string, body: ConfigPreviewRequest): Promise<ConfigPreviewResponse> {'',
     ''    return this.request('' @ squoted ''POST'' @ '', `/v1/cases/${encodeURIComponent(caseId)}/config-preview`, body);'',
     ''  }'',
     [],
     ''  createArtifactUploadIntent('',
     ''    caseId: string,'',
     ''    body: ArtifactUploadIntentRequest,'',
     ''  ): Promise<ArtifactUploadCapabilityResponse> {'',
     ''    return this.request('' @ squoted ''POST'' @ '', `/v1/cases/${encodeURIComponent(caseId)}/artifacts/upload-intents`, body);'',
     ''  }'',
     [],
     ''  completeArtifactUploadIntent('',
     ''    caseId: string,'',
     ''    intentId: string,'',
     ''  ): Promise<ArtifactUploadCompletionResponse> {'',
     ''    return this.request('',
     ''      '' @ squoted ''POST'' @ '','',
     ''      `/v1/cases/${encodeURIComponent(caseId)}/artifacts/upload-intents/${encodeURIComponent(intentId)}/complete`,'',
     ''    );'',
     ''  }'',
     [],
     ''  listCaseArtifactStatuses(caseId: string): Promise<CaseArtifactStatusListResponse> {'',
     ''    return this.request('' @ squoted ''GET'' @ '', `/v1/cases/${encodeURIComponent(caseId)}/artifacts/status`);'',
     ''  }'',
     []]"

definition client_stream_lines :: "string list" where
  "client_stream_lines =
    [''  async *streamCaseEvents('',
     ''    options: CaseEventStreamOptions = {},'',
     ''  ): AsyncGenerator<CaseEventStreamEvent> {'',
     ''    const limit = options.limit ?? 100;'',
     ''    const parameters = new URLSearchParams({ limit: String(limit) });'',
     ''    const accessToken = await this.options.accessToken();'',
     ''    const response = await this.fetchImpl('',
     ''      `${this.options.baseUrl.replace(/'' @ [CHR 0x5C] @ ''/$/, '' @ squoted [] @ '')}/v1/events?${parameters.toString()}` ,'',
     ''      {'',
     ''        headers: {'',
     ''          Accept: '' @ squoted ''text/event-stream'' @ '','',
     ''          Authorization: `Bearer ${accessToken}`,'',
     ''          ...(options.lastEventId === undefined'',
     ''            ? {}'',
     ''            : { '' @ squoted ''Last-Event-ID'' @ '': options.lastEventId }),'',
     ''        },'',
     ''        signal: options.signal,'',
     ''      },'',
     ''    );'',
     ''    if (!response.ok) {'',
     ''      throw new NetOpsApiError(response.status, await response.json());'',
     ''    }'',
     ''    if (response.body === null) {'',
     ''      return;'',
     ''    }'',
     ''    const reader = response.body.getReader();'',
     ''    const decoder = new TextDecoder();'',
     ''    let pending = '' @ squoted [] @ '';'',
     ''    while (true) {'',
     ''      const chunk = await reader.read();'',
     ''      if (chunk.done) {'',
     ''        pending += decoder.decode();'',
     ''        break;'',
     ''      }'',
     ''      pending += decoder.decode(chunk.value, { stream: true });'',
     ''      let separator = pending.indexOf('' @ squoted ([CHR 0x5C] @ ''n'' @ [CHR 0x5C] @ ''n'') @ '');'',
     ''      while (separator >= 0) {'',
     ''        const frame = pending.slice(0, separator);'',
     ''        pending = pending.slice(separator + 2);'',
     ''        const event = this.parseCaseEventFrame(frame);'',
     ''        if (event !== undefined) {'',
     ''          yield event;'',
     ''        }'',
     ''        separator = pending.indexOf('' @ squoted ([CHR 0x5C] @ ''n'' @ [CHR 0x5C] @ ''n'') @ '');'',
     ''      }'',
     ''    }'',
     ''    const event = this.parseCaseEventFrame(pending);'',
     ''    if (event !== undefined) {'',
     ''      yield event;'',
     ''    }'',
     ''  }'',
     []]"

definition client_request_lines :: "string list" where
  "client_request_lines =
    [''  private async request<T>('',
     ''    method: string,'',
     ''    path: string,'',
     ''    body?: unknown,'',
     ''    headers: Record<string, string> = {},'',
     ''  ): Promise<T> {'',
     ''    const accessToken = await this.options.accessToken();'',
     ''    const response = await this.fetchImpl(`${this.options.baseUrl.replace(/'' @ [CHR 0x5C] @ ''/$/, '' @ squoted [] @ '')}${path}`, {'',
     ''      method,'',
     ''      headers: {'',
     ''        Accept: '' @ squoted ''application/json'' @ '','',
     ''        Authorization: `Bearer ${accessToken}`,'',
     ''        ...(body === undefined ? {} : { '' @ squoted ''Content-Type'' @ '': '' @ squoted ''application/json'' @ '' }),'',
     ''        ...headers,'',
     ''      },'',
     ''      body: body === undefined ? undefined : JSON.stringify(body),'',
     ''    });'',
     ''    const responseBody: unknown = await response.json();'',
     ''    if (!response.ok) {'',
     ''      throw new NetOpsApiError(response.status, responseBody);'',
     ''    }'',
     ''    return responseBody as T;'',
     ''  }'',
     []]"

definition client_frame_lines :: "string list" where
  "client_frame_lines =
    [''  private parseCaseEventFrame(frame: string): CaseEventStreamEvent | undefined {'',
     ''    let id: string | undefined;'',
     ''    let event: string | undefined;'',
     ''    const data: string[] = [];'',
     ''    for (const line of frame.split('' @ squoted ([CHR 0x5C] @ ''n'') @ '')) {'',
     ''      if (line.startsWith('' @ squoted ''id: '' @ '')) id = line.slice(4);'',
     ''      else if (line.startsWith('' @ squoted ''event: '' @ '')) event = line.slice(7);'',
     ''      else if (line.startsWith('' @ squoted ''data: '' @ '')) data.push(line.slice(6));'',
     ''    }'',
     ''    if (id === undefined || event !== '' @ squoted ''case'' @ '' || data.length === 0) {'',
     ''      return undefined;'',
     ''    }'',
     ''    return {'',
     ''      id,'',
     ''      event: '' @ squoted ''case'' @ '','',
     ''      data: JSON.parse(data.join('' @ squoted ([CHR 0x5C] @ ''n'') @ '')) as CaseEventStreamEventData,'',
     ''    };'',
     ''  }'',
     ''}'',
     []]"

definition client_lines :: "string list" where
  "client_lines = client_option_lines @ client_method_lines @ client_stream_lines @ client_request_lines @ client_frame_lines"

definition required_paths :: "string list" where
  "required_paths =
    [''/v1/cases'', ''/v1/cases/{case_id}'', ''/v1/cases/{case_id}/timeline'', ''/v1/cases/{case_id}/transitions'',
     ''/v1/cases/{case_id}/resolution'', ''/v1/cases/{case_id}/feedback'', ''/v1/cases/{case_id}/config-preview'',
     ''/v1/cases/{case_id}/artifacts/upload-intents'',
     ''/v1/cases/{case_id}/artifacts/upload-intents/{intent_id}/complete'', ''/v1/cases/{case_id}/artifacts/status'',
     ''/v1/events'']"

definition missing_paths :: "members \<Rightarrow> string list" where
  "missing_paths paths = sort_by str_le (filter (\<lambda>p. map_of paths p = None) required_paths)"

definition validate_event_stream_operation :: "members \<Rightarrow> exn + unit" where
  "validate_event_stream_operation operation =
     (let get_operation = mapping_of (map_of operation ''get'');
          parameters = mapping_parameter_names (map_of get_operation ''parameters'') in
      bindE (raise_unless (''Last-Event-ID'' \<in> parameters \<and> ''limit'' \<in> parameters)
        (ValueError ''OpenAPI event stream must expose Last-Event-ID and limit parameters.'')) (\<lambda>_.
      raise_unless (map_of (mapping_of (map_of get_operation ''responses'')) ''200'' \<noteq> None)
        (ValueError ''OpenAPI event stream must document a successful replay response.'')))"

definition render_schema_item :: "string \<times> json \<Rightarrow> exn + string list" where
  "render_schema_item item = (case snd item of
     JObj m \<Rightarrow> bindE (render_named_schema (fst item) m) (\<lambda>ls. Inr (ls @ [[]])) | _ \<Rightarrow> Inr [])"

definition header_lines :: "string list" where
  "header_lines = [''/* This file is generated by scripts/generate-api-client.py. Do not edit. */'', []]"

definition typescript_client :: "members \<Rightarrow> exn + string" where
  "typescript_client document =
     (let schemas = mapping_of (map_of (mapping_of (map_of document ''components'')) ''schemas'');
          paths = mapping_of (map_of document ''paths'') in
      bindE (traverseE render_schema_item (sorted_items schemas)) (\<lambda>type_lines.
      bindE (raise_unless (missing_paths paths = [])
        (ValueError (''OpenAPI is missing required case paths: '' @ join '', '' (missing_paths paths)))) (\<lambda>_.
      bindE (validate_event_stream_operation (mapping_of (map_of paths ''/v1/events''))) (\<lambda>_. Inr
        (join [CHR 0x0A] (header_lines @ concat type_lines @ client_lines))))))"

section \<open>Files\<close>

type_synonym files = "string \<rightharpoonup> string"

fun universal_newlines :: "string \<Rightarrow> string" where
  "universal_newlines [] = []"
| "universal_newlines [c] = [if c = CHR 0x0D then CHR 0x0A else c]"
| "universal_newlines (c # d # cs) =
     (if c = CHR 0x0D then CHR 0x0A # universal_newlines (if d = CHR 0x0A then cs else d # cs)
      else c # universal_newlines (d # cs))"

definition read_text :: "files \<Rightarrow> string \<Rightarrow> string option" where
  "read_text files path = map_option universal_newlines (files path)"

definition write_or_check :: "bool \<Rightarrow> string \<Rightarrow> string \<Rightarrow> files \<Rightarrow> bool \<times> files" where
  "write_or_check check_only path contents files =
     (if read_text files path = Some contents then (True, files)
      else if check_only then (False, files)
      else (True, files(path \<mapsto> contents)))"

definition OPENAPI_OUTPUT :: string where
  "OPENAPI_OUTPUT = ''packages/api-client/openapi.json''"

definition CLIENT_OUTPUT :: string where
  "CLIENT_OUTPUT = ''packages/api-client/src/generated.ts''"

definition openapi_text :: "members \<Rightarrow> string" where
  "openapi_text document = json_indented 0 (json_sort_keys (JObj document)) @ [CHR 0x0A]"

definition generate_main :: "bool \<Rightarrow> members \<Rightarrow> files \<Rightarrow> exn + nat \<times> files" where
  "generate_main check_only document files =
     bindE (typescript_client document) (\<lambda>client.
       (let (openapi_current, files) = write_or_check check_only OPENAPI_OUTPUT (openapi_text document) files;
            (client_current, files) = write_or_check check_only CLIENT_OUTPUT client files
        in Inr (if openapi_current \<and> client_current then 0 else 1, files)))"

section \<open>Regenerating\<close>

lemma universal_newlines_id: "CHR 0x0D \<notin> set s \<Longrightarrow> universal_newlines s = s"
  by (induction s rule: universal_newlines.induct) auto

lemma OUTPUT_distinct [simp]: "OPENAPI_OUTPUT \<noteq> CLIENT_OUTPUT" "CLIENT_OUTPUT \<noteq> OPENAPI_OUTPUT"
  by (simp_all add: OPENAPI_OUTPUT_def CLIENT_OUTPUT_def)

lemma write_or_check_writes:
  assumes "write_or_check False path contents files = (ok, files')" "CHR 0x0D \<notin> set contents"
  shows "ok" "read_text files' path = Some contents" "\<And>p. p \<noteq> path \<Longrightarrow> files' p = files p"
  using assms by (auto simp: write_or_check_def read_text_def universal_newlines_id split: if_splits)

text \<open>
  The contract check decides and the generator satisfies it. With \<open>--check\<close> no file changes and the exit code is 0
  exactly when both files read as what would be generated; without it the exit code is 0, only the two files are
  written, and a check right after it passes.
\<close>

theorem regenerated_files_pass_the_check:
  assumes "typescript_client document = Inr client"
    and "CHR 0x0D \<notin> set client" "CHR 0x0D \<notin> set (openapi_text document)"
  shows "generate_main True document files =
      Inr (if read_text files OPENAPI_OUTPUT = Some (openapi_text document) \<and> read_text files CLIENT_OUTPUT = Some client
        then 0 else 1, files) \<and>
    (\<exists>files'. generate_main False document files = Inr (0, files') \<and>
      generate_main True document files' = Inr (0, files') \<and>
      (\<forall>p. p \<noteq> OPENAPI_OUTPUT \<and> p \<noteq> CLIENT_OUTPUT \<longrightarrow> files' p = files p))"
proof -
  have check: "generate_main True document files =
      Inr (if read_text files OPENAPI_OUTPUT = Some (openapi_text document) \<and> read_text files CLIENT_OUTPUT = Some client
        then 0 else 1, files)" for files
    by (simp add: generate_main_def assms(1) write_or_check_def)
  obtain ok1 files1 where w1: "write_or_check False OPENAPI_OUTPUT (openapi_text document) files = (ok1, files1)" by fastforce
  obtain ok2 files2 where w2: "write_or_check False CLIENT_OUTPUT client files1 = (ok2, files2)" by fastforce
  note f1 = write_or_check_writes [OF w1 assms(3)] and f2 = write_or_check_writes [OF w2 assms(2)]
  have "generate_main False document files = Inr (0, files2)"
    using f1(1) f2(1) by (simp add: generate_main_def assms(1) w1 w2)
  moreover have "read_text files2 OPENAPI_OUTPUT = Some (openapi_text document)"
    using f1(2) f2(3) [of OPENAPI_OUTPUT] by (simp add: read_text_def)
  moreover have "\<forall>p. p \<noteq> OPENAPI_OUTPUT \<and> p \<noteq> CLIENT_OUTPUT \<longrightarrow> files2 p = files p"
    using f1(3) f2(3) by simp
  ultimately show ?thesis
    using f2(2) by (auto simp: check)
qed

section \<open>The order of members\<close>


text \<open>What \<open>sort_keys\<close> makes of the members of an object.\<close>

definition normal :: "members \<Rightarrow> members" where
  "normal m = sorted_items (map (\<lambda>kv. (fst kv, json_sort_keys (snd kv))) m)"

text \<open>A document as Python has it: the keys of an object are distinct; enumerated values are scalars.\<close>

definition scalar :: "json \<Rightarrow> bool" where
  "scalar v = (case v of JArr _ \<Rightarrow> False | JObj _ \<Rightarrow> False | _ \<Rightarrow> True)"

fun document_ok :: "json \<Rightarrow> bool" where
  "document_ok (JObj m) =
     (distinct (map fst m) \<and> list_all (\<lambda>kv. document_ok (snd kv)) m \<and>
      (case list_member m ''enum'' of None \<Rightarrow> True | Some vs \<Rightarrow> list_all scalar vs))"
| "document_ok (JArr vs) = list_all document_ok vs"
| "document_ok _ = True"

lemma sorted_items_map_of: "distinct (map fst m) \<Longrightarrow> map_of (sorted_items m) = map_of m"
proof -
  assume d: "distinct (map fst m)"
  have "mset (map fst (sorted_items m)) = mset (map fst m)" by (simp add: sorted_items_def)
  with d have "distinct (map fst (sorted_items m))" by (metis mset_eq_imp_distinct_iff)
  with d show ?thesis by (intro map_of_inject_set [THEN iffD2]) (simp_all add: sorted_items_def)
qed

lemma normal_map_of: "distinct (map fst m) \<Longrightarrow> map_of (normal m) k = map_option json_sort_keys (map_of m k)"
proof -
  assume "distinct (map fst m)"
  then have "map_of (normal m) k = map_of (map (\<lambda>kv. (fst kv, json_sort_keys (snd kv))) m) k"
    unfolding normal_def by (subst sorted_items_map_of) (simp_all add: comp_def)
  also have "\<dots> = map_option json_sort_keys (map_of m k)" by (induction m) auto
  finally show ?thesis .
qed

lemma json_sort_keys_normal: "json_sort_keys (JObj m) = JObj (normal m)"
  by (simp add: normal_def sorted_items_def)

lemma json_sort_keys_shape:
  "json_sort_keys v = JStr s \<longleftrightarrow> v = JStr s"
  "json_sort_keys v = JArr ws \<longleftrightarrow> (\<exists>vs. v = JArr vs \<and> ws = map json_sort_keys vs)"
  "json_sort_keys v = JObj n \<longleftrightarrow> (\<exists>m. v = JObj m \<and> n = normal m)"
  by (cases v; auto simp: json_sort_keys_normal simp del: json_sort_keys.simps(2))+

lemma mapping_of_normal: "mapping_of (map_option json_sort_keys v) = normal (mapping_of v)"
  by (cases v; cases "the v") (simp_all add: mapping_of_def json_sort_keys_normal normal_def sorted_items_def del: json_sort_keys.simps(2))

lemma case_sort_keys:
  "(case json_sort_keys v of JStr s \<Rightarrow> Some s | _ \<Rightarrow> None) = (case v of JStr s \<Rightarrow> Some s | _ \<Rightarrow> None)"
  "(case json_sort_keys v of JArr vs \<Rightarrow> Some vs | _ \<Rightarrow> None) =
     map_option (map json_sort_keys) (case v of JArr vs \<Rightarrow> Some vs | _ \<Rightarrow> None)"
  "(case json_sort_keys v of JObj kvs \<Rightarrow> Some kvs | _ \<Rightarrow> None) =
     map_option normal (case v of JObj kvs \<Rightarrow> Some kvs | _ \<Rightarrow> None)"
  by (cases v; simp add: json_sort_keys_normal del: json_sort_keys.simps(2))+

lemma unhashable_sort_keys: "unhashable (Some (json_sort_keys v)) = unhashable (Some v)"
  by (cases v) (simp_all add: unhashable_def)

lemma members_of_normal:
  assumes "distinct (map fst m)"
  shows "text_member (normal m) k = text_member m k"
    and "list_member (normal m) k = map_option (map json_sort_keys) (list_member m k)"
    and "mapping_member (normal m) k = map_option normal (mapping_member m k)"
    and "mapping_of (map_of (normal m) k) = normal (mapping_of (map_of m k))"
    and "unhashable (map_of (normal m) k) = unhashable (map_of m k)"
    and "map_of (normal m) k = None \<longleftrightarrow> map_of m k = None"
proof -
  note nm = normal_map_of [OF assms]
  show "text_member (normal m) k = text_member m k"
    by (cases "map_of m k") (simp_all add: text_member_def nm case_sort_keys)
  show "list_member (normal m) k = map_option (map json_sort_keys) (list_member m k)"
    by (cases "map_of m k") (simp_all add: list_member_def nm case_sort_keys)
  show "mapping_member (normal m) k = map_option normal (mapping_member m k)"
    by (cases "map_of m k") (simp_all add: mapping_member_def nm case_sort_keys)
  show "mapping_of (map_of (normal m) k) = normal (mapping_of (map_of m k))"
    by (simp add: nm mapping_of_normal)
  show "unhashable (map_of (normal m) k) = unhashable (map_of m k)"
    by (cases "map_of m k") (simp_all add: nm unhashable_sort_keys unhashable_def [of None])
  show "map_of (normal m) k = None \<longleftrightarrow> map_of m k = None"
    by (simp add: nm)
qed

lemma composite_of_normal:
  "distinct (map fst m) \<Longrightarrow> composite_of (normal m) = map_option (map json_sort_keys) (composite_of m)"
  by (cases "list_member m ''anyOf''"; cases "list_member m ''oneOf''")
    (simp_all add: composite_of_def members_of_normal del: member_Some)

fun map_kind :: "schema_kind \<Rightarrow> schema_kind" where
  "map_kind (Enumeration vs) = Enumeration (map json_sort_keys vs)"
| "map_kind (Composite vs) = Composite (map json_sort_keys vs)"
| "map_kind (ArrayOf m) = ArrayOf (normal m)"
| "map_kind (Dictionary m) = Dictionary (normal m)"
| "map_kind k = k"

lemma kind_of_normal:
  assumes "distinct (map fst m)"
  shows "kind_of (normal m) = map_kind (kind_of m)"
proof -
  note n = members_of_normal [OF assms]
  have "kind_of_type (normal m) t = map_kind (kind_of_type m t)" for t
    by (cases "mapping_member m ''additionalProperties''") (simp_all add: kind_of_type_def n del: member_Some)
  then show ?thesis
    by (cases "text_member m ''$ref''"; cases "list_member m ''enum''"; cases "composite_of m"; cases "text_member m ''type''")
      (simp_all add: kind_of_def n composite_of_normal [OF assms] del: member_Some)
qed

lemma document_ok_lookup: "document_ok (JObj m) \<Longrightarrow> map_of m k = Some v \<Longrightarrow> document_ok v"
  by (auto simp: list_all_iff dest!: map_of_SomeD)

lemma document_ok_mapping: "(case v of None \<Rightarrow> True | Some w \<Rightarrow> document_ok w) \<Longrightarrow> document_ok (JObj (mapping_of v))"
  by (cases v; cases "the v") (simp_all add: mapping_of_def list_member_def)

lemma document_ok_member: "document_ok (JObj m) \<Longrightarrow> document_ok (JObj (mapping_of (map_of m k)))"
  by (rule document_ok_mapping) (auto split: option.split intro: document_ok_lookup simp del: document_ok.simps)

lemma kind_of_ok:
  assumes "document_ok (JObj m)"
  shows "case kind_of m of
      Enumeration vs \<Rightarrow> list_all scalar vs | Composite vs \<Rightarrow> list_all document_ok vs
    | ArrayOf a \<Rightarrow> document_ok (JObj a) | Dictionary a \<Rightarrow> document_ok (JObj a) | _ \<Rightarrow> True"
proof (cases "kind_of m")
  case (Enumeration vs)
  then have "list_member m ''enum'' = Some vs"
    by (auto simp: kind_of_def kind_of_type_def split: option.splits if_splits)
  with assms show ?thesis by (simp add: Enumeration del: member_Some)
next
  case (Composite vs)
  then obtain k where "map_of m k = Some (JArr vs)" using composite_of_lookup kind_of_parts(1) by blast
  then show ?thesis using document_ok_lookup [OF assms] Composite by fastforce
next
  case (ArrayOf a)
  then show ?thesis using document_ok_member [OF assms] kind_of_parts(2) by auto
next
  case (Dictionary a)
  then show ?thesis using document_ok_lookup [OF assms kind_of_parts(3)] by simp
qed simp_all

lemma json_sort_keys_scalar: "scalar v \<Longrightarrow> json_sort_keys v = v"
  by (cases v) (simp_all add: scalar_def)

lemma ts_type_normal: "document_ok (JObj m) \<Longrightarrow> ts_type (normal m) = ts_type m"
proof (induction m rule: ts_type.induct)
  case (1 m)
  note ok = kind_of_ok [OF 1(4)]
  have d: "distinct (map fst m)" using 1(4) by simp
  have k: "kind_of (normal m) = map_kind (kind_of m)" by (rule kind_of_normal [OF d])
  show ?case
  proof (cases "kind_of m")
    case (Composite vs)
    have "traverseE (\<lambda>v. ts_type (mapping_of (Some v))) (map json_sort_keys vs) =
        traverseE (\<lambda>v. ts_type (mapping_of (Some v))) vs"
    proof -
      have "ts_type (mapping_of (Some (json_sort_keys v))) = ts_type (mapping_of (Some v))" if "v \<in> set vs" for v
      proof -
        have "document_ok v" using ok Composite that by (simp add: list_all_iff)
        then have "document_ok (JObj (mapping_of (Some v)))" by (intro document_ok_mapping) simp
        from 1(1) [OF Composite that this] show ?thesis using mapping_of_normal [of "Some v"] by simp
      qed
      then show ?thesis by (induction vs) auto
    qed
    then show ?thesis by (simp add: ts_type.simps [of m] ts_type.simps [of "normal m"] k Composite)
  next
    case (Enumeration vs)
    then have "map json_sort_keys vs = vs" using ok by (simp add: list_all_iff json_sort_keys_scalar map_idI)
    then show ?thesis by (simp add: ts_type.simps [of m] ts_type.simps [of "normal m"] k Enumeration)
  next
    case (ArrayOf a)
    with 1(2) ok have "ts_type (normal a) = ts_type a" by simp
    then show ?thesis by (simp add: ts_type.simps [of m] ts_type.simps [of "normal m"] k ArrayOf)
  next
    case (Dictionary a)
    with 1(3) ok have "ts_type (normal a) = ts_type a" by simp
    then show ?thesis by (simp add: ts_type.simps [of m] ts_type.simps [of "normal m"] k Dictionary)
  qed (simp_all add: ts_type.simps [of m] ts_type.simps [of "normal m"] k)
qed

lemma traverseE_map_cong: "(\<And>x. x \<in> set xs \<Longrightarrow> f (h x) = f x) \<Longrightarrow> traverseE f (map h xs) = traverseE f xs"
  by (induction xs) auto

lemma insert_by_map: "(\<And>a b. le (h a) (h b) = le a b) \<Longrightarrow> insert_by le (h x) (map h xs) = map h (insert_by le x xs)"
  by (induction xs) auto

lemma sort_by_map: "(\<And>a b. le (h a) (h b) = le a b) \<Longrightarrow> sort_by le (map h xs) = map h (sort_by le xs)"
  by (induction xs) (simp_all add: sort_by_Cons insert_by_map)

lemma normal_map: "normal m = map (\<lambda>kv. (fst kv, json_sort_keys (snd kv))) (sorted_items m)"
  unfolding normal_def sorted_items_def by (rule sort_by_map) simp

lemma sort_by_sorted: "sorted_wrt le xs \<Longrightarrow> sort_by le xs = xs"
proof (induction xs)
  case (Cons x xs)
  then show ?case by (cases xs) (simp_all add: sort_by_Cons)
qed simp

lemma sorted_items_idem: "sorted_items (sorted_items m) = sorted_items m"
proof -
  have "sorted_wrt (\<lambda>a b. str_le (fst a) (fst b)) (sorted_items m)"
    unfolding sorted_items_def by (rule sorted_wrt_sort_by, rule str_le_total, erule str_le_trans, assumption)
  then show ?thesis unfolding sorted_items_def by (rule sort_by_sorted)
qed

lemma sorted_items_normal: "sorted_items (normal m) = map (\<lambda>kv. (fst kv, json_sort_keys (snd kv))) (sorted_items m)"
  by (simp add: normal_def sorted_items_idem) (simp add: normal_map [unfolded normal_def])

lemma string_list_sort_keys: "string_list (map json_sort_keys vs) = string_list vs"
  by (induction vs rule: string_list.induct) simp_all

lemma string_list_of_normal:
  "distinct (map fst m) \<Longrightarrow> string_list_of (map_of (normal m) k) = string_list_of (map_of m k)"
  by (cases "map_of m k"; cases "the (map_of m k)")
    (simp_all add: normal_map_of string_list_of_def string_list_sort_keys)

lemma render_property_normal:
  "document_ok (snd kv) \<Longrightarrow> render_property required (fst kv, json_sort_keys (snd kv)) = render_property required kv"
  using ts_type_normal [OF document_ok_mapping, of "Some (snd kv)"] mapping_of_normal [of "Some (snd kv)"]
  by (simp add: render_property_def)

lemma document_ok_sorted:
  "document_ok (JObj m) \<Longrightarrow> kv \<in> set (sorted_items m) \<Longrightarrow> document_ok (snd kv)"
  by (auto simp: sorted_items_def list_all_iff)

lemma render_named_schema_normal:
  assumes "document_ok (JObj m)"
  shows "render_named_schema name (normal m) = render_named_schema name m"
proof -
  have d: "distinct (map fst m)" using assms by simp
  let ?ps = "mapping_of (map_of m ''properties'')"
  have "traverseE (render_property required) (sorted_items (normal ?ps)) = traverseE (render_property required) (sorted_items ?ps)"
    for required
    unfolding sorted_items_normal
    by (rule traverseE_map_cong) (rule render_property_normal [OF document_ok_sorted [OF document_ok_member [OF assms]]])
  moreover have "render_additional (map_option normal (mapping_member m k)) = render_additional (mapping_member m k)" for k
  proof (cases "mapping_member m k")
    case (Some a)
    then have "document_ok (JObj a)" using document_ok_lookup [OF assms, of k] by simp
    then show ?thesis by (simp add: Some render_additional_def ts_type_normal)
  qed simp
  ultimately show ?thesis
    by (simp add: render_named_schema_def members_of_normal [OF d] string_list_of_normal [OF d] ts_type_normal [OF assms]
        del: member_Some)
qed

lemma render_schema_item_normal:
  "document_ok (snd item) \<Longrightarrow> render_schema_item (fst item, json_sort_keys (snd item)) = render_schema_item item"
  by (cases "snd item") (simp_all add: render_schema_item_def json_sort_keys_normal render_named_schema_normal
      del: json_sort_keys.simps(2) document_ok.simps(1))

lemma parameter_names_normal:
  assumes "document_ok (JObj m)"
  shows "mapping_parameter_names (map_of (normal m) k) = mapping_parameter_names (map_of m k)"
proof (cases "list_member m k")
  case None
  have "mapping_parameter_names v = {}" if "(case v of Some (JArr vs) \<Rightarrow> Some vs | _ \<Rightarrow> None) = None" for v
    using that by (auto simp: mapping_parameter_names_def split: option.splits json.splits)
  then show ?thesis
    using None members_of_normal(2) [of m k] assms by (simp add: list_member_def)
next
  case (Some ps)
  let ?name = "\<lambda>p. case parameter_name p of Some n \<Rightarrow> n | None \<Rightarrow> JNull"
  have "?name (json_sort_keys p) = json_sort_keys (?name p)" if "document_ok p" for p
    using that by (cases p) (auto simp: parameter_name_def json_sort_keys_normal normal_map_of split: option.split
        simp del: json_sort_keys.simps(2))
  moreover have "list_all document_ok ps" using document_ok_lookup [OF assms, of k] Some by fastforce
  ultimately have "map ?name (map json_sort_keys ps) = map json_sort_keys (map ?name ps)" by (auto simp: list_all_iff)
  then have "string_list (map ?name (map json_sort_keys ps)) = string_list (map ?name ps)"
    by (simp only: string_list_sort_keys)
  then show ?thesis
    using Some normal_map_of [of m k] assms by (simp add: mapping_parameter_names_def)
qed

lemma validate_normal:
  assumes "document_ok (JObj m)"
  shows "validate_event_stream_operation (normal m) = validate_event_stream_operation m"
proof -
  have d: "distinct (map fst m)" using assms by simp
  have g: "document_ok (JObj (mapping_of (map_of m ''get'')))" by (rule document_ok_member [OF assms])
  then have dg: "distinct (map fst (mapping_of (map_of m ''get'')))" by simp
  have dr: "distinct (map fst (mapping_of (map_of (mapping_of (map_of m ''get'')) ''responses'')))"
    using document_ok_member [OF g, of "''responses''"] by simp
  show ?thesis
    by (simp add: validate_event_stream_operation_def Let_def members_of_normal(4,6) [OF d] members_of_normal(4,6) [OF dg]
        members_of_normal(6) [OF dr] parameter_names_normal [OF g] del: not_None_eq)
qed

lemma json_sort_keys_idem: "json_sort_keys (json_sort_keys v) = json_sort_keys v"
proof (induction v rule: json_sort_keys.induct)
  case (2 kvs)
  have "sorted_items (normal kvs) = normal kvs" by (simp add: normal_def sorted_items_idem)
  moreover have "map (\<lambda>kv. (fst kv, json_sort_keys (snd kv))) (normal kvs) = normal kvs"
    unfolding normal_map using 2 by (auto simp: sorted_items_def)
  ultimately show ?case by (simp add: json_sort_keys_normal normal_def [of "normal kvs"] del: json_sort_keys.simps(2))
qed simp_all

text \<open>
  C40. The committed files belong together. Generating from the committed document, whose members are sorted, gives the
  same two files as generating from the document of the application, whatever order its members have, provided the
  enumerated values are scalars.
\<close>

theorem committed_document_gives_the_client:
  assumes "document_ok (JObj document)" "json_sort_keys (JObj document) = JObj committed"
  shows "typescript_client committed = typescript_client document \<and> openapi_text committed = openapi_text document"
proof -
  have c: "committed = normal document" using assms(2) by (simp only: json_sort_keys_normal json.inject)
  have d: "distinct (map fst document)" using assms(1) by simp
  let ?cs = "mapping_of (map_of document ''components'')" and ?paths = "mapping_of (map_of document ''paths'')"
  have cs: "document_ok (JObj ?cs)" and paths: "document_ok (JObj ?paths)" by (rule document_ok_member [OF assms(1)])+
  let ?schemas = "mapping_of (map_of ?cs ''schemas'')"
  have "traverseE render_schema_item (sorted_items (normal ?schemas)) = traverseE render_schema_item (sorted_items ?schemas)"
    unfolding sorted_items_normal
    by (rule traverseE_map_cong) (rule render_schema_item_normal [OF document_ok_sorted [OF document_ok_member [OF cs]]])
  moreover have "missing_paths (normal ?paths) = missing_paths ?paths"
    using paths members_of_normal(6) [of ?paths] by (simp add: missing_paths_def)
  moreover have "distinct (map fst ?cs)" "distinct (map fst ?paths)" using cs paths by simp_all
  ultimately have "typescript_client committed = typescript_client document"
    using validate_normal [OF document_ok_member [OF paths]]
    by (simp add: typescript_client_def c Let_def members_of_normal(4) d)
  moreover have "openapi_text committed = openapi_text document"
    using json_sort_keys_idem [of "JObj document"] by (simp only: openapi_text_def assms(2))
  ultimately show ?thesis by simp
qed

section \<open>Examples\<close>

definition demo_operation :: json where
  "demo_operation = JObj [(''get'', JObj
     [(''responses'', JObj [(''200'', JObj [])]),
      (''parameters'', JArr [JObj [(''name'', JStr ''limit'')], JObj [(''name'', JStr ''Last-Event-ID'')]])])]"

definition demo_schemas :: members where
  "demo_schemas =
     [(''CaseState'', JObj [(''enum'', JArr [JStr ''new'', JStr ''resolved''])]),
      (''CaseResponse'', JObj [(''required'', JArr [JStr ''state'']), (''properties'', JObj
         [(''state'', JObj [(''$ref'', JStr ''#/components/schemas/CaseState'')]), (''note'', JObj [(''type'', JStr ''string'')])])])]"

definition demo_document :: members where
  "demo_document =
     [(''paths'', JObj (map (\<lambda>p. (p, if p = ''/v1/events'' then demo_operation else JObj [])) required_paths)),
      (''components'', JObj [(''schemas'', JObj demo_schemas)])]"

lemma demo_client:
  obtains client where "typescript_client demo_document = Inr client" "CHR 0x0D \<notin> set client"
proof -
  have types: "traverseE render_schema_item (sorted_items demo_schemas) = Inr
      [[''export interface CaseResponse {'', ''  note?: string;'', ''  state: CaseState;'', ''}'', []],
       [''export type CaseState = '' @ json_string ''new'' @ '' | '' @ json_string ''resolved'' @ '';'', []]]"
    by code_simp
  let ?paths = "mapping_of (map_of demo_document ''paths'')"
  have paths: "missing_paths ?paths = []"
    "validate_event_stream_operation (mapping_of (map_of ?paths ''/v1/events'')) = Inr ()" by code_simp+
  have "mapping_of (map_of (mapping_of (map_of demo_document ''components'')) ''schemas'') = demo_schemas"
    by (simp add: demo_document_def mapping_of_def)
  then have client: "typescript_client demo_document = Inr (join [CHR 0x0A] (header_lines @
      [''export interface CaseResponse {'', ''  note?: string;'', ''  state: CaseState;'', ''}'', [],
       ''export type CaseState = '' @ json_string ''new'' @ '' | '' @ json_string ''resolved'' @ '';'', []] @ client_lines))"
    by (simp add: typescript_client_def Let_def types paths)
  have cr: "CHR 0x0D \<notin> set (join sep ls)" if "CHR 0x0D \<notin> set sep" "list_all (\<lambda>l. CHR 0x0D \<notin> set l) ls" for sep ls
    using that by (induction sep ls rule: join.induct) auto
  have "list_all (\<lambda>l. CHR 0x0D \<notin> set l) client_lines" by code_simp
  moreover have "list_all (\<lambda>l. CHR 0x0D \<notin> set l) (header_lines @
      [''export interface CaseResponse {'', ''  note?: string;'', ''  state: CaseState;'', ''}'', [],
       ''export type CaseState = '' @ json_string ''new'' @ '' | '' @ json_string ''resolved'' @ '';'', []])" by code_simp
  ultimately show ?thesis by (intro that [OF client] cr) simp_all
qed

theorem regenerated_files_pass_the_check_witness:
  "\<exists>files. generate_main False demo_document Map.empty = Inr (0, files) \<and> generate_main True demo_document files = Inr (0, files)"
proof -
  obtain client where c: "typescript_client demo_document = Inr client" "CHR 0x0D \<notin> set client" by (rule demo_client)
  have "CHR 0x0D \<notin> set (openapi_text demo_document)" by code_simp
  from regenerated_files_pass_the_check [OF c this, of Map.empty] show ?thesis by blast
qed

theorem committed_document_gives_the_client_witness:
  "typescript_client (normal demo_document) = typescript_client demo_document \<and> normal demo_document \<noteq> demo_document"
proof -
  have "document_ok (JObj demo_document)" by code_simp
  from committed_document_gives_the_client [OF this json_sort_keys_normal]
  have "typescript_client (normal demo_document) = typescript_client demo_document" by simp
  moreover have "fst (hd (normal demo_document)) \<noteq> fst (hd demo_document)"
    by (simp add: normal_def sorted_items_def demo_document_def sort_by_Cons)
  ultimately show ?thesis by auto
qed

text \<open>The members of a union that is the item type of an array lose their parentheses.\<close>

lemma array_of_union_is_misread:
  "ts_type [(''type'', JStr ''array''), (''items'', JObj [(''anyOf'', JArr
      [JObj [(''type'', JStr ''string'')], JObj [(''type'', JStr ''integer'')]])])] = Inr ''string | number[]''"
  by code_simp

end
