(* ===== verification/Tenant_Schema.thy ===== *)
theory Tenant_Schema
  imports Case_Schema
begin

text \<open>
  The identity tables of \<open>20260715_01_tenant_identity_rls.py\<close>: their columns, constraints, foreign-key actions and the
  row policy the migration creates in a loop over the tenant tables, seen from a session of \<open>netops_app\<close>. The tables
  stand beside the store of the case spine, which keeps the keys of organizations and assets. The statements are those
  the role is granted: inserts, updates and deletes of organizations, memberships, assets and settings, and, since the
  second migration revoked the rest, inserts of audit events. Keys are checked against all rows, whatever the policy
  hides. The users are not granted to the role; their rows are written by the owner of the schema.
\<close>

section \<open>The application role\<close>

text \<open>
  The statements that create \<open>netops_app\<close>, with the password of the environment as a string literal. PostgreSQL reads
  a literal up to the first quote that is not doubled, and the body of a \<open>DO\<close> block up to the next pair of dollars.
\<close>

definition quote_mark :: char where
  "quote_mark = CHR 0x27"

definition quoted_password :: "string \<Rightarrow> string" where
  "quoted_password password = replace_all [quote_mark] [quote_mark, quote_mark] password"

definition password_literal :: "string \<Rightarrow> string" where
  "password_literal password = [quote_mark] @ quoted_password password @ [quote_mark]"

definition role_attributes :: "string \<Rightarrow> string" where
  "role_attributes password =
     ''ROLE netops_app LOGIN NOINHERIT NOBYPASSRLS PASSWORD '' @ password_literal password @ '';''"

definition create_role_block :: "string \<Rightarrow> string" where
  "create_role_block password =
     ''BEGIN IF NOT EXISTS (SELECT 1 FROM pg_roles WHERE rolname = '' @ [quote_mark] @ ''netops_app'' @ [quote_mark] @ '') THEN CREATE ''
       @ role_attributes password @ '' END IF; END ''"

definition role_statements :: "string option \<Rightarrow> exn + string list" where
  "role_statements password = (case password of
     Some p \<Rightarrow> if p = [] then Inl (RuntimeError ''NETOPS_APPLICATION_DB_PASSWORD is required for the application role.'')
       else Inr [''DO $$ '' @ create_role_block p @ ''$$;'', ''ALTER '' @ role_attributes p]
   | None \<Rightarrow> Inl (RuntimeError ''NETOPS_APPLICATION_DB_PASSWORD is required for the application role.''))"

text \<open>What the server reads: a literal after its opening quote, with the rest, and a dollar-quoted body.\<close>

fun read_literal :: "string \<Rightarrow> string \<times> string" where
  "read_literal [] = ([], [])"
| "read_literal [c] = (if c = quote_mark then ([], []) else ([c], []))"
| "read_literal (c # d # cs) =
     (if c = quote_mark
      then (if d = quote_mark then let (s, rest) = read_literal cs in (quote_mark # s, rest) else ([], d # cs))
      else let (s, rest) = read_literal (d # cs) in (c # s, rest))"

fun read_dollar_body :: "string \<Rightarrow> string" where
  "read_dollar_body (c # d # cs) = (if c = CHR ''$'' \<and> d = CHR ''$'' then [] else c # read_dollar_body (d # cs))"
| "read_dollar_body cs = cs"

lemma replace_quote: "replace_all [quote_mark] [quote_mark, quote_mark] (c # cs) =
    (if c = quote_mark then [quote_mark, quote_mark] else [c]) @ replace_all [quote_mark] [quote_mark, quote_mark] cs"
  by (simp add: startswith_def)

text \<open>No password ends its literal early, and the literal is the password.\<close>

lemma password_literal_reads_back:
  assumes "case rest of [] \<Rightarrow> True | c # _ \<Rightarrow> c \<noteq> quote_mark"
  shows "read_literal (quoted_password p @ [quote_mark] @ rest) = (p, rest)"
proof (induction p)
  case Nil
  show ?case using assms by (cases rest) (auto simp: quoted_password_def)
next
  case (Cons c p)
  obtain x xs where q: "quoted_password p @ [quote_mark] @ rest = x # xs" by (cases "quoted_password p") auto
  show ?case using Cons.IH q
    by (auto simp: quoted_password_def replace_quote simp del: replace_all.simps)
qed

text \<open>But a pair of dollars in it ends the block around it.\<close>

lemma dollars_cut_the_block:
  "read_dollar_body (create_role_block ''a$$b'' @ ''$$;'') \<noteq> create_role_block ''a$$b''"
proof -
  have "length (read_dollar_body (create_role_block ''a$$b'' @ ''$$;'')) \<noteq> length (create_role_block ''a$$b'')" by code_simp
  then show ?thesis by auto
qed

section \<open>Tables\<close>

record organization_row =
  og_id :: uuid
  og_slug :: string
  og_display_name :: string
  og_created_at :: int

record user_row =
  us_id :: uuid
  us_oidc_subject :: string
  us_display_name :: "string option"
  us_created_at :: int

record membership_row =
  mb_org :: uuid
  mb_user :: uuid
  mb_role :: string
  mb_created_at :: int

record asset_row =
  at_id :: uuid
  at_org :: uuid
  at_name :: string
  at_environment :: "string option"
  at_created_at :: int

record organization_settings_row =
  og_settings_org :: uuid
  og_retention_days :: int
  og_updated_at :: int

record tenant_tables =
  tn_db :: db
  tn_organizations :: "organization_row list"
  tn_users :: "user_row list"
  tn_memberships :: "membership_row list"
  tn_assets :: "asset_row list"
  tn_settings :: "organization_settings_row list"

definition membership_roles :: "string list" where
  "membership_roles = [''org_admin'', ''operator'', ''approver'', ''auditor'', ''integration_admin'', ''platform_admin'']"

text \<open>The column the policy of a table compares, one definition per table.\<close>

definition current_tenant :: "tenant_tables \<Rightarrow> uuid option" where
  "current_tenant t = current_org (tn_db t)"

definition tenant_policy :: "tenant_tables \<Rightarrow> uuid \<Rightarrow> bool" where
  "tenant_policy t org = (current_tenant t = Some org)"

definition policy_check :: "tenant_tables \<Rightarrow> uuid \<Rightarrow> string \<Rightarrow> exn + unit" where
  "policy_check t org table = raise_unless (tenant_policy t org) (RowSecurityError table)"

section \<open>Inserting\<close>

definition insert_organization :: "organization_row \<Rightarrow> tenant_tables \<Rightarrow> exn + tenant_tables" where
  "insert_organization r t =
     bindE (policy_check t (og_id r) ''organizations'') (\<lambda>_.
     bindE (constraints
       [(og_id r \<notin> og_id ` set (tn_organizations t), ''organizations_pkey''),
        (og_slug r \<notin> og_slug ` set (tn_organizations t), ''organizations_slug_key'')]) (\<lambda>_. Inr
     (t\<lparr>tn_organizations := tn_organizations t @ [r],
        tn_db := (tn_db t)\<lparr>db_organizations := db_organizations (tn_db t) @ [og_id r]\<rparr>\<rparr>)))"

text \<open>\<open>users\<close> has no policy and no grant: rows are written by the owner of the schema.\<close>

definition insert_user :: "user_row \<Rightarrow> tenant_tables \<Rightarrow> exn + tenant_tables" where
  "insert_user r t =
     bindE (constraints
       [(us_id r \<notin> us_id ` set (tn_users t), ''users_pkey''),
        (us_oidc_subject r \<notin> us_oidc_subject ` set (tn_users t), ''users_oidc_subject_key'')]) (\<lambda>_. Inr
     (t\<lparr>tn_users := tn_users t @ [r]\<rparr>))"

definition insert_membership :: "membership_row \<Rightarrow> tenant_tables \<Rightarrow> exn + tenant_tables" where
  "insert_membership r t =
     bindE (policy_check t (mb_org r) ''memberships'') (\<lambda>_.
     bindE (constraints
       [(mb_role r \<in> set membership_roles, ''ck_memberships_role''),
        ((mb_org r, mb_user r) \<notin> (\<lambda>m. (mb_org m, mb_user m)) ` set (tn_memberships t), ''memberships_pkey''),
        (mb_org r \<in> og_id ` set (tn_organizations t), ''memberships_organization_id_fkey''),
        (mb_user r \<in> us_id ` set (tn_users t), ''memberships_user_id_fkey'')]) (\<lambda>_. Inr
     (t\<lparr>tn_memberships := tn_memberships t @ [r]\<rparr>)))"

definition insert_asset :: "asset_row \<Rightarrow> tenant_tables \<Rightarrow> exn + tenant_tables" where
  "insert_asset r t =
     bindE (policy_check t (at_org r) ''assets'') (\<lambda>_.
     bindE (constraints
       [(at_id r \<notin> at_id ` set (tn_assets t), ''assets_pkey''),
        ((at_org r, at_name r) \<notin> (\<lambda>a. (at_org a, at_name a)) ` set (tn_assets t), ''uq_assets_organization_name''),
        (at_org r \<in> og_id ` set (tn_organizations t), ''assets_organization_id_fkey'')]) (\<lambda>_. Inr
     (t\<lparr>tn_assets := tn_assets t @ [r],
        tn_db := (tn_db t)\<lparr>db_assets := db_assets (tn_db t) @ [(at_org r, at_id r)]\<rparr>\<rparr>)))"

definition insert_settings :: "organization_settings_row \<Rightarrow> tenant_tables \<Rightarrow> exn + tenant_tables" where
  "insert_settings r t =
     bindE (int4 (og_retention_days r)) (\<lambda>_.
     bindE (policy_check t (og_settings_org r) ''organization_settings'') (\<lambda>_.
     bindE (constraints
       [(1 \<le> og_retention_days r \<and> og_retention_days r \<le> 3650, ''ck_settings_retention_days''),
        (og_settings_org r \<notin> og_settings_org ` set (tn_settings t), ''organization_settings_pkey''),
        (og_settings_org r \<in> og_id ` set (tn_organizations t), ''organization_settings_organization_id_fkey'')]) (\<lambda>_. Inr
     (t\<lparr>tn_settings := tn_settings t @ [r]\<rparr>))))"

section \<open>Deleting\<close>

text \<open>
  A deleted organization takes its memberships, assets and settings with it. Audit events, cases, upload intents,
  artifacts and processing events restrict the deletion; a consumer receipt would go too, but its table is
  append-only, so the trigger raises.
\<close>

definition referring_organizations :: "db \<Rightarrow> (uuid list \<times> string) list" where
  "referring_organizations d =
     [(map a_org (db_audit d), ''audit_events_organization_id_fkey''),
      (map c_org (db_cases d), ''cases_organization_id_fkey''),
      (map u_org (db_intents d), ''artifact_upload_intents_organization_id_fkey''),
      (map r_org (db_artifacts d), ''artifacts_organization_id_fkey''),
      (map p_org (db_processing d), ''artifact_processing_events_organization_id_fkey'')]"

definition append_only :: "string \<Rightarrow> exn" where
  "append_only table = DatabaseRaise (table @ '' is append-only and cannot be modified'')"

text \<open>The trigger of the append-only tables, on the rows a statement would change or delete.\<close>

definition reject_immutable_history_mutation :: "string \<Rightarrow> 'r list \<Rightarrow> exn + unit" where
  "reject_immutable_history_mutation table rows = raise_unless (rows = []) (append_only table)"

definition delete_organizations :: "(organization_row \<Rightarrow> bool) \<Rightarrow> tenant_tables \<Rightarrow> exn + tenant_tables" where
  "delete_organizations p t =
     (let d = tn_db t;
          gone = map og_id (filter (\<lambda>r. tenant_policy t (og_id r) \<and> p r) (tn_organizations t));
          stays = (\<lambda>org. org \<notin> set gone) in
      bindE (constraints (map (\<lambda>(orgs, name). (list_all stays orgs, name)) (referring_organizations d))) (\<lambda>_.
      bindE (reject_immutable_history_mutation ''consumer_inbox'' (filter (\<lambda>r. \<not> stays (i_org r)) (db_inbox d))) (\<lambda>_. Inr
      (t\<lparr>tn_organizations := filter (\<lambda>r. stays (og_id r)) (tn_organizations t),
         tn_memberships := filter (\<lambda>r. stays (mb_org r)) (tn_memberships t),
         tn_assets := filter (\<lambda>r. stays (at_org r)) (tn_assets t),
         tn_settings := filter (\<lambda>r. stays (og_settings_org r)) (tn_settings t),
         tn_db := d\<lparr>db_organizations := filter stays (db_organizations d),
           db_assets := filter (\<lambda>a. stays (fst a)) (db_assets d)\<rparr>\<rparr>))))"

definition delete_memberships :: "(membership_row \<Rightarrow> bool) \<Rightarrow> tenant_tables \<Rightarrow> exn + tenant_tables" where
  "delete_memberships p t =
     Inr (t\<lparr>tn_memberships := filter (\<lambda>r. \<not> (tenant_policy t (mb_org r) \<and> p r)) (tn_memberships t)\<rparr>)"

definition delete_assets :: "(asset_row \<Rightarrow> bool) \<Rightarrow> tenant_tables \<Rightarrow> exn + tenant_tables" where
  "delete_assets p t =
     (let d = tn_db t; stays = (\<lambda>r. \<not> (tenant_policy t (at_org r) \<and> p r));
          gone = map (\<lambda>r. (at_org r, at_id r)) (filter (Not \<circ> stays) (tn_assets t)) in
      bindE (constraints [(list_all (\<lambda>c. case c_asset_id c of None \<Rightarrow> True | Some a \<Rightarrow> (c_org c, a) \<notin> set gone) (db_cases d),
        ''cases_organization_id_asset_id_fkey'')]) (\<lambda>_. Inr
      (t\<lparr>tn_assets := filter stays (tn_assets t), tn_db := d\<lparr>db_assets := filter (\<lambda>a. a \<notin> set gone) (db_assets d)\<rparr>\<rparr>)))"

definition delete_settings :: "(organization_settings_row \<Rightarrow> bool) \<Rightarrow> tenant_tables \<Rightarrow> exn + tenant_tables" where
  "delete_settings p t =
     Inr (t\<lparr>tn_settings := filter (\<lambda>r. \<not> (tenant_policy t (og_settings_org r) \<and> p r)) (tn_settings t)\<rparr>)"

section \<open>Updating\<close>

text \<open>
  \<open>UPDATE ... SET ... WHERE\<close>: \<open>f\<close> is the assignment and \<open>sel\<close> the rows the policy shows and the condition selects.
  The rows are taken one after the other; a new row is checked, its keys against the other rows as they then are,
  before it takes its place. The references are checked when the statement is done, and none is declared with an
  action on updates.
\<close>

fun update_rows :: "('r \<Rightarrow> bool) \<Rightarrow> ('r \<Rightarrow> 'r) \<Rightarrow> ('r list \<Rightarrow> 'r \<Rightarrow> exn + unit) \<Rightarrow> 'r list \<Rightarrow> 'r list \<Rightarrow> exn + 'r list" where
  "update_rows sel f check front [] = Inr front"
| "update_rows sel f check front (r # rest) =
     (if sel r then bindE (check (front @ rest) (f r)) (\<lambda>_. update_rows sel f check (front @ [f r]) rest)
      else update_rows sel f check (front @ [r]) rest)"

definition update_organizations ::
  "(organization_row \<Rightarrow> bool) \<Rightarrow> (organization_row \<Rightarrow> organization_row) \<Rightarrow> tenant_tables \<Rightarrow> exn + tenant_tables" where
  "update_organizations p f t =
     bindE (update_rows (\<lambda>r. tenant_policy t (og_id r) \<and> p r) f (\<lambda>others r.
       bindE (policy_check t (og_id r) ''organizations'') (\<lambda>_.
       constraints
         [(og_id r \<notin> og_id ` set others, ''organizations_pkey''),
          (og_slug r \<notin> og_slug ` set others, ''organizations_slug_key'')])) [] (tn_organizations t)) (\<lambda>rows.
     let d = tn_db t; gone = set (map og_id (tn_organizations t)) - set (map og_id rows); stays = (\<lambda>org. org \<notin> gone) in
     bindE (constraints (map (\<lambda>(orgs, name). (list_all stays orgs, name))
       ([(map mb_org (tn_memberships t), ''memberships_organization_id_fkey''),
         (map at_org (tn_assets t), ''assets_organization_id_fkey''),
         (map og_settings_org (tn_settings t), ''organization_settings_organization_id_fkey'')] @
        referring_organizations d @ [(map i_org (db_inbox d), ''consumer_inbox_organization_id_fkey'')]))) (\<lambda>_. Inr
     (t\<lparr>tn_organizations := rows, tn_db := d\<lparr>db_organizations := map og_id rows\<rparr>\<rparr>)))"

definition update_memberships ::
  "(membership_row \<Rightarrow> bool) \<Rightarrow> (membership_row \<Rightarrow> membership_row) \<Rightarrow> tenant_tables \<Rightarrow> exn + tenant_tables" where
  "update_memberships p f t =
     bindE (update_rows (\<lambda>r. tenant_policy t (mb_org r) \<and> p r) f (\<lambda>others r.
       bindE (policy_check t (mb_org r) ''memberships'') (\<lambda>_.
       constraints
         [(mb_role r \<in> set membership_roles, ''ck_memberships_role''),
          ((mb_org r, mb_user r) \<notin> (\<lambda>m. (mb_org m, mb_user m)) ` set others, ''memberships_pkey'')]))
       [] (tn_memberships t)) (\<lambda>rows.
     bindE (constraints
       [(list_all (\<lambda>r. mb_org r \<in> og_id ` set (tn_organizations t)) rows, ''memberships_organization_id_fkey''),
        (list_all (\<lambda>r. mb_user r \<in> us_id ` set (tn_users t)) rows, ''memberships_user_id_fkey'')]) (\<lambda>_. Inr
     (t\<lparr>tn_memberships := rows\<rparr>)))"

definition update_assets :: "(asset_row \<Rightarrow> bool) \<Rightarrow> (asset_row \<Rightarrow> asset_row) \<Rightarrow> tenant_tables \<Rightarrow> exn + tenant_tables" where
  "update_assets p f t =
     bindE (update_rows (\<lambda>r. tenant_policy t (at_org r) \<and> p r) f (\<lambda>others r.
       bindE (policy_check t (at_org r) ''assets'') (\<lambda>_.
       constraints
         [(at_id r \<notin> at_id ` set others, ''assets_pkey''),
          ((at_org r, at_name r) \<notin> (\<lambda>a. (at_org a, at_name a)) ` set others, ''uq_assets_organization_name'')]))
       [] (tn_assets t)) (\<lambda>rows.
     let d = tn_db t; key = (\<lambda>r. (at_org r, at_id r)); gone = set (map key (tn_assets t)) - set (map key rows) in
     bindE (constraints
       [(list_all (\<lambda>r. at_org r \<in> og_id ` set (tn_organizations t)) rows, ''assets_organization_id_fkey''),
        (list_all (\<lambda>c. case c_asset_id c of None \<Rightarrow> True | Some a \<Rightarrow> (c_org c, a) \<notin> gone) (db_cases d),
           ''cases_organization_id_asset_id_fkey'')]) (\<lambda>_. Inr
     (t\<lparr>tn_assets := rows, tn_db := d\<lparr>db_assets := map key rows\<rparr>\<rparr>)))"

definition update_settings ::
  "(organization_settings_row \<Rightarrow> bool) \<Rightarrow> (organization_settings_row \<Rightarrow> organization_settings_row) \<Rightarrow> tenant_tables \<Rightarrow>
   exn + tenant_tables" where
  "update_settings p f t =
     bindE (update_rows (\<lambda>r. tenant_policy t (og_settings_org r) \<and> p r) f (\<lambda>others r.
       bindE (int4 (og_retention_days r)) (\<lambda>_.
       bindE (policy_check t (og_settings_org r) ''organization_settings'') (\<lambda>_.
       constraints
         [(1 \<le> og_retention_days r \<and> og_retention_days r \<le> 3650, ''ck_settings_retention_days''),
          (og_settings_org r \<notin> og_settings_org ` set others, ''organization_settings_pkey'')])))
       [] (tn_settings t)) (\<lambda>rows.
     bindE (constraints
       [(list_all (\<lambda>r. og_settings_org r \<in> og_id ` set (tn_organizations t)) rows,
           ''organization_settings_organization_id_fkey'')]) (\<lambda>_. Inr
     (t\<lparr>tn_settings := rows\<rparr>)))"

text \<open>An audit event of the session, with the statement of the case schema.\<close>

definition insert_audit :: "audit_row \<Rightarrow> tenant_tables \<Rightarrow> exn + tenant_tables" where
  "insert_audit r t = bindE (insert_audit_row r (tn_db t)) (\<lambda>d. Inr (t\<lparr>tn_db := d\<rparr>))"

section \<open>Statements\<close>

text \<open>What the application role may execute; the grants of the migrations decide which.\<close>

datatype tenant_statement =
    InsertOrganization organization_row
  | InsertMembership membership_row
  | InsertAsset asset_row
  | InsertSettings organization_settings_row
  | InsertAudit audit_row
  | UpdateOrganizations "organization_row \<Rightarrow> bool" "organization_row \<Rightarrow> organization_row"
  | UpdateMemberships "membership_row \<Rightarrow> bool" "membership_row \<Rightarrow> membership_row"
  | UpdateAssets "asset_row \<Rightarrow> bool" "asset_row \<Rightarrow> asset_row"
  | UpdateSettings "organization_settings_row \<Rightarrow> bool" "organization_settings_row \<Rightarrow> organization_settings_row"
  | DeleteOrganizations "organization_row \<Rightarrow> bool"
  | DeleteMemberships "membership_row \<Rightarrow> bool"
  | DeleteAssets "asset_row \<Rightarrow> bool"
  | DeleteSettings "organization_settings_row \<Rightarrow> bool"

fun execute :: "tenant_statement \<Rightarrow> tenant_tables \<Rightarrow> exn + tenant_tables" where
  "execute (InsertOrganization r) = insert_organization r"
| "execute (InsertMembership r) = insert_membership r"
| "execute (InsertAsset r) = insert_asset r"
| "execute (InsertSettings r) = insert_settings r"
| "execute (InsertAudit r) = insert_audit r"
| "execute (UpdateOrganizations p f) = update_organizations p f"
| "execute (UpdateMemberships p f) = update_memberships p f"
| "execute (UpdateAssets p f) = update_assets p f"
| "execute (UpdateSettings p f) = update_settings p f"
| "execute (DeleteOrganizations p) = delete_organizations p"
| "execute (DeleteMemberships p) = delete_memberships p"
| "execute (DeleteAssets p) = delete_assets p"
| "execute (DeleteSettings p) = delete_settings p"

text \<open>The statements of one transaction; the first error rolls back.\<close>

fun run_statements :: "tenant_statement list \<Rightarrow> tenant_tables \<Rightarrow> exn + tenant_tables" where
  "run_statements [] t = Inr t"
| "run_statements (s # ss) t = bindE (execute s t) (run_statements ss)"

section \<open>The contract of a tenant's transaction\<close>

locale tenant_store =
  fixes exec :: "'c \<Rightarrow> 's \<Rightarrow> 'e + 's"
    and tenant :: "'s \<Rightarrow> 'o option"
    and part :: "'o \<Rightarrow> 's \<Rightarrow> 'v"
    and good :: "'s \<Rightarrow> bool"
  assumes exec_tenant: "exec c s = Inr s' \<Longrightarrow> tenant s' = tenant s"
    and exec_foreign: "exec c s = Inr s' \<Longrightarrow> tenant s \<noteq> Some org \<Longrightarrow> part org s' = part org s"
    and exec_good: "exec c s = Inr s' \<Longrightarrow> good s \<Longrightarrow> good s'"
begin

fun run :: "'c list \<Rightarrow> 's \<Rightarrow> 'e + 's" where
  "run [] s = Inr s"
| "run (c # cs) s = bindE (exec c s) (run cs)"

lemma run_contract:
  "run cs s = Inr s' \<Longrightarrow> good s \<Longrightarrow>
   good s' \<and> tenant s' = tenant s \<and> (\<forall>org. tenant s \<noteq> Some org \<longrightarrow> part org s' = part org s)"
proof (induction cs arbitrary: s)
  case (Cons c cs)
  then obtain m where m: "exec c s = Inr m" and r: "run cs m = Inr s'" by (auto simp: result_simps)
  from Cons.IH [OF r exec_good [OF m Cons.prems(2)]] exec_tenant [OF m] exec_foreign [OF m]
  show ?case by simp
qed simp

end

section \<open>Integrity\<close>

text \<open>Every key is unique, every reference points to a row, every check holds, and the store knows the same keys.\<close>

definition keys_agree :: "tenant_tables \<Rightarrow> bool" where
  "keys_agree t =
     (db_organizations (tn_db t) = map og_id (tn_organizations t) \<and>
      db_assets (tn_db t) = map (\<lambda>a. (at_org a, at_id a)) (tn_assets t))"

definition keys_unique :: "tenant_tables \<Rightarrow> bool" where
  "keys_unique t =
     (distinct (map og_id (tn_organizations t)) \<and> distinct (map og_slug (tn_organizations t)) \<and>
      distinct (map us_id (tn_users t)) \<and> distinct (map us_oidc_subject (tn_users t)) \<and>
      distinct (map (\<lambda>m. (mb_org m, mb_user m)) (tn_memberships t)) \<and>
      distinct (map at_id (tn_assets t)) \<and> distinct (map (\<lambda>a. (at_org a, at_name a)) (tn_assets t)) \<and>
      distinct (map og_settings_org (tn_settings t)) \<and> distinct (map a_id (db_audit (tn_db t))))"

definition rows_refer :: "tenant_tables \<Rightarrow> bool" where
  "rows_refer t = (let orgs = og_id ` set (tn_organizations t) in
     list_all (\<lambda>m. mb_role m \<in> set membership_roles \<and> mb_org m \<in> orgs \<and> mb_user m \<in> us_id ` set (tn_users t)) (tn_memberships t) \<and>
     list_all (\<lambda>a. at_org a \<in> orgs) (tn_assets t) \<and>
     list_all (\<lambda>s. og_settings_org s \<in> orgs \<and> 1 \<le> og_retention_days s \<and> og_retention_days s \<le> 3650) (tn_settings t))"

definition store_refers :: "tenant_tables \<Rightarrow> bool" where
  "store_refers t = (let d = tn_db t; orgs = og_id ` set (tn_organizations t) in
     list_all (\<lambda>(refs, _). list_all (\<lambda>org. org \<in> orgs) refs) (referring_organizations d) \<and>
     list_all (\<lambda>r. i_org r \<in> orgs) (db_inbox d) \<and>
     list_all (\<lambda>c. case c_asset_id c of None \<Rightarrow> True
        | Some a \<Rightarrow> (c_org c, a) \<in> (\<lambda>r. (at_org r, at_id r)) ` set (tn_assets t)) (db_cases d))"

definition tenant_integrity :: "tenant_tables \<Rightarrow> bool" where
  "tenant_integrity t = (keys_agree t \<and> keys_unique t \<and> rows_refer t \<and> store_refers t)"

text \<open>What an organization owns in the identity tables.\<close>

definition tenant_part :: "uuid \<Rightarrow> tenant_tables \<Rightarrow>
    organization_row list \<times> membership_row list \<times> asset_row list \<times> organization_settings_row list \<times> audit_row list" where
  "tenant_part org t =
     (filter (\<lambda>r. og_id r = org) (tn_organizations t), filter (\<lambda>r. mb_org r = org) (tn_memberships t),
      filter (\<lambda>r. at_org r = org) (tn_assets t), filter (\<lambda>r. og_settings_org r = org) (tn_settings t),
      filter (\<lambda>r. a_org r = org) (db_audit (tn_db t)))"

text \<open>What it takes for each statement to succeed, and the tables after it.\<close>

lemma insert_organization_Inr:
  "insert_organization r t = Inr t' \<longleftrightarrow> tenant_policy t (og_id r) \<and> og_id r \<notin> og_id ` set (tn_organizations t) \<and>
     og_slug r \<notin> og_slug ` set (tn_organizations t) \<and>
     t' = t\<lparr>tn_organizations := tn_organizations t @ [r],
       tn_db := (tn_db t)\<lparr>db_organizations := db_organizations (tn_db t) @ [og_id r]\<rparr>\<rparr>"
  by (auto simp: insert_organization_def policy_check_def result_simps)

lemma insert_user_Inr:
  "insert_user r t = Inr t' \<longleftrightarrow> us_id r \<notin> us_id ` set (tn_users t) \<and>
     us_oidc_subject r \<notin> us_oidc_subject ` set (tn_users t) \<and> t' = t\<lparr>tn_users := tn_users t @ [r]\<rparr>"
  by (auto simp: insert_user_def result_simps)

lemma insert_membership_Inr:
  "insert_membership r t = Inr t' \<longleftrightarrow> tenant_policy t (mb_org r) \<and> mb_role r \<in> set membership_roles \<and>
     (mb_org r, mb_user r) \<notin> (\<lambda>m. (mb_org m, mb_user m)) ` set (tn_memberships t) \<and>
     mb_org r \<in> og_id ` set (tn_organizations t) \<and> mb_user r \<in> us_id ` set (tn_users t) \<and>
     t' = t\<lparr>tn_memberships := tn_memberships t @ [r]\<rparr>"
  by (auto simp: insert_membership_def policy_check_def result_simps)

lemma insert_asset_Inr:
  "insert_asset r t = Inr t' \<longleftrightarrow> tenant_policy t (at_org r) \<and> at_id r \<notin> at_id ` set (tn_assets t) \<and>
     (at_org r, at_name r) \<notin> (\<lambda>a. (at_org a, at_name a)) ` set (tn_assets t) \<and>
     at_org r \<in> og_id ` set (tn_organizations t) \<and>
     t' = t\<lparr>tn_assets := tn_assets t @ [r],
       tn_db := (tn_db t)\<lparr>db_assets := db_assets (tn_db t) @ [(at_org r, at_id r)]\<rparr>\<rparr>"
  by (auto simp: insert_asset_def policy_check_def result_simps)

lemma insert_settings_Inr:
  "insert_settings r t = Inr t' \<longleftrightarrow> tenant_policy t (og_settings_org r) \<and> 1 \<le> og_retention_days r \<and>
     og_retention_days r \<le> 3650 \<and> og_settings_org r \<notin> og_settings_org ` set (tn_settings t) \<and>
     og_settings_org r \<in> og_id ` set (tn_organizations t) \<and> t' = t\<lparr>tn_settings := tn_settings t @ [r]\<rparr>"
  by (auto simp: insert_settings_def policy_check_def result_simps)

definition gone_organizations :: "(organization_row \<Rightarrow> bool) \<Rightarrow> tenant_tables \<Rightarrow> uuid set" where
  "gone_organizations p t = og_id ` {r \<in> set (tn_organizations t). tenant_policy t (og_id r) \<and> p r}"

lemma delete_organizations_Inr:
  "delete_organizations p t = Inr t' \<longleftrightarrow> (let gone = gone_organizations p t; d = tn_db t in
     list_all (\<lambda>(orgs, _). list_all (\<lambda>org. org \<notin> gone) orgs) (referring_organizations d) \<and>
     list_all (\<lambda>r. i_org r \<notin> gone) (db_inbox d) \<and>
     t' = t\<lparr>tn_organizations := filter (\<lambda>r. og_id r \<notin> gone) (tn_organizations t),
       tn_memberships := filter (\<lambda>r. mb_org r \<notin> gone) (tn_memberships t),
       tn_assets := filter (\<lambda>r. at_org r \<notin> gone) (tn_assets t),
       tn_settings := filter (\<lambda>r. og_settings_org r \<notin> gone) (tn_settings t),
       tn_db := d\<lparr>db_organizations := filter (\<lambda>org. org \<notin> gone) (db_organizations d),
         db_assets := filter (\<lambda>a. fst a \<notin> gone) (db_assets d)\<rparr>\<rparr>)"
proof -
  have gone: "set (map og_id (filter (\<lambda>r. tenant_policy t (og_id r) \<and> p r) (tn_organizations t))) = gone_organizations p t"
    by (auto simp: gone_organizations_def)
  have refs: "(\<forall>c \<in> set (map (\<lambda>(orgs, name). (list_all P orgs, name)) rs). fst c) \<longleftrightarrow> list_all (\<lambda>(orgs, _). list_all P orgs) rs"
    for P and rs :: "(uuid list \<times> string) list" by (induction rs) auto
  show ?thesis
    unfolding delete_organizations_def Let_def gone bindE_eq_Inr constraints_Inr reject_immutable_history_mutation_def
      raise_unless_eq_Inr refs filter_empty_conv not_not list_all_iff [of _ "db_inbox (tn_db t)"] by auto
qed

definition gone_assets :: "(asset_row \<Rightarrow> bool) \<Rightarrow> tenant_tables \<Rightarrow> (uuid \<times> uuid) set" where
  "gone_assets p t = (\<lambda>r. (at_org r, at_id r)) ` {r \<in> set (tn_assets t). tenant_policy t (at_org r) \<and> p r}"

lemma delete_assets_Inr:
  "delete_assets p t = Inr t' \<longleftrightarrow> (let gone = gone_assets p t; d = tn_db t in
     list_all (\<lambda>c. case c_asset_id c of None \<Rightarrow> True | Some a \<Rightarrow> (c_org c, a) \<notin> gone) (db_cases d) \<and>
     t' = t\<lparr>tn_assets := filter (\<lambda>r. \<not> (tenant_policy t (at_org r) \<and> p r)) (tn_assets t),
       tn_db := d\<lparr>db_assets := filter (\<lambda>a. a \<notin> gone) (db_assets d)\<rparr>\<rparr>)"
proof -
  have gone: "set (map (\<lambda>r. (at_org r, at_id r)) (filter (Not \<circ> (\<lambda>r. \<not> (tenant_policy t (at_org r) \<and> p r))) (tn_assets t))) = gone_assets p t"
    by (auto simp: gone_assets_def)
  then show ?thesis
    unfolding delete_assets_def Let_def gone bindE_eq_Inr constraints_Inr by auto
qed

lemma insert_audit_Inr:
  "insert_audit r t = Inr t' \<longleftrightarrow> tenant_policy t (a_org r) \<and> a_id r \<notin> a_id ` set (db_audit (tn_db t)) \<and>
     a_org r \<in> set (db_organizations (tn_db t)) \<and> t' = t\<lparr>tn_db := (tn_db t)\<lparr>db_audit := db_audit (tn_db t) @ [r]\<rparr>\<rparr>"
  by (auto simp: insert_audit_def insert_audit_row_def tenant_policy_def current_tenant_def bindE_eq_Inr image_iff)

text \<open>
  An update replaces some of the session's own rows by rows of the session that passed the checks, and leaves the
  others; a key that is checked against the other rows stays unique.
\<close>

definition updated :: "('r \<Rightarrow> bool) \<Rightarrow> ('r \<Rightarrow> bool) \<Rightarrow> 'r list \<Rightarrow> 'r list \<Rightarrow> bool" where
  "updated own ok old new = list_all2 (\<lambda>r r'. r' = r \<or> own r \<and> own r' \<and> ok r') old new"

lemma update_rows_map:
  "update_rows sel f check front rest = Inr rows \<Longrightarrow>
   rows = front @ map (\<lambda>r. if sel r then f r else r) rest \<and>
   (\<forall>r \<in> set rest. sel r \<longrightarrow> (\<exists>others. check others (f r) = Inr ()))"
  by (induction rest arbitrary: front) (fastforce simp: bindE_eq_Inr split: if_splits)+

lemma update_rows_updated:
  assumes "update_rows (\<lambda>r. own r \<and> p r) f check [] old = Inr rows"
    and "\<And>others r. check others r = Inr () \<Longrightarrow> own r \<and> ok r"
  shows "updated own ok old rows"
proof -
  have "rows = map (\<lambda>r. if own r \<and> p r then f r else r) old"
    and new: "\<forall>r \<in> set old. own r \<and> p r \<longrightarrow> (\<exists>others. check others (f r) = Inr ())"
    using update_rows_map [OF assms(1)] by simp_all
  moreover have "own (f r) \<and> ok (f r)" if "r \<in> set old" "own r \<and> p r" for r
    using new that assms(2) by blast
  ultimately show ?thesis by (auto simp: updated_def list_all2_map2 intro!: list.rel_refl_strong)
qed

lemma update_rows_distinct:
  assumes "update_rows sel f check front rest = Inr rows"
    and "\<And>others r. check others r = Inr () \<Longrightarrow> key r \<notin> key ` set others" and "distinct (map key (front @ rest))"
  shows "distinct (map key rows)"
  using assms(1,3)
proof (induction rest arbitrary: front)
  case (Cons r rest)
  show ?case
  proof (cases "sel r")
    case True
    with Cons.prems(1) have c: "check (front @ rest) (f r) = Inr ()" and u: "update_rows sel f check (front @ [f r]) rest = Inr rows"
      by (auto simp: bindE_eq_Inr)
    have "key (f r) \<notin> key ` set (front @ rest)" by (rule assms(2) [OF c])
    with Cons.prems(2) show ?thesis by (intro Cons.IH [OF u]) auto
  next
    case False
    with Cons.prems(1) have u: "update_rows sel f check (front @ [r]) rest = Inr rows" by simp
    show ?thesis by (rule Cons.IH [OF u]) (use Cons.prems(2) in \<open>simp only: append_assoc append_Cons append_Nil\<close>)
  qed
qed simp

lemma updated_filter:
  "updated own ok old new \<Longrightarrow> (\<And>r. own r \<Longrightarrow> \<not> P r) \<Longrightarrow> filter P new = filter P old"
  unfolding updated_def by (induction rule: list_all2_induct) auto

lemma updated_map:
  assumes "updated own ok old new" "\<And>r r'. own r \<Longrightarrow> own r' \<Longrightarrow> g r = g r'"
  shows "map g new = map g old"
proof -
  have "list_all2 (\<lambda>r r'. g r' = g r) old new"
    using assms(1) unfolding updated_def by (rule list_all2_mono) (use assms(2) in blast)
  then show ?thesis by (simp add: list_all2_conv_all_nth list_eq_iff_nth_eq)
qed

lemma updated_all:
  "updated own ok old new \<Longrightarrow> list_all Q old \<Longrightarrow> (\<And>r. ok r \<Longrightarrow> Q r) \<Longrightarrow> list_all Q new"
  unfolding updated_def by (induction rule: list_all2_induct) auto

lemma tenant_policy_same: "tenant_policy t a \<Longrightarrow> tenant_policy t b \<Longrightarrow> a = b"
  by (simp add: tenant_policy_def)

lemma update_organizations_InrD:
  assumes "update_organizations p f t = Inr t'"
  obtains rows where "t' = t\<lparr>tn_organizations := rows, tn_db := (tn_db t)\<lparr>db_organizations := map og_id (tn_organizations t)\<rparr>\<rparr>"
    "updated (\<lambda>r. tenant_policy t (og_id r)) (\<lambda>_. True) (tn_organizations t) rows" "map og_id rows = map og_id (tn_organizations t)"
    "distinct (map og_slug (tn_organizations t)) \<Longrightarrow> distinct (map og_slug rows)"
proof -
  let ?check = "\<lambda>others r. bindE (policy_check t (og_id r) ''organizations'') (\<lambda>_. constraints
    [(og_id r \<notin> og_id ` set others, ''organizations_pkey''), (og_slug r \<notin> og_slug ` set others, ''organizations_slug_key'')])"
  obtain rows where u: "update_rows (\<lambda>r. tenant_policy t (og_id r) \<and> p r) f ?check [] (tn_organizations t) = Inr rows"
    and t': "t' = t\<lparr>tn_organizations := rows, tn_db := (tn_db t)\<lparr>db_organizations := map og_id rows\<rparr>\<rparr>"
    using assms by (auto simp: update_organizations_def bindE_eq_Inr Let_def)
  have up: "updated (\<lambda>r. tenant_policy t (og_id r)) (\<lambda>_. True) (tn_organizations t) rows"
    by (rule update_rows_updated [OF u]) (auto simp: bindE_eq_Inr policy_check_def)
  have ids: "map og_id rows = map og_id (tn_organizations t)"
    by (rule updated_map [OF up]) (rule tenant_policy_same)
  have "distinct (map og_slug rows)" if "distinct (map og_slug (tn_organizations t))"
    by (rule update_rows_distinct [OF u]) (use that in \<open>auto simp: bindE_eq_Inr policy_check_def\<close>)
  with t' up ids that show thesis by simp
qed

lemma update_memberships_InrD:
  assumes "update_memberships p f t = Inr t'"
  obtains rows where "t' = t\<lparr>tn_memberships := rows\<rparr>"
    "updated (\<lambda>r. tenant_policy t (mb_org r)) (\<lambda>r. mb_role r \<in> set membership_roles) (tn_memberships t) rows"
    "list_all (\<lambda>r. mb_org r \<in> og_id ` set (tn_organizations t) \<and> mb_user r \<in> us_id ` set (tn_users t)) rows"
    "distinct (map (\<lambda>m. (mb_org m, mb_user m)) (tn_memberships t)) \<Longrightarrow> distinct (map (\<lambda>m. (mb_org m, mb_user m)) rows)"
proof -
  let ?check = "\<lambda>others r. bindE (policy_check t (mb_org r) ''memberships'') (\<lambda>_. constraints
    [(mb_role r \<in> set membership_roles, ''ck_memberships_role''),
     ((mb_org r, mb_user r) \<notin> (\<lambda>m. (mb_org m, mb_user m)) ` set others, ''memberships_pkey'')])"
  obtain rows where u: "update_rows (\<lambda>r. tenant_policy t (mb_org r) \<and> p r) f ?check [] (tn_memberships t) = Inr rows"
    and t': "t' = t\<lparr>tn_memberships := rows\<rparr>"
    and refs: "list_all (\<lambda>r. mb_org r \<in> og_id ` set (tn_organizations t) \<and> mb_user r \<in> us_id ` set (tn_users t)) rows"
    using assms by (auto simp: update_memberships_def bindE_eq_Inr list_all_iff)
  have up: "updated (\<lambda>r. tenant_policy t (mb_org r)) (\<lambda>r. mb_role r \<in> set membership_roles) (tn_memberships t) rows"
    by (rule update_rows_updated [OF u]) (auto simp: bindE_eq_Inr policy_check_def)
  have "distinct (map (\<lambda>m. (mb_org m, mb_user m)) rows)" if "distinct (map (\<lambda>m. (mb_org m, mb_user m)) (tn_memberships t))"
    by (rule update_rows_distinct [OF u]) (use that in \<open>auto simp: bindE_eq_Inr policy_check_def\<close>)
  with t' up refs that show thesis by blast
qed

lemma update_assets_InrD:
  assumes "update_assets p f t = Inr t'"
  obtains rows where "t' = t\<lparr>tn_assets := rows, tn_db := (tn_db t)\<lparr>db_assets := map (\<lambda>r. (at_org r, at_id r)) rows\<rparr>\<rparr>"
    "updated (\<lambda>r. tenant_policy t (at_org r)) (\<lambda>_. True) (tn_assets t) rows"
    "list_all (\<lambda>r. at_org r \<in> og_id ` set (tn_organizations t)) rows"
    "list_all (\<lambda>c. case c_asset_id c of None \<Rightarrow> True | Some a \<Rightarrow>
       (c_org c, a) \<in> (\<lambda>r. (at_org r, at_id r)) ` set (tn_assets t) \<longrightarrow>
       (c_org c, a) \<in> (\<lambda>r. (at_org r, at_id r)) ` set rows) (db_cases (tn_db t))"
    "distinct (map at_id (tn_assets t)) \<Longrightarrow> distinct (map at_id rows)"
    "distinct (map (\<lambda>a. (at_org a, at_name a)) (tn_assets t)) \<Longrightarrow> distinct (map (\<lambda>a. (at_org a, at_name a)) rows)"
proof -
  let ?check = "\<lambda>others r. bindE (policy_check t (at_org r) ''assets'') (\<lambda>_. constraints
    [(at_id r \<notin> at_id ` set others, ''assets_pkey''),
     ((at_org r, at_name r) \<notin> (\<lambda>a. (at_org a, at_name a)) ` set others, ''uq_assets_organization_name'')])"
  obtain rows where u: "update_rows (\<lambda>r. tenant_policy t (at_org r) \<and> p r) f ?check [] (tn_assets t) = Inr rows"
    and t': "t' = t\<lparr>tn_assets := rows, tn_db := (tn_db t)\<lparr>db_assets := map (\<lambda>r. (at_org r, at_id r)) rows\<rparr>\<rparr>"
    and refs: "list_all (\<lambda>r. at_org r \<in> og_id ` set (tn_organizations t)) rows"
      "list_all (\<lambda>c. case c_asset_id c of None \<Rightarrow> True | Some a \<Rightarrow>
       (c_org c, a) \<notin> (\<lambda>r. (at_org r, at_id r)) ` set (tn_assets t) - (\<lambda>r. (at_org r, at_id r)) ` set rows) (db_cases (tn_db t))"
    using assms by (auto simp: update_assets_def bindE_eq_Inr Let_def)
  have up: "updated (\<lambda>r. tenant_policy t (at_org r)) (\<lambda>_. True) (tn_assets t) rows"
    by (rule update_rows_updated [OF u]) (auto simp: bindE_eq_Inr policy_check_def)
  have d: "distinct (map at_id rows)" if "distinct (map at_id (tn_assets t))"
    by (rule update_rows_distinct [OF u]) (use that in \<open>auto simp: bindE_eq_Inr policy_check_def\<close>)
  have n: "distinct (map (\<lambda>a. (at_org a, at_name a)) rows)" if "distinct (map (\<lambda>a. (at_org a, at_name a)) (tn_assets t))"
    by (rule update_rows_distinct [OF u]) (use that in \<open>auto simp: bindE_eq_Inr policy_check_def\<close>)
  have "list_all (\<lambda>c. case c_asset_id c of None \<Rightarrow> True | Some a \<Rightarrow>
       (c_org c, a) \<in> (\<lambda>r. (at_org r, at_id r)) ` set (tn_assets t) \<longrightarrow>
       (c_org c, a) \<in> (\<lambda>r. (at_org r, at_id r)) ` set rows) (db_cases (tn_db t))"
    using refs(2) unfolding list_all_iff by (auto split: option.splits)
  from that [OF t' up refs(1) this d n] show thesis .
qed

lemma update_settings_InrD:
  assumes "update_settings p f t = Inr t'"
  obtains rows where "t' = t\<lparr>tn_settings := rows\<rparr>"
    "updated (\<lambda>r. tenant_policy t (og_settings_org r)) (\<lambda>r. 1 \<le> og_retention_days r \<and> og_retention_days r \<le> 3650) (tn_settings t) rows"
    "list_all (\<lambda>r. og_settings_org r \<in> og_id ` set (tn_organizations t)) rows"
    "distinct (map og_settings_org (tn_settings t)) \<Longrightarrow> distinct (map og_settings_org rows)"
proof -
  let ?check = "\<lambda>others r. bindE (int4 (og_retention_days r)) (\<lambda>_.
    bindE (policy_check t (og_settings_org r) ''organization_settings'') (\<lambda>_. constraints
    [(1 \<le> og_retention_days r \<and> og_retention_days r \<le> 3650, ''ck_settings_retention_days''),
     (og_settings_org r \<notin> og_settings_org ` set others, ''organization_settings_pkey'')]))"
  obtain rows where u: "update_rows (\<lambda>r. tenant_policy t (og_settings_org r) \<and> p r) f ?check [] (tn_settings t) = Inr rows"
    and t': "t' = t\<lparr>tn_settings := rows\<rparr>"
    and refs: "list_all (\<lambda>r. og_settings_org r \<in> og_id ` set (tn_organizations t)) rows"
    using assms by (auto simp: update_settings_def bindE_eq_Inr)
  have up: "updated (\<lambda>r. tenant_policy t (og_settings_org r)) (\<lambda>r. 1 \<le> og_retention_days r \<and> og_retention_days r \<le> 3650) (tn_settings t) rows"
    by (rule update_rows_updated [OF u]) (auto simp: bindE_eq_Inr policy_check_def)
  have "distinct (map og_settings_org rows)" if "distinct (map og_settings_org (tn_settings t))"
    by (rule update_rows_distinct [OF u]) (use that in \<open>auto simp: bindE_eq_Inr policy_check_def\<close>)
  with t' up refs that show thesis by blast
qed

text \<open>The four at once: what an update leaves of the tables.\<close>

lemmas update_InrDs = update_organizations_InrD update_memberships_InrD update_assets_InrD update_settings_InrD

lemmas statement_results = insert_organization_Inr insert_membership_Inr insert_asset_Inr
  insert_settings_Inr insert_audit_Inr delete_organizations_Inr delete_assets_Inr delete_memberships_def delete_settings_def

lemma db_congs [simp]:
  "referring_organizations (d\<lparr>db_organizations := os\<rparr>) = referring_organizations d"
  "referring_organizations (d\<lparr>db_assets := as\<rparr>) = referring_organizations d"
  "current_org (d\<lparr>db_organizations := os\<rparr>) = current_org d" "current_org (d\<lparr>db_assets := as\<rparr>) = current_org d"
  "current_org (d\<lparr>db_audit := us\<rparr>) = current_org d"
  by (simp_all add: referring_organizations_def current_org_def)

lemma execute_tenant: "execute s t = Inr t' \<Longrightarrow> current_tenant t' = current_tenant t"
  by (cases s) (auto simp: statement_results Let_def current_tenant_def elim!: update_InrDs)

lemma filter_other: "(\<And>r. f r = org \<Longrightarrow> P r) \<Longrightarrow> filter (\<lambda>r. P r \<and> f r = org) rows = filter (\<lambda>r. f r = org) rows"
  by (rule filter_cong) auto

lemma execute_foreign: "execute s t = Inr t' \<Longrightarrow> current_tenant t \<noteq> Some org \<Longrightarrow> tenant_part org t' = tenant_part org t"
  by (cases s) (auto simp: statement_results Let_def tenant_part_def tenant_policy_def gone_organizations_def
      intro!: filter_other elim!: update_InrDs elim: updated_filter)

lemma gone_assets_filter:
  assumes "distinct (map at_id (tn_assets t))"
  shows "filter (\<lambda>r. \<not> (tenant_policy t (at_org r) \<and> p r)) (tn_assets t) =
    filter (\<lambda>r. (at_org r, at_id r) \<notin> gone_assets p t) (tn_assets t)"
  using assms by (intro filter_cong) (auto simp: gone_assets_def distinct_map inj_on_def)

lemma keys_unique_step: "execute s t = Inr t' \<Longrightarrow> keys_unique t \<Longrightarrow> keys_unique t'"
  by (cases s) (auto simp: statement_results Let_def keys_unique_def distinct_map_filter elim!: update_InrDs)

lemma keys_agree_step: "execute s t = Inr t' \<Longrightarrow> keys_unique t \<Longrightarrow> keys_agree t \<Longrightarrow> keys_agree t'"
proof (cases s)
  case (DeleteOrganizations p)
  assume "execute s t = Inr t'" "keys_agree t"
  then show ?thesis
    by (auto simp: DeleteOrganizations statement_results Let_def keys_agree_def filter_map comp_def)
next
  case (DeleteAssets p)
  assume "execute s t = Inr t'" "keys_agree t" "keys_unique t"
  then show ?thesis using gone_assets_filter [of t p]
    by (auto simp: DeleteAssets statement_results Let_def keys_agree_def keys_unique_def filter_map comp_def)
qed (auto simp: statement_results keys_agree_def elim!: update_InrDs)

text \<open>An update of organizations keeps their keys, which the policy holds fixed.\<close>

lemma update_organizations_refer:
  assumes "update_organizations p f t = Inr t'"
  shows "rows_refer t' = rows_refer t" "store_refers t' = store_refers t"
proof -
  obtain rows where t': "t' = t\<lparr>tn_organizations := rows, tn_db := (tn_db t)\<lparr>db_organizations := map og_id (tn_organizations t)\<rparr>\<rparr>"
    and ids: "map og_id rows = map og_id (tn_organizations t)" by (rule update_organizations_InrD [OF assms])
  from ids have "og_id ` set rows = og_id ` set (tn_organizations t)" by (metis set_map)
  then show "rows_refer t' = rows_refer t" "store_refers t' = store_refers t"
    by (simp_all add: t' rows_refer_def store_refers_def Let_def cong: option.case_cong)
qed

lemma rows_refer_step: "execute s t = Inr t' \<Longrightarrow> rows_refer t \<Longrightarrow> rows_refer t'"
proof (cases s)
  case (UpdateMemberships p f)
  assume "execute s t = Inr t'" and r: "rows_refer t"
  then have "update_memberships p f t = Inr t'" by (simp add: UpdateMemberships)
  then obtain rows where t': "t' = t\<lparr>tn_memberships := rows\<rparr>"
    and up: "updated (\<lambda>r. tenant_policy t (mb_org r)) (\<lambda>r. mb_role r \<in> set membership_roles) (tn_memberships t) rows"
    and refs: "list_all (\<lambda>r. mb_org r \<in> og_id ` set (tn_organizations t) \<and> mb_user r \<in> us_id ` set (tn_users t)) rows"
    by (rule update_memberships_InrD)
  have "list_all (\<lambda>m. mb_role m \<in> set membership_roles) rows"
    by (rule updated_all [OF up]) (use r in \<open>simp_all add: rows_refer_def Let_def list_all_iff\<close>)
  then show ?thesis using r refs by (simp add: t' rows_refer_def Let_def list_all_iff)
next
  case (UpdateSettings p f)
  assume "execute s t = Inr t'" and r: "rows_refer t"
  then have "update_settings p f t = Inr t'" by (simp add: UpdateSettings)
  then obtain rows where t': "t' = t\<lparr>tn_settings := rows\<rparr>"
    and up: "updated (\<lambda>r. tenant_policy t (og_settings_org r)) (\<lambda>r. 1 \<le> og_retention_days r \<and> og_retention_days r \<le> 3650)
      (tn_settings t) rows"
    and refs: "list_all (\<lambda>r. og_settings_org r \<in> og_id ` set (tn_organizations t)) rows"
    by (rule update_settings_InrD)
  have "list_all (\<lambda>m. 1 \<le> og_retention_days m \<and> og_retention_days m \<le> 3650) rows"
    by (rule updated_all [OF up]) (use r in \<open>simp_all add: rows_refer_def Let_def list_all_iff\<close>)
  then show ?thesis using r refs by (simp add: t' rows_refer_def Let_def list_all_iff)
next
  case (UpdateAssets p f)
  assume "execute s t = Inr t'" and r: "rows_refer t"
  then have "update_assets p f t = Inr t'" by (simp add: UpdateAssets)
  then show ?thesis by (rule update_assets_InrD) (use r in \<open>simp add: rows_refer_def Let_def\<close>)
next
  case (UpdateOrganizations p f)
  assume "execute s t = Inr t'" "rows_refer t"
  then show ?thesis using update_organizations_refer(1) by (simp add: UpdateOrganizations)
qed (auto simp: statement_results Let_def rows_refer_def list_all_iff)

lemma store_refers_mono:
  assumes "store_refers t" "referring_organizations (tn_db t') = referring_organizations (tn_db t)"
    and "db_inbox (tn_db t') = db_inbox (tn_db t)" "db_cases (tn_db t') = db_cases (tn_db t)"
    and "\<And>org. org \<in> og_id ` set (tn_organizations t) \<Longrightarrow>
      (\<exists>refs \<in> set (map fst (referring_organizations (tn_db t))). org \<in> set refs) \<or> (\<exists>r \<in> set (db_inbox (tn_db t)). i_org r = org) \<Longrightarrow>
      org \<in> og_id ` set (tn_organizations t')"
    and "\<And>org a. (org, a) \<in> (\<lambda>r. (at_org r, at_id r)) ` set (tn_assets t) \<Longrightarrow>
      (\<exists>c \<in> set (db_cases (tn_db t)). c_org c = org \<and> c_asset_id c = Some a) \<Longrightarrow>
      (org, a) \<in> (\<lambda>r. (at_org r, at_id r)) ` set (tn_assets t')"
  shows "store_refers t'"
proof -
  have "list_all (\<lambda>(refs, _). list_all (\<lambda>org. org \<in> og_id ` set (tn_organizations t')) refs) (referring_organizations (tn_db t))"
    unfolding list_all_iff
  proof (safe)
    fix refs name org
    assume r: "(refs, name) \<in> set (referring_organizations (tn_db t))" and org: "org \<in> set refs"
    then have "org \<in> og_id ` set (tn_organizations t)" using assms(1) by (fastforce simp: store_refers_def Let_def list_all_iff)
    then show "org \<in> og_id ` set (tn_organizations t')" using r org by (intro assms(5)) force+
  qed
  moreover have "list_all (\<lambda>r. i_org r \<in> og_id ` set (tn_organizations t')) (db_inbox (tn_db t))"
    unfolding list_all_iff using assms(1) by (intro ballI assms(5)) (auto simp: store_refers_def Let_def list_all_iff)
  moreover have "list_all (\<lambda>c. case c_asset_id c of None \<Rightarrow> True
        | Some a \<Rightarrow> (c_org c, a) \<in> (\<lambda>r. (at_org r, at_id r)) ` set (tn_assets t')) (db_cases (tn_db t))"
    unfolding list_all_iff
  proof (intro ballI)
    fix c assume c: "c \<in> set (db_cases (tn_db t))"
    show "case c_asset_id c of None \<Rightarrow> True | Some a \<Rightarrow> (c_org c, a) \<in> (\<lambda>r. (at_org r, at_id r)) ` set (tn_assets t')"
    proof (cases "c_asset_id c")
      case (Some a)
      then have "(c_org c, a) \<in> (\<lambda>r. (at_org r, at_id r)) ` set (tn_assets t)"
        using assms(1) c by (fastforce simp: store_refers_def Let_def list_all_iff)
      then show ?thesis using assms(6) c Some by auto
    qed simp
  qed
  ultimately show ?thesis by (simp add: store_refers_def Let_def assms(2-4))
qed

lemma store_refers_step:
  assumes "execute s t = Inr t'" "keys_unique t" "store_refers t" "keys_agree t"
  shows "store_refers t'"
proof (cases s)
  case (DeleteOrganizations p)
  let ?gone = "gone_organizations p t"
  have e: "list_all (\<lambda>(orgs, _). list_all (\<lambda>org. org \<notin> ?gone) orgs) (referring_organizations (tn_db t))"
    "list_all (\<lambda>r. i_org r \<notin> ?gone) (db_inbox (tn_db t))"
    and orgs: "tn_organizations t' = filter (\<lambda>r. og_id r \<notin> ?gone) (tn_organizations t)"
    and assets: "tn_assets t' = filter (\<lambda>r. at_org r \<notin> ?gone) (tn_assets t)"
    and db: "referring_organizations (tn_db t') = referring_organizations (tn_db t)" "db_inbox (tn_db t') = db_inbox (tn_db t)"
      "db_cases (tn_db t') = db_cases (tn_db t)"
    using assms(1) by (simp_all add: DeleteOrganizations delete_organizations_Inr Let_def)
  have cases_stay: "c_org c \<notin> ?gone" if "c \<in> set (db_cases (tn_db t))" for c
    using e(1) that by (simp add: referring_organizations_def list_all_iff)
  show ?thesis
  proof (rule store_refers_mono [OF assms(3) db])
    fix org assume "org \<in> og_id ` set (tn_organizations t)"
      and "(\<exists>refs \<in> set (map fst (referring_organizations (tn_db t))). org \<in> set refs) \<or> (\<exists>r \<in> set (db_inbox (tn_db t)). i_org r = org)"
    then show "org \<in> og_id ` set (tn_organizations t')" using e by (auto simp: orgs list_all_iff)
  next
    fix org a assume "(org, a) \<in> (\<lambda>r. (at_org r, at_id r)) ` set (tn_assets t)"
      and "\<exists>c \<in> set (db_cases (tn_db t)). c_org c = org \<and> c_asset_id c = Some a"
    then show "(org, a) \<in> (\<lambda>r. (at_org r, at_id r)) ` set (tn_assets t')" using cases_stay by (fastforce simp: assets)
  qed
next
  case (DeleteAssets p)
  have f: "filter (\<lambda>r. \<not> (tenant_policy t (at_org r) \<and> p r)) (tn_assets t) =
      filter (\<lambda>r. (at_org r, at_id r) \<notin> gone_assets p t) (tn_assets t)"
    using assms(2) by (intro gone_assets_filter) (simp add: keys_unique_def)
  have "delete_assets p t = Inr t'" using assms(1) by (simp add: DeleteAssets)
  then have "list_all (\<lambda>c. case c_asset_id c of None \<Rightarrow> True | Some a \<Rightarrow> (c_org c, a) \<notin> gone_assets p t) (db_cases (tn_db t))"
    and t': "t' = t\<lparr>tn_assets := filter (\<lambda>r. (at_org r, at_id r) \<notin> gone_assets p t) (tn_assets t),
       tn_db := (tn_db t)\<lparr>db_assets := filter (\<lambda>a. a \<notin> gone_assets p t) (db_assets (tn_db t))\<rparr>\<rparr>"
    unfolding delete_assets_Inr Let_def f by blast+
  then show ?thesis
    by (intro store_refers_mono [OF assms(3)]) (fastforce simp: list_all_iff)+
next
  case (UpdateOrganizations p f)
  then show ?thesis using assms(1,3) update_organizations_refer(2) by simp
next
  case (UpdateAssets p f)
  then have "update_assets p f t = Inr t'" using assms(1) by simp
  then obtain rows where t': "t' = t\<lparr>tn_assets := rows, tn_db := (tn_db t)\<lparr>db_assets := map (\<lambda>r. (at_org r, at_id r)) rows\<rparr>\<rparr>"
    and refs: "list_all (\<lambda>c. case c_asset_id c of None \<Rightarrow> True | Some a \<Rightarrow>
       (c_org c, a) \<in> (\<lambda>r. (at_org r, at_id r)) ` set (tn_assets t) \<longrightarrow>
       (c_org c, a) \<in> (\<lambda>r. (at_org r, at_id r)) ` set rows) (db_cases (tn_db t))"
    by (rule update_assets_InrD)
  have "(org, a) \<in> (\<lambda>r. (at_org r, at_id r)) ` set rows"
    if "(org, a) \<in> (\<lambda>r. (at_org r, at_id r)) ` set (tn_assets t)" "\<exists>c \<in> set (db_cases (tn_db t)). c_org c = org \<and> c_asset_id c = Some a"
    for org a using refs that unfolding list_all_iff by fastforce
  then show ?thesis unfolding t' by (intro store_refers_mono [OF assms(3)]) simp_all
next
  case (UpdateMemberships p f)
  then have "update_memberships p f t = Inr t'" using assms(1) by simp
  then show ?thesis by (rule update_memberships_InrD) (use assms(3) in \<open>simp add: store_refers_def Let_def cong: option.case_cong\<close>)
next
  case (UpdateSettings p f)
  then have "update_settings p f t = Inr t'" using assms(1) by simp
  then show ?thesis by (rule update_settings_InrD) (use assms(3) in \<open>simp add: store_refers_def Let_def cong: option.case_cong\<close>)
next
  case (InsertAudit r)
  then have "a_org r \<in> set (db_organizations (tn_db t))"
    and t': "t' = t\<lparr>tn_db := (tn_db t)\<lparr>db_audit := db_audit (tn_db t) @ [r]\<rparr>\<rparr>"
    using assms(1) by (simp_all add: insert_audit_Inr)
  then have "a_org r \<in> og_id ` set (tn_organizations t)" using assms(4) by (simp add: keys_agree_def)
  then show ?thesis using assms(3) by (simp add: t' store_refers_def Let_def referring_organizations_def cong: option.case_cong)
qed (use assms in \<open>auto simp: statement_results intro!: store_refers_mono [OF assms(3)]\<close>)

lemma execute_integrity: "execute s t = Inr t' \<Longrightarrow> tenant_integrity t \<Longrightarrow> tenant_integrity t'"
  unfolding tenant_integrity_def using keys_agree_step keys_unique_step rows_refer_step store_refers_step by blast

text \<open>The owner of the schema adds users; that keeps the tables as they should be, too.\<close>

lemma insert_user_integrity:
  assumes "insert_user r t = Inr t'" "tenant_integrity t"
  shows "tenant_integrity t'"
proof -
  have t': "t' = t\<lparr>tn_users := tn_users t @ [r]\<rparr>" using assms(1) by (simp add: insert_user_Inr)
  have "store_refers t' = store_refers t" by (simp add: t' store_refers_def Let_def cong: option.case_cong)
  moreover have "keys_agree t'" "keys_unique t'" "rows_refer t'"
    using assms by (auto simp: insert_user_Inr tenant_integrity_def keys_agree_def keys_unique_def rows_refer_def
      Let_def list_all_iff)
  ultimately show ?thesis using assms(2) by (simp add: tenant_integrity_def)
qed

interpretation identity: tenant_store execute current_tenant tenant_part tenant_integrity
  by unfold_locales (fact execute_tenant, fact execute_foreign, fact execute_integrity)

lemma run_statements_run: "run_statements ss t = identity.run ss t"
  by (induction ss arbitrary: t) (auto simp: bindE_def split: sum.split)

section \<open>Properties\<close>

text \<open>
  C37. Whatever inserts, updates and deletes of the granted tables a session of the application role gets through in a
  transaction, every key stays unique, every reference of the identity tables and of the case store points to a row, and
  of an organization the session is not bound to nothing changes: no row of it is altered, removed or added, neither by
  an insert nor by an update that would move a row to it. A session bound to none changes no tenant's rows.
\<close>

theorem tenant_tables_keep_integrity:
  assumes "run_statements ss t = Inr t'" "tenant_integrity t"
  shows "tenant_integrity t' \<and> (\<forall>org. current_tenant t \<noteq> Some org \<longrightarrow> tenant_part org t' = tenant_part org t)"
  using identity.run_contract [OF assms(1) [unfolded run_statements_run] assms(2)] by blast

definition demo_tenant_db :: db where
  "demo_tenant_db = \<lparr>app_organization_id = Some (uuid_str 1), db_organizations = [2], db_assets = [(2, 9)], db_cases = [],
     db_case_inputs = [], db_transitions = [], db_events = [], db_outbox = [], db_inbox = [], db_audit = [], db_intents = [],
     db_artifacts = [], db_processing = [], deferred_checks = []\<rparr>"

definition demo_tenants :: tenant_tables where
  "demo_tenants = \<lparr>tn_db = demo_tenant_db,
     tn_organizations = [\<lparr>og_id = 2, og_slug = ''b'', og_display_name = ''B'', og_created_at = 0\<rparr>],
     tn_users = [\<lparr>us_id = 5, us_oidc_subject = ''s'', us_display_name = None, us_created_at = 0\<rparr>], tn_memberships = [],
     tn_assets = [\<lparr>at_id = 9, at_org = 2, at_name = ''fw'', at_environment = None, at_created_at = 0\<rparr>], tn_settings = []\<rparr>"

definition demo_statements :: "tenant_statement list" where
  "demo_statements =
     [InsertOrganization \<lparr>og_id = 1, og_slug = ''a'', og_display_name = ''A'', og_created_at = 0\<rparr>,
      InsertMembership \<lparr>mb_org = 1, mb_user = 5, mb_role = ''operator'', mb_created_at = 0\<rparr>,
      UpdateMemberships (\<lambda>_. True) (\<lambda>m. m\<lparr>mb_role := ''auditor''\<rparr>),
      UpdateAssets (\<lambda>_. True) (\<lambda>a. a\<lparr>at_name := ''forged''\<rparr>),
      DeleteAssets (\<lambda>_. True)]"

lemma demo_tenants_ok: "tenant_integrity demo_tenants" "current_tenant demo_tenants = Some 1"
  by (simp_all add: tenant_integrity_def keys_agree_def keys_unique_def rows_refer_def store_refers_def demo_tenants_def
      demo_tenant_db_def referring_organizations_def current_tenant_def current_org_def netops_current_organization_id_def)

theorem tenant_tables_keep_integrity_witness:
  "\<exists>t. run_statements demo_statements demo_tenants = Inr t \<and> tenant_integrity t \<and>
     map mb_role (tn_memberships t) = [''auditor''] \<and> tenant_part 2 t = tenant_part 2 demo_tenants"
proof -
  have cur: "current_org demo_tenant_db = Some 1" using demo_tenants_ok(2) by (simp add: current_tenant_def demo_tenants_def)
  have tables: "db_cases demo_tenant_db = []" "db_organizations demo_tenant_db = [2]" "db_assets demo_tenant_db = [(2, 9)]"
    by (simp_all add: demo_tenant_db_def)
  note policy = policy_check_def tenant_policy_def current_tenant_def cur tables
  have "\<exists>t. run_statements demo_statements demo_tenants = Inr t \<and> map mb_role (tn_memberships t) = [''auditor'']"
    unfolding demo_statements_def demo_tenants_def
    by (simp add: insert_organization_def insert_membership_def policy constraints_ok membership_roles_def,
      simp add: update_memberships_def policy constraints_ok membership_roles_def,
      simp add: update_assets_def policy constraints_ok Let_def,
      simp add: delete_assets_def policy constraints_ok Let_def)
  then obtain t where t: "run_statements demo_statements demo_tenants = Inr t" "map mb_role (tn_memberships t) = [''auditor'']"
    by (elim exE conjE)
  from tenant_tables_keep_integrity [OF t(1) demo_tenants_ok(1)] show ?thesis using t demo_tenants_ok(2) by auto
qed

definition history_of :: "db \<Rightarrow> uuid set" where
  "history_of d = a_org ` set (db_audit d) \<union> c_org ` set (db_cases d) \<union> u_org ` set (db_intents d) \<union>
     r_org ` set (db_artifacts d) \<union> p_org ` set (db_processing d) \<union> i_org ` set (db_inbox d)"

text \<open>
  An organization with history stays: a statement that would delete organizations succeeds exactly when none of
  them has an audit event, a case, an upload intent, an artifact, a processing event or a consumer receipt, although
  the reference of the receipts is declared with ON DELETE CASCADE.
\<close>

theorem organization_with_history_stays:
  "(\<exists>t'. delete_organizations p t = Inr t') \<longleftrightarrow>
     (\<forall>r \<in> set (tn_organizations t). tenant_policy t (og_id r) \<and> p r \<longrightarrow> og_id r \<notin> history_of (tn_db t))"
proof -
  have "(\<exists>t'. delete_organizations p t = Inr t') \<longleftrightarrow>
      (list_all (\<lambda>(orgs, _). list_all (\<lambda>org. org \<notin> gone_organizations p t) orgs) (referring_organizations (tn_db t)) \<and>
       list_all (\<lambda>r. i_org r \<notin> gone_organizations p t) (db_inbox (tn_db t)))"
    by (simp add: delete_organizations_Inr Let_def)
  also have "\<dots> \<longleftrightarrow> gone_organizations p t \<inter> history_of (tn_db t) = {}"
    unfolding referring_organizations_def history_of_def list_all_iff by auto
  also have "\<dots> \<longleftrightarrow> (\<forall>r \<in> set (tn_organizations t). tenant_policy t (og_id r) \<and> p r \<longrightarrow> og_id r \<notin> history_of (tn_db t))"
    by (auto simp: gone_organizations_def)
  finally show ?thesis .
qed

theorem organization_with_history_stays_witness:
  "\<exists>t'. delete_organizations (\<lambda>r. og_slug r = ''b'') demo_tenants = Inr t'"
  by (subst organization_with_history_stays) (simp add: demo_tenants_def demo_tenant_db_def history_of_def)

text \<open>The roles a token can carry are the roles a membership can have.\<close>

lemma membership_roles_are_the_token_roles:
  "set membership_roles = case_role_value ` {ORG_ADMIN, OPERATOR, APPROVER, AUDITOR, INTEGRATION_ADMIN, PLATFORM_ADMIN}"
  by (auto simp: membership_roles_def)

end
