(* ===== verification/Spec2Isabelle.thy ===== *)
theory Spec2Isabelle
  imports Isolation_Properties Config_Properties Request_Properties Scan_Properties Observability_Properties
    Worker_Properties Error_Responses Cursor_Codec Api_Process Pkce_Verify Client_Generator Tenant_Schema
begin

text \<open>
  A verification development for \<open>netops-copilot\<close>: a multi-tenant case-management API
  (\<open>services/api/netops_api\<close>), its PostgreSQL schema (\<open>services/api/alembic/versions\<close>) and its
  background worker (\<open>services/worker/netops_worker\<close>).

  The parts of the program and how they interact. An operator's request reaches a handler, which opens
  a transaction bound to the caller's organization (\<open>core/database.py\<close>, \<open>core/tenant_context.py\<close>) and
  calls a repository. The case repository (\<open>application/cases.py\<close>) runs the pure state machine of
  \<open>domain/cases.py\<close> and writes, in one transaction, the case projection, an immutable transition row, an
  event, an outbox row and an audit row. The worker (\<open>outbox_publisher.py\<close>, \<open>outbox_transport.py\<close>) leases
  outbox rows (\<open>application/outbox.py\<close>), records a receipt in the consumer inbox and acknowledges.
  The schema repeats the rules of the state machine as constraints and triggers and isolates the
  organizations by row-level security.

  Theories, in the order the code has them:

  \<^item> \<open>Prelude\<close>: the error sum (\<open>bindE\<close>, \<open>traverseE\<close>), state-passing actions, stable sorting, list lemmas.
  \<^item> \<open>Py_Text\<close>, \<open>Py_Data\<close>, \<open>Hashing\<close>: the parts of Python the code uses (string methods, \<open>int()\<close>,
    \<open>uuid.UUID\<close>, \<open>datetime\<close>, \<open>json.dumps\<close>, SHA-256). Strings are lists of Latin-1 characters.
  \<^item> \<open>Exceptions\<close>: one constructor per exception class.
  \<^item> \<open>Case_Domain\<close>: \<open>domain/cases.py\<close>. Accepting a command is decided exactly, refusals are the declared
    errors in a fixed order, resolution needs a human approval, and no case is ever trapped.
  \<^item> \<open>Database\<close>, \<open>Case_Schema\<close>: the rows, constraints, row policies, triggers and the transaction
    boundary. A transaction is one atomic step, and deferred triggers run at its commit.
  \<^item> \<open>Case_Store\<close>: every statement and method of \<open>application/cases.py\<close>.
  \<^item> \<open>Case_Service\<close>: the contract between the service and its persistence port, as a locale, and its
    interpretation on the repository.
  \<^item> \<open>Case_History\<close>, \<open>Case_Progress\<close>, \<open>Case_Listing\<close>: the invariant of the store (the transition history
    replays to the projection, every event has its outbox row), that accepted commands always commit,
    and what a listing page holds.
  \<^item> \<open>Outbox\<close>, \<open>Publisher\<close>: leases, settlement, receipts, and the publisher over its ports, as a locale
    interpreted on the database.
  \<^item> \<open>Case_System\<close>: any interleaving of API commands and publishers that may crash between two
    transactions, as a step relation with its invariant.
  \<^item> \<open>Tenant_Isolation\<close>, \<open>Case_Properties\<close>, \<open>Delivery_Properties\<close>: the properties that span components.
    \<open>Isolation_Properties\<close>: no repository changes a row of another organization, and what it reads depends on
    its own organization's rows only.
  \<^item> \<open>Event_Feed\<close>: \<open>application/event_feed.py\<close>, what a client sees that follows the event stream.
  \<^item> \<open>Artifact_Schema\<close>, \<open>Artifact_Store\<close>, \<open>Artifact_Intents\<close>, \<open>Artifact_Ledger\<close>: the artifact tables and
    the trigger of the processing ledger, the S3 adapter, declaring and completing an upload, recording
    a scanner verdict and the status list. \<open>Worker_Artifacts\<close>: the worker's side of the same pipeline.
    \<open>Artifact_Properties\<close> holds their properties.
  \<^item> \<open>Regex_Match\<close>: the backtracking matcher of Python's \<open>re\<close> for the constructs the code uses.
  \<^item> \<open>Cisco_Parser\<close>, \<open>Cisco_Blocks\<close>, \<open>Cisco_Validator\<close>: \<open>parsers/cisco_ios\<close> and
    \<open>validators/cisco_ios_ipsec.py\<close>; the parser loop equals a reading of the text by blocks.
  \<^item> \<open>Redaction\<close>, \<open>Redaction_Facts\<close>, \<open>Config_Redaction\<close>: \<open>ingestion/redaction.py\<close>, the preview and the
    worker's redactor. \<open>Config_Properties\<close> holds the properties of parsing and redaction.
  \<^item> \<open>Access_Control\<close>, \<open>Request_Guards\<close>, \<open>Name_Uuid\<close>, \<open>Case_Api\<close>: \<open>core/auth.py\<close>, the rate limiter and
    the trace context, \<open>uuid.uuid5\<close>, and the endpoints of \<open>api/cases.py\<close> inside the request's
    transaction. \<open>Request_Properties\<close> holds their properties: who the caller is, how often a client may
    call, what a caller can see and what a caller can change.
  \<^item> \<open>Feature_Api\<close>: the other endpoints (preview, upload intents and their completion, artifact status,
    event replay, identity, health) over the repositories above.
  \<^item> \<open>Event_Stream\<close>: the text of the event stream, written by \<open>api/events.py\<close> and read by the client in
    \<open>packages/api-client\<close>; however the network cuts the stream, the client reads what was written.
  \<^item> \<open>Cursor_Codec\<close>: \<open>base64\<close> and the text form of the list cursor; a page can be followed through its text.
  \<^item> \<open>Clam_Scanner\<close>: \<open>clamav.py\<close> over its reader and its socket, with the law of both as a locale
    interpreted on a scripted daemon. \<open>Scan_Properties\<close>: a scan ends, fails closed, and a clean verdict is
    about the whole artifact.
  \<^item> \<open>Observability\<close>, \<open>Bearer_Facts\<close>: \<open>core/logging.py\<close> and the error-report hook of \<open>core/sentry.py\<close>.
    \<open>Observability_Properties\<close>: what can leave the process as a log line or a report.
  \<^item> \<open>Error_Responses\<close>: \<open>api/errors.py\<close> and the middleware of \<open>core/middleware.py\<close> in the order of
    \<open>main.py\<close>, around any endpoint: every response names its request, and errors disclose nothing.
  \<^item> \<open>Worker_Process\<close>: the worker's settings, log line, health server and \<open>run_worker\<close> as a machine whose
    states are its awaits. \<open>Worker_Properties\<close>: readiness is honest, the process always stops and a failed
    publisher is reported.

  \<^item> \<open>Tenant_Schema\<close>: the identity tables of the first migration, their foreign-key actions and row policy,
    the inserts, updates and deletes the application role is granted, with the contract of a tenant's transaction as a
    locale interpreted on them, and the statement that creates the role.
  \<^item> \<open>Url_Text\<close>, \<open>Api_Settings\<close>, \<open>Api_Process\<close>: \<open>urllib.parse\<close>, \<open>core/config.py\<close>, and the building of the
    application in \<open>core/dependencies.py\<close> and \<open>main.py\<close>: validation is a projection, and accepted settings start.
  \<^item> \<open>Pkce_Verify\<close>, \<open>Client_Generator\<close>: the scripts \<open>verify-pkce-trace.py\<close> (which can never succeed) and
    \<open>generate-api-client.py\<close> (whose two committed files determine each other).

  Bounds. Loops of the modelled code are recursions over a list, and the polling loop of the publisher
  takes the answers of its stop flag as a list. The two loops of the scanner end because each round
  sends or receives a byte that counts against a limit. Only the repetitions of a regular expression take fuel,
  the characters ahead, which is enough because every round that counts consumes one (\<open>repeat_fuel\<close>).
  Identifiers are 128-bit words, SQL integers are checked against the 32-bit range, times are integers
  of microseconds. Identifiers drawn by \<open>uuid4\<close>, the clock, and the set of rows another transaction has
  locked are arguments.

  Not modelled. Characters outside Latin-1, the locking and isolation levels of PostgreSQL below the granularity of a
  statement or a transaction, indexes, downgrades, and grants beyond the choice of a session's statements; importing the tracing packages, \<open>uvicorn\<close>, reading the
  environment into typed values, and argument parsing. Reading JSON and ISO 8601 text (\<open>json.loads\<close>,
  \<open>fromisoformat\<close>), query strings (\<open>parse_qs\<close>) and addresses in brackets (\<open>ipaddress\<close>) are arguments
  where they occur.
\<close>

end
